(* ===== verification/KPrelude.thy ===== *)
theory KPrelude
  imports Main "HOL-Library.Sublist"
begin

text \<open>
  Shared vocabulary of the development: the collections of simplification and introduction
  rules the components use, the time type, and the generic facts on lists and association
  lists that more than one component needs. Nothing here is specific to one component.
\<close>

section \<open>Rule collections\<close>

named_theorems store_defs \<open>unfolding rules of the panel store operations\<close>
named_theorems ledger_simps \<open>facts on the login attempt ledger\<close>
named_theorems mcp_simps \<open>facts on the MCP access component\<close>
named_theorems term_simps \<open>facts on the terminal components\<close>

section \<open>Time\<close>

text \<open>
  A Go \<open>time.Time\<close> is an integer number of nanoseconds since the Unix epoch; a
  \<open>time.Duration\<close> is an integer number of nanoseconds. \<open>IsZero\<close> recognises the zero
  \<open>time.Time\<close> (January 1, year 1, UTC).
\<close>

type_synonym gotime = int
type_synonym duration = int

definition Second :: duration where "Second = 1000000000"
definition Millisecond :: duration where "Millisecond = 1000000"
definition Minute :: duration where "Minute = 60 * Second"
definition Hour :: duration where "Hour = 60 * Minute"
definition zero_time :: gotime where "zero_time = - (62135596800 * Second)"
definition unix :: "gotime \<Rightarrow> int" where "unix t = t div Second"

lemmas duration_defs = Hour_def Minute_def Second_def

text \<open>Go's integer division truncates towards zero.\<close>

definition quot :: "int \<Rightarrow> int \<Rightarrow> int" where
  "quot a b = sgn a * sgn b * (\<bar>a\<bar> div \<bar>b\<bar>)"

section \<open>Searching and updating lists\<close>

text \<open>The \<open>for index := range xs \<dots> return index \<dots> return -1\<close> idiom.\<close>

fun index_of :: "('a \<Rightarrow> bool) \<Rightarrow> 'a list \<Rightarrow> nat option" where
  "index_of P [] = None"
| "index_of P (x # xs) = (if P x then Some 0 else map_option Suc (index_of P xs))"

lemma index_of_None: "index_of P xs = None \<longleftrightarrow> (\<forall>x\<in>set xs. \<not> P x)"
  by (induction xs) auto

lemma index_of_SomeD:
  "index_of P xs = Some i \<Longrightarrow> i < length xs \<and> P (xs ! i)"
  by (induction xs arbitrary: i) (auto split: if_splits)

lemma index_of_lt: "index_of P xs = Some i \<Longrightarrow> i < length xs"
  by (simp add: index_of_SomeD)

lemma index_of_sat: "index_of P xs = Some i \<Longrightarrow> P (xs ! i)"
  by (simp add: index_of_SomeD)

lemma index_of_mem: "index_of P xs = Some i \<Longrightarrow> xs ! i \<in> set xs"
  by (simp add: index_of_lt)

lemma index_of_first: "index_of P xs = Some i \<Longrightarrow> j < i \<Longrightarrow> \<not> P (xs ! j)"
proof (induction xs arbitrary: i j)
  case Nil
  then show ?case by simp
next
  case (Cons x xs)
  then show ?case by (cases j) (auto split: if_splits)
qed

lemma index_of_update:
  "index_of P xs = Some i \<Longrightarrow> P y \<Longrightarrow> index_of P (xs[i := y]) = Some i"
  by (induction xs arbitrary: i) (auto split: if_splits nat.splits)

text \<open>The \<open>for _, x := range xs { if P(x) { return x } }\<close> idiom is \<^const>\<open>List.find\<close>.\<close>

lemma find_SomeD: "List.find P xs = Some x \<Longrightarrow> x \<in> set xs \<and> P x"
  by (induction xs) (auto split: if_splits)

lemma find_NoneD: "List.find P xs = None \<Longrightarrow> x \<in> set xs \<Longrightarrow> \<not> P x"
  by (simp add: find_None_iff)

lemma find_distinct_key:
  "x \<in> set xs \<Longrightarrow> distinct (map f xs) \<Longrightarrow> List.find (\<lambda>y. f y = f x) xs = Some x"
  by (induction xs) (auto simp: image_iff)

lemma find_index_of: "List.find P xs = map_option ((!) xs) (index_of P xs)"
proof (induction xs)
  case Nil
  then show ?case by simp
next
  case (Cons x xs)
  then show ?case by (cases "index_of P xs") auto
qed

definition upd :: "'a list \<Rightarrow> nat \<Rightarrow> ('a \<Rightarrow> 'a) \<Rightarrow> 'a list" where
  "upd xs i f = xs[i := f (xs ! i)]"

lemma length_upd [simp]: "length (upd xs i f) = length xs"
  by (simp add: upd_def)

lemma nth_upd: "i < length xs \<Longrightarrow> j < length xs \<Longrightarrow>
    upd xs i f ! j = (if i = j then f (xs ! j) else xs ! j)"
  by (simp add: upd_def)

lemma map_upd: "(\<And>x. g (f x) = g x) \<Longrightarrow> map g (upd xs i f) = map g xs"
proof -
  assume "\<And>x. g (f x) = g x"
  then show ?thesis
    by (cases "i < length xs") (auto simp: upd_def list_update_beyond intro!: nth_equalityI simp: nth_list_update)
qed

lemma set_upd_subset: "set (upd xs i f) \<subseteq> insert (f (xs ! i)) (set xs)"
  by (simp add: upd_def set_update_subset_insert)

lemma upd_all:
  "(\<forall>x\<in>set xs. Q x) \<Longrightarrow> Q (f (xs ! i)) \<Longrightarrow> \<forall>x\<in>set (upd xs i f). Q x"
  using set_upd_subset [of xs i f] by blast

section \<open>Bounded tails\<close>

text \<open>\<open>xs[len(xs)-n:]\<close>, the newest \<open>n\<close> entries.\<close>

definition last_n :: "nat \<Rightarrow> 'a list \<Rightarrow> 'a list" where
  "last_n n xs = drop (length xs - n) xs"

lemma length_last_n [simp]: "length (last_n n xs) = min n (length xs)"
  by (simp add: last_n_def)

lemma set_last_n: "set (last_n n xs) \<subseteq> set xs"
  by (simp add: last_n_def set_drop_subset)

lemma last_n_all: "length xs \<le> n \<Longrightarrow> last_n n xs = xs"
  by (simp add: last_n_def)

lemma last_n_snoc: "0 < n \<Longrightarrow> last_n n (xs @ [x]) = last_n (n - 1) xs @ [x]"
  by (cases "length xs < n") (auto simp: last_n_def Suc_diff_le)

section \<open>Counting\<close>

definition count_if :: "('a \<Rightarrow> bool) \<Rightarrow> 'a list \<Rightarrow> nat" where
  "count_if P xs = length (filter P xs)"

lemma count_if_Nil [simp]: "count_if P [] = 0"
  and count_if_Cons [simp]: "count_if P (x # xs) = (if P x then Suc (count_if P xs) else count_if P xs)"
  and count_if_append [simp]: "count_if P (xs @ ys) = count_if P xs + count_if P ys"
  by (simp_all add: count_if_def)

lemma count_if_filter: "count_if P (filter Q xs) = count_if (\<lambda>x. Q x \<and> P x) xs"
  by (simp add: count_if_def conj_commute)

lemma count_if_mono: "(\<And>x. x \<in> set xs \<Longrightarrow> P x \<Longrightarrow> Q x) \<Longrightarrow> count_if P xs \<le> count_if Q xs"
  by (induction xs) auto

lemma count_if_le_length: "count_if P xs \<le> length xs"
  by (simp add: count_if_def)

lemma count_if_zero: "(\<And>x. x \<in> set xs \<Longrightarrow> \<not> P x) \<Longrightarrow> count_if P xs = 0"
  by (induction xs) auto

section \<open>Association lists as Go maps\<close>

text \<open>
  A Go \<open>map[string]T\<close> that the code iterates over is an association list with distinct
  keys. \<open>m[k]\<close> of an absent key is the zero value.
\<close>

fun alist_put :: "'k \<Rightarrow> 'v \<Rightarrow> ('k \<times> 'v) list \<Rightarrow> ('k \<times> 'v) list" where
  "alist_put k v [] = [(k, v)]"
| "alist_put k v ((k', v') # m) = (if k = k' then (k, v) # m else (k', v') # alist_put k v m)"

definition alist_del :: "'k \<Rightarrow> ('k \<times> 'v) list \<Rightarrow> ('k \<times> 'v) list" where
  "alist_del k m = filter (\<lambda>p. fst p \<noteq> k) m"

definition alist_nat :: "('k \<times> nat) list \<Rightarrow> 'k \<Rightarrow> nat" where
  "alist_nat m k = (case map_of m k of None \<Rightarrow> 0 | Some n \<Rightarrow> n)"

lemma map_of_alist_put [simp]: "map_of (alist_put k v m) = (map_of m)(k \<mapsto> v)"
  by (induction k v m rule: alist_put.induct) (auto simp: fun_eq_iff)

lemma map_of_alist_del [simp]: "map_of (alist_del k m) = (map_of m)(k := None)"
  by (induction m) (auto simp: alist_del_def fun_eq_iff)

lemma fst_set_alist_put: "fst ` set (alist_put k v m) = insert k (fst ` set m)"
  by (induction k v m rule: alist_put.induct) auto

lemma distinct_alist_put: "distinct (map fst m) \<Longrightarrow> distinct (map fst (alist_put k v m))"
  by (induction k v m rule: alist_put.induct) (auto simp: fst_set_alist_put)

lemma distinct_alist_del: "distinct (map fst m) \<Longrightarrow> distinct (map fst (alist_del k m))"
  by (simp add: alist_del_def distinct_map_filter)

lemma set_alist_put: "set (alist_put k v m) \<subseteq> insert (k, v) (set m)"
  by (induction k v m rule: alist_put.induct) auto

lemma set_alist_del: "set (alist_del k m) = {p \<in> set m. fst p \<noteq> k}"
  by (auto simp: alist_del_def)

text \<open>The sum of the values whose key satisfies \<open>P\<close>.\<close>

definition alist_sum :: "('k \<Rightarrow> bool) \<Rightarrow> ('k \<times> nat) list \<Rightarrow> nat" where
  "alist_sum P m = sum_list (map snd (filter (\<lambda>p. P (fst p)) m))"

lemma alist_sum_notin: "k \<notin> fst ` set m \<Longrightarrow> alist_nat m k = 0"
  by (simp add: alist_nat_def map_of_eq_None_iff [THEN iffD2])

lemma alist_sum_put:
  "distinct (map fst m) \<Longrightarrow>
    alist_sum P (alist_put k v m) + (if P k then alist_nat m k else 0) =
    alist_sum P m + (if P k then v else 0)"
proof (induction k v m rule: alist_put.induct)
  case (1 k v)
  then show ?case by (simp add: alist_sum_def alist_nat_def)
next
  case (2 k v k' v' m)
  show ?case
  proof (cases "k = k'")
    case True
    then show ?thesis by (simp add: alist_sum_def alist_nat_def)
  next
    case False
    then have "alist_nat ((k', v') # m) k = alist_nat m k" by (simp add: alist_nat_def)
    with 2 False show ?thesis by (auto simp: alist_sum_def)
  qed
qed

lemma alist_sum_del:
  "distinct (map fst m) \<Longrightarrow>
    alist_sum P (alist_del k m) + (if P k then alist_nat m k else 0) = alist_sum P m"
proof (induction m)
  case Nil
  then show ?case by (simp add: alist_sum_def alist_del_def alist_nat_def)
next
  case (Cons p m)
  obtain k' v' where p: "p = (k', v')" by (cases p)
  show ?case
  proof (cases "k = k'")
    case True
    with Cons.prems p have "k \<notin> fst ` set m" by auto
    then have "alist_nat m k = 0" and "alist_del k m = m"
      by (auto simp: alist_sum_notin alist_del_def filter_id_conv image_iff)
    with True p show ?thesis by (simp add: alist_sum_def alist_nat_def alist_del_def)
  next
    case False
    then have "alist_nat (p # m) k = alist_nat m k" by (simp add: alist_nat_def p)
    with Cons False p show ?thesis by (auto simp: alist_sum_def alist_del_def)
  qed
qed

section \<open>Removing by index\<close>

text \<open>\<open>slices.Delete(xs, i, i+1)\<close>.\<close>

definition remove_nth :: "nat \<Rightarrow> 'a list \<Rightarrow> 'a list" where
  "remove_nth i xs = take i xs @ drop (Suc i) xs"

lemma set_remove_nth: "set (remove_nth i xs) \<subseteq> set xs"
  by (auto simp: remove_nth_def dest: in_set_takeD in_set_dropD)

section \<open>Results\<close>

text \<open>A Go \<open>(value, error)\<close> pair is a sum: \<^const>\<open>Inl\<close> the error, \<^const>\<open>Inr\<close> the value.\<close>

definition is_ok :: "'e + 'a \<Rightarrow> bool" where
  "is_ok r = (case r of Inl _ \<Rightarrow> False | Inr _ \<Rightarrow> True)"

lemma is_ok_simps [simp]: "is_ok (Inr a)" "\<not> is_ok (Inl e)"
  by (simp_all add: is_ok_def)

end
