(* ===== verification/GoStrings.thy ===== *)
theory GoStrings
  imports KPrelude
begin

text \<open>
  The part of Go's \<open>strings\<close>, \<open>unicode/utf8\<close>, \<open>encoding/hex\<close>, \<open>encoding/base64\<close>, \<open>path\<close>
  and \<open>strconv\<close> packages that the modelled code calls, on byte strings: a Go string is a
  sequence of bytes, and so is an Isabelle \<^typ>\<open>string\<close>. The Unicode case tables are the
  one thing not written out: \<open>ToLower\<close> and \<open>ToUpper\<close> take them as an argument that they
  use on strings with a byte outside ASCII only, as Go does.
\<close>

section \<open>Bytes\<close>

definition byte :: "char \<Rightarrow> nat" where "byte c = of_char c"

definition is_digit :: "char \<Rightarrow> bool" where "is_digit c = (48 \<le> byte c \<and> byte c \<le> 57)"
definition is_lower :: "char \<Rightarrow> bool" where "is_lower c = (97 \<le> byte c \<and> byte c \<le> 122)"
definition is_upper :: "char \<Rightarrow> bool" where "is_upper c = (65 \<le> byte c \<and> byte c \<le> 90)"
definition is_letter :: "char \<Rightarrow> bool" where "is_letter c = (is_lower c \<or> is_upper c)"

lemmas byte_class_defs = is_digit_def is_lower_def is_upper_def is_letter_def byte_def

lemma byte_lt: "byte c < 256"
  by (simp add: byte_def)

lemma byte_inject: "byte c = byte d \<longleftrightarrow> c = d"
  by (simp add: byte_def)

lemma char_of_byte [simp]: "char_of (byte c) = c"
  by (simp add: byte_def)

lemma byte_char_of: "n < 256 \<Longrightarrow> byte (char_of n) = n"
  by (simp add: byte_def)

definition ascii_lower :: "char \<Rightarrow> char" where
  "ascii_lower c = (if is_upper c then char_of (byte c + 32) else c)"

definition ascii_upper :: "char \<Rightarrow> char" where
  "ascii_upper c = (if is_lower c then char_of (byte c - 32) else c)"

definition is_ascii :: "string \<Rightarrow> bool" where
  "is_ascii s = list_all (\<lambda>c. byte c < 128) s"

text \<open>Go's \<open>strings.ToLower\<close> and \<open>strings.ToUpper\<close>: the ASCII fast path, or the Unicode tables.\<close>

definition to_lower :: "(string \<Rightarrow> string) \<Rightarrow> string \<Rightarrow> string" where
  "to_lower uni s = (if is_ascii s then map ascii_lower s else uni s)"

definition to_upper :: "(string \<Rightarrow> string) \<Rightarrow> string \<Rightarrow> string" where
  "to_upper uni s = (if is_ascii s then map ascii_upper s else uni s)"

lemma ascii_lower_idem [simp]: "ascii_lower (ascii_lower c) = ascii_lower c"
  by (auto simp: ascii_lower_def is_upper_def byte_char_of)

lemma byte_ascii_lower: "byte (ascii_lower c) = (if is_upper c then byte c + 32 else byte c)"
  by (auto simp: ascii_lower_def is_upper_def byte_char_of)

lemma is_ascii_lower [simp]: "is_ascii (map ascii_lower s) = is_ascii s"
  by (auto simp: is_ascii_def list_all_iff byte_ascii_lower is_upper_def)

lemma to_lower_ascii: "is_ascii s \<Longrightarrow> to_lower uni s = map ascii_lower s"
  by (simp add: to_lower_def)

section \<open>Prefixes, suffixes and splitting\<close>

definition has_prefix :: "string \<Rightarrow> string \<Rightarrow> bool" where
  "has_prefix s p = (take (length p) s = p)"

definition has_suffix :: "string \<Rightarrow> string \<Rightarrow> bool" where
  "has_suffix s p = has_prefix (rev s) (rev p)"

definition trim_prefix :: "string \<Rightarrow> string \<Rightarrow> string" where
  "trim_prefix s p = (if has_prefix s p then drop (length p) s else s)"

definition trim_suffix :: "string \<Rightarrow> string \<Rightarrow> string" where
  "trim_suffix s p = (if has_suffix s p then take (length s - length p) s else s)"

definition contains_any :: "string \<Rightarrow> string \<Rightarrow> bool" where
  "contains_any s cs = list_ex (\<lambda>c. c \<in> set cs) s"

lemma has_prefix_iff: "has_prefix s p \<longleftrightarrow> (\<exists>r. s = p @ r)"
proof
  assume "has_prefix s p"
  then have "s = p @ drop (length p) s"
    unfolding has_prefix_def by (metis append_take_drop_id)
  then show "\<exists>r. s = p @ r" ..
next
  assume "\<exists>r. s = p @ r"
  then show "has_prefix s p" by (auto simp: has_prefix_def)
qed

lemma has_prefix_append [simp]: "has_prefix (p @ r) p"
  by (auto simp: has_prefix_iff)

text \<open>\<open>strings.Split(s, sep)\<close> for a one-byte separator: one field more than separators.\<close>

fun split_on :: "char \<Rightarrow> string \<Rightarrow> string list" where
  "split_on c [] = [[]]"
| "split_on c (x # xs) =
     (if x = c then [] # split_on c xs
      else (case split_on c xs of [] \<Rightarrow> [[x]] | f # fs \<Rightarrow> (x # f) # fs))"

text \<open>\<open>strings.Join\<close>.\<close>

fun join :: "string \<Rightarrow> string list \<Rightarrow> string" where
  "join sep [] = []"
| "join sep [x] = x"
| "join sep (x # y # ys) = x @ sep @ join sep (y # ys)"

lemma split_on_nonempty [simp]: "split_on c s \<noteq> []"
  by (induction s) (auto split: list.splits)

lemma split_on_no_sep: "f \<in> set (split_on c s) \<Longrightarrow> c \<notin> set f"
  by (induction s arbitrary: f) (auto split: list.splits if_splits)

lemma split_on_free: "c \<notin> set s \<Longrightarrow> split_on c s = [s]"
  by (induction s) auto

lemma split_on_append_sep: "c \<notin> set f \<Longrightarrow> split_on c (f @ c # s) = f # split_on c s"
  by (induction f) auto

lemma split_on_join:
  "fs \<noteq> [] \<Longrightarrow> \<forall>f\<in>set fs. c \<notin> set f \<Longrightarrow> split_on c (join [c] fs) = fs"
proof (induction "[c]" fs rule: join.induct)
  case 1
  then show ?case by simp
next
  case (2 x)
  then show ?case by (simp add: split_on_free)
next
  case (3 x y ys)
  then show ?case by (simp add: split_on_append_sep)
qed

lemma join_split_on [simp]: "join [c] (split_on c s) = s"
proof (induction s)
  case Nil
  then show ?case by simp
next
  case (Cons x xs)
  obtain f fs where f: "split_on c xs = f # fs"
    by (cases "split_on c xs") auto
  with Cons show ?case by (cases fs) auto
qed

text \<open>\<open>strings.IndexByte\<close> and the two halves around the first occurrence (\<open>strings.Cut\<close>).\<close>

definition cut :: "char \<Rightarrow> string \<Rightarrow> (string \<times> string) option" where
  "cut c s = (case index_of (\<lambda>x. x = c) s of
      None \<Rightarrow> None | Some i \<Rightarrow> Some (take i s, drop (Suc i) s))"

lemma cut_append: "c \<notin> set a \<Longrightarrow> cut c (a @ c # b) = Some (a, b)"
proof -
  assume "c \<notin> set a"
  then have "index_of (\<lambda>x. x = c) (a @ c # b) = Some (length a)"
    by (induction a) auto
  then show ?thesis by (simp add: cut_def)
qed

lemma cut_none: "cut c s = None \<longleftrightarrow> c \<notin> set s"
  by (auto simp: cut_def index_of_None split: option.splits dest: index_of_mem index_of_sat)

section \<open>UTF-8\<close>

text \<open>
  \<open>utf8.DecodeRune\<close> on a valid leading sequence: the code point and the rest. \<open>None\<close> is
  an invalid encoding (a stray continuation byte, an overlong form, a surrogate, a code
  point above U+10FFFF or a truncated sequence).
\<close>

definition cont :: "char \<Rightarrow> bool" where "cont c = (128 \<le> byte c \<and> byte c \<le> 191)"

definition decode_rune :: "string \<Rightarrow> (nat \<times> string) option" where
  "decode_rune s = (case s of
      [] \<Rightarrow> None
    | a # r \<Rightarrow>
      (if byte a < 128 then Some (byte a, r)
       else if 194 \<le> byte a \<and> byte a \<le> 223 then
         (case r of b # r1 \<Rightarrow>
            (if cont b then Some ((byte a - 192) * 64 + (byte b - 128), r1) else None)
          | _ \<Rightarrow> None)
       else if 224 \<le> byte a \<and> byte a \<le> 239 then
         (case r of b # c # r2 \<Rightarrow>
            (if cont b \<and> cont c \<and> (byte a = 224 \<longrightarrow> 160 \<le> byte b) \<and> (byte a = 237 \<longrightarrow> byte b \<le> 159)
             then Some ((byte a - 224) * 4096 + (byte b - 128) * 64 + (byte c - 128), r2) else None)
          | _ \<Rightarrow> None)
       else if 240 \<le> byte a \<and> byte a \<le> 244 then
         (case r of b # c # d # r3 \<Rightarrow>
            (if cont b \<and> cont c \<and> cont d \<and> (byte a = 240 \<longrightarrow> 144 \<le> byte b) \<and> (byte a = 244 \<longrightarrow> byte b \<le> 143)
             then Some ((byte a - 240) * 262144 + (byte b - 128) * 4096 + (byte c - 128) * 64 + (byte d - 128), r3)
             else None)
          | _ \<Rightarrow> None)
       else None))"

lemma decode_rune_shorter: "decode_rune s = Some (n, r) \<Longrightarrow> length r < length s"
  by (auto simp: decode_rune_def split: list.splits if_splits)

text \<open>All the runes of a string, \<open>None\<close> where \<open>utf8.ValidString\<close> is false.\<close>

function runes :: "string \<Rightarrow> nat list option" where
  "runes s = (if s = [] then Some []
     else (case decode_rune s of None \<Rightarrow> None | Some (n, r) \<Rightarrow> map_option ((#) n) (runes r)))"
  by pat_completeness auto
termination
  by (relation "measure length") (auto dest: decode_rune_shorter)

declare runes.simps [simp del]

definition valid_utf8 :: "string \<Rightarrow> bool" where
  "valid_utf8 s = (runes s \<noteq> None)"

text \<open>
  A string that went through \<open>json.Marshal\<close> and \<open>json.Unmarshal\<close>: a byte of a string that is not part of valid
  UTF-8 becomes U+FFFD.
\<close>

function json_text :: "string \<Rightarrow> string" where
  "json_text s =
     (if s = [] then []
      else case decode_rune s of
        Some (n, r) \<Rightarrow> take (length s - length r) s @ json_text r
      | None \<Rightarrow> [CHR 0xEF, CHR 0xBF, CHR 0xBD] @ json_text (tl s))"
  by pat_completeness auto
termination
  by (relation "measure length") (auto dest: decode_rune_shorter)

declare json_text.simps [simp del]

text \<open>\<open>unicode.IsControl\<close>: the category Cc.\<close>

definition is_control :: "nat \<Rightarrow> bool" where
  "is_control n = (n < 32 \<or> (127 \<le> n \<and> n < 160))"

lemma runes_ascii: "is_ascii s \<Longrightarrow> runes s = Some (map byte s)"
proof (induction s)
  case Nil
  then show ?case by (simp add: runes.simps)
next
  case (Cons c s)
  then have "byte c < 128" and "is_ascii s" by (simp_all add: is_ascii_def)
  then show ?case using Cons.IH
    by (subst runes.simps) (simp add: decode_rune_def)
qed

section \<open>White space\<close>

text \<open>
  The encodings of the code points \<open>unicode.IsSpace\<close> accepts: U+0009 to U+000D, U+0020,
  U+0085, U+00A0, U+1680, U+2000 to U+200A, U+2028, U+2029, U+202F, U+205F and U+3000.
\<close>

definition space_codes :: "nat list list" where
  "space_codes =
     [[9], [10], [11], [12], [13], [32], [194, 133], [194, 160], [225, 154, 128]] @
     map (\<lambda>k. [226, 128, k]) ([128..<139] @ [168, 169, 175]) @
     [[226, 129, 159], [227, 128, 128]]"

definition starts_with_code :: "nat list \<Rightarrow> string \<Rightarrow> bool" where
  "starts_with_code w s = (map byte (take (length w) s) = w)"

function trim_left_codes :: "nat list list \<Rightarrow> string \<Rightarrow> string" where
  "trim_left_codes ws s = (case List.find (\<lambda>w. w \<noteq> [] \<and> starts_with_code w s) ws of
      None \<Rightarrow> s | Some w \<Rightarrow> trim_left_codes ws (drop (length w) s))"
  by pat_completeness auto
termination
proof (relation "measure (\<lambda>(ws, s). length s)", goal_cases)
  case 1
  then show ?case by simp
next
  case (2 ws s w)
  then have "w \<noteq> []" and "map byte (take (length w) s) = w"
    by (auto simp: find_Some_iff starts_with_code_def)
  then have "s \<noteq> []" and "0 < length w" by auto
  then show ?case by simp
qed

declare trim_left_codes.simps [simp del]

definition trim_space :: "string \<Rightarrow> string" where
  "trim_space s =
     rev (trim_left_codes (map rev space_codes) (rev (trim_left_codes space_codes s)))"

lemma trim_left_codes_suffix: "\<exists>p. s = p @ trim_left_codes ws s"
proof (induction ws s rule: trim_left_codes.induct)
  case (1 ws s)
  show ?case
  proof (cases "List.find (\<lambda>w. w \<noteq> [] \<and> starts_with_code w s) ws")
    case None
    then show ?thesis by (subst trim_left_codes.simps) simp
  next
    case (Some w)
    with 1 obtain p where p: "drop (length w) s = p @ trim_left_codes ws (drop (length w) s)" by blast
    have "s = take (length w) s @ p @ trim_left_codes ws (drop (length w) s)"
      by (subst p [symmetric]) simp
    then show ?thesis
      by (subst trim_left_codes.simps) (use Some in \<open>auto intro: exI [of _ "take (length w) s @ p"]\<close>)
  qed
qed

lemma length_trim_left: "length (trim_left_codes ws s) \<le> length s"
  using trim_left_codes_suffix [of s ws] by (metis length_append le_add2)

lemma length_trim_space: "length (trim_space s) \<le> length s"
  unfolding trim_space_def
  by (metis length_rev length_trim_left order_trans)

lemma trim_left_codes_id:
  "(\<forall>w\<in>set ws. w \<noteq> [] \<longrightarrow> s \<noteq> [] \<longrightarrow> hd w \<noteq> byte (hd s)) \<Longrightarrow> trim_left_codes ws s = s"
proof -
  assume a: "\<forall>w\<in>set ws. w \<noteq> [] \<longrightarrow> s \<noteq> [] \<longrightarrow> hd w \<noteq> byte (hd s)"
  have "List.find (\<lambda>w. w \<noteq> [] \<and> starts_with_code w s) ws = None"
  proof -
    have "\<not> (w \<noteq> [] \<and> starts_with_code w s)" if "w \<in> set ws" for w
      using a that by (cases w; cases s) (auto simp: starts_with_code_def)
    then show ?thesis by (simp add: find_None_iff)
  qed
  then show ?thesis by (subst trim_left_codes.simps) simp
qed

text \<open>A string whose first and last bytes are printable ASCII is its own trim.\<close>

lemma trim_space_id:
  assumes "s = [] \<or> (32 < byte (hd s) \<and> byte (hd s) < 127 \<and> 32 < byte (last s) \<and> byte (last s) < 127)"
  shows "trim_space s = s"
proof -
  have h: "\<forall>w\<in>set space_codes. w \<noteq> [] \<longrightarrow> hd w \<le> 32 \<or> 127 < hd w"
    by (auto simp: space_codes_def)
  have l: "\<forall>w\<in>set (map rev space_codes). w \<noteq> [] \<longrightarrow> hd w \<le> 32 \<or> 127 < hd w"
    by (auto simp: space_codes_def)
  have one: "trim_left_codes space_codes s = s"
    by (rule trim_left_codes_id) (use assms h in force)
  have two: "trim_left_codes (map rev space_codes) (rev s) = rev s"
  proof (rule trim_left_codes_id, intro ballI impI)
    fix w
    assume w: "w \<in> set (map rev space_codes)" "w \<noteq> []" and s: "rev s \<noteq> []"
    have "hd (rev s) = last s" by (simp add: hd_rev)
    moreover from l w have "hd w \<le> 32 \<or> 127 < hd w" by blast
    ultimately show "hd w \<noteq> byte (hd (rev s))" using s assms by auto
  qed
  show ?thesis by (simp add: trim_space_def one two)
qed

lemma trim_left_codes_None: "List.find (\<lambda>w. w \<noteq> [] \<and> starts_with_code w s) ws = None \<Longrightarrow> trim_left_codes ws s = s"
  by (subst trim_left_codes.simps) simp

lemma trim_left_codes_done: "List.find (\<lambda>w. w \<noteq> [] \<and> starts_with_code w (trim_left_codes ws s)) ws = None"
proof (induction ws s rule: trim_left_codes.induct)
  case (1 ws s)
  show ?case
  proof (cases "List.find (\<lambda>w. w \<noteq> [] \<and> starts_with_code w s) ws")
    case None
    then show ?thesis by (simp add: trim_left_codes_None)
  next
    case (Some w)
    then have "trim_left_codes ws s = trim_left_codes ws (drop (length w) s)" by (subst trim_left_codes.simps) simp
    with 1 Some show ?thesis by simp
  qed
qed

lemma starts_with_code_append: "starts_with_code w u \<Longrightarrow> starts_with_code w (u @ v)"
proof -
  assume a: "starts_with_code w u"
  then have "length w \<le> length u" by (metis length_map length_take min.cobounded1 min_def starts_with_code_def)
  with a show ?thesis by (simp add: starts_with_code_def)
qed

lemma trim_space_idem [simp]: "trim_space (trim_space s) = trim_space s"
proof -
  define t where "t = trim_left_codes space_codes s"
  define u where "u = trim_left_codes (map rev space_codes) (rev t)"
  have s: "trim_space s = rev u" by (simp add: trim_space_def t_def u_def)
  obtain p where p: "rev t = p @ u" using trim_left_codes_suffix [of "rev t" "map rev space_codes"] by (auto simp: u_def)
  then have t: "t = rev u @ rev p" by (metis rev_append rev_rev_ident)
  have "List.find (\<lambda>w. w \<noteq> [] \<and> starts_with_code w (rev u)) space_codes = None"
    using trim_left_codes_done [of space_codes s] starts_with_code_append [of _ "rev u" "rev p"]
    by (fold t_def) (auto simp: find_None_iff t)
  then have "trim_left_codes space_codes (rev u) = rev u" by (rule trim_left_codes_None)
  moreover have "trim_left_codes (map rev space_codes) u = u"
    unfolding u_def by (rule trim_left_codes_None [OF trim_left_codes_done])
  ultimately show ?thesis unfolding s by (simp add: trim_space_def [of "rev u"])
qed

text \<open>Strings of visible ASCII characters.\<close>

definition printable :: "string \<Rightarrow> bool" where
  "printable s = list_all (\<lambda>c. 32 < byte c \<and> byte c < 127) s"

lemma printable_trim: "printable s \<Longrightarrow> trim_space s = s"
  by (cases "s = []") (auto simp: printable_def list_all_iff intro!: trim_space_id)

lemma printable_newline: "printable s \<Longrightarrow> CHR 0x0A \<notin> set s"
  by (auto simp: printable_def list_all_iff byte_def)

lemma digits_printable: "list_all is_digit s \<Longrightarrow> printable s"
  by (auto simp: printable_def list_all_iff is_digit_def)

lemma printable_append [simp]: "printable (s @ t) \<longleftrightarrow> printable s \<and> printable t"
  by (simp add: printable_def)

text \<open>ASCII survives JSON as it is.\<close>

lemma json_text_Nil [simp]: "json_text [] = []"
  by (simp add: json_text.simps)

lemma json_text_ascii: "is_ascii s \<Longrightarrow> json_text s = s"
proof (induction s)
  case (Cons c s)
  then show ?case by (subst json_text.simps) (simp add: decode_rune_def is_ascii_def)
qed simp

lemma json_text_printable: "printable s \<Longrightarrow> json_text s = s"
  by (rule json_text_ascii) (auto simp: printable_def is_ascii_def list_all_iff)

end
