(* ===== verification/GoEncodings.thy ===== *)
theory GoEncodings
  imports GoStrings
begin

text \<open>
  \<open>encoding/hex\<close>, \<open>base64.RawURLEncoding\<close>, \<open>path.Clean\<close> and the decimal conversions of
  \<open>strconv\<close>, with the round trips the components rely on.
\<close>

section \<open>Hexadecimal\<close>

definition hex_val :: "char \<Rightarrow> nat option" where
  "hex_val c = (if is_digit c then Some (byte c - 48)
     else if 97 \<le> byte c \<and> byte c \<le> 102 then Some (byte c - 87)
     else if 65 \<le> byte c \<and> byte c \<le> 70 then Some (byte c - 55) else None)"

definition hex_char :: "nat \<Rightarrow> char" where
  "hex_char n = (if n < 10 then char_of (48 + n) else char_of (87 + n))"

text \<open>\<open>hex.DecodeString\<close>: \<open>None\<close> is its error (an odd length or a byte that is no hex digit).\<close>

fun hex_decode :: "string \<Rightarrow> string option" where
  "hex_decode [] = Some []"
| "hex_decode [c] = None"
| "hex_decode (a # b # r) =
     (case (hex_val a, hex_val b, hex_decode r) of
        (Some x, Some y, Some bs) \<Rightarrow> Some (char_of (16 * x + y) # bs)
      | _ \<Rightarrow> None)"

definition hex_encode :: "string \<Rightarrow> string" where
  "hex_encode s = concat (map (\<lambda>c. [hex_char (byte c div 16), hex_char (byte c mod 16)]) s)"

lemma hex_val_char: "n < 16 \<Longrightarrow> hex_val (hex_char n) = Some n"
  by (auto simp: hex_val_def hex_char_def is_digit_def byte_char_of)

lemma hex_val_lt: "hex_val c = Some n \<Longrightarrow> n < 16"
  by (auto simp: hex_val_def is_digit_def split: if_splits)

lemma hex_decode_encode [simp]: "hex_decode (hex_encode s) = Some s"
proof (induction s)
  case Nil
  then show ?case by (simp add: hex_encode_def)
next
  case (Cons c s)
  have "hex_val (hex_char (byte c div 16)) = Some (byte c div 16)"
    using byte_lt [of c] by (intro hex_val_char) linarith
  moreover have "hex_val (hex_char (byte c mod 16)) = Some (byte c mod 16)"
    by (intro hex_val_char) simp
  moreover have "16 * (byte c div 16) + byte c mod 16 = byte c" by simp
  ultimately show ?case using Cons by (simp add: hex_encode_def)
qed

lemma length_hex_encode [simp]: "length (hex_encode s) = 2 * length s"
  by (induction s) (auto simp: hex_encode_def)

lemma length_hex_decode: "hex_decode s = Some b \<Longrightarrow> length s = 2 * length b"
  by (induction s arbitrary: b rule: hex_decode.induct) (auto split: option.splits)

definition is_lower_hex :: "char \<Rightarrow> bool" where
  "is_lower_hex c = (is_digit c \<or> (97 \<le> byte c \<and> byte c \<le> 102))"

lemma hex_char_lower: "n < 16 \<Longrightarrow> is_lower_hex (hex_char n)"
  by (auto simp: is_lower_hex_def hex_char_def is_digit_def byte_char_of)

lemma hex_encode_lower: "list_all is_lower_hex (hex_encode s)"
proof (induction s)
  case Nil
  then show ?case by (simp add: hex_encode_def)
next
  case (Cons c s)
  have "byte c div 16 < 16" using byte_lt [of c] by linarith
  with Cons show ?case by (simp add: hex_encode_def hex_char_lower)
qed

text \<open>\<open>validHex\<close> of mcpaccess and its kin: a hex string of exactly \<open>n\<close> characters.\<close>

lemma valid_hex_encode: "hex_decode (hex_encode s) \<noteq> None"
  by simp

section \<open>base64, raw URL alphabet\<close>

definition b64_char :: "nat \<Rightarrow> char" where
  "b64_char n = (if n < 26 then char_of (65 + n) else if n < 52 then char_of (71 + n)
     else if n < 62 then char_of (n - 4) else if n = 62 then CHR ''-'' else CHR ''_'')"

definition b64_val :: "char \<Rightarrow> nat option" where
  "b64_val c = (if is_upper c then Some (byte c - 65) else if is_lower c then Some (byte c - 71)
     else if is_digit c then Some (byte c + 4) else if c = CHR ''-'' then Some 62
     else if c = CHR ''_'' then Some 63 else None)"

lemma b64_val_char: "n < 64 \<Longrightarrow> b64_val (b64_char n) = Some n"
proof -
  assume n: "n < 64"
  consider "n < 26" | "26 \<le> n \<and> n < 52" | "52 \<le> n \<and> n < 62" | "n = 62" | "n = 63"
    using n by linarith
  then show ?thesis
    by cases (auto simp: b64_val_def b64_char_def byte_class_defs)
qed

fun b64_encode :: "string \<Rightarrow> string" where
  "b64_encode [] = []"
| "b64_encode [a] = [b64_char (byte a div 4), b64_char (byte a mod 4 * 16)]"
| "b64_encode [a, b] = [b64_char (byte a div 4), b64_char (byte a mod 4 * 16 + byte b div 16),
     b64_char (byte b mod 16 * 4)]"
| "b64_encode (a # b # c # r) =
     b64_char (byte a div 4) # b64_char (byte a mod 4 * 16 + byte b div 16) #
     b64_char (byte b mod 16 * 4 + byte c div 64) # b64_char (byte c mod 64) # b64_encode r"

text \<open>
  \<open>DecodeString\<close> skips line breaks, accepts unpadded groups of two or three characters at
  the end and, being lenient, ignores the unused low bits of the last character.
\<close>

fun b64_groups :: "nat list \<Rightarrow> string option" where
  "b64_groups [] = Some []"
| "b64_groups [a] = None"
| "b64_groups [a, b] = Some [char_of (a * 4 + b div 16)]"
| "b64_groups [a, b, c] = Some [char_of (a * 4 + b div 16), char_of (b mod 16 * 16 + c div 4)]"
| "b64_groups (a # b # c # d # r) =
     map_option (\<lambda>t. char_of (a * 4 + b div 16) # char_of (b mod 16 * 16 + c div 4) #
       char_of (c mod 4 * 64 + d) # t) (b64_groups r)"

definition b64_decode :: "string \<Rightarrow> string option" where
  "b64_decode s = (let t = filter (\<lambda>c. byte c \<noteq> 10 \<and> byte c \<noteq> 13) s in
     if list_all (\<lambda>c. b64_val c \<noteq> None) t then b64_groups (map (\<lambda>c. the (b64_val c)) t) else None)"

lemma b64_char_code: "n < 64 \<Longrightarrow> byte (b64_char n) \<noteq> 10 \<and> byte (b64_char n) \<noteq> 13"
  by (auto simp: b64_char_def byte_def)

fun b64_sextets :: "string \<Rightarrow> nat list" where
  "b64_sextets [] = []"
| "b64_sextets [a] = [byte a div 4, byte a mod 4 * 16]"
| "b64_sextets [a, b] = [byte a div 4, byte a mod 4 * 16 + byte b div 16, byte b mod 16 * 4]"
| "b64_sextets (a # b # c # r) =
     (byte a div 4) # (byte a mod 4 * 16 + byte b div 16) # (byte b mod 16 * 4 + byte c div 64) #
     (byte c mod 64) # b64_sextets r"

lemma b64_encode_sextets: "b64_encode s = map b64_char (b64_sextets s)"
  by (induction s rule: b64_encode.induct) simp_all

lemma b64_div_bounds: "byte a div 4 < 64" "byte b div 16 < 16" "byte c div 64 < 4"
  using byte_lt [of a] byte_lt [of b] byte_lt [of c] by linarith+

lemma b64_sextets_lt: "n \<in> set (b64_sextets s) \<Longrightarrow> n < 64"
proof (induction s rule: b64_sextets.induct)
  case 1
  then show ?case by simp
next
  case (2 a)
  then show ?case using b64_div_bounds(1) [of a] by (auto; linarith)
next
  case (3 a b)
  have "byte a mod 4 < 4" and "byte b mod 16 < 16" by simp_all
  with 3 show ?case using b64_div_bounds(1) [of a] b64_div_bounds(2) [of b] by (auto; linarith)
next
  case (4 a b c r)
  have "byte a mod 4 < 4" and "byte b mod 16 < 16" and "byte c mod 64 < 64" by simp_all
  with 4 show ?case
    using b64_div_bounds(1) [of a] b64_div_bounds(2) [of b] b64_div_bounds(3) [of c] by (auto; linarith)
qed

lemma b64_split3: "x div k * k + x mod k = (x::nat)"
  by simp

lemma b64_groups_sextets: "b64_groups (b64_sextets s) = Some s"
proof (induction s rule: b64_sextets.induct)
  case (2 a)
  have "byte a div 4 * 4 + byte a mod 4 * 16 div 16 = byte a" by simp
  then show ?case by simp
next
  case (3 a b)
  have q: "(byte a mod 4 * 16 + byte b div 16) div 16 = byte a mod 4"
    and m: "(byte a mod 4 * 16 + byte b div 16) mod 16 = byte b div 16"
    using b64_div_bounds(2) [of b] by simp_all
  have "byte b div 16 mod 16 = byte b div 16" using b64_div_bounds(2) [of b] by simp
  then show ?case by (simp add: q m b64_split3)
next
  case (4 a b c r)
  have q: "(byte a mod 4 * 16 + byte b div 16) div 16 = byte a mod 4"
    and m: "(byte a mod 4 * 16 + byte b div 16) mod 16 = byte b div 16"
    using b64_div_bounds(2) [of b] by simp_all
  have q': "(byte b mod 16 * 4 + byte c div 64) div 4 = byte b mod 16"
    and m': "(byte b mod 16 * 4 + byte c div 64) mod 4 = byte c div 64"
    using b64_div_bounds(3) [of c] by simp_all
  have "byte b div 16 mod 16 = byte b div 16" and "byte c div 64 mod 4 = byte c div 64"
    using b64_div_bounds(2) [of b] b64_div_bounds(3) [of c] by simp_all
  then show ?case using 4 by (simp add: q m q' m' b64_split3)
qed simp

lemma b64_decode_encode [simp]: "b64_decode (b64_encode s) = Some s"
proof -
  have lt: "\<forall>n\<in>set (b64_sextets s). n < 64" by (simp add: b64_sextets_lt)
  have f: "filter (\<lambda>c. byte c \<noteq> 10 \<and> byte c \<noteq> 13) (b64_encode s) = b64_encode s"
    using lt by (auto simp: b64_encode_sextets filter_id_conv b64_char_code)
  have v: "list_all (\<lambda>c. b64_val c \<noteq> None) (b64_encode s)"
    using lt by (auto simp: b64_encode_sextets list_all_iff b64_val_char)
  have "map (\<lambda>c. the (b64_val c)) (b64_encode s) = b64_sextets s"
    using lt by (auto simp: b64_encode_sextets b64_val_char intro: map_idI)
  with f v show ?thesis by (simp add: b64_decode_def Let_def b64_groups_sextets)
qed

lemma length_b64_encode: "length (b64_encode s) = (4 * length s + 2) div 3"
proof (induction s rule: b64_encode.induct)
  case (4 a b c r)
  then show ?case by (simp add: algebra_simps)
qed simp_all

lemma b64_encode_inject: "b64_encode s = b64_encode t \<longleftrightarrow> s = t"
  by (metis b64_decode_encode option.inject)

section \<open>path.Clean\<close>

text \<open>
  \<open>path.Clean\<close>: empty and \<open>.\<close> elements go, \<open>..\<close> removes the element before it, is dropped
  at the root of a rooted path and kept at the front of a relative one. \<open>clean_elems\<close> works
  on the elements with the kept ones in reverse.
\<close>

fun clean_elems :: "bool \<Rightarrow> string list \<Rightarrow> string list \<Rightarrow> string list" where
  "clean_elems rooted out [] = rev out"
| "clean_elems rooted out (e # es) =
     (if e = '''' \<or> e = ''.'' then clean_elems rooted out es
      else if e = ''..'' then
        (case out of
           [] \<Rightarrow> clean_elems rooted (if rooted then [] else [''..'']) es
         | o1 # out' \<Rightarrow> clean_elems rooted (if o1 = ''..'' then ''..'' # out else out') es)
      else clean_elems rooted (e # out) es)"

definition path_clean :: "string \<Rightarrow> string" where
  "path_clean p =
     (if p = [] then ''.''
      else if hd p = CHR ''/'' then ''/'' @ join ''/'' (clean_elems True [] (split_on (CHR ''/'') p))
      else (case clean_elems False [] (split_on (CHR ''/'') p) of
              [] \<Rightarrow> ''.'' | es \<Rightarrow> join ''/'' es))"

text \<open>The elements of a cleaned rooted path are plain names.\<close>

definition plain_elem :: "string \<Rightarrow> bool" where
  "plain_elem e = (e \<noteq> '''' \<and> e \<noteq> ''.'' \<and> e \<noteq> ''..'' \<and> CHR ''/'' \<notin> set e)"

lemma clean_elems_rooted_plain:
  "\<forall>e\<in>set out. plain_elem e \<Longrightarrow> \<forall>e\<in>set es. CHR ''/'' \<notin> set e \<Longrightarrow>
    \<forall>e\<in>set (clean_elems True out es). plain_elem e"
proof (induction es arbitrary: out)
  case Nil
  then show ?case by simp
next
  case (Cons e es)
  show ?case
  proof (cases "e = '''' \<or> e = ''.''")
    case True
    with Cons show ?thesis by simp
  next
    case dots: False
    show ?thesis
    proof (cases "e = ''..''")
      case True
      from Cons.prems have "\<forall>e\<in>set (tl out). plain_elem e" by (cases out) auto
      then have "\<forall>e\<in>set (clean_elems True (tl out) es). plain_elem e"
        using Cons.prems by (intro Cons.IH) simp_all
      moreover from Cons.prems have "out = [] \<or> hd out \<noteq> ''..''"
        by (cases out) (auto simp: plain_elem_def)
      ultimately show ?thesis using True by (cases out) simp_all
    next
      case False
      with dots Cons.prems have "plain_elem e" by (simp add: plain_elem_def)
      with Cons.prems have "\<forall>e\<in>set (e # out). plain_elem e" by simp
      then have "\<forall>e\<in>set (clean_elems True (e # out) es). plain_elem e"
        using Cons.prems by (intro Cons.IH) simp_all
      with dots False show ?thesis by simp
    qed
  qed
qed

lemma clean_elems_plain_id:
  "\<forall>e\<in>set es. plain_elem e \<Longrightarrow> clean_elems rooted out es = rev out @ es"
proof (induction es arbitrary: out)
  case Nil
  then show ?case by simp
next
  case (Cons e es)
  then have "e \<noteq> ''''" "e \<noteq> ''.''" "e \<noteq> ''..''" by (simp_all add: plain_elem_def)
  with Cons show ?case by simp
qed

lemma clean_elems_empty: "clean_elems rooted out ([] # es) = clean_elems rooted out es"
  by simp

lemma path_clean_rooted:
  "hd p = CHR ''/'' \<Longrightarrow> p \<noteq> [] \<Longrightarrow>
    \<exists>es. path_clean p = ''/'' @ join ''/'' es \<and> (\<forall>e\<in>set es. plain_elem e)"
proof -
  assume p: "hd p = CHR ''/''" "p \<noteq> []"
  have "\<forall>e\<in>set (clean_elems True [] (split_on (CHR ''/'') p)). plain_elem e"
    by (rule clean_elems_rooted_plain) (simp_all add: split_on_no_sep)
  moreover from p have "path_clean p = ''/'' @ join ''/'' (clean_elems True [] (split_on (CHR ''/'') p))"
    by (simp add: path_clean_def del: clean_elems.simps)
  ultimately show ?thesis by blast
qed

lemma path_clean_of_plain:
  assumes "\<forall>e\<in>set es. plain_elem e"
  shows "path_clean (''/'' @ join ''/'' es) = ''/'' @ join ''/'' es"
proof (cases "es = []")
  case True
  then show ?thesis by (simp add: path_clean_def)
next
  case False
  have "split_on (CHR ''/'') (''/'' @ join ''/'' es) = [] # es"
    using split_on_join [of es "CHR ''/''"] assms False by (auto simp: plain_elem_def)
  with assms show ?thesis by (simp add: path_clean_def clean_elems_plain_id)
qed

lemma path_clean_idem: "p \<noteq> [] \<Longrightarrow> hd p = CHR ''/'' \<Longrightarrow> path_clean (path_clean p) = path_clean p"
  using path_clean_rooted path_clean_of_plain by metis

section \<open>Decimal numbers\<close>

text \<open>\<open>strconv.FormatUint(n, 10)\<close> and the value of a digit string.\<close>

fun show_nat :: "nat \<Rightarrow> string" where
  "show_nat n = (if n < 10 then [char_of (48 + n)] else show_nat (n div 10) @ [char_of (48 + n mod 10)])"

declare show_nat.simps [simp del]

definition digits_val :: "string \<Rightarrow> nat" where
  "digits_val s = foldl (\<lambda>a c. 10 * a + (byte c - 48)) 0 s"

lemma digits_val_snoc [simp]: "digits_val (s @ [c]) = 10 * digits_val s + (byte c - 48)"
  by (simp add: digits_val_def)

lemma digits_val_show [simp]: "digits_val (show_nat n) = n"
proof (induction n rule: show_nat.induct)
  case (1 n)
  show ?case
  proof (cases "n < 10")
    case True
    then show ?thesis by (subst show_nat.simps) (simp add: digits_val_def byte_char_of)
  next
    case False
    with 1 show ?thesis by (subst show_nat.simps) (simp add: byte_char_of)
  qed
qed

lemma show_nat_digits: "list_all is_digit (show_nat n)"
proof (induction n rule: show_nat.induct)
  case (1 n)
  show ?case
  proof (cases "n < 10")
    case True
    then show ?thesis by (subst show_nat.simps) (simp add: is_digit_def byte_char_of)
  next
    case False
    have "n mod 10 < 10" by simp
    then have "is_digit (char_of (48 + n mod 10))" by (simp add: is_digit_def byte_char_of)
    with 1 False show ?thesis by (subst show_nat.simps) simp
  qed
qed

lemma show_nat_nonempty: "show_nat n \<noteq> []"
  by (subst show_nat.simps) simp

text \<open>No leading zero: only the number zero is printed with a first digit 0.\<close>

lemma hd_show_nat: "hd (show_nat n) = CHR ''0'' \<Longrightarrow> n = 0"
proof (induction n rule: show_nat.induct)
  case (1 n)
  show ?case
  proof (cases "n < 10")
    case True
    have "char_of (48 + n) = CHR ''0''" using 1(2) True by (subst (asm) show_nat.simps) simp
    then have "byte (char_of (48 + n)) = byte (CHR ''0'')" by simp
    then show ?thesis using True by (simp add: byte_char_of) (simp add: byte_def)
  next
    case False
    then have "hd (show_nat n) = hd (show_nat (n div 10))"
      by (subst show_nat.simps) (simp add: show_nat_nonempty)
    with 1 False have "n div 10 = 0" by simp
    with False show ?thesis by simp
  qed
qed

lemma length_show_nat_one: "length (show_nat n) = 1 \<longleftrightarrow> n < 10"
  by (subst show_nat.simps) (simp add: show_nat_nonempty)

end
