(* ===== verification/Netip.thy ===== *)
theory Netip
  imports GoEncodings "HOL-Library.Word"
begin

unbundle bit_operations_syntax

text \<open>
  Go's \<open>net/netip\<close>: addresses as machine words, the text parser and printer, and the
  address predicates. An IPv6 address keeps its zone. The network policy and the login
  source of the auth service are both functions of this type.
\<close>

datatype addr = NoAddr | V4 "32 word" | V6 "128 word" string

section \<open>Predicates\<close>

definition zone_of :: "addr \<Rightarrow> string" where
  "zone_of a = (case a of V6 _ z \<Rightarrow> z | _ \<Rightarrow> [])"

definition is_4in6 :: "128 word \<Rightarrow> bool" where
  "is_4in6 w = (drop_bit 32 w = 0xFFFF)"

definition unmap :: "addr \<Rightarrow> addr" where
  "unmap a = (case a of V6 w _ \<Rightarrow> (if is_4in6 w then V4 (ucast w) else a) | _ \<Rightarrow> a)"

definition with_zone :: "string \<Rightarrow> addr \<Rightarrow> addr" where
  "with_zone z a = (case a of V6 w _ \<Rightarrow> V6 w z | _ \<Rightarrow> a)"

definition is_unspecified :: "addr \<Rightarrow> bool" where
  "is_unspecified a = (a = V4 0 \<or> a = V6 0 [])"

definition is_loopback :: "addr \<Rightarrow> bool" where
  "is_loopback a = (case a of NoAddr \<Rightarrow> False | V4 w \<Rightarrow> drop_bit 24 w = 127 | V6 w _ \<Rightarrow> w = 1)"

definition is_multicast :: "addr \<Rightarrow> bool" where
  "is_multicast a = (case a of NoAddr \<Rightarrow> False | V4 w \<Rightarrow> drop_bit 28 w = 0xE | V6 w _ \<Rightarrow> drop_bit 120 w = 0xFF)"

definition is_link_local :: "addr \<Rightarrow> bool" where
  "is_link_local a = (case a of NoAddr \<Rightarrow> False | V4 w \<Rightarrow> drop_bit 16 w = 0xA9FE
     | V6 w _ \<Rightarrow> drop_bit 118 w = 0x3FA)"

definition is_private :: "addr \<Rightarrow> bool" where
  "is_private a = (case a of NoAddr \<Rightarrow> False
     | V4 w \<Rightarrow> drop_bit 24 w = 10 \<or> drop_bit 20 w = 0xAC1 \<or> drop_bit 16 w = 0xC0A8
     | V6 w _ \<Rightarrow> drop_bit 121 w = 0x7E)"

definition is_global_unicast :: "addr \<Rightarrow> bool" where
  "is_global_unicast a = (a \<noteq> NoAddr \<and> a \<noteq> V4 0 \<and> a \<noteq> V4 0xFFFFFFFF \<and> a \<noteq> V6 0 [] \<and>
     \<not> is_loopback a \<and> \<not> is_multicast a \<and> \<not> is_link_local a)"

text \<open>A prefix is a network address and a length; \<open>Contains\<close> never crosses families.\<close>

datatype prefix = P4 "32 word" nat | P6 "128 word" nat

definition prefix_contains :: "prefix \<Rightarrow> addr \<Rightarrow> bool" where
  "prefix_contains p a = (case (p, a) of
      (P4 n k, V4 w) \<Rightarrow> drop_bit (32 - k) w = drop_bit (32 - k) n
    | (P6 n k, V6 w z) \<Rightarrow> z = [] \<and> drop_bit (128 - k) w = drop_bit (128 - k) n
    | _ \<Rightarrow> False)"

section \<open>Parsing\<close>

definition of_groups :: "nat \<Rightarrow> nat list \<Rightarrow> nat" where
  "of_groups b gs = foldl (\<lambda>a g. a * b + g) 0 gs"

text \<open>One decimal field: digits, no leading zero, at most 255.\<close>

definition v4_field :: "string \<Rightarrow> nat option" where
  "v4_field f = (if f \<noteq> [] \<and> list_all is_digit f \<and> (length f = 1 \<or> hd f \<noteq> CHR ''0'') \<and> digits_val f \<le> 255
     then Some (digits_val f) else None)"

definition parse_v4_fields :: "string \<Rightarrow> nat list option" where
  "parse_v4_fields s = (let fs = map v4_field (split_on (CHR ''.'') s) in
     if length fs = 4 \<and> None \<notin> set fs then Some (map the fs) else None)"

definition parse_v4 :: "string \<Rightarrow> addr option" where
  "parse_v4 s = map_option (\<lambda>gs. V4 (of_nat (of_groups 256 gs))) (parse_v4_fields s)"

text \<open>
  The loop of \<open>parseIPv6\<close>: the 16-bit groups read so far, the position of the ellipsis in
  them, and the text that is left. The result is the groups and the ellipsis at the break.
\<close>

definition hex_run :: "string \<Rightarrow> string" where
  "hex_run s = takeWhile (\<lambda>c. hex_val c \<noteq> None) s"

definition hex_num :: "string \<Rightarrow> nat" where
  "hex_num s = foldl (\<lambda>a c. 16 * a + (case hex_val c of None \<Rightarrow> 0 | Some n \<Rightarrow> n)) 0 s"

function parse_v6_loop :: "nat list \<Rightarrow> nat option \<Rightarrow> string \<Rightarrow> (nat list \<times> nat option) option" where
  "parse_v6_loop gs ell s =
     (if 8 \<le> length gs then (if s = [] then Some (gs, ell) else None)
      else
        let h = hex_run s; r = drop (length h) s in
        if h = [] \<or> 4 < length h then None
        else if r \<noteq> [] \<and> hd r = CHR ''.'' then
          (if ell = None \<and> length gs \<noteq> 6 then None
           else if 8 < length gs + 2 then None
           else (case parse_v4_fields s of
                   Some [a, b, c, d] \<Rightarrow> Some (gs @ [a * 256 + b, c * 256 + d], ell)
                 | _ \<Rightarrow> None))
        else
          let gs' = gs @ [hex_num h] in
          (case r of
             [] \<Rightarrow> Some (gs', ell)
           | c # r1 \<Rightarrow>
               if c \<noteq> CHR '':'' \<or> r1 = [] then None
               else if hd r1 = CHR '':'' then
                 (if ell \<noteq> None then None
                  else if tl r1 = [] then Some (gs', Some (length gs'))
                  else parse_v6_loop gs' (Some (length gs')) (tl r1))
               else parse_v6_loop gs' ell r1))"
  by pat_completeness auto
termination
proof (relation "measure (\<lambda>(gs, ell, s). 8 - length gs)", goal_cases)
  case 1
  then show ?case by simp
qed auto

declare parse_v6_loop.simps [simp del]

definition parse_v6 :: "string \<Rightarrow> addr option" where
  "parse_v6 s0 =
     (let (s, zone, bad) = (case cut (CHR ''%'') s0 of None \<Rightarrow> (s0, [], False) | Some (a, z) \<Rightarrow> (a, z, z = []));
          lead = has_prefix s ''::'';
          s1 = (if lead then drop 2 s else s) in
      if bad then None
      else if lead \<and> s1 = [] then Some (V6 0 zone)
      else (case parse_v6_loop [] (if lead then Some 0 else None) s1 of
          None \<Rightarrow> None
        | Some (gs, ell) \<Rightarrow>
            (case ell of
               None \<Rightarrow> if length gs = 8 then Some (V6 (of_nat (of_groups 65536 gs)) zone) else None
             | Some e \<Rightarrow>
                 if length gs < 8
                 then Some (V6 (of_nat (of_groups 65536 (take e gs @ replicate (8 - length gs) 0 @ drop e gs))) zone)
                 else None)))"

text \<open>\<open>netip.ParseAddr\<close>: the first dot, colon or percent sign decides the family.\<close>

definition parse_addr :: "string \<Rightarrow> addr option" where
  "parse_addr s = (case List.find (\<lambda>c. c \<in> {CHR ''.'', CHR '':'', CHR ''%''}) s of
      None \<Rightarrow> None
    | Some c \<Rightarrow> if c = CHR ''.'' then parse_v4 s else if c = CHR '':'' then parse_v6 s else None)"

text \<open>\<open>net.ParseIP(s) != nil\<close>: an address without a zone.\<close>

definition parse_ip_ok :: "string \<Rightarrow> bool" where
  "parse_ip_ok s = (case parse_addr s of None \<Rightarrow> False | Some a \<Rightarrow> zone_of a = [])"

section \<open>Printing\<close>

definition v4_bytes :: "32 word \<Rightarrow> nat list" where
  "v4_bytes w = [unat (drop_bit 24 w), unat (drop_bit 16 w) mod 256, unat (drop_bit 8 w) mod 256, unat w mod 256]"

definition show_v4 :: "32 word \<Rightarrow> string" where
  "show_v4 w = join ''.'' (map show_nat (v4_bytes w))"

definition v6_group :: "128 word \<Rightarrow> nat \<Rightarrow> nat" where
  "v6_group w i = unat (drop_bit (16 * (7 - i)) w) mod 65536"

fun show_hex :: "nat \<Rightarrow> string" where
  "show_hex n = (if n < 16 then [hex_char n] else show_hex (n div 16) @ [hex_char (n mod 16)])"

declare show_hex.simps [simp del]

text \<open>The longest run of at least two zero groups, the first one of that length.\<close>

definition zero_run :: "nat list \<Rightarrow> nat \<Rightarrow> nat" where
  "zero_run gs i = length (takeWhile (\<lambda>g. g = 0) (drop i gs))"

definition best_run :: "nat list \<Rightarrow> (nat \<times> nat) option" where
  "best_run gs = foldl (\<lambda>b i. let l = zero_run gs i in
      if 2 \<le> l \<and> (case b of None \<Rightarrow> True | Some (_, l') \<Rightarrow> l' < l) then Some (i, l) else b) None [0..<8]"

definition show_v6 :: "128 word \<Rightarrow> string" where
  "show_v6 w = (let gs = map (v6_group w) [0..<8] in
     case best_run gs of
       None \<Rightarrow> join '':'' (map show_hex gs)
     | Some (i, l) \<Rightarrow> join '':'' (map show_hex (take i gs)) @ ''::'' @ join '':'' (map show_hex (drop (i + l) gs)))"

definition show_addr :: "addr \<Rightarrow> string" where
  "show_addr a = (case a of NoAddr \<Rightarrow> ''invalid IP'' | V4 w \<Rightarrow> show_v4 w
     | V6 w z \<Rightarrow> (if is_4in6 w then ''::ffff:'' @ show_v4 (ucast w) else show_v6 w) @
         (if z = [] then [] else ''%'' @ z))"

section \<open>Evaluating the parser\<close>

lemma replicate_numeral_Cons: "replicate (numeral k) x = x # replicate (pred_numeral k) x"
  by (simp add: numeral_eq_Suc)

lemmas parse_eval = parse_addr_def parse_v6_def parse_v6_loop.simps hex_run_def hex_num_def
  hex_val_def parse_v4_def of_groups_def parse_v4_fields_def v4_field_def byte_class_defs
  digits_val_def cut_def has_prefix_def replicate_numeral_Cons

section \<open>Round trips\<close>

lemma v4_field_show: "n \<le> 255 \<Longrightarrow> v4_field (show_nat n) = Some n"
proof -
  assume n: "n \<le> 255"
  have "length (show_nat n) = 1 \<or> hd (show_nat n) \<noteq> CHR ''0''"
    using hd_show_nat [of n] length_show_nat_one [of n] by auto
  with n show ?thesis
    by (simp add: v4_field_def show_nat_nonempty show_nat_digits)
qed

lemma dot_notin_show_nat: "CHR ''.'' \<notin> set (show_nat n)"
  using show_nat_digits [of n] by (auto simp: list_all_iff byte_class_defs dest!: bspec)

lemma v4_bytes_le:
  assumes "n \<in> set (v4_bytes w)"
  shows "n \<le> 255"
proof -
  have top: "unat (drop_bit 24 w) < 256"
    using unsigned_less [of w, where ?'a = nat]
    by (simp add: unat_drop_bit_eq drop_bit_eq_div [where ?'a = nat])
  have low: "m mod 256 < 256" for m :: nat by simp
  from assms have "n < 256"
    unfolding v4_bytes_def list.set insert_iff empty_iff using top low by blast
  then show ?thesis by simp
qed

lemma of_groups_v4_bytes: "of_groups 256 (v4_bytes w) = unat w"
proof -
  have b: "unat (drop_bit 24 w) = unat w div 16777216"
    "unat (drop_bit 16 w) = unat w div 65536" "unat (drop_bit 8 w) = unat w div 256"
    by (simp_all add: unat_drop_bit_eq drop_bit_eq_div [where ?'a = nat])
  have "unat w div 65536 = unat w div 256 div 256" "unat w div 16777216 = unat w div 256 div 256 div 256"
    by (simp_all add: div_mult2_eq [symmetric])
  then have "((unat w div 16777216 * 256 + unat w div 65536 mod 256) * 256 + unat w div 256 mod 256) * 256
      + unat w mod 256 = unat w"
    by (metis div_mult_mod_eq)
  then show ?thesis by (simp add: of_groups_def v4_bytes_def b)
qed

lemma parse_v4_show [simp]: "parse_v4 (show_v4 w) = Some (V4 w)"
proof -
  have split: "split_on (CHR ''.'') (show_v4 w) = map show_nat (v4_bytes w)"
    unfolding show_v4_def by (rule split_on_join) (auto simp: v4_bytes_def dot_notin_show_nat)
  have fields: "map (v4_field \<circ> show_nat) (v4_bytes w) = map Some (v4_bytes w)"
    using v4_bytes_le [of _ w] by (simp add: v4_field_show)
  have "length (v4_bytes w) = 4" by (simp add: v4_bytes_def)
  then have "parse_v4_fields (show_v4 w) = Some (v4_bytes w)"
    by (auto simp: parse_v4_fields_def split Let_def fields)
  then show ?thesis by (simp add: parse_v4_def of_groups_v4_bytes)
qed

lemma parse_addr_show_v4: "parse_addr (show_v4 w) = Some (V4 w)"
proof -
  have digits: "\<forall>c\<in>set (show_nat n). c \<notin> {CHR ''.'', CHR '':'', CHR ''%''}" for n
    using show_nat_digits [of n] by (auto simp: list_all_iff byte_class_defs)
  have find: "List.find P (xs @ c # ys) = Some c" if "\<forall>x\<in>set xs. \<not> P x" "P c" for P :: "char \<Rightarrow> bool" and xs c ys
    using that by (induction xs) auto
  have "show_v4 w = show_nat (unat (drop_bit 24 w)) @ CHR ''.'' # join ''.'' (map show_nat (tl (v4_bytes w)))"
    by (simp add: show_v4_def v4_bytes_def)
  then have "List.find (\<lambda>c. c \<in> {CHR ''.'', CHR '':'', CHR ''%''}) (show_v4 w) = Some (CHR ''.'')"
    using digits by (auto intro!: find)
  then show ?thesis by (simp add: parse_addr_def)
qed

lemma show_v4_inject: "show_v4 a = show_v4 b \<longleftrightarrow> a = b"
  by (metis parse_v4_show addr.inject(1) option.inject)

end
