(* ===== verification/NetPolicy.thy ===== *)
theory NetPolicy
  imports Netip
begin

text \<open>
  \<open>internal/netpolicy/address.go\<close>: the classification of outbound addresses. The prefix
  tables are the source's, with each textual prefix written as a machine word; the lemmas
  \<open>tables_parse\<close> check every word against the parser of \<^theory_text>\<open>Netip\<close>.
\<close>

datatype address_class = Invalid | Public | Private | Shared | Loopback | LinkLocal | Multicast
  | Unspecified | Metadata | Transition | Reserved

definition sharedPrefix :: prefix where
  "sharedPrefix = P4 0x64400000 10"

definition metadataAddresses :: "addr list" where
  "metadataAddresses =
     [V4 0xA9FEA9FE, V4 0x646464C8, V4 0xA83F8110,
      V6 0xFD000EC2000000000000000000000254 []]"

definition transitionPrefixes :: "prefix list" where
  "transitionPrefixes =
     [P6 0 96, P6 0x0064FF9B000000000000000000000000 96, P6 0x0064FF9B000100000000000000000000 48,
      P6 0x20010000000000000000000000000000 32, P6 0x20020000000000000000000000000000 16]"

definition reservedPrefixes :: "prefix list" where
  "reservedPrefixes =
     [P4 0 8, P4 0xC0000000 24, P4 0xC0000200 24, P4 0xC6120000 15, P4 0xC6336400 24,
      P4 0xCB007100 24, P4 0xF0000000 4,
      P6 0x01000000000000000000000000000000 64, P6 0x01000000000000010000000000000000 64,
      P6 0xFEC00000000000000000000000000000 10, P6 0x20010002000000000000000000000000 48,
      P6 0x20010010000000000000000000000000 28, P6 0x20010020000000000000000000000000 28,
      P6 0x20010DB8000000000000000000000000 32, P6 0x3FFF0000000000000000000000000000 20,
      P6 0x5F000000000000000000000000000000 16]"

definition Classify :: "addr \<Rightarrow> address_class" where
  "Classify address0 =
     (if address0 = NoAddr \<or> zone_of address0 \<noteq> [] then Invalid
      else
        let address = unmap address0 in
        if is_unspecified address then Unspecified
        else if is_loopback address then Loopback
        else if is_multicast address then Multicast
        else if address \<in> set metadataAddresses then Metadata
        else if is_link_local address then LinkLocal
        else if list_ex (\<lambda>p. prefix_contains p address) transitionPrefixes then Transition
        else if \<not> is_global_unicast address then Reserved
        else if list_ex (\<lambda>p. prefix_contains p address) reservedPrefixes then Reserved
        else if is_private address then Private
        else if prefix_contains sharedPrefix address then Shared
        else Public)"

section \<open>The tables\<close>

lemma metadata_parse:
  "map parse_addr [''169.254.169.254'', ''100.100.100.200'', ''168.63.129.16'', ''fd00:ec2::254''] =
     map Some metadataAddresses"
  by (simp add: parse_eval metadataAddresses_def)

lemma transition_parse:
  "map parse_addr [''::'', ''64:ff9b::'', ''64:ff9b:1::'', ''2001::'', ''2002::''] =
     map (\<lambda>p. case p of P4 n _ \<Rightarrow> Some (V4 n) | P6 n _ \<Rightarrow> Some (V6 n [])) transitionPrefixes"
  by (simp add: parse_eval transitionPrefixes_def)

lemma reserved_parse:
  "map parse_addr [''0.0.0.0'', ''192.0.0.0'', ''192.0.2.0'', ''198.18.0.0'', ''198.51.100.0'',
     ''203.0.113.0'', ''240.0.0.0'', ''100::'', ''100:0:0:1::'', ''fec0::'', ''2001:2::'', ''2001:10::'',
     ''2001:20::'', ''2001:db8::'', ''3fff::'', ''5f00::''] =
     map (\<lambda>p. case p of P4 n _ \<Rightarrow> Some (V4 n) | P6 n _ \<Rightarrow> Some (V6 n [])) reservedPrefixes"
  by (simp add: parse_eval reservedPrefixes_def)

section \<open>Facts on the classification\<close>

lemma unmap_unmap [simp]: "unmap (unmap a) = unmap a"
  by (auto simp: unmap_def split: addr.splits)

lemma zone_unmap: "zone_of a = [] \<Longrightarrow> zone_of (unmap a) = []"
  by (auto simp: unmap_def zone_of_def split: addr.splits)

lemma unmap_NoAddr: "unmap a = NoAddr \<longleftrightarrow> a = NoAddr"
  by (auto simp: unmap_def split: addr.splits)

lemma metadata_unmapped: "a \<in> set metadataAddresses \<Longrightarrow> unmap a = a"
  by (auto simp: metadataAddresses_def unmap_def is_4in6_def)

lemma metadata_not_earlier:
  "a \<in> set metadataAddresses \<Longrightarrow> \<not> is_unspecified a \<and> \<not> is_loopback a \<and> \<not> is_multicast a"
  by (auto simp: metadataAddresses_def is_unspecified_def is_loopback_def is_multicast_def)

lemma metadata_zone: "a \<in> set metadataAddresses \<Longrightarrow> a \<noteq> NoAddr \<and> zone_of a = []"
  by (auto simp: metadataAddresses_def zone_of_def)



lemma Classify_unmap: "zone_of a = [] \<Longrightarrow> Classify (unmap a) = Classify a"
  by (simp add: Classify_def zone_unmap unmap_NoAddr)

text \<open>
  The address class of an IPv4 address by its octets: the ranges an outbound request may not
  reach without a separate grant, written the way the registries list them.
\<close>

definition special_octets :: "nat \<Rightarrow> nat \<Rightarrow> nat \<Rightarrow> nat \<Rightarrow> bool" where
  "special_octets a b c d =
     (a = 0 \<or> a = 10 \<or> a = 127 \<or> 224 \<le> a \<or>
      a = 100 \<and> 64 \<le> b \<and> b < 128 \<or>
      a = 168 \<and> b = 63 \<and> c = 129 \<and> d = 16 \<or>
      a = 169 \<and> b = 254 \<or>
      a = 172 \<and> 16 \<le> b \<and> b < 32 \<or>
      a = 192 \<and> b = 0 \<and> (c = 0 \<or> c = 2) \<or>
      a = 192 \<and> b = 168 \<or>
      a = 198 \<and> (b = 18 \<or> b = 19) \<or>
      a = 198 \<and> b = 51 \<and> c = 100 \<or>
      a = 203 \<and> b = 0 \<and> c = 113)"

lemma V4_eq_unat: "V4 w = V4 v \<longleftrightarrow> unat w = unat v"
  by (simp add: word_unat_eq_iff)

lemma unat_drop_bit_div: "unat (drop_bit k (w :: 32 word)) = unat w div 2 ^ k"
  by (simp add: unat_drop_bit_eq drop_bit_eq_div [where ?'a = nat])

lemma drop_bit_eq_iff:
  "drop_bit k (w :: 32 word) = v \<longleftrightarrow> unat w div 2 ^ k = unat v"
  by (simp add: word_unat_eq_iff unat_drop_bit_div)

lemma if_class: "X \<noteq> Public \<Longrightarrow> ((if b then X else Y) = Public) = (\<not> b \<and> Y = Public)"
  by simp

lemma Classify_V4_Public:
  "Classify (V4 w) = Public \<longleftrightarrow>
     \<not> (unat w = 0 \<or> unat w div 2 ^ 24 = 127 \<or> unat w div 2 ^ 28 = 14 \<or>
        unat w \<in> {2852039166, 1684301000, 2822734096} \<or> unat w div 2 ^ 16 = 43518 \<or>
        unat w = 4294967295 \<or>
        unat w div 2 ^ 24 = 0 \<or> unat w div 2 ^ 8 = 12582912 \<or> unat w div 2 ^ 8 = 12582914 \<or>
        unat w div 2 ^ 17 = 25353 \<or> unat w div 2 ^ 8 = 12989284 \<or> unat w div 2 ^ 8 = 13303921 \<or>
        unat w div 2 ^ 28 = 15 \<or>
        unat w div 2 ^ 24 = 10 \<or> unat w div 2 ^ 20 = 2753 \<or> unat w div 2 ^ 16 = 49320 \<or>
        unat w div 2 ^ 22 = 401)"
proof -
  have z: "unmap (V4 w) = V4 w" "zone_of (V4 w) = []" by (simp_all add: unmap_def zone_of_def)
  have "Classify (V4 w) = Public \<longleftrightarrow>
      \<not> is_unspecified (V4 w) \<and> \<not> is_loopback (V4 w) \<and> \<not> is_multicast (V4 w) \<and>
      V4 w \<notin> set metadataAddresses \<and> \<not> is_link_local (V4 w) \<and>
      \<not> list_ex (\<lambda>p. prefix_contains p (V4 w)) transitionPrefixes \<and> is_global_unicast (V4 w) \<and>
      \<not> list_ex (\<lambda>p. prefix_contains p (V4 w)) reservedPrefixes \<and> \<not> is_private (V4 w) \<and>
      \<not> prefix_contains sharedPrefix (V4 w)"
    by (simp add: Classify_def z Let_def if_class split del: if_split)
  then show ?thesis
    by (simp add: is_unspecified_def is_loopback_def is_multicast_def
        metadataAddresses_def is_link_local_def transitionPrefixes_def prefix_contains_def
        is_global_unicast_def reservedPrefixes_def is_private_def sharedPrefix_def
        drop_bit_eq_iff V4_eq_unat del: addr.inject) blast
qed


section \<open>Octets\<close>

definition octets :: "32 word \<Rightarrow> nat \<times> nat \<times> nat \<times> nat" where
  "octets w = (unat w div 16777216, unat w div 65536 mod 256, unat w div 256 mod 256, unat w mod 256)"

lemma octet_quotients:
  fixes u :: nat
  assumes abc: "a = u div 16777216" "b = u div 65536 mod 256" "c = u div 256 mod 256" "d = u mod 256"
  shows "u div 65536 = 256 * a + b" "u div 256 = 65536 * a + 256 * b + c"
    "u = 16777216 * a + 65536 * b + 256 * c + d"
    "u div 268435456 = a div 16" "u div 1048576 = (256 * a + b) div 16"
    "u div 131072 = (256 * a + b) div 2" "u div 4194304 = (256 * a + b) div 64"
proof -
  have a: "u div 65536 div 256 = a" by (simp add: abc div_mult2_eq [symmetric])
  show h: "u div 65536 = 256 * a + b"
    using a abc(2) by (metis mult.commute div_mult_mod_eq)
  have "u div 256 div 256 = u div 65536" by (simp add: div_mult2_eq [symmetric])
  then show m: "u div 256 = 65536 * a + 256 * b + c"
    using h abc(3) div_mult_mod_eq [of "u div 256" 256] by simp
  show "u = 16777216 * a + 65536 * b + 256 * c + d"
    using m abc(4) div_mult_mod_eq [of u 256] by simp
  show "u div 268435456 = a div 16" by (simp add: abc div_mult2_eq [symmetric])
  show "u div 1048576 = (256 * a + b) div 16" "u div 131072 = (256 * a + b) div 2"
    "u div 4194304 = (256 * a + b) div 64"
    by (simp_all add: h [symmetric] div_mult2_eq [symmetric])
qed

lemma radix_256:
  "(d::nat) < 256 \<Longrightarrow> e < 256 \<Longrightarrow> x * 256 + d = y * 256 + e \<longleftrightarrow> x = y \<and> d = e"
proof
  assume lt: "d < 256" "e < 256" and eq: "x * 256 + d = y * 256 + e"
  have "(x * 256 + d) div 256 = x" "(y * 256 + e) div 256 = y" using lt by simp_all
  with eq have "x = y" by simp
  with eq show "x = y \<and> d = e" by simp
qed simp

lemma octets_eq_iff:
  fixes a b c d :: nat
  assumes "b < 256" "c < 256" "d < 256" "b' < 256" "c' < 256" "d' < 256"
  shows "((a * 256 + b) * 256 + c) * 256 + d = ((a' * 256 + b') * 256 + c') * 256 + d' \<longleftrightarrow>
    a = a' \<and> b = b' \<and> c = c' \<and> d = d'"
  using assms by (simp only: radix_256 conj_assoc)

lemma special_octets_arith:
  fixes a b c d u :: nat
  assumes lt: "b < 256" "c < 256" "d < 256" "a < 256"
    and u: "u = 16777216 * a + 65536 * b + 256 * c + d"
  shows "(u = 0 \<or> a = 127 \<or> a div 16 = 14 \<or>
     u \<in> {2852039166, 1684301000, 2822734096} \<or> 256 * a + b = 43518 \<or> u = 4294967295 \<or>
     a = 0 \<or> 65536 * a + 256 * b + c = 12582912 \<or> 65536 * a + 256 * b + c = 12582914 \<or>
     (256 * a + b) div 2 = 25353 \<or> 65536 * a + 256 * b + c = 12989284 \<or>
     65536 * a + 256 * b + c = 13303921 \<or> a div 16 = 15 \<or>
     a = 10 \<or> (256 * a + b) div 16 = 2753 \<or> 256 * a + b = 49320 \<or> (256 * a + b) div 64 = 401) =
     special_octets a b c d"
proof -
  have w: "u = 0 \<longleftrightarrow> a = 0 \<and> b = 0 \<and> c = 0 \<and> d = 0" by (auto simp: u)
  have e: "u = 2852039166 \<longleftrightarrow> a = 169 \<and> b = 254 \<and> c = 169 \<and> d = 254"
    "u = 1684301000 \<longleftrightarrow> a = 100 \<and> b = 100 \<and> c = 100 \<and> d = 200"
    "u = 2822734096 \<longleftrightarrow> a = 168 \<and> b = 63 \<and> c = 129 \<and> d = 16"
    "u = 4294967295 \<longleftrightarrow> a = 255 \<and> b = 255 \<and> c = 255 \<and> d = 255"
    using octets_eq_iff [OF lt(1-3), of 254 169 254 a 169] octets_eq_iff [OF lt(1-3), of 100 100 200 a 100]
      octets_eq_iff [OF lt(1-3), of 63 129 16 a 168] octets_eq_iff [OF lt(1-3), of 255 255 255 a 255]
    by (simp_all add: u algebra_simps)
  have f: "65536 * a + 256 * b + c = 12582912 \<longleftrightarrow> a = 192 \<and> b = 0 \<and> c = 0"
    "65536 * a + 256 * b + c = 12582914 \<longleftrightarrow> a = 192 \<and> b = 0 \<and> c = 2"
    "65536 * a + 256 * b + c = 12989284 \<longleftrightarrow> a = 198 \<and> b = 51 \<and> c = 100"
    "65536 * a + 256 * b + c = 13303921 \<longleftrightarrow> a = 203 \<and> b = 0 \<and> c = 113"
    using octets_eq_iff [OF lt(4,1,2), of 192 0 0 0 0] octets_eq_iff [OF lt(4,1,2), of 192 0 2 0 0]
      octets_eq_iff [OF lt(4,1,2), of 198 51 100 0 0] octets_eq_iff [OF lt(4,1,2), of 203 0 113 0 0]
    by (simp_all add: algebra_simps)
  have top: "(256 * a + b) div 256 = a" using lt by simp
  have q: "(256 * a + b) div 2 div 128 = a" "(256 * a + b) div 16 div 16 = a" "(256 * a + b) div 64 div 4 = a"
    using top by (simp_all only: div_mult2_eq [symmetric]) simp_all
  have "256 * a + b = v \<Longrightarrow> a = v div 256" for v using top by simp
  from this [of 43518] this [of 49320]
  have g: "256 * a + b = 43518 \<longleftrightarrow> a = 169 \<and> b = 254" "256 * a + b = 49320 \<longleftrightarrow> a = 192 \<and> b = 168"
    by auto
  have "(256 * a + b) div 2 = 25353 \<Longrightarrow> a = 198" "(256 * a + b) div 16 = 2753 \<Longrightarrow> a = 172"
    "(256 * a + b) div 64 = 401 \<Longrightarrow> a = 100"
    using q by simp_all
  then have g': "(256 * a + b) div 2 = 25353 \<longleftrightarrow> a = 198 \<and> (b = 18 \<or> b = 19)"
    "(256 * a + b) div 16 = 2753 \<longleftrightarrow> a = 172 \<and> 16 \<le> b \<and> b < 32"
    "(256 * a + b) div 64 = 401 \<longleftrightarrow> a = 100 \<and> 64 \<le> b \<and> b < 128"
    using lt(1) by auto
  have h: "a div 16 = 14 \<longleftrightarrow> 224 \<le> a \<and> a < 240" "a div 16 = 15 \<longleftrightarrow> 240 \<le> a"
    using lt by auto
  have t: "u \<in> {x, y, z} \<longleftrightarrow> u = x \<or> u = y \<or> u = z" for x y z by simp
  show ?thesis (is "?L = ?R")
  proof
    assume ?L
    then show ?R
      unfolding special_octets_def t w e f g g' h by (elim disjE) simp_all
  next
    assume ?R
    then show ?L
      unfolding special_octets_def t w e f g g' h
      by (elim disjE; cases "a < 240") simp_all
  qed
qed

text \<open>
  C10: The table-driven classification of an IPv4 address is Public exactly when its octets lie
  in none of the special-use ranges, written out as arithmetic on the octets.
\<close>

theorem Classify_V4_spec:
  "Classify (V4 w) = Public \<longleftrightarrow> (case octets w of (a, b, c, d) \<Rightarrow> \<not> special_octets a b c d)"
proof -
  define a b c d where o: "a = unat w div 16777216" "b = unat w div 65536 mod 256"
    "c = unat w div 256 mod 256" "d = unat w mod 256"
  have lt: "b < 256" "c < 256" "d < 256" "a < 256"
    using unsigned_less [of w, where ?'a = nat] by (simp_all add: o)
  note q = octet_quotients [OF o]
  have "unat w div 2 ^ 24 = a" "unat w div 2 ^ 28 = a div 16" "unat w div 2 ^ 16 = 256 * a + b"
    "unat w div 2 ^ 8 = 65536 * a + 256 * b + c" "unat w div 2 ^ 17 = (256 * a + b) div 2"
    "unat w div 2 ^ 20 = (256 * a + b) div 16" "unat w div 2 ^ 22 = (256 * a + b) div 64"
    using q(1,2,4-7) o(1) by simp_all
  note r = this
  have "Classify (V4 w) = Public \<longleftrightarrow> \<not> special_octets a b c d"
    unfolding Classify_V4_Public r by (subst special_octets_arith [OF lt q(3), symmetric]) (rule refl)
  then show ?thesis by (simp add: octets_def o)
qed

text \<open>
  An address is classified as cloud metadata exactly when it, unmapped and without zone, is
  one of the listed metadata addresses; no prefix table overrides that.
\<close>

theorem metadata_blocked:
  "Classify a = Metadata \<longleftrightarrow> zone_of a = [] \<and> unmap a \<in> set metadataAddresses"
proof
  assume "Classify a = Metadata"
  then show "zone_of a = [] \<and> unmap a \<in> set metadataAddresses"
    by (simp add: Classify_def Let_def split: if_splits)
next
  assume a: "zone_of a = [] \<and> unmap a \<in> set metadataAddresses"
  then have "unmap a \<noteq> NoAddr" using metadata_zone by blast
  then have "a \<noteq> NoAddr" by (simp add: unmap_NoAddr)
  with a metadata_not_earlier [of "unmap a"] show "Classify a = Metadata"
    by (simp add: Classify_def Let_def)
qed

end
