(* ===== verification/StoreTypes.thy ===== *)
theory StoreTypes
  imports Netip
begin

text \<open>
  \<open>internal/store\<close>: the records of the panel's state file, the environment the store runs in
  (hash function, Unicode tables, file system outcomes) and \<open>persistLocked\<close>, the one place
  where state reaches the disk. A stored \<open>diskState\<close> file is its decoded value; whether the
  encoding fails or exceeds the size limit is an outcome of the environment.
\<close>

section \<open>Errors\<close>

text \<open>The store's sentinel errors, and the failures of the file system, of the audit database
  and of the random source that the code wraps with \<open>fmt.Errorf\<close>.\<close>

datatype store_error = ErrAlreadyInitialized | ErrConflict | ErrAlreadyExists | ErrNotFound
  | ErrLimitReached | ErrInvalidRecord | ErrPersist | ErrRandom | ErrAuditUnavailable | ErrDecode

section \<open>Records\<close>

record passkey =
  pk_ID :: string
  pk_RPID :: string
  pk_Name :: string
  pk_Credential :: string
  pk_CreatedAt :: gotime
  pk_LastUsedAt :: "gotime option"

record user =
  u_CredentialEpoch :: string
  u_CredentialVersion :: "64 word"
  u_Passkeys :: "passkey list"
  u_ID :: string
  u_Username :: string
  u_PasswordHash :: string
  u_Role :: string
  u_Avatar :: string
  u_TOTPSecret :: string
  u_TOTPEnabledAt :: "gotime option"
  u_TOTPLastUsedStep :: int
  u_TOTPRecoveryCodeHashes :: "string list"
  u_CreatedAt :: gotime
  u_UpdatedAt :: gotime

record session =
  s_TokenHash :: string
  s_CSRFHash :: string
  s_UserID :: string
  s_CreatedAt :: gotime
  s_ExpiresAt :: gotime

datatype change_value = CBool bool | CInt int | CString string

record audit_event =
  ae_ID :: string
  ae_OccurredAt :: gotime
  ae_ActorType :: string
  ae_ActorID :: string
  ae_SourceIP :: string
  ae_Action :: string
  ae_TargetKind :: string
  ae_TargetID :: string
  ae_Result :: string
  ae_RequestID :: string
  ae_Change :: "(string \<times> change_value) list"

record login_attempt =
  la_Key :: string
  la_OccurredAt :: gotime
  la_Success :: bool

record security_entrance =
  se_Enabled :: bool
  se_Path :: string
  se_UpdatedAt :: gotime

record cluster_share =
  cs_Enabled :: bool
  cs_Token :: string
  cs_Title :: string
  cs_Description :: string
  cs_HostOrder :: "string list"
  cs_UpdatedAt :: gotime

record file_share =
  fs_ID :: string
  fs_TokenHash :: string
  fs_Path :: string
  fs_ResourceVersion :: string
  fs_ShareVersion :: string
  fs_SizeBytes :: int
  fs_CreatedAt :: gotime
  fs_ExpiresAt :: "gotime option"

text \<open>
  \<open>diskState\<close>. The four panel preference fields no modelled operation looks into
  (\<open>ClusterHostDetails\<close>, \<open>ClusterTraffic\<close>, \<open>Appearance\<close>, \<open>Preferences\<close>) are one field of an
  arbitrary type, kept and restored with the rest.
\<close>

record 'p disk_state =
  d_SchemaVersion :: nat
  d_Users :: "user list"
  d_Sessions :: "session list"
  d_Audit :: "audit_event list"
  d_LoginAttempts :: "login_attempt list"
  d_SecurityEntrance :: security_entrance
  d_PasskeyOrigin :: string
  d_ClusterShare :: cluster_share
  d_ClusterHostOrder :: "string list option"
  d_FileShares :: "file_share list"
  d_Panel :: 'p

definition zero_security_entrance :: security_entrance where
  "zero_security_entrance = \<lparr>se_Enabled = False, se_Path = [], se_UpdatedAt = zero_time\<rparr>"

definition zero_cluster_share :: cluster_share where
  "zero_cluster_share = \<lparr>cs_Enabled = False, cs_Token = [], cs_Title = [], cs_Description = [],
     cs_HostOrder = [], cs_UpdatedAt = zero_time\<rparr>"

definition zero_user :: user where
  "zero_user = \<lparr>u_CredentialEpoch = [], u_CredentialVersion = 0, u_Passkeys = [], u_ID = [], u_Username = [],
     u_PasswordHash = [], u_Role = [], u_Avatar = [], u_TOTPSecret = [], u_TOTPEnabledAt = None,
     u_TOTPLastUsedStep = 0, u_TOTPRecoveryCodeHashes = [], u_CreatedAt = zero_time, u_UpdatedAt = zero_time\<rparr>"

definition empty_disk :: "'p \<Rightarrow> 'p disk_state" where
  "empty_disk p = \<lparr>d_SchemaVersion = 1, d_Users = [], d_Sessions = [], d_Audit = [], d_LoginAttempts = [],
     d_SecurityEntrance = zero_security_entrance, d_PasskeyOrigin = [], d_ClusterShare = zero_cluster_share,
     d_ClusterHostOrder = None, d_FileShares = [], d_Panel = p\<rparr>"

section \<open>The state file\<close>

text \<open>
  The two files \<open>persistLocked\<close> may leave behind: the state file and the \<open>.previous\<close> backup
  of the fallback path. The temporary file is removed on every path.
\<close>

record 'p files =
  f_target :: "'p disk_state option"
  f_previous :: "'p disk_state option"

text \<open>
  The outcome of each system call of one \<open>persistLocked\<close>, in its order. \<open>io_backup\<close> is false
  where moving the old file aside failed for another reason than its absence.
\<close>

record 'p io =
  io_encode :: "'p disk_state \<Rightarrow> bool"
  io_temp :: bool
  io_rename :: bool
  io_remove_backup :: bool
  io_backup :: bool
  io_replace :: bool
  io_restore :: bool
  io_remove_backup2 :: bool

definition persist_files :: "'p io \<Rightarrow> 'p disk_state \<Rightarrow> 'p files \<Rightarrow> bool \<times> 'p files" where
  "persist_files io d f =
     (if \<not> io_encode io d then (False, f)
      else if \<not> io_temp io then (False, f)
      else if io_rename io then (True, f\<lparr>f_target := Some d\<rparr>)
      else
        let f1 = (if io_remove_backup io then f\<lparr>f_previous := None\<rparr> else f) in
        case f_target f1 of
          None \<Rightarrow>
            (if \<not> io_backup io then (False, f1)
             else if io_replace io
             then (True, (if io_remove_backup2 io then f1\<lparr>f_target := Some d, f_previous := None\<rparr>
                          else f1\<lparr>f_target := Some d\<rparr>))
             else (case f_previous f1 of
                     Some b \<Rightarrow> if io_restore io then (False, f1\<lparr>f_target := Some b, f_previous := None\<rparr>)
                                 else (False, f1)
                   | None \<Rightarrow> (False, f1)))
        | Some old \<Rightarrow>
            (if \<not> io_backup io then (False, f1)
             else
               let f2 = f1\<lparr>f_target := None, f_previous := Some old\<rparr> in
               if io_replace io
               then (True, (if io_remove_backup2 io then f2\<lparr>f_target := Some d, f_previous := None\<rparr>
                            else f2\<lparr>f_target := Some d\<rparr>))
               else if io_restore io then (False, f2\<lparr>f_target := Some old, f_previous := None\<rparr>)
               else (False, f2)))"

text \<open>
  The state a restart can read back: the state file, or the backup an operator finds next to
  it after the fallback lost both renames.
\<close>

definition on_disk :: "'p files \<Rightarrow> 'p disk_state option" where
  "on_disk f = (case f_target f of Some d \<Rightarrow> Some d | None \<Rightarrow> f_previous f)"

lemma persist_files_ok: "persist_files io d f = (True, f') \<Longrightarrow> f_target f' = Some d"
  by (auto simp: persist_files_def Let_def split: if_splits option.splits)

lemma persist_files_fail:
  "persist_files io d f = (False, f') \<Longrightarrow> f_target f = Some old \<Longrightarrow>
    f_target f' = Some old \<or> (f_target f' = None \<and> f_previous f' = Some old)"
  by (auto simp: persist_files_def Let_def split: if_splits option.splits)

lemma persist_files_rename:
  "io_rename io \<Longrightarrow> persist_files io d f = (False, f') \<Longrightarrow> f' = f"
  by (auto simp: persist_files_def split: if_splits)

section \<open>The environment and the store\<close>

text \<open>
  What the store calls and this model does not compute: SHA-256, the JSON grammar of a stored
  credential and Go's Unicode case folding beyond ASCII.
\<close>

record genv =
  sha256 :: "string \<Rightarrow> string"
  uni_lower :: "string \<Rightarrow> string"
  uni_upper :: "string \<Rightarrow> string"
  uni_fold :: "string \<Rightarrow> string \<Rightarrow> bool"
  json_valid :: "string \<Rightarrow> bool"

text \<open>An environment to compute instances on.\<close>

definition demo_env :: genv where
  "demo_env = \<lparr>sha256 = (\<lambda>s. s), uni_lower = (\<lambda>s. s), uni_upper = (\<lambda>s. s), uni_fold = (\<lambda>s t. s = t),
     json_valid = (\<lambda>_. True)\<rparr>"

text \<open>\<open>strings.EqualFold\<close>.\<close>

definition equal_fold :: "genv \<Rightarrow> string \<Rightarrow> string \<Rightarrow> bool" where
  "equal_fold G s t = (if is_ascii s \<and> is_ascii t then map ascii_lower s = map ascii_lower t
     else uni_fold G s t)"

text \<open>
  The audit database: the rows of \<open>audit_events\<close> in \<open>seq\<close> order, and the next value of the
  \<open>AUTOINCREMENT\<close> counter.
\<close>

record audit_log =
  al_rows :: "(nat \<times> audit_event) list"
  al_nextSeq :: nat
  al_closed :: bool

record 'p store =
  st_data :: "'p disk_state"
  st_files :: "'p files"
  st_writes :: nat
  st_audit :: audit_log

text \<open>
  \<open>persistLocked\<close> on the store. The \<open>n\<close>-th write of the process has the outcomes \<open>W n\<close>, so
  that every pattern of failures is an environment.
\<close>

type_synonym 'p world = "nat \<Rightarrow> 'p io"

definition persistLocked :: "'p world \<Rightarrow> 'p store \<Rightarrow> bool \<times> 'p store" where
  "persistLocked W s =
     (case persist_files (W (st_writes s)) (st_data s) (st_files s) of
        (ok, f) \<Rightarrow> (ok, s\<lparr>st_files := f, st_writes := Suc (st_writes s)\<rparr>))"

text \<open>
  The idiom of every mutator: \<open>previous := cloneDiskState(s.data)\<close>, change \<open>s.data\<close>,
  \<open>persistLocked\<close>, and on failure \<open>s.data = previous\<close>.
\<close>

definition commit :: "'p world \<Rightarrow> 'p disk_state \<Rightarrow> 'a \<Rightarrow> 'p store \<Rightarrow> (store_error + 'a) \<times> 'p store" where
  "commit W d r s =
     (case persistLocked W (s\<lparr>st_data := d\<rparr>) of
        (ok, s') \<Rightarrow> if ok then (Inr r, s') else (Inl ErrPersist, s'\<lparr>st_data := st_data s\<rparr>))"

lemma commit_cases:
  obtains (Ok) f where "persist_files (W (st_writes s)) d (st_files s) = (True, f)"
      "commit W d r s = (Inr r, s\<lparr>st_data := d, st_files := f, st_writes := Suc (st_writes s)\<rparr>)"
  | (Fail) f where "persist_files (W (st_writes s)) d (st_files s) = (False, f)"
      "commit W d r s = (Inl ErrPersist, s\<lparr>st_files := f, st_writes := Suc (st_writes s)\<rparr>)"
proof (cases "persist_files (W (st_writes s)) d (st_files s)")
  case (Pair ok f)
  then show thesis
    by (cases ok) (auto simp: commit_def persistLocked_def intro: that)
qed

lemma commit_data:
  "st_data (snd (commit W d r s)) = (if is_ok (fst (commit W d r s)) then d else st_data s)"
  by (rule commit_cases [of W s d r]) simp_all

lemma commit_result: "fst (commit W d r s) = Inr r \<or> fst (commit W d r s) = Inl ErrPersist"
  by (rule commit_cases [of W s d r]) simp_all

lemma commit_Inr: "commit W d r s = (Inr x, s') \<Longrightarrow> x = r \<and> st_data s' = d \<and> st_audit s' = st_audit s
    \<and> f_target (st_files s') = Some d"
  by (rule commit_cases [of W s d r]) (auto dest: persist_files_ok)

lemma commit_Inl: "commit W d r s = (Inl e, s') \<Longrightarrow> e = ErrPersist \<and> st_data s' = st_data s \<and> st_audit s' = st_audit s"
  by (rule commit_cases [of W s d r]) auto

lemma commit_audit [simp]: "st_audit (snd (commit W d r s)) = st_audit s"
  by (rule commit_cases [of W s d r]) simp_all

text \<open>
  Memory and disk agree: the state file holds the state in memory, unless the last write lost
  both the replacement and its undo, and then the backup holds it.
\<close>

definition synced :: "'p store \<Rightarrow> bool" where
  "synced s = (on_disk (st_files s) = Some (st_data s))"

definition target_synced :: "'p store \<Rightarrow> bool" where
  "target_synced s = (f_target (st_files s) = Some (st_data s))"

lemma target_synced_synced: "target_synced s \<Longrightarrow> synced s"
  by (simp add: target_synced_def synced_def on_disk_def)

lemma commit_synced:
  "target_synced s \<Longrightarrow> synced (snd (commit W d r s))"
proof (rule commit_cases [of W s d r])
  fix f
  assume "persist_files (W (st_writes s)) d (st_files s) = (True, f)"
    "commit W d r s = (Inr r, s\<lparr>st_data := d, st_files := f, st_writes := Suc (st_writes s)\<rparr>)"
  then show ?thesis by (auto simp: synced_def on_disk_def dest: persist_files_ok)
next
  fix f
  assume s: "target_synced s"
    and f: "persist_files (W (st_writes s)) d (st_files s) = (False, f)"
    and c: "commit W d r s = (Inl ErrPersist, s\<lparr>st_files := f, st_writes := Suc (st_writes s)\<rparr>)"
  from s have "f_target (st_files s) = Some (st_data s)" by (simp add: target_synced_def)
  from persist_files_fail [OF f this] show ?thesis
    by (auto simp: c synced_def on_disk_def)
qed

text \<open>On Linux the first rename replaces the target: there the state file itself is always in step.\<close>

lemma commit_target_synced:
  "io_rename (W (st_writes s)) \<Longrightarrow> target_synced s \<Longrightarrow> target_synced (snd (commit W d r s))"
  by (rule commit_cases [of W s d r])
     (auto simp: target_synced_def dest: persist_files_ok persist_files_rename)

end
