(* ===== verification/AuditLog.thy ===== *)
theory AuditLog
  imports StoreTypes
begin

text \<open>
  \<open>internal/store/audit_log.go\<close>: the bounded, append-only audit history in its own database.
  A transaction either takes effect as a whole or leaves the rows as they were.
\<close>

definition MaxAuditEntries :: nat where "MaxAuditEntries = 10000"
definition maxAuditEventBytes :: nat where "maxAuditEventBytes = 65536"
definition maxAuditPageSize :: int where "maxAuditPageSize = 200"

text \<open>
  The outcomes of one transaction: the database file is still the opened one, the transaction
  began, the statements on the \<open>i\<close>-th event ran, the trim ran, the commit succeeded. \<open>ai_size\<close>
  is the length of an event's JSON encoding.
\<close>

record audit_io =
  ai_file :: bool
  ai_begin :: bool
  ai_row :: "nat \<Rightarrow> bool"
  ai_trim :: bool
  ai_commit :: bool
  ai_size :: "audit_event \<Rightarrow> nat"

definition checkFileLocked :: "audit_io \<Rightarrow> audit_log \<Rightarrow> bool" where
  "checkFileLocked io l = (\<not> al_closed l \<and> ai_file io)"

definition encodeAuditEvent :: "audit_io \<Rightarrow> audit_event \<Rightarrow> audit_event" where
  "encodeAuditEvent io e =
     (if ai_size io e \<le> maxAuditEventBytes then e
      else e\<lparr>ae_Change := [(''truncated'', CBool True), (''originalBytes'', CInt (int (ai_size io e)))]\<rparr>)"

fun insert_events :: "audit_io \<Rightarrow> bool \<Rightarrow> nat \<Rightarrow> audit_event list \<Rightarrow> audit_log \<Rightarrow> store_error + audit_log" where
  "insert_events io skip i [] l = Inr l"
| "insert_events io skip i (e # es) l =
     (if ae_ID e = [] then Inl ErrInvalidRecord
      else if \<not> ai_row io i then Inl ErrAuditUnavailable
      else
        let known = list_ex (\<lambda>r. ae_ID (snd r) = ae_ID e) (al_rows l) in
        if known then (if skip then insert_events io skip (Suc i) es l else Inl ErrAlreadyExists)
        else insert_events io skip (Suc i) es
          (l\<lparr>al_rows := al_rows l @ [(al_nextSeq l, encodeAuditEvent io e)], al_nextSeq := Suc (al_nextSeq l)\<rparr>))"

text \<open>The retention cap a caller's \<open>maxEntries\<close> asks for, never above \<open>MaxAuditEntries\<close>.\<close>

definition audit_cap :: "int \<Rightarrow> nat" where
  "audit_cap m = (if m \<le> 0 \<or> int MaxAuditEntries < m then MaxAuditEntries else nat m)"

definition audit_append ::
    "audit_io \<Rightarrow> audit_event list \<Rightarrow> int \<Rightarrow> bool \<Rightarrow> audit_log \<Rightarrow> store_error option \<times> audit_log" where
  "audit_append io events maxEntries0 skip l =
     (if events = [] then (None, l)
      else
        let maxEntries = audit_cap maxEntries0 in
        if \<not> checkFileLocked io l then (Some ErrAuditUnavailable, l)
        else if \<not> ai_begin io then (Some ErrAuditUnavailable, l)
        else (case insert_events io skip 0 events l of
            Inl e \<Rightarrow> (Some e, l)
          | Inr l' \<Rightarrow>
              if \<not> ai_trim io then (Some ErrAuditUnavailable, l)
              else if \<not> ai_commit io then (Some ErrAuditUnavailable, l)
              else (None, l'\<lparr>al_rows := last_n maxEntries (al_rows l')\<rparr>)))"

definition audit_close :: "audit_log \<Rightarrow> audit_log" where
  "audit_close l = (if al_closed l then l else l\<lparr>al_closed := True\<rparr>)"

text \<open>
  \<open>list\<close>: the page of at most \<open>limit\<close> records older than the cursor, newest first, and the
  cursor of the next page. \<open>ok\<close> is whether the queries ran.
\<close>

definition audit_list :: "bool \<Rightarrow> int \<Rightarrow> string \<Rightarrow> audit_log \<Rightarrow> store_error + (audit_event list \<times> string)" where
  "audit_list ok limit0 cursor l =
     (let limit = (if limit0 \<le> 0 \<or> maxAuditPageSize < limit0 then 50 else nat limit0) in
      if al_closed l then Inl ErrAuditUnavailable
      else if \<not> ok then Inl ErrAuditUnavailable
      else
        let before = (if cursor = [] then None
              else map_option fst (List.find (\<lambda>r. ae_ID (snd r) = cursor) (al_rows l)));
            rows = (case before of None \<Rightarrow> al_rows l | Some b \<Rightarrow> filter (\<lambda>r. fst r < b) (al_rows l));
            items = take (limit + 1) (map snd (rev rows)) in
        if limit < length items
        then Inr (take limit items, ae_ID (items ! (limit - 1)))
        else Inr (items, []))"

section \<open>Invariant\<close>

text \<open>Sequence numbers increase, IDs are unique and non-empty, and the cap holds.\<close>

definition audit_inv :: "audit_log \<Rightarrow> bool" where
  "audit_inv l =
     (sorted_wrt (<) (map fst (al_rows l)) \<and> (\<forall>r\<in>set (al_rows l). fst r < al_nextSeq l) \<and>
      distinct (map (ae_ID \<circ> snd) (al_rows l)) \<and> (\<forall>r\<in>set (al_rows l). ae_ID (snd r) \<noteq> []))"

lemma encodeAuditEvent_ID [simp]: "ae_ID (encodeAuditEvent io e) = ae_ID e"
  by (simp add: encodeAuditEvent_def)

lemma insert_events_inv:
  "insert_events io skip i es l = Inr l' \<Longrightarrow> audit_inv l \<Longrightarrow> audit_inv l'"
proof (induction io skip i es l rule: insert_events.induct)
  case (1 io skip i l)
  then show ?case by simp
next
  case (2 io skip i e es l)
  let ?l = "l\<lparr>al_rows := al_rows l @ [(al_nextSeq l, encodeAuditEvent io e)], al_nextSeq := Suc (al_nextSeq l)\<rparr>"
  show ?case
  proof (cases "list_ex (\<lambda>r. ae_ID (snd r) = ae_ID e) (al_rows l)")
    case True
    with 2 show ?thesis by (auto simp: Let_def split: if_splits)
  next
    case False
    with "2.prems" have "audit_inv ?l"
      by (auto simp: audit_inv_def sorted_wrt_append list_ex_iff Let_def split: if_splits)
    with False 2 show ?thesis by (auto simp: Let_def split: if_splits)
  qed
qed

lemma sorted_wrt_drop: "sorted_wrt P xs \<Longrightarrow> sorted_wrt P (drop n xs)"
  by (metis append_take_drop_id sorted_wrt_append)

lemma audit_inv_last_n: "audit_inv l \<Longrightarrow> audit_inv (l\<lparr>al_rows := last_n n (al_rows l)\<rparr>)"
  by (auto simp: audit_inv_def last_n_def drop_map [symmetric] sorted_wrt_drop dest: in_set_dropD
      simp del: drop_map intro: distinct_drop)

lemma audit_cap_bounds: "0 < audit_cap m" "audit_cap m \<le> MaxAuditEntries"
  by (auto simp: audit_cap_def MaxAuditEntries_def)

lemma audit_append_cases:
  assumes "audit_append io es m skip l = (r, l')"
  obtains (Unchanged) "l' = l"
  | (Appended) l1 where "r = None" "insert_events io skip 0 es l = Inr l1"
      "l' = l1\<lparr>al_rows := last_n (audit_cap m) (al_rows l1)\<rparr>"
  using assms that by (auto simp: audit_append_def Let_def split: if_splits sum.splits)

lemma audit_append_inv: "audit_append io es m skip l = (r, l') \<Longrightarrow> audit_inv l \<Longrightarrow> audit_inv l'"
  by (erule audit_append_cases) (auto intro: audit_inv_last_n insert_events_inv)

lemma audit_append_error: "audit_append io es m skip l = (Some e, l') \<Longrightarrow> l' = l"
  by (erule audit_append_cases) auto

lemma insert_events_closed: "insert_events io skip i es l = Inr l' \<Longrightarrow> al_closed l' = al_closed l"
proof (induction io skip i es l rule: insert_events.induct)
  case (2 io skip i e es l)
  then show ?case by (auto simp: Let_def split: if_splits)
qed simp

lemma insert_one:
  "insert_events io False i [e] l = Inr l' \<Longrightarrow>
    al_rows l' = al_rows l @ [(al_nextSeq l, encodeAuditEvent io e)] \<and> ae_ID e \<noteq> []"
  by (auto simp: Let_def split: if_splits)

text \<open>What a normal writer's success means: the event is the newest row and older ones only fall off the end.\<close>

lemma audit_append_one:
  assumes "audit_append io [e] m False l = (None, l')"
  shows "al_rows l' = last_n (audit_cap m) (al_rows l @ [(al_nextSeq l, encodeAuditEvent io e)])"
  using assms
  by (auto simp: audit_append_def Let_def split: if_splits sum.splits dest!: insert_one)

section \<open>Paging\<close>

text \<open>A client that follows the returned cursors until the empty one.\<close>

fun audit_walk :: "nat \<Rightarrow> int \<Rightarrow> string \<Rightarrow> audit_log \<Rightarrow> audit_event list" where
  "audit_walk 0 limit cursor l = []"
| "audit_walk (Suc n) limit cursor l =
     (case audit_list True limit cursor l of
        Inl _ \<Rightarrow> []
      | Inr (items, next) \<Rightarrow> if next = [] then items else items @ audit_walk n limit next l)"

text \<open>The cursor after which \<open>k\<close> rows remain.\<close>

definition cursor_at :: "audit_log \<Rightarrow> nat \<Rightarrow> string \<Rightarrow> bool" where
  "cursor_at l k c = (c = [] \<and> k = length (al_rows l) \<or>
     k < length (al_rows l) \<and> c = ae_ID (snd (al_rows l ! k)))"

lemma filter_before:
  "sorted_wrt (<) (map fst xs) \<Longrightarrow> k < length xs \<Longrightarrow> filter (\<lambda>r. fst r < (fst (xs ! k) :: nat)) xs = take k xs"
proof (induction xs arbitrary: k)
  case Nil
  then show ?case by simp
next
  case (Cons x xs)
  show ?case
  proof (cases k)
    case 0
    with Cons.prems show ?thesis by (auto simp: filter_empty_conv)
  next
    case (Suc j)
    with Cons.prems have "fst x < fst (xs ! j)" by simp
    with Suc Cons show ?thesis by simp
  qed
qed

lemma find_cursor:
  assumes "distinct (map f xs)" and "k < length xs"
  shows "List.find (\<lambda>r. f r = f (xs ! k)) xs = Some (xs ! k)"
  using assms by (intro find_distinct_key) simp_all

lemma audit_list_at:
  assumes inv: "audit_inv l" and open_log: "\<not> al_closed l" and c: "cursor_at l k c"
    and n: "n = (if limit \<le> 0 \<or> maxAuditPageSize < limit then 50 else nat limit)"
  shows "audit_list True limit c l =
    (if n < k then Inr (map snd (rev (drop (k - n) (take k (al_rows l)))), ae_ID (snd (al_rows l ! (k - n))))
     else Inr (map snd (rev (take k (al_rows l))), []))"
proof -
  have n0: "0 < n" using n by auto
  have k: "k \<le> length (al_rows l)" using c by (auto simp: cursor_at_def)
  have rows: "(case if c = [] then None else map_option fst (List.find (\<lambda>r. ae_ID (snd r) = c) (al_rows l)) of
      None \<Rightarrow> al_rows l | Some b \<Rightarrow> filter (\<lambda>r. fst r < b) (al_rows l)) = take k (al_rows l)"
  proof (cases "c = []")
    case True
    have "k < length (al_rows l) \<Longrightarrow> ae_ID (snd (al_rows l ! k)) \<noteq> []"
      using inv nth_mem by (auto simp: audit_inv_def)
    with True c show ?thesis by (auto simp: cursor_at_def)
  next
    case False
    with c have lt: "k < length (al_rows l)" and id: "c = ae_ID (snd (al_rows l ! k))"
      by (auto simp: cursor_at_def)
    have "List.find (\<lambda>r. ae_ID (snd r) = c) (al_rows l) = Some (al_rows l ! k)"
      using find_cursor [of "ae_ID \<circ> snd" "al_rows l" k] inv lt id
      unfolding audit_inv_def comp_def by blast
    moreover have "filter (\<lambda>r. fst r < fst (al_rows l ! k)) (al_rows l) = take k (al_rows l)"
      using inv lt by (simp add: filter_before audit_inv_def)
    ultimately show ?thesis using False by (simp only: if_False option.map option.case)
  qed
  have len: "length (take (n + 1) (map snd (rev (take k (al_rows l))))) = min (n + 1) k" using k by simp
  have nth: "take (n + 1) (map snd (rev (take k (al_rows l)))) ! (n - 1) = snd (al_rows l ! (k - n))" if "n < k"
    using that n0 k by (simp add: rev_nth)
  have tk: "take n (rev (take k (al_rows l))) = rev (drop (k - n) (take k (al_rows l)))" if "n < k"
    using k by (simp only: take_rev length_take min_absorb2)
  show ?thesis
    unfolding audit_list_def n [symmetric] Let_def rows len
    using open_log n0 k nth tk by (auto simp: take_map min_def)
qed

lemma audit_walk_at:
  assumes inv: "audit_inv l" and open_log: "\<not> al_closed l"
  shows "cursor_at l k c \<Longrightarrow> k < fuel \<Longrightarrow> audit_walk fuel limit c l = map snd (rev (take k (al_rows l)))"
proof (induction fuel arbitrary: k c)
  case 0
  then show ?case by simp
next
  case (Suc fuel)
  define n where n: "n = (if limit \<le> 0 \<or> maxAuditPageSize < limit then 50 else nat limit)"
  have n0: "0 < n" using n by auto
  have k: "k \<le> length (al_rows l)" using Suc.prems by (auto simp: cursor_at_def)
  note page = audit_list_at [OF inv open_log Suc.prems(1) n]
  show ?case
  proof (cases "n < k")
    case True
    then have at: "cursor_at l (k - n) (ae_ID (snd (al_rows l ! (k - n))))"
      using k n0 unfolding cursor_at_def by (intro disjI2 conjI refl) linarith
    have "al_rows l ! (k - n) \<in> set (al_rows l)" using True k n0 by simp
    with inv have "ae_ID (snd (al_rows l ! (k - n))) \<noteq> []" by (auto simp: audit_inv_def)
    moreover have "k - n < fuel" using Suc.prems n0 True by simp
    ultimately have "audit_walk (Suc fuel) limit c l =
        map snd (rev (drop (k - n) (take k (al_rows l)))) @ map snd (rev (take (k - n) (al_rows l)))"
      using Suc.IH [OF at] True by (simp add: page)
    also have "\<dots> = map snd (rev (take k (al_rows l)))"
    proof -
      have "take (k - n) (al_rows l) = take (k - n) (take k (al_rows l))" by simp
      then show ?thesis by (metis append_take_drop_id map_append rev_append)
    qed
    finally show ?thesis .
  next
    case False
    then show ?thesis by (simp add: page)
  qed
qed

section \<open>Properties\<close>

definition sample_audit_io :: audit_io where
  "sample_audit_io = \<lparr>ai_file = True, ai_begin = True, ai_row = (\<lambda>_. True), ai_trim = True, ai_commit = True, ai_size = (\<lambda>_. 100)\<rparr>"

definition sample_event :: "string \<Rightarrow> audit_event" where
  "sample_event i = \<lparr>ae_ID = i, ae_OccurredAt = 1, ae_ActorType = ''user'', ae_ActorID = ''u1'', ae_SourceIP = [],
     ae_Action = ''auth.login'', ae_TargetKind = [], ae_TargetID = [], ae_Result = ''success'', ae_RequestID = ''r'',
     ae_Change = []\<rparr>"

definition sample_log :: audit_log where
  "sample_log = \<lparr>al_rows = [(1, sample_event ''a''), (2, sample_event ''b''), (3, sample_event ''c'')], al_nextSeq = 4,
     al_closed = False\<rparr>"

lemma sample_log_inv: "audit_inv sample_log"
  by (simp add: audit_inv_def sample_log_def sample_event_def)

text \<open>
  Appending an event either stores it as the newest row under the next sequence number and
  keeps at most the newest MaxAuditEntries rows, or reports an error and leaves the log as it
  was.
\<close>

theorem audit_append_durable:
  assumes "audit_append io [e] m False l = (r, l')" and "audit_inv l"
  shows "audit_inv l' \<and> length (al_rows l') \<le> max (length (al_rows l)) MaxAuditEntries \<and>
    (r = None \<longrightarrow> length (al_rows l') \<le> MaxAuditEntries \<and>
       last (al_rows l') = (al_nextSeq l, encodeAuditEvent io e) \<and>
       suffix (butlast (al_rows l')) (al_rows l)) \<and>
    (r \<noteq> None \<longrightarrow> l' = l)"
proof -
  have inv: "audit_inv l'" using assms by (rule audit_append_inv)
  show ?thesis
  proof (cases r)
    case None
    with assms have rows: "al_rows l' = last_n (audit_cap m) (al_rows l @ [(al_nextSeq l, encodeAuditEvent io e)])"
      by (simp add: audit_append_one)
    have "suffix (last_n (audit_cap m - 1) (al_rows l)) (al_rows l)"
      by (simp add: last_n_def suffix_drop)
    with rows inv None audit_cap_bounds [of m] show ?thesis
      by (auto simp: last_n_snoc min_def max_def)
  next
    case (Some x)
    with assms inv show ?thesis by (auto dest: audit_append_error)
  qed
qed


lemma audit_append_durable_witness:
  "\<exists>l'. audit_append sample_audit_io [sample_event ''d''] 2 False sample_log = (None, l') \<and> audit_inv l' \<and>
     map (ae_ID \<circ> snd) (al_rows l') = [''c'', ''d'']"
proof -
  let ?r = "audit_append sample_audit_io [sample_event ''d''] 2 False sample_log"
  have r: "fst ?r = None" "map (ae_ID \<circ> snd) (al_rows (snd ?r)) = [''c'', ''d'']"
    by (simp_all add: audit_append_def sample_log_def sample_audit_io_def sample_event_def audit_cap_def MaxAuditEntries_def
        checkFileLocked_def encodeAuditEvent_def maxAuditEventBytes_def last_n_def Let_def)
  from audit_append_durable [OF prod.collapse [symmetric] sample_log_inv, of sample_audit_io "sample_event ''d''" 2] r
  show ?thesis by (intro exI [of _ "snd ?r"]) (simp add: prod_eq_iff)
qed



end
