(* ===== verification/StoreUsers.thy ===== *)
theory StoreUsers
  imports StoreTypes
begin

text \<open>
  \<open>internal/store/store.go\<close>: the administrator account, its second factor and the session table.
  Every mutator of the store has the same frame - take the lock, decide, change \<open>s.data\<close>,
  \<open>persistLocked\<close>, undo on failure. What it decides and how it changes the state is its body,
  a function of the state; \<open>mutate\<close> is the frame. A pointer update \<open>s.data.Users[i].F = v\<close>
  is a list update at the index the search returned.
\<close>

section \<open>The frame of a mutator\<close>

type_synonym ('p, 'a) body = "'p disk_state \<Rightarrow> store_error + 'a \<times> 'p disk_state"

definition mutate :: "'p world \<Rightarrow> ('p, 'a) body \<Rightarrow> 'p store \<Rightarrow> (store_error + 'a) \<times> 'p store" where
  "mutate W b s = (case b (st_data s) of Inl e \<Rightarrow> (Inl e, s) | Inr (r, d) \<Rightarrow> commit W d r s)"

lemma mutate_cases:
  obtains (Refused) e where "b (st_data s) = Inl e" "mutate W b s = (Inl e, s)"
  | (Lost) r d f where "b (st_data s) = Inr (r, d)"
      "mutate W b s = (Inl ErrPersist, s\<lparr>st_files := f, st_writes := Suc (st_writes s)\<rparr>)"
  | (Done) r d f where "b (st_data s) = Inr (r, d)" "f_target f = Some d"
      "mutate W b s = (Inr r, s\<lparr>st_data := d, st_files := f, st_writes := Suc (st_writes s)\<rparr>)"
proof (cases "b (st_data s)")
  case (Inl e)
  then show thesis by (intro Refused) (simp_all add: mutate_def)
next
  case (Inr p)
  obtain r d where p: "p = (r, d)" by (cases p)
  show thesis
    by (rule commit_cases [of W s d r])
       (use Inr p in \<open>auto simp: mutate_def dest: persist_files_ok intro: Lost Done\<close>)
qed

lemma mutate_InrD:
  "mutate W b s = (Inr r, s') \<Longrightarrow> b (st_data s) = Inr (r, st_data s') \<and> st_audit s' = st_audit s"
  by (rule mutate_cases [of b s W]) auto

lemma mutate_InlD: "mutate W b s = (Inl e, s') \<Longrightarrow> st_data s' = st_data s \<and> st_audit s' = st_audit s"
  by (rule mutate_cases [of b s W]) auto

lemma mutate_audit [simp]: "st_audit (snd (mutate W b s)) = st_audit s"
  by (rule mutate_cases [of b s W]) auto

lemma mutate_synced: "target_synced s \<Longrightarrow> synced (snd (mutate W b s))"
  by (auto simp: mutate_def target_synced_synced commit_synced split: sum.splits prod.splits)

lemma mutate_target_synced:
  "io_rename (W (st_writes s)) \<Longrightarrow> target_synced s \<Longrightarrow> target_synced (snd (mutate W b s))"
  by (auto simp: mutate_def commit_target_synced split: sum.splits prod.splits)

section \<open>Accounts\<close>

definition IsInitialized :: "'p store \<Rightarrow> bool" where
  "IsInitialized s = (d_Users (st_data s) \<noteq> [])"

text \<open>\<open>usernameEqual\<close> folds ASCII case, byte by byte.\<close>

definition usernameEqual :: "string \<Rightarrow> string \<Rightarrow> bool" where
  "usernameEqual l r = (map ascii_lower l = map ascii_lower r)"

definition UserByUsername :: "string \<Rightarrow> 'p store \<Rightarrow> store_error + user" where
  "UserByUsername name s = (case List.find (\<lambda>u. usernameEqual (u_Username u) name) (d_Users (st_data s)) of
     None \<Rightarrow> Inl ErrNotFound | Some u \<Rightarrow> Inr u)"

definition UserByID :: "string \<Rightarrow> 'p store \<Rightarrow> store_error + user" where
  "UserByID i s = (case List.find (\<lambda>u. u_ID u = i) (d_Users (st_data s)) of
     None \<Rightarrow> Inl ErrNotFound | Some u \<Rightarrow> Inr u)"

definition userIndexLocked :: "string \<Rightarrow> 'p disk_state \<Rightarrow> nat option" where
  "userIndexLocked i d = index_of (\<lambda>u. u_ID u = i) (d_Users d)"

definition revokeUserSessionsLocked :: "string \<Rightarrow> 'p disk_state \<Rightarrow> 'p disk_state" where
  "revokeUserSessionsLocked i d = d\<lparr>d_Sessions := filter (\<lambda>x. s_UserID x \<noteq> i) (d_Sessions d)\<rparr>"

text \<open>\<open>secureStringEqual\<close> compares SHA-256 digests in constant time.\<close>

definition secureStringEqual :: "genv \<Rightarrow> string \<Rightarrow> string \<Rightarrow> bool" where
  "secureStringEqual G l r = (sha256 G l = sha256 G r)"

text \<open>\<open>Avatar\<close> validation: a base64 data URL of one of three image types, at most 512 KiB.\<close>

definition MaxUserAvatarBytes :: nat where "MaxUserAvatarBytes = 524288"

text \<open>\<open>base64.StdEncoding.Strict()\<close>: the padded standard alphabet, unused trailing bits zero.
  The bytes are 4-character groups; a last group may end in one or two \<open>=\<close>. Go skips \<open>\r\<close> and
  \<open>\n\<close> anywhere in the input.\<close>

definition b64_std_val :: "char \<Rightarrow> nat option" where
  "b64_std_val c = (if is_upper c then Some (byte c - 65) else if is_lower c then Some (byte c - 71)
     else if is_digit c then Some (byte c + 4) else if c = CHR ''+'' then Some 62
     else if c = CHR ''/'' then Some 63 else None)"

fun b64_std_decode_groups :: "string \<Rightarrow> string option" where
  "b64_std_decode_groups [] = Some []"
| "b64_std_decode_groups [a, b, c, d] =
     (case (b64_std_val a, b64_std_val b) of
        (Some x, Some y) \<Rightarrow>
          (if c = CHR ''='' \<and> d = CHR ''='' then
             (if y mod 16 = 0 then Some [char_of (4 * x + y div 16)] else None)
           else (case b64_std_val c of
               None \<Rightarrow> None
             | Some z \<Rightarrow>
                 (if d = CHR ''='' then
                    (if z mod 4 = 0 then Some [char_of (4 * x + y div 16), char_of (16 * (y mod 16) + z div 4)] else None)
                  else (case b64_std_val d of
                      None \<Rightarrow> None
                    | Some w \<Rightarrow> Some [char_of (4 * x + y div 16), char_of (16 * (y mod 16) + z div 4),
                        char_of (64 * (z mod 4) + w)]))))
      | _ \<Rightarrow> None)"
| "b64_std_decode_groups (a # b # c # d # e # rest) =
     (case (b64_std_val a, b64_std_val b, b64_std_val c, b64_std_val d) of
        (Some x, Some y, Some z, Some w) \<Rightarrow>
          map_option (\<lambda>r. char_of (4 * x + y div 16) # char_of (16 * (y mod 16) + z div 4) #
              char_of (64 * (z mod 4) + w) # r) (b64_std_decode_groups (e # rest))
      | _ \<Rightarrow> None)"
| "b64_std_decode_groups _ = None"

definition b64_std_decode :: "string \<Rightarrow> string option" where
  "b64_std_decode s = b64_std_decode_groups (filter (\<lambda>c. byte c \<noteq> 10 \<and> byte c \<noteq> 13) s)"

definition validateUserAvatar :: "string \<Rightarrow> store_error option" where
  "validateUserAvatar avatar =
     (if avatar = [] then None
      else case cut (CHR '','') avatar of
        None \<Rightarrow> Some ErrInvalidRecord
      | Some (mediaType, encoded) \<Rightarrow>
          if encoded = [] \<or> (MaxUserAvatarBytes + 2) div 3 * 4 < length encoded then Some ErrInvalidRecord
          else if mediaType \<notin> {''data:image/png;base64'', ''data:image/jpeg;base64'', ''data:image/webp;base64''}
          then Some ErrInvalidRecord
          else (case b64_std_decode encoded of
              None \<Rightarrow> Some ErrInvalidRecord
            | Some data \<Rightarrow> if data = [] \<or> MaxUserAvatarBytes < length data then Some ErrInvalidRecord else None))"

section \<open>Credential generations\<close>

text \<open>
  \<open>rnd\<close> is what one \<open>crypto/rand.Read\<close> of 16 bytes delivers. The counter is a \<open>uint64\<close>;
  at its last value the generation rolls over to a fresh random epoch.
\<close>

definition newCredentialEpoch :: "string option \<Rightarrow> store_error + string" where
  "newCredentialEpoch rnd = (case rnd of None \<Rightarrow> Inl ErrRandom | Some v \<Rightarrow> Inr (hex_encode v))"

definition validCredentialEpoch :: "string \<Rightarrow> bool" where
  "validCredentialEpoch v =
     (v = [] \<or> length v = 32 \<and> (case hex_decode v of None \<Rightarrow> False
        | Some decoded \<Rightarrow> length decoded = 16 \<and> hex_encode decoded = v))"

definition advanceCredentialVersion :: "string option \<Rightarrow> user \<Rightarrow> store_error + user" where
  "advanceCredentialVersion rnd u =
     (if u_CredentialVersion u = - 1 then
        (case newCredentialEpoch rnd of Inl e \<Rightarrow> Inl e
         | Inr epoch \<Rightarrow> Inr (u\<lparr>u_CredentialEpoch := epoch, u_CredentialVersion := 1\<rparr>))
      else Inr (u\<lparr>u_CredentialVersion := u_CredentialVersion u + 1\<rparr>))"

text \<open>The credential snapshot check shared by \<open>PutLoginSession\<close> and the passkey mutators.\<close>

definition sameCredential :: "genv \<Rightarrow> user \<Rightarrow> user \<Rightarrow> bool" where
  "sameCredential G current expected =
     (u_CredentialEpoch current = u_CredentialEpoch expected \<and>
      u_CredentialVersion current = u_CredentialVersion expected \<and>
      secureStringEqual G (u_PasswordHash current) (u_PasswordHash expected))"

section \<open>Account mutators\<close>

text \<open>The search-and-guard prologue the account mutators share, at the found index.\<close>

definition with_user :: "string \<Rightarrow> (nat \<Rightarrow> user \<Rightarrow> 'p disk_state \<Rightarrow> store_error + 'a \<times> 'p disk_state) \<Rightarrow> ('p, 'a) body" where
  "with_user i f d = (case userIndexLocked i d of None \<Rightarrow> Inl ErrNotFound | Some k \<Rightarrow> f k (d_Users d ! k) d)"

text \<open>\<open>advanceCredentialVersion(&s.data.Users[k])\<close> followed by more assignments to that user.\<close>

definition advance_user :: "string option \<Rightarrow> nat \<Rightarrow> (user \<Rightarrow> user) \<Rightarrow> 'p disk_state \<Rightarrow> store_error + 'p disk_state" where
  "advance_user rnd k f d = (case advanceCredentialVersion rnd (d_Users d ! k) of Inl e \<Rightarrow> Inl e
     | Inr u \<Rightarrow> Inr (d\<lparr>d_Users := (d_Users d)[k := f u]\<rparr>))"

text \<open>The credential mutators end by revoking every session of the account.\<close>

definition advance_and_revoke ::
    "string option \<Rightarrow> nat \<Rightarrow> (user \<Rightarrow> user) \<Rightarrow> string \<Rightarrow> ('p, unit) body" where
  "advance_and_revoke rnd k f i d = (case advance_user rnd k f d of Inl e \<Rightarrow> Inl e
     | Inr d' \<Rightarrow> Inr ((), revokeUserSessionsLocked i d'))"

definition ReplaceUserAvatar :: "string \<Rightarrow> string \<Rightarrow> gotime \<Rightarrow> ('p, unit) body" where
  "ReplaceUserAvatar userID avatar updatedAt d =
     (case validateUserAvatar avatar of Some e \<Rightarrow> Inl e
      | None \<Rightarrow> with_user userID (\<lambda>k u d. Inr ((), d\<lparr>d_Users := (d_Users d)[k :=
          u\<lparr>u_Avatar := avatar, u_UpdatedAt := updatedAt\<rparr>]\<rparr>)) d)"

definition ReplaceUserPassword :: "string option \<Rightarrow> string \<Rightarrow> string \<Rightarrow> string \<Rightarrow> gotime \<Rightarrow> ('p, unit) body" where
  "ReplaceUserPassword rnd userID expectedHash newHash updatedAt = with_user userID (\<lambda>k u d.
     if u_PasswordHash u \<noteq> expectedHash then Inl ErrConflict
     else advance_and_revoke rnd k (\<lambda>u. u\<lparr>u_PasswordHash := newHash, u_UpdatedAt := updatedAt\<rparr>) userID d)"

definition ReplaceUserUsername :: "genv \<Rightarrow> string option \<Rightarrow> string \<Rightarrow> string \<Rightarrow> string \<Rightarrow> gotime \<Rightarrow> ('p, unit) body" where
  "ReplaceUserUsername G rnd userID expectedUsername newUsername updatedAt = with_user userID (\<lambda>k u d.
     if u_Username u \<noteq> expectedUsername then Inl ErrConflict
     else if list_ex (\<lambda>j. j \<noteq> k \<and> equal_fold G (u_Username (d_Users d ! j)) newUsername) [0..<length (d_Users d)]
     then Inl ErrAlreadyExists
     else advance_and_revoke rnd k (\<lambda>u. u\<lparr>u_Username := newUsername, u_UpdatedAt := updatedAt\<rparr>) userID d)"

definition EnableUserTOTP ::
    "string option \<Rightarrow> string \<Rightarrow> string \<Rightarrow> 64 word \<Rightarrow> string \<Rightarrow> gotime \<Rightarrow> int \<Rightarrow> string list \<Rightarrow> ('p, unit) body" where
  "EnableUserTOTP rnd userID expectedEpoch expectedVersion encryptedSecret enabledAt lastUsedStep recoveryHashes =
     with_user userID (\<lambda>k u d.
       if u_TOTPSecret u \<noteq> [] \<or> u_CredentialEpoch u \<noteq> expectedEpoch \<or> u_CredentialVersion u \<noteq> expectedVersion
       then Inl ErrConflict
       else advance_and_revoke rnd k (\<lambda>u. u\<lparr>u_TOTPSecret := encryptedSecret, u_TOTPEnabledAt := Some enabledAt,
           u_TOTPLastUsedStep := lastUsedStep, u_TOTPRecoveryCodeHashes := recoveryHashes,
           u_UpdatedAt := enabledAt\<rparr>) userID d)"

definition ConsumeUserTOTPStep :: "genv \<Rightarrow> string \<Rightarrow> string \<Rightarrow> int \<Rightarrow> gotime \<Rightarrow> ('p, unit) body" where
  "ConsumeUserTOTPStep G userID expectedSecret step updatedAt = with_user userID (\<lambda>k u d.
     if u_TOTPSecret u = [] \<or> \<not> secureStringEqual G (u_TOTPSecret u) expectedSecret \<or> step \<le> u_TOTPLastUsedStep u
     then Inl ErrConflict
     else Inr ((), d\<lparr>d_Users := (d_Users d)[k := u\<lparr>u_TOTPLastUsedStep := step, u_UpdatedAt := updatedAt\<rparr>]\<rparr>))"

text \<open>The loop keeps the last matching index.\<close>

definition last_index_of :: "('a \<Rightarrow> bool) \<Rightarrow> 'a list \<Rightarrow> nat option" where
  "last_index_of P xs = map_option (\<lambda>i. length xs - 1 - i) (index_of P (rev xs))"

definition ConsumeUserRecoveryCode :: "string \<Rightarrow> string \<Rightarrow> gotime \<Rightarrow> ('p, unit) body" where
  "ConsumeUserRecoveryCode userID codeHash updatedAt = with_user userID (\<lambda>k u d.
     case last_index_of (\<lambda>c. c = codeHash) (u_TOTPRecoveryCodeHashes u) of None \<Rightarrow> Inl ErrNotFound
     | Some m \<Rightarrow> Inr ((), d\<lparr>d_Users := (d_Users d)[k := u\<lparr>
         u_TOTPRecoveryCodeHashes := remove_nth m (u_TOTPRecoveryCodeHashes u), u_UpdatedAt := updatedAt\<rparr>]\<rparr>))"

definition ReplaceUserRecoveryCodes :: "string option \<Rightarrow> string \<Rightarrow> string list \<Rightarrow> gotime \<Rightarrow> ('p, unit) body" where
  "ReplaceUserRecoveryCodes rnd userID recoveryHashes updatedAt = with_user userID (\<lambda>k u d.
     if u_TOTPSecret u = [] then Inl ErrConflict
     else advance_and_revoke rnd k (\<lambda>u. u\<lparr>u_TOTPRecoveryCodeHashes := recoveryHashes,
         u_UpdatedAt := updatedAt\<rparr>) userID d)"

definition clear_totp :: "user \<Rightarrow> user" where
  "clear_totp u = u\<lparr>u_TOTPSecret := [], u_TOTPEnabledAt := None, u_TOTPLastUsedStep := 0,
     u_TOTPRecoveryCodeHashes := []\<rparr>"

definition DisableUserTOTP :: "string option \<Rightarrow> string \<Rightarrow> gotime \<Rightarrow> ('p, unit) body" where
  "DisableUserTOTP rnd userID updatedAt = with_user userID (\<lambda>k u d.
     if u_TOTPSecret u = [] then Inl ErrConflict
     else advance_and_revoke rnd k (\<lambda>u. clear_totp u\<lparr>u_UpdatedAt := updatedAt\<rparr>) userID d)"

end
