(* ===== verification/LoginLedger.thy ===== *)
theory LoginLedger
  imports StoreUsers
begin

text \<open>
  The bounded login attempt history of \<open>internal/store/store.go\<close>: the two capacity pools, the
  expiry window, the all-or-nothing recording of several attempts and the failure count a key's
  rate limit is decided on.
\<close>

definition maxLoginAttempts :: nat where "maxLoginAttempts = 4096"
definition maxUserScopedLoginAttempts :: nat where "maxUserScopedLoginAttempts = 1024"

definition userScopedLoginAttemptPrefixes :: "string list" where
  "userScopedLoginAttemptPrefixes = [''reauth:'', ''passkey-reauth:'', ''passkey-second-factor:'']"

definition UserScopedLoginAttempt :: "string \<Rightarrow> bool" where
  "UserScopedLoginAttempt key = list_ex (has_prefix key) userScopedLoginAttemptPrefixes"

text \<open>The records of the table, apart from the state around it.\<close>

type_synonym ledger = "login_attempt list"

definition active :: "gotime \<Rightarrow> ledger \<Rightarrow> ledger" where
  "active since l = filter (\<lambda>a. since < la_OccurredAt a) l"

definition scoped_count :: "ledger \<Rightarrow> nat" where
  "scoped_count l = count_if (\<lambda>a. UserScopedLoginAttempt (la_Key a)) l"

definition unauth_count :: "ledger \<Rightarrow> nat" where
  "unauth_count l = count_if (\<lambda>a. \<not> UserScopedLoginAttempt (la_Key a)) l"

definition record_attempts :: "login_attempt list \<Rightarrow> gotime \<Rightarrow> ledger \<Rightarrow> store_error + ledger" where
  "record_attempts attempts retainSince l =
     (let filtered = active retainSince l;
          userScoped = scoped_count filtered + scoped_count attempts;
          unauthenticated = unauth_count filtered + unauth_count attempts in
      if maxUserScopedLoginAttempts < userScoped \<or> maxLoginAttempts < unauthenticated then Inl ErrLimitReached
      else Inr (filtered @ attempts))"

definition recordLoginAttemptsLocked ::
    "login_attempt list \<Rightarrow> gotime \<Rightarrow> 'p disk_state \<Rightarrow> store_error + 'p disk_state" where
  "recordLoginAttemptsLocked attempts retainSince d =
     (case record_attempts attempts retainSince (d_LoginAttempts d) of Inl e \<Rightarrow> Inl e
      | Inr l \<Rightarrow> Inr (d\<lparr>d_LoginAttempts := l\<rparr>))"

definition RecordLoginAttempts :: "login_attempt list \<Rightarrow> gotime \<Rightarrow> ('p, unit) body" where
  "RecordLoginAttempts attempts retainSince d =
     (case recordLoginAttemptsLocked attempts retainSince d of Inl e \<Rightarrow> Inl e | Inr d' \<Rightarrow> Inr ((), d'))"

definition RecordLoginAttempt :: "login_attempt \<Rightarrow> gotime \<Rightarrow> ('p, unit) body" where
  "RecordLoginAttempt attempt = RecordLoginAttempts [attempt]"

definition attempt_room :: "gotime \<Rightarrow> ledger \<Rightarrow> int" where
  "attempt_room retainSince l = int maxLoginAttempts -
     int (count_if (\<lambda>a. retainSince < la_OccurredAt a \<and> \<not> UserScopedLoginAttempt (la_Key a)) l)"

definition UnauthenticatedLoginAttemptRoom :: "gotime \<Rightarrow> 'p store \<Rightarrow> int" where
  "UnauthenticatedLoginAttemptRoom retainSince s = attempt_room retainSince (d_LoginAttempts (st_data s))"

text \<open>The latest recorded success of the key after \<open>since\<close>, else \<open>since\<close>.\<close>

definition latest_success :: "string \<Rightarrow> gotime \<Rightarrow> ledger \<Rightarrow> gotime" where
  "latest_success key since l =
     fold (\<lambda>a t. if la_Key a = key \<and> la_Success a \<and> t < la_OccurredAt a then la_OccurredAt a else t) l since"

definition failed_count :: "string \<Rightarrow> gotime \<Rightarrow> ledger \<Rightarrow> nat" where
  "failed_count key since l =
     count_if (\<lambda>a. la_Key a = key \<and> \<not> la_Success a \<and> latest_success key since l < la_OccurredAt a) l"

definition FailedLoginCount :: "string \<Rightarrow> gotime \<Rightarrow> 'p store \<Rightarrow> nat" where
  "FailedLoginCount key since s = failed_count key since (d_LoginAttempts (st_data s))"

section \<open>Facts\<close>

definition ledger_ok :: "ledger \<Rightarrow> bool" where
  "ledger_ok l = (scoped_count l \<le> maxUserScopedLoginAttempts \<and> unauth_count l \<le> maxLoginAttempts)"

lemma scoped_count_append [ledger_simps]: "scoped_count (l @ m) = scoped_count l + scoped_count m"
  and unauth_count_append [ledger_simps]: "unauth_count (l @ m) = unauth_count l + unauth_count m"
  by (simp_all add: scoped_count_def unauth_count_def)

lemma record_attempts_Inr:
  "record_attempts as t l = Inr l' \<longleftrightarrow> l' = active t l @ as \<and> ledger_ok l'"
  by (auto simp: record_attempts_def Let_def ledger_ok_def ledger_simps)

lemma record_attempts_Inl:
  "record_attempts as t l = Inl e \<longleftrightarrow> e = ErrLimitReached \<and> \<not> ledger_ok (active t l @ as)"
  by (auto simp: record_attempts_def Let_def ledger_ok_def ledger_simps)

lemma unauth_count_active: "attempt_room t l = int maxLoginAttempts - int (unauth_count (active t l))"
  by (simp add: attempt_room_def unauth_count_def active_def count_if_filter)

lemma scoped_plus_unauth: "scoped_count l + unauth_count l = length l"
  by (induction l) (auto simp: scoped_count_def unauth_count_def)

lemma latest_success_ge: "since \<le> latest_success key since l"
proof (induction l arbitrary: since)
  case Nil
  then show ?case by (simp add: latest_success_def)
next
  case (Cons a l)
  show ?case
  proof (cases "la_Key a = key \<and> la_Success a \<and> since < la_OccurredAt a")
    case True
    with Cons [of "la_OccurredAt a"] show ?thesis by (simp add: latest_success_def)
  next
    case False
    with Cons [of since] show ?thesis by (auto simp: latest_success_def)
  qed
qed

lemma latest_success_append:
  "latest_success key since (l @ m) = latest_success key (latest_success key since l) m"
  by (simp add: latest_success_def)

lemma latest_success_Cons:
  "latest_success key since (a # l) = latest_success key
     (if la_Key a = key \<and> la_Success a \<and> since < la_OccurredAt a then la_OccurredAt a else since) l"
  by (simp add: latest_success_def)

lemma latest_success_none:
  "(\<And>a. a \<in> set m \<Longrightarrow> la_Key a = key \<Longrightarrow> \<not> la_Success a) \<Longrightarrow> latest_success key t m = t"
  by (induction m) (auto simp: latest_success_def)

text \<open>Expiry never changes what a window inside the retention window sees.\<close>

lemma latest_success_active:
  "t \<le> since \<Longrightarrow> latest_success key since (active t l) = latest_success key since l"
proof (induction l arbitrary: since)
  case Nil
  then show ?case by (simp add: active_def)
next
  case (Cons a l)
  have act: "active t (a # l) = (if t < la_OccurredAt a then a # active t l else active t l)"
    by (simp add: active_def)
  show ?case
  proof (cases "t < la_OccurredAt a")
    case True
    with Cons.prems Cons.IH [of "la_OccurredAt a"] Cons.IH [of since] show ?thesis
      by (simp add: act latest_success_Cons)
  next
    case False
    with Cons.prems Cons.IH [of since] show ?thesis by (simp add: act latest_success_Cons)
  qed
qed

lemma failed_count_active:
  assumes "t \<le> since"
  shows "failed_count key since (active t l) = failed_count key since l"
proof -
  have ge: "t \<le> latest_success key since l"
    using latest_success_ge [of since key l] assms by linarith
  show ?thesis
    unfolding failed_count_def latest_success_active [OF assms] unfolding active_def count_if_filter
    by (intro antisym count_if_mono) (use ge in auto)
qed

lemma failed_count_append_failures:
  assumes "\<And>a. a \<in> set as \<Longrightarrow> la_Key a = key \<Longrightarrow> \<not> la_Success a"
  shows "failed_count key since (l @ as) = failed_count key since l +
    count_if (\<lambda>a. la_Key a = key \<and> latest_success key since l < la_OccurredAt a) as"
proof -
  have "count_if (\<lambda>a. la_Key a = key \<and> \<not> la_Success a \<and> latest_success key since l < la_OccurredAt a) as =
      count_if (\<lambda>a. la_Key a = key \<and> latest_success key since l < la_OccurredAt a) as"
    by (intro antisym count_if_mono) (use assms in auto)
  then show ?thesis
    using assms by (simp add: failed_count_def latest_success_append latest_success_none)
qed

lemma failed_count_le_length: "failed_count key since l \<le> length l"
  by (simp add: failed_count_def count_if_le_length)

lemma failed_count_Nil [simp]: "failed_count key since [] = 0"
  by (simp add: failed_count_def)

end
