(* ===== verification/StoreSessions.thy ===== *)
theory StoreSessions
  imports LoginLedger AuditLog
begin

text \<open>
  The session table of \<open>internal/store/store.go\<close>, the login commit that couples it with the
  attempt history, and the local password recovery that couples it with the audit history.
  \<open>wall\<close> is \<open>time.Now().UTC()\<close> as \<open>putSessionLocked\<close> reads it.
\<close>

definition maxRetainedSessions :: nat where "maxRetainedSessions = 128"

definition put_session :: "gotime \<Rightarrow> session \<Rightarrow> session list \<Rightarrow> session list" where
  "put_session wall x xs =
     (let filtered = filter (\<lambda>item. s_TokenHash item \<noteq> s_TokenHash x \<and> wall < s_ExpiresAt item) xs @ [x] in
      if maxRetainedSessions < length filtered then last_n maxRetainedSessions filtered else filtered)"

definition putSessionLocked :: "gotime \<Rightarrow> session \<Rightarrow> 'p disk_state \<Rightarrow> 'p disk_state" where
  "putSessionLocked wall x d = d\<lparr>d_Sessions := put_session wall x (d_Sessions d)\<rparr>"

definition PutSession :: "gotime \<Rightarrow> session \<Rightarrow> ('p, unit) body" where
  "PutSession wall x d = Inr ((), putSessionLocked wall x d)"

definition PutLoginSession ::
    "genv \<Rightarrow> gotime \<Rightarrow> user \<Rightarrow> session \<Rightarrow> login_attempt list \<Rightarrow> gotime \<Rightarrow> ('p, unit) body" where
  "PutLoginSession G wall expected x attempts retainSince d =
     (case userIndexLocked (u_ID expected) d of None \<Rightarrow> Inl ErrConflict
      | Some k \<Rightarrow>
          if s_UserID x \<noteq> u_ID expected then Inl ErrConflict
          else if \<not> sameCredential G (d_Users d ! k) expected then Inl ErrConflict
          else (case recordLoginAttemptsLocked attempts retainSince d of Inl e \<Rightarrow> Inl e
            | Inr d' \<Rightarrow> Inr ((), putSessionLocked wall x d')))"

definition session_by_hash :: "string \<Rightarrow> gotime \<Rightarrow> session list \<Rightarrow> session option" where
  "session_by_hash h now xs = List.find (\<lambda>x. s_TokenHash x = h \<and> now < s_ExpiresAt x) xs"

definition SessionByTokenHash :: "string \<Rightarrow> gotime \<Rightarrow> 'p store \<Rightarrow> store_error + session" where
  "SessionByTokenHash h now s = (case session_by_hash h now (d_Sessions (st_data s)) of
     None \<Rightarrow> Inl ErrNotFound | Some x \<Rightarrow> Inr x)"

definition RevokeAllSessions :: "('p, unit) body" where
  "RevokeAllSessions d = Inr ((), d\<lparr>d_Sessions := []\<rparr>)"

definition delete_session :: "string \<Rightarrow> ('p, unit) body" where
  "delete_session h d = Inr ((), d\<lparr>d_Sessions := filter (\<lambda>x. s_TokenHash x \<noteq> h) (d_Sessions d)\<rparr>)"

text \<open>Nothing is written where no session has the hash.\<close>

definition DeleteSession :: "'p world \<Rightarrow> string \<Rightarrow> 'p store \<Rightarrow> (store_error + unit) \<times> 'p store" where
  "DeleteSession W h s =
     (if list_ex (\<lambda>x. s_TokenHash x = h) (d_Sessions (st_data s)) then mutate W (delete_session h) s
      else (Inr (), s))"

section \<open>Audit access\<close>

definition AppendAudit :: "audit_io \<Rightarrow> audit_event \<Rightarrow> int \<Rightarrow> 'p store \<Rightarrow> store_error option \<times> 'p store" where
  "AppendAudit io event maxEntries s =
     (case audit_append io [event] maxEntries False (st_audit s) of (r, l) \<Rightarrow> (r, s\<lparr>st_audit := l\<rparr>))"

definition ListAudit :: "bool \<Rightarrow> int \<Rightarrow> string \<Rightarrow> 'p store \<Rightarrow> store_error + (audit_event list \<times> string)" where
  "ListAudit ok limit cursor s = audit_list ok limit cursor (st_audit s)"

section \<open>Local password recovery\<close>

record password_recovery =
  pr_UserID :: string
  pr_ExpectedHash :: string
  pr_NewHash :: string
  pr_DisableTOTP :: bool
  pr_UpdatedAt :: gotime
  pr_AuditEvent :: audit_event
  pr_MaxAuditEntries :: int

definition recovered_user :: "password_recovery \<Rightarrow> user \<Rightarrow> user" where
  "recovered_user input u =
     (let v = u\<lparr>u_Passkeys := [], u_PasswordHash := pr_NewHash input, u_UpdatedAt := pr_UpdatedAt input\<rparr> in
      if pr_DisableTOTP input then clear_totp v else v)"

definition recover_body :: "string option \<Rightarrow> password_recovery \<Rightarrow> ('p, unit) body" where
  "recover_body rnd input = with_user (pr_UserID input) (\<lambda>k u d.
     case advance_user rnd k (recovered_user input) d of Inl e \<Rightarrow> Inl e
     | Inr d' \<Rightarrow> Inr ((), (revokeUserSessionsLocked (u_ID u) d')\<lparr>d_LoginAttempts := []\<rparr>))"

definition failure_event :: "audit_event \<Rightarrow> audit_event" where
  "failure_event e = e\<lparr>ae_ID := ae_ID e @ '':failed'', ae_Result := ''failure''\<rparr>"

text \<open>
  The recovery is audited before the credential changes, and a failed write is audited again.
  \<open>io1\<close> and \<open>io2\<close> are the outcomes of the two audit transactions.
\<close>

definition RecoverUserPassword ::
    "'p world \<Rightarrow> audit_io \<Rightarrow> audit_io \<Rightarrow> string option \<Rightarrow> password_recovery \<Rightarrow> 'p store \<Rightarrow>
     (store_error + unit) \<times> 'p store" where
  "RecoverUserPassword W io1 io2 rnd input s =
     (case userIndexLocked (pr_UserID input) (st_data s) of
        None \<Rightarrow> (Inl ErrNotFound, s)
      | Some k \<Rightarrow>
          if u_PasswordHash (d_Users (st_data s) ! k) \<noteq> pr_ExpectedHash input then (Inl ErrConflict, s)
          else
            case AppendAudit io1 (pr_AuditEvent input) (pr_MaxAuditEntries input) s of
              (Some e, s1) \<Rightarrow> (Inl e, s1)
            | (None, s1) \<Rightarrow>
                (case recover_body rnd input (st_data s1) of
                   Inl e \<Rightarrow> (Inl e, s1)
                 | Inr (r, d) \<Rightarrow>
                     (case commit W d r s1 of
                        (Inr r, s2) \<Rightarrow> (Inr r, s2)
                      | (Inl e, s2) \<Rightarrow>
                          (Inl e, snd (AppendAudit io2 (failure_event (pr_AuditEvent input))
                             (pr_MaxAuditEntries input) s2)))))"

section \<open>Facts on the table\<close>

lemma put_session_length: "length (put_session wall x xs) \<le> max 1 maxRetainedSessions"
  by (simp add: put_session_def Let_def maxRetainedSessions_def)

lemma put_session_mem: "x \<in> set (put_session wall x xs)"
  by (simp add: put_session_def Let_def last_n_snoc maxRetainedSessions_def)

lemma put_session_subset: "set (put_session wall x xs) \<subseteq> insert x (set xs)"
  by (auto simp: put_session_def Let_def maxRetainedSessions_def dest!: set_last_n [THEN subsetD])

lemma put_session_snoc:
  "put_session wall x xs = last_n (maxRetainedSessions - 1)
     (filter (\<lambda>item. s_TokenHash item \<noteq> s_TokenHash x \<and> wall < s_ExpiresAt item) xs) @ [x]"
  by (auto simp: put_session_def Let_def last_n_snoc maxRetainedSessions_def last_n_def)

lemma distinct_map_last_n: "distinct (map f xs) \<Longrightarrow> distinct (map f (last_n n xs))"
  unfolding last_n_def drop_map [symmetric] by (rule distinct_drop)

lemma put_session_distinct:
  "distinct (map s_TokenHash xs) \<Longrightarrow> distinct (map s_TokenHash (put_session wall x xs))"
proof -
  assume d: "distinct (map s_TokenHash xs)"
  let ?f = "filter (\<lambda>item. s_TokenHash item \<noteq> s_TokenHash x \<and> wall < s_ExpiresAt item) xs"
  have "distinct (map s_TokenHash ?f)" using d by (rule distinct_map_filter)
  then have "distinct (map s_TokenHash (last_n (maxRetainedSessions - 1) ?f))" by (rule distinct_map_last_n)
  moreover have "s_TokenHash x \<notin> s_TokenHash ` set (last_n (maxRetainedSessions - 1) ?f)"
    using set_last_n [of "maxRetainedSessions - 1" ?f] by auto
  ultimately show ?thesis by (simp add: put_session_snoc)
qed

text \<open>With distinct hashes the search finds the one session of a hash.\<close>

lemma session_by_hash_Some:
  "distinct (map s_TokenHash xs) \<Longrightarrow> session_by_hash h now xs = Some x \<longleftrightarrow>
     x \<in> set xs \<and> s_TokenHash x = h \<and> now < s_ExpiresAt x"
  by (induction xs) (auto simp: session_by_hash_def image_iff split: if_splits)

lemma session_by_hash_None:
  "session_by_hash h now xs = None \<longleftrightarrow> (\<forall>x\<in>set xs. s_TokenHash x \<noteq> h \<or> s_ExpiresAt x \<le> now)"
  by (auto simp: session_by_hash_def find_None_iff not_less)

lemma session_by_hash_SomeD:
  "session_by_hash h now xs = Some x \<Longrightarrow> x \<in> set xs \<and> s_TokenHash x = h \<and> now < s_ExpiresAt x"
  by (auto simp: session_by_hash_def dest: find_SomeD)

end
