(* ===== verification/GoTime.thy ===== *)
theory GoTime
  imports GoEncodings "HOL-Library.Monad_Syntax"
begin

text \<open>
  The part of Go's \<open>time\<close> package the code prints with: the civil date of a day number and
  \<open>Format(time.RFC3339Nano)\<close> of a UTC time; and \<open>Parse(time.RFC3339, s)\<close>, read as the instant in UTC.
\<close>

text \<open>Days since the Unix epoch to (year, month, day) of the proleptic Gregorian calendar.\<close>

definition civil_from_days :: "int \<Rightarrow> int \<times> int \<times> int" where
  "civil_from_days z0 =
     (let z = z0 + 719468;
          era = z div 146097;
          doe = z mod 146097;
          yoe = (doe - doe div 1460 + doe div 36524 - doe div 146096) div 365;
          doy = doe - (365 * yoe + yoe div 4 - yoe div 100);
          mp = (5 * doy + 2) div 153;
          d = doy - (153 * mp + 2) div 5 + 1;
          m = (if mp < 10 then mp + 3 else mp - 9)
      in (yoe + era * 400 + (if m \<le> 2 then 1 else 0), m, d))"

text \<open>\<open>appendInt\<close>: zero padded to \<open>w\<close> digits, a minus sign in front.\<close>

definition show_padded :: "nat \<Rightarrow> int \<Rightarrow> string" where
  "show_padded w n =
     (let ds = show_nat (nat \<bar>n\<bar>) in
      (if n < 0 then ''-'' else []) @ replicate (w - length ds) (CHR ''0'') @ ds)"

text \<open>The \<open>.999999999\<close> of the layout: no fraction at all when it is zero, no trailing zeros.\<close>

definition show_fraction :: "int \<Rightarrow> string" where
  "show_fraction n =
     (if n = 0 then []
      else CHR ''.'' # rev (dropWhile (\<lambda>c. c = CHR ''0'') (rev (show_padded 9 n))))"

definition rfc3339nano :: "gotime \<Rightarrow> string" where
  "rfc3339nano t =
     (let s = t div Second; ns = t mod Second; sod = s mod 86400
      in case civil_from_days (s div 86400) of (y, m, d) \<Rightarrow>
        show_padded 4 y @ ''-'' @ show_padded 2 m @ ''-'' @ show_padded 2 d @ ''T'' @
        show_padded 2 (sod div 3600) @ '':'' @ show_padded 2 (sod div 60 mod 60) @ '':'' @
        show_padded 2 (sod mod 60) @ show_fraction ns @ ''Z'')"

lemma rfc3339nano_examples:
  "civil_from_days 0 = (1970, 1, 1)"
  "civil_from_days 19782 = (2024, 2, 29)"
  "civil_from_days (zero_time div Second div 86400) = (1, 1, 1)"
  by code_simp+

text \<open>\<open>Format(time.RFC3339)\<close> of a UTC time: no fraction of a second.\<close>

definition rfc3339 :: "gotime \<Rightarrow> string" where
  "rfc3339 t = rfc3339nano (t div Second * Second)"

section \<open>Parsing\<close>

definition days_from_civil :: "int \<Rightarrow> int \<Rightarrow> int \<Rightarrow> int" where
  "days_from_civil y0 m d =
     (let y = (if m \<le> 2 then y0 - 1 else y0);
          yoe = y mod 400;
          doy = (153 * (if 2 < m then m - 3 else m + 9) + 2) div 5 + d - 1
      in y div 400 * 146097 + yoe * 365 + yoe div 4 - yoe div 100 + doy - 719468)"

definition days_in :: "int \<Rightarrow> int \<Rightarrow> int" where
  "days_in m y =
     (if m = 2 then if y mod 4 = 0 \<and> (y mod 100 \<noteq> 0 \<or> y mod 400 = 0) then 29 else 28
      else if m \<in> {4, 6, 9, 11} then 30 else 31)"

text \<open>
  \<open>getnum(s, fixed)\<close>: one or two digits. The layout asks for two everywhere except for the hour, where one is enough.
\<close>

definition getnum :: "string \<Rightarrow> bool \<Rightarrow> (int \<times> string) option" where
  "getnum s fixed =
     (case s of [] \<Rightarrow> None
      | a # r \<Rightarrow>
          if \<not> is_digit a then None
          else case r of
            b # r2 \<Rightarrow> if is_digit b then Some (int (digits_val [a, b]), r2) else if fixed then None else Some (int (digits_val [a]), r)
          | [] \<Rightarrow> if fixed then None else Some (int (digits_val [a]), []))"

definition skip_char :: "char \<Rightarrow> string \<Rightarrow> string option" where
  "skip_char c s = (case s of a # r \<Rightarrow> if a = c then Some r else None | [] \<Rightarrow> None)"

definition check_that :: "bool \<Rightarrow> unit option" where
  "check_that b = (if b then Some () else None)"

text \<open>A fraction behind the seconds, which the layout does not name; nine digits of it count.\<close>

definition take_fraction :: "string \<Rightarrow> int \<times> string" where
  "take_fraction s =
     (case s of
        p # d # r \<Rightarrow>
          if (p = CHR ''.'' \<or> p = CHR '','') \<and> is_digit d
          then
            let ds = takeWhile is_digit (d # r); used = take 9 ds
            in (int (digits_val used * 10 ^ (9 - length used)), dropWhile is_digit (d # r))
          else (0, s)
      | _ \<Rightarrow> (0, s))"

text \<open>The offset in seconds: \<open>Z\<close>, or a sign with hours to 24 and minutes to 60.\<close>

definition take_zone :: "string \<Rightarrow> (int \<times> string) option" where
  "take_zone s =
     (if has_prefix s ''Z'' then Some (0, tl s)
      else if length s < 6 \<or> s ! 3 \<noteq> CHR '':'' then None
      else do {
        (hr, _) \<leftarrow> getnum (take 2 (drop 1 s)) True;
        (mm, _) \<leftarrow> getnum (take 2 (drop 4 s)) True;
        _ \<leftarrow> check_that (hr \<le> 24 \<and> mm \<le> 60);
        let off = (hr * 60 + mm) * 60;
        (if s ! 0 = CHR ''+'' then Some (off, drop 6 s) else if s ! 0 = CHR ''-'' then Some (- off, drop 6 s) else None)
      })"

definition parse_rfc3339 :: "string \<Rightarrow> gotime option" where
  "parse_rfc3339 s0 = do {
     _ \<leftarrow> check_that (4 \<le> length s0 \<and> list_all is_digit (take 4 s0));
     let year = int (digits_val (take 4 s0));
     s1 \<leftarrow> skip_char (CHR ''-'') (drop 4 s0);
     (month, s2) \<leftarrow> getnum s1 True;
     _ \<leftarrow> check_that (0 < month \<and> month \<le> 12);
     s3 \<leftarrow> skip_char (CHR ''-'') s2;
     (day, s4) \<leftarrow> getnum s3 True;
     s5 \<leftarrow> skip_char (CHR ''T'') s4;
     (hour, s6) \<leftarrow> getnum s5 False;
     _ \<leftarrow> check_that (hour < 24);
     s7 \<leftarrow> skip_char (CHR '':'') s6;
     (minute, s8) \<leftarrow> getnum s7 True;
     _ \<leftarrow> check_that (minute < 60);
     s9 \<leftarrow> skip_char (CHR '':'') s8;
     (sec, s10) \<leftarrow> getnum s9 True;
     _ \<leftarrow> check_that (sec < 60);
     let (nsec, s11) = take_fraction s10;
     (off, s12) \<leftarrow> take_zone s11;
     _ \<leftarrow> check_that (s12 = []);
     _ \<leftarrow> check_that (1 \<le> day \<and> day \<le> days_in month year);
     Some ((days_from_civil year month day * 86400 + hour * 3600 + minute * 60 + sec - off) * Second + nsec)
   }"

text \<open>One rule per case, for evaluation.\<close>

lemma parse_steps_simps:
  "is_digit a \<Longrightarrow> is_digit b \<Longrightarrow> getnum (a # b # r) f = Some (int (10 * (byte a - 48) + (byte b - 48)), r)"
  "is_digit a \<Longrightarrow> \<not> is_digit b \<Longrightarrow> getnum (a # b # r) False = Some (int (byte a - 48), b # r)"
  "skip_char c (c # r) = Some r" "c \<noteq> d \<Longrightarrow> skip_char c (d # r) = None"
  "check_that True = Some ()" "check_that False = None"
  "take_fraction (CHR ''Z'' # r) = (0, CHR ''Z'' # r)" "take_zone (CHR ''Z'' # r) = Some (0, r)"
  "take_fraction (CHR ''-'' # r) = (0, CHR ''-'' # r)"
  by (simp_all add: getnum_def digits_val_def skip_char_def check_that_def take_fraction_def take_zone_def has_prefix_def split: list.split)

lemma digit_simps: "is_digit c = (48 \<le> (of_char c :: nat) \<and> (of_char c :: nat) \<le> 57)"
  by (simp add: is_digit_def byte_def)

text \<open>
  What the parser accepts beyond the form that is printed, and a time whose form in UTC has a year that does not
  parse.
\<close>

lemma parse_rfc3339_examples:
  "parse_rfc3339 ''2024-02-29T7:00:00,5+01:30'' = Some ((19782 * 86400 + 19800) * Second + 500000000)"
  "parse_rfc3339 ''2023-02-29T07:00:00Z'' = None"
  "map_option rfc3339 (parse_rfc3339 ''9999-12-31T23:30:00-01:00'') = Some ''10000-01-01T00:30:00Z''"
  "parse_rfc3339 ''10000-01-01T00:30:00Z'' = None"
proof -
  have d: "days_from_civil 2024 2 29 = 19782" "days_from_civil 9999 12 31 = 2932896" by code_simp+
  have f: "take_fraction '',5+01:30'' = (500000000, ''+01:30'')" by (simp add: take_fraction_def digit_simps digits_val_def byte_def)
  have z: "take_zone ''+01:30'' = Some (5400, [])" "take_zone ''-01:00'' = Some (- 3600, [])"
    by (simp_all add: take_zone_def has_prefix_def parse_steps_simps digit_simps byte_def)
  show "parse_rfc3339 ''2024-02-29T7:00:00,5+01:30'' = Some ((19782 * 86400 + 19800) * Second + 500000000)"
    by (simp add: parse_rfc3339_def parse_steps_simps digit_simps f z byte_def digits_val_def days_in_def d)
  show "parse_rfc3339 ''2023-02-29T07:00:00Z'' = None" "parse_rfc3339 ''10000-01-01T00:30:00Z'' = None"
    by (simp_all add: parse_rfc3339_def parse_steps_simps digit_simps byte_def digits_val_def days_in_def)
  have t: "parse_rfc3339 ''9999-12-31T23:30:00-01:00'' = Some (253402302600 * Second)"
    by (simp add: parse_rfc3339_def parse_steps_simps digit_simps z byte_def digits_val_def days_in_def d Second_def)
  have p: "show_padded 4 10000 = ''10000''" "show_padded 2 1 = ''01''" "show_padded 2 0 = ''00''" "show_padded 2 30 = ''30''"
  proof -
    have n: "show_nat 10 = ''10''" "show_nat 1 = ''1''" "show_nat 0 = ''0''" "show_nat 30 = ''30''" by code_simp+
    have z: "char_of (48::nat) = CHR ''0''" by code_simp
    have "show_nat 100 = ''100''" by (subst show_nat.simps) (simp add: n z)
    then have "show_nat 1000 = ''1000''" by (subst show_nat.simps) (simp add: z)
    then have "show_nat 10000 = ''10000''" by (subst show_nat.simps) (simp add: z)
    with n show "show_padded 4 10000 = ''10000''" "show_padded 2 1 = ''01''" "show_padded 2 0 = ''00''" "show_padded 2 30 = ''30''"
      by (simp_all add: show_padded_def)
  qed
  have c: "civil_from_days 2932897 = (10000, 1, 1)" by code_simp
  show "map_option rfc3339 (parse_rfc3339 ''9999-12-31T23:30:00-01:00'') = Some ''10000-01-01T00:30:00Z''"
    unfolding t by (simp add: rfc3339_def rfc3339nano_def Second_def c p show_fraction_def)
qed

section \<open>The printed form is plain ASCII\<close>

lemma show_padded_printable: "printable (show_padded w n)"
proof -
  have "printable (show_nat (nat \<bar>n\<bar>))" using show_nat_digits digits_printable by blast
  moreover have "printable (replicate k (CHR ''0''))" for k by (simp add: printable_def list_all_iff byte_def)
  ultimately show ?thesis by (simp add: show_padded_def Let_def) (simp add: printable_def byte_def)
qed

lemma show_fraction_printable: "printable (show_fraction n)"
proof -
  have "printable (rev (dropWhile p (rev s)))" if "printable s" for s p
    using that set_dropWhileD [of _ p "rev s"] by (auto simp: printable_def list_all_iff)
  then have "printable (rev (dropWhile (\<lambda>c. c = CHR ''0'') (rev (show_padded 9 n))))" using show_padded_printable by blast
  then show ?thesis by (simp add: show_fraction_def printable_def byte_def)
qed

lemma rfc3339nano_printable: "printable (rfc3339nano t)"
proof -
  have p: "printable (show_padded w n @ r) = printable r" for w n r using show_padded_printable by simp
  have c: "printable (c # r) = (32 < byte c \<and> byte c < 127 \<and> printable r)" for c r by (simp add: printable_def)
  show ?thesis unfolding rfc3339nano_def Let_def
    using show_padded_printable by (simp split: prod.split add: p c show_fraction_printable) (simp add: byte_def printable_def)
qed

lemma rfc3339_printable: "printable (rfc3339 t)"
  by (simp add: rfc3339_def rfc3339nano_printable)

end
