(* ===== verification/StoreCells.thy ===== *)
theory StoreCells
  imports StoreUsers GoTime
begin

text \<open>
  The compare-and-set settings of \<open>internal/store/store.go\<close> and \<open>passkeys.go\<close>: the security
  entrance, the public cluster share, the private host order and the passkey origin. Each is
  replaced only under the resource version of the stored value, a SHA-256 digest of its fields.
\<close>

section \<open>Host orders\<close>

definition MaxClusterHostOrder :: nat where "MaxClusterHostOrder = 101"
definition MaxClusterHostIDLength :: nat where "MaxClusterHostIDLength = 128"

definition no_control :: "string \<Rightarrow> bool" where
  "no_control s = (case runes s of None \<Rightarrow> False | Some rs \<Rightarrow> list_all (\<lambda>r. \<not> is_control r) rs)"

definition valid_host_id :: "string \<Rightarrow> bool" where
  "valid_host_id i = (i \<noteq> [] \<and> i = trim_space i \<and> length i \<le> MaxClusterHostIDLength \<and> valid_utf8 i \<and> no_control i)"

fun host_ids_ok :: "string list \<Rightarrow> string list \<Rightarrow> bool" where
  "host_ids_ok seen [] = True"
| "host_ids_ok seen (i # is) = (valid_host_id i \<and> i \<notin> set seen \<and> host_ids_ok (i # seen) is)"

definition ValidateClusterHostOrder :: "string list \<Rightarrow> store_error option" where
  "ValidateClusterHostOrder order =
     (if MaxClusterHostOrder < length order then Some ErrInvalidRecord
      else if host_ids_ok [] order then None else Some ErrInvalidRecord)"

definition ValidateClusterShareHostOrder :: "string list \<Rightarrow> store_error option" where
  "ValidateClusterShareHostOrder order = ValidateClusterHostOrder order"

lemma host_ids_ok_iff:
  "host_ids_ok seen ids \<longleftrightarrow> (\<forall>i\<in>set ids. valid_host_id i) \<and> distinct ids \<and> set ids \<inter> set seen = {}"
  by (induction seen ids rule: host_ids_ok.induct) auto

lemma ValidateClusterHostOrder_None:
  "ValidateClusterHostOrder ids = None \<longleftrightarrow>
     length ids \<le> MaxClusterHostOrder \<and> (\<forall>i\<in>set ids. valid_host_id i) \<and> distinct ids"
  by (auto simp: ValidateClusterHostOrder_def host_ids_ok_iff)

section \<open>Versions\<close>

definition show_bool :: "bool \<Rightarrow> string" where
  "show_bool b = (if b then ''true'' else ''false'')"

definition NUL :: string where "NUL = [char_of (0::nat)]"

definition sha_version :: "genv \<Rightarrow> string \<Rightarrow> string" where
  "sha_version G payload = ''sha256:'' @ hex_encode (sha256 G payload)"

definition SecurityEntranceResourceVersion :: "genv \<Rightarrow> security_entrance \<Rightarrow> string" where
  "SecurityEntranceResourceVersion G v =
     sha_version G (show_bool (se_Enabled v) @ NUL @ se_Path v @ NUL @ rfc3339nano (se_UpdatedAt v))"

definition ClusterShareResourceVersion :: "genv \<Rightarrow> cluster_share \<Rightarrow> string" where
  "ClusterShareResourceVersion G v =
     sha_version G (show_bool (cs_Enabled v) @ NUL @ cs_Token v @ NUL @ cs_Title v @ NUL @ cs_Description v @ NUL @
       join NUL (cs_HostOrder v) @ NUL @ rfc3339nano (cs_UpdatedAt v))"

definition ClusterHostOrderResourceVersion :: "genv \<Rightarrow> string list option \<Rightarrow> string" where
  "ClusterHostOrderResourceVersion G v =
     (case v of None \<Rightarrow> sha_version G (''0'' @ NUL @ join NUL [])
      | Some ids \<Rightarrow> sha_version G (''1'' @ NUL @ join NUL ids))"

definition PasskeyOriginResourceVersion :: "genv \<Rightarrow> string \<Rightarrow> string" where
  "PasskeyOriginResourceVersion G v = sha_version G v"

section \<open>Reads\<close>

definition SecurityEntrance :: "genv \<Rightarrow> 'p store \<Rightarrow> security_entrance \<times> string" where
  "SecurityEntrance G s =
     (let v = d_SecurityEntrance (st_data s) in (v, SecurityEntranceResourceVersion G v))"

definition ClusterShare :: "genv \<Rightarrow> 'p store \<Rightarrow> cluster_share \<times> string" where
  "ClusterShare G s = (let v = d_ClusterShare (st_data s) in (v, ClusterShareResourceVersion G v))"

definition ClusterHostOrder :: "genv \<Rightarrow> 'p store \<Rightarrow> string list \<times> bool \<times> string" where
  "ClusterHostOrder G s =
     (case d_ClusterHostOrder (st_data s) of
        None \<Rightarrow> ([], False, ClusterHostOrderResourceVersion G None)
      | Some v \<Rightarrow> (v, True, ClusterHostOrderResourceVersion G (Some v)))"

definition PasskeyOrigin :: "genv \<Rightarrow> 'p store \<Rightarrow> string \<times> string" where
  "PasskeyOrigin G s = (let v = d_PasskeyOrigin (st_data s) in (v, PasskeyOriginResourceVersion G v))"

section \<open>Compare and set\<close>

definition ReplaceSecurityEntrance :: "genv \<Rightarrow> string \<Rightarrow> security_entrance \<Rightarrow> ('p, unit) body" where
  "ReplaceSecurityEntrance G expected v d =
     (if expected \<noteq> SecurityEntranceResourceVersion G (d_SecurityEntrance d) then Inl ErrConflict
      else Inr ((), d\<lparr>d_SecurityEntrance := v\<rparr>))"

definition ReplaceClusterShare :: "genv \<Rightarrow> string \<Rightarrow> cluster_share \<Rightarrow> ('p, unit) body" where
  "ReplaceClusterShare G expected v d =
     (case ValidateClusterShareHostOrder (cs_HostOrder v) of Some e \<Rightarrow> Inl e
      | None \<Rightarrow>
          if expected \<noteq> ClusterShareResourceVersion G (d_ClusterShare d) then Inl ErrConflict
          else Inr ((), d\<lparr>d_ClusterShare := v\<rparr>))"

definition ReplaceClusterHostOrder :: "genv \<Rightarrow> string \<Rightarrow> string list \<Rightarrow> ('p, unit) body" where
  "ReplaceClusterHostOrder G expected ids d =
     (case ValidateClusterHostOrder ids of Some e \<Rightarrow> Inl e
      | None \<Rightarrow>
          if expected \<noteq> ClusterHostOrderResourceVersion G (d_ClusterHostOrder d) then Inl ErrConflict
          else Inr ((), d\<lparr>d_ClusterHostOrder := Some ids\<rparr>))"

definition valid_origin_text :: "string \<Rightarrow> bool" where
  "valid_origin_text v = (length v \<le> 512 \<and> trim_space v = v \<and>
     \<not> contains_any v [char_of (0::nat), char_of (13::nat), char_of (10::nat)])"

definition ReplacePasskeyOrigin :: "genv \<Rightarrow> string \<Rightarrow> string \<Rightarrow> ('p, unit) body" where
  "ReplacePasskeyOrigin G expected v d =
     (if \<not> valid_origin_text v then Inl ErrInvalidRecord
      else if expected \<noteq> PasskeyOriginResourceVersion G (d_PasskeyOrigin d) then Inl ErrConflict
      else let d1 = d\<lparr>d_PasskeyOrigin := v\<rparr> in
        Inr ((), if v \<noteq> [] \<and> d_SchemaVersion d1 < 2 then d1\<lparr>d_SchemaVersion := 2\<rparr> else d1))"

section \<open>The contract of a versioned cell\<close>

text \<open>
  \<open>mk\<close> is the stored form of a written value. A write that goes through has seen the version of
  the value it replaces, and is what the next read returns.
\<close>

locale versioned_cell =
  fixes get :: "'s \<Rightarrow> 'v"
    and version :: "'v \<Rightarrow> string"
    and mk :: "'i \<Rightarrow> 'v"
    and replace :: "string \<Rightarrow> 'i \<Rightarrow> 's \<Rightarrow> store_error + unit \<times> 's"
  assumes replace_seen: "replace e v s = Inr (r, s') \<Longrightarrow> e = version (get s)"
    and replace_get: "replace e v s = Inr (r, s') \<Longrightarrow> get s' = mk v"
begin

lemma stale_refused: "e \<noteq> version (get s) \<Longrightarrow> \<exists>err. replace e v s = Inl err"
  by (cases "replace e v s") (auto dest: replace_seen)

text \<open>Of two writers that read the same version, at most one wins.\<close>

lemma no_lost_update:
  assumes "replace e v s = Inr (r, s1)" and "version (mk v) \<noteq> e"
  shows "\<exists>err. replace e w s1 = Inl err"
  using assms replace_get [OF assms(1)] by (intro stale_refused) auto

text \<open>The successful writes of any sequence, each with the version it was based on.\<close>

primrec history :: "(string \<times> 'i) list \<Rightarrow> 's \<Rightarrow> (string \<times> 'i) list \<times> 's" where
  "history [] s = ([], s)"
| "history (w # ws) s =
     (case replace (fst w) (snd w) s of
        Inl _ \<Rightarrow> history ws s
      | Inr (_, s1) \<Rightarrow> (case history ws s1 of (h, s2) \<Rightarrow> (w # h, s2)))"

primrec chain :: "string \<Rightarrow> (string \<times> 'i) list \<Rightarrow> bool" where
  "chain c [] = True"
| "chain c (w # ws) = (fst w = c \<and> chain (version (mk (snd w))) ws)"

lemma history_linear:
  "history ws s = (h, s') \<Longrightarrow> chain (version (get s)) h \<and>
     get s' = (if h = [] then get s else mk (snd (last h)))"
proof (induction ws arbitrary: s h s')
  case Nil
  then show ?case by simp
next
  case (Cons w ws)
  show ?case
  proof (cases "replace (fst w) (snd w) s")
    case (Inl e)
    with Cons show ?thesis by simp
  next
    case (Inr p)
    obtain r s1 where p: "p = (r, s1)" by (cases p)
    obtain h1 s2 where h1: "history ws s1 = (h1, s2)" by (cases "history ws s1")
    have "fst w = version (get s)" and g: "get s1 = mk (snd w)"
      using Inr p replace_seen replace_get by blast+
    with Cons.prems Inr p h1 Cons.IH [OF h1] show ?thesis by auto
  qed
qed

end

lemma ReplaceSecurityEntrance_Inr:
  "ReplaceSecurityEntrance G e v d = Inr (r, d') \<longleftrightarrow>
     e = SecurityEntranceResourceVersion G (d_SecurityEntrance d) \<and> d' = d\<lparr>d_SecurityEntrance := v\<rparr>"
  by (auto simp: ReplaceSecurityEntrance_def)

lemma ReplaceClusterShare_Inr:
  "ReplaceClusterShare G e v d = Inr (r, d') \<longleftrightarrow> ValidateClusterShareHostOrder (cs_HostOrder v) = None \<and>
     e = ClusterShareResourceVersion G (d_ClusterShare d) \<and> d' = d\<lparr>d_ClusterShare := v\<rparr>"
  by (auto simp: ReplaceClusterShare_def split: option.splits)

lemma ReplaceClusterHostOrder_Inr:
  "ReplaceClusterHostOrder G e v d = Inr (r, d') \<longleftrightarrow> ValidateClusterHostOrder v = None \<and>
     e = ClusterHostOrderResourceVersion G (d_ClusterHostOrder d) \<and> d' = d\<lparr>d_ClusterHostOrder := Some v\<rparr>"
  by (auto simp: ReplaceClusterHostOrder_def split: option.splits)

lemma ReplacePasskeyOrigin_Inr:
  "ReplacePasskeyOrigin G e v d = Inr (r, d') \<longleftrightarrow> valid_origin_text v \<and>
     e = PasskeyOriginResourceVersion G (d_PasskeyOrigin d) \<and>
     d' = d\<lparr>d_PasskeyOrigin := v, d_SchemaVersion := (if v \<noteq> [] then max 2 (d_SchemaVersion d) else d_SchemaVersion d)\<rparr>"
  by (auto simp: ReplacePasskeyOrigin_def Let_def max_def)

lemmas replace_cell_Inr = ReplaceSecurityEntrance_Inr ReplaceClusterShare_Inr ReplaceClusterHostOrder_Inr
  ReplacePasskeyOrigin_Inr

interpretation entrance: versioned_cell d_SecurityEntrance "SecurityEntranceResourceVersion G" id
    "ReplaceSecurityEntrance G" for G
  by unfold_locales (auto simp: replace_cell_Inr)

interpretation share: versioned_cell d_ClusterShare "ClusterShareResourceVersion G" id
    "ReplaceClusterShare G" for G
  by unfold_locales (auto simp: replace_cell_Inr)

interpretation order: versioned_cell d_ClusterHostOrder "ClusterHostOrderResourceVersion G" Some
    "ReplaceClusterHostOrder G" for G
  by unfold_locales (auto simp: replace_cell_Inr)

interpretation origin: versioned_cell d_PasskeyOrigin "PasskeyOriginResourceVersion G" id
    "ReplacePasskeyOrigin G" for G
  by unfold_locales (auto simp: replace_cell_Inr)

section \<open>Properties\<close>

text \<open>
  Two writers that read the same version of the security entrance cannot both replace it:
  the second gets a conflict.
\<close>

theorem entrance_no_lost_update:
  assumes "ReplaceSecurityEntrance G e v d = Inr (r, d1)"
    and "SecurityEntranceResourceVersion G v \<noteq> e"
  shows "d_SecurityEntrance d1 = v \<and> ReplaceSecurityEntrance G e w d1 = Inl ErrConflict"
proof -
  have "d_SecurityEntrance d1 = v" using entrance.replace_get [OF assms(1)] by simp
  with assms(2) show ?thesis by (auto simp: ReplaceSecurityEntrance_def)
qed

definition demo_entrance :: security_entrance where
  "demo_entrance = \<lparr>se_Enabled = True, se_Path = ''door'', se_UpdatedAt = 0\<rparr>"

lemma hex_encode_inject: "hex_encode a = hex_encode b \<longleftrightarrow> a = b"
  by (metis hex_decode_encode option.inject)

lemma demo_versions_differ:
  "SecurityEntranceResourceVersion demo_env demo_entrance \<noteq> SecurityEntranceResourceVersion demo_env zero_security_entrance"
  by (simp add: SecurityEntranceResourceVersion_def sha_version_def demo_env_def demo_entrance_def hex_encode_inject
      zero_security_entrance_def show_bool_def)

lemma entrance_no_lost_update_witness:
  "ReplaceSecurityEntrance demo_env (SecurityEntranceResourceVersion demo_env zero_security_entrance) zero_security_entrance
     ((empty_disk ())\<lparr>d_SecurityEntrance := demo_entrance\<rparr>) = Inl ErrConflict"
  using entrance_no_lost_update [of demo_env "SecurityEntranceResourceVersion demo_env zero_security_entrance" demo_entrance
      "empty_disk ()" "()" "(empty_disk ())\<lparr>d_SecurityEntrance := demo_entrance\<rparr>" zero_security_entrance]
    demo_versions_differ
  by (simp add: ReplaceSecurityEntrance_Inr empty_disk_def)

end
