(* ===== verification/StorePasskeys.thy ===== *)
theory StorePasskeys
  imports StoreSessions StoreCells
begin

text \<open>
  \<open>internal/store/passkeys.go\<close>: the bounded public records of WebAuthn credentials and the
  mutators that couple them with the account's credential generation and its sessions.
\<close>

definition MaxPasskeys :: nat where "MaxPasskeys = 10"
definition MaxPasskeyCredentialBytes :: nat where "MaxPasskeyCredentialBytes = 16384"

text \<open>\<open>net.ParseIP\<close> accepts dotted IPv4 and IPv6 without a zone.\<close>

definition rp_label_ok :: "string \<Rightarrow> bool" where
  "rp_label_ok l = (l \<noteq> [] \<and> length l \<le> 63 \<and> hd l \<noteq> CHR ''-'' \<and> last l \<noteq> CHR ''-'' \<and>
     list_all (\<lambda>c. is_lower c \<or> is_digit c \<or> c = CHR ''-'') l)"

definition validPasskeyRPID :: "genv \<Rightarrow> string \<Rightarrow> bool" where
  "validPasskeyRPID G v =
     (v \<noteq> [] \<and> length v \<le> 253 \<and> v = to_lower (uni_lower G) v \<and> \<not> parse_ip_ok v \<and>
      list_all rp_label_ok (split_on (CHR ''.'') v))"

definition rune_count :: "string \<Rightarrow> nat" where
  "rune_count s = (case runes s of None \<Rightarrow> length s | Some rs \<Rightarrow> length rs)"

text \<open>\<open>bytes.TrimSpace(value.Credential)[0]\<close> of a JSON text, which is never blank.\<close>

definition first_json_byte :: "string \<Rightarrow> char option" where
  "first_json_byte s = (case trim_space s of [] \<Rightarrow> None | c # _ \<Rightarrow> Some c)"

definition validatePasskey :: "genv \<Rightarrow> passkey \<Rightarrow> store_error option" where
  "validatePasskey G v =
     (if pk_ID v = [] \<or> 2048 < length (pk_ID v) then Some ErrInvalidRecord
      else if (case b64_decode (pk_ID v) of None \<Rightarrow> True | Some i \<Rightarrow> i = [] \<or> b64_encode i \<noteq> pk_ID v)
      then Some ErrInvalidRecord
      else if \<not> validPasskeyRPID G (pk_RPID v) \<or> \<not> valid_utf8 (pk_Name v) \<or> trim_space (pk_Name v) = [] \<or>
          64 < rune_count (pk_Name v) then Some ErrInvalidRecord
      else if \<not> no_control (pk_Name v) then Some ErrInvalidRecord
      else if pk_Credential v = [] \<or> MaxPasskeyCredentialBytes < length (pk_Credential v) \<or>
          \<not> json_valid G (pk_Credential v) then Some ErrInvalidRecord
      else if first_json_byte (pk_Credential v) \<noteq> Some (CHR 0x7B) \<or> pk_CreatedAt v = zero_time \<or>
          (case pk_LastUsedAt v of None \<Rightarrow> False | Some t \<Rightarrow> t < pk_CreatedAt v) then Some ErrInvalidRecord
      else None)"

fun passkeys_ok :: "genv \<Rightarrow> string list \<Rightarrow> passkey list \<Rightarrow> store_error option" where
  "passkeys_ok G seen [] = None"
| "passkeys_ok G seen (v # vs) =
     (case validatePasskey G v of Some e \<Rightarrow> Some e
      | None \<Rightarrow> if pk_ID v \<in> set seen then Some ErrAlreadyExists else passkeys_ok G (pk_ID v # seen) vs)"

definition validatePasskeys :: "genv \<Rightarrow> passkey list \<Rightarrow> store_error option" where
  "validatePasskeys G vs = (if MaxPasskeys < length vs then Some ErrLimitReached else passkeys_ok G [] vs)"

text \<open>Times are values here, so \<open>sameOptionalTime\<close> is equality of the options.\<close>

definition sameOptionalTime :: "gotime option \<Rightarrow> gotime option \<Rightarrow> bool" where
  "sameOptionalTime a b = (a = b)"

section \<open>Operations\<close>

definition HasPasskeys :: "'p store \<Rightarrow> bool" where
  "HasPasskeys s = list_ex (\<lambda>u. u_Passkeys u \<noteq> []) (d_Users (st_data s))"

text \<open>The live session check of the management mutators.\<close>

definition holds_session :: "string \<Rightarrow> string \<Rightarrow> gotime \<Rightarrow> 'p disk_state \<Rightarrow> bool" where
  "holds_session userID h now d =
     list_ex (\<lambda>x. s_TokenHash x = h \<and> s_UserID x = userID \<and> now < s_ExpiresAt x) (d_Sessions d)"

text \<open>\<open>rnd i\<close> is the random epoch drawn if user \<open>i\<close> rolls over.\<close>

fun disable_all :: "(nat \<Rightarrow> string option) \<Rightarrow> gotime \<Rightarrow> nat \<Rightarrow> user list \<Rightarrow> store_error + user list" where
  "disable_all rnd now i [] = Inr []"
| "disable_all rnd now i (u # us) =
     (case advanceCredentialVersion (rnd i) u of Inl e \<Rightarrow> Inl e
      | Inr v \<Rightarrow> (case disable_all rnd now (Suc i) us of Inl e \<Rightarrow> Inl e
          | Inr vs \<Rightarrow> Inr (v\<lparr>u_Passkeys := [], u_UpdatedAt := now\<rparr> # vs)))"

definition DisablePasskeys ::
    "genv \<Rightarrow> (nat \<Rightarrow> string option) \<Rightarrow> user \<Rightarrow> string \<Rightarrow> string \<Rightarrow> gotime \<Rightarrow> ('p, unit) body" where
  "DisablePasskeys G rnd expected expectedOrigin sessionHash now d =
     (if expectedOrigin \<noteq> PasskeyOriginResourceVersion G (d_PasskeyOrigin d) then Inl ErrConflict
      else case userIndexLocked (u_ID expected) d of None \<Rightarrow> Inl ErrNotFound
      | Some k \<Rightarrow>
          if \<not> sameCredential G (d_Users d ! k) expected then Inl ErrConflict
          else if \<not> holds_session (u_ID expected) sessionHash now d then Inl ErrConflict
          else (case disable_all rnd now 0 (d_Users d) of Inl e \<Rightarrow> Inl e
            | Inr us \<Rightarrow> Inr ((), d\<lparr>d_Users := us, d_PasskeyOrigin := [], d_Sessions := []\<rparr>)))"

text \<open>A stored authenticator record must not be overwritten by a management snapshot of it.\<close>

definition keeps_stored :: "passkey list \<Rightarrow> passkey list \<Rightarrow> bool" where
  "keeps_stored values stored =
     list_all (\<lambda>v. list_all (\<lambda>s. \<not> (pk_ID v = pk_ID s \<and> (pk_RPID v \<noteq> pk_RPID s \<or> pk_CreatedAt v \<noteq> pk_CreatedAt s \<or>
        pk_Credential v \<noteq> pk_Credential s \<or> \<not> sameOptionalTime (pk_LastUsedAt v) (pk_LastUsedAt s)))) stored) values"

definition ReplaceUserPasskeys ::
    "genv \<Rightarrow> string option \<Rightarrow> user \<Rightarrow> passkey list \<Rightarrow> string \<Rightarrow> gotime \<Rightarrow> ('p, unit) body" where
  "ReplaceUserPasskeys G rnd expected values sessionHash now d =
     (case validatePasskeys G values of Some e \<Rightarrow> Inl e
      | None \<Rightarrow>
          case userIndexLocked (u_ID expected) d of None \<Rightarrow> Inl ErrNotFound
          | Some k \<Rightarrow>
              let current = d_Users d ! k in
              if \<not> sameCredential G current expected then Inl ErrConflict
              else if \<not> holds_session (u_ID expected) sessionHash now d then Inl ErrConflict
              else if \<not> keeps_stored values (u_Passkeys current) then Inl ErrConflict
              else (case advanceCredentialVersion rnd current of Inl e \<Rightarrow> Inl e
                | Inr u \<Rightarrow>
                    let d1 = d\<lparr>d_Users := (d_Users d)[k := u\<lparr>u_Passkeys := values, u_UpdatedAt := now\<rparr>]\<rparr>;
                        d2 = (if values \<noteq> [] then d1\<lparr>d_SchemaVersion := 2\<rparr> else d1)
                    in Inr ((), revokeUserSessionsLocked (u_ID expected) d2)))"

text \<open>
  The scan of \<open>UpdateUserPasskey\<close> stops at the first stored credential with the used ID; it must
  be the one the verification saw, with a use time that does not go back.
\<close>

definition passkey_slot :: "user \<Rightarrow> passkey \<Rightarrow> user \<Rightarrow> nat option" where
  "passkey_slot current v expected =
     (case index_of (\<lambda>s. pk_ID s = pk_ID v) (u_Passkeys current) of None \<Rightarrow> None
      | Some i \<Rightarrow>
          let stored = u_Passkeys current ! i in
          if pk_RPID stored \<noteq> pk_RPID v \<or> pk_Name stored \<noteq> pk_Name v \<or> pk_CreatedAt stored \<noteq> pk_CreatedAt v \<or>
             (case pk_LastUsedAt stored of None \<Rightarrow> False | Some t \<Rightarrow> (case pk_LastUsedAt v of None \<Rightarrow> False | Some t' \<Rightarrow> t' < t))
          then None
          else if list_ex (\<lambda>old. pk_ID old = pk_ID stored \<and> pk_RPID old = pk_RPID stored \<and>
              pk_Credential old = pk_Credential stored \<and> sameOptionalTime (pk_LastUsedAt old) (pk_LastUsedAt stored))
              (u_Passkeys expected)
          then Some i else None)"

definition UpdateUserPasskey :: "genv \<Rightarrow> gotime \<Rightarrow> user \<Rightarrow> passkey \<Rightarrow> session \<Rightarrow> ('p, unit) body" where
  "UpdateUserPasskey G wall expected v x d =
     (case validatePasskey G v of Some e \<Rightarrow> Inl e
      | None \<Rightarrow>
          if s_UserID x \<noteq> u_ID expected \<or> s_TokenHash x = [] \<or> s_CSRFHash x = [] \<or> s_CreatedAt x = zero_time \<or>
             s_ExpiresAt x \<le> s_CreatedAt x \<or> pk_LastUsedAt v = None then Inl ErrInvalidRecord
          else case userIndexLocked (u_ID expected) d of None \<Rightarrow> Inl ErrNotFound
          | Some k \<Rightarrow>
              let current = d_Users d ! k in
              if \<not> sameCredential G current expected then Inl ErrConflict
              else (case passkey_slot current v expected of None \<Rightarrow> Inl ErrConflict
                | Some i \<Rightarrow>
                    Inr ((), putSessionLocked wall x
                      (d\<lparr>d_Users := (d_Users d)[k := current\<lparr>u_Passkeys := (u_Passkeys current)[i := v]\<rparr>]\<rparr>))))"

section \<open>Validation facts\<close>

lemma passkeys_ok_None:
  "passkeys_ok G seen vs = None \<longleftrightarrow>
     (\<forall>v\<in>set vs. validatePasskey G v = None) \<and> distinct (map pk_ID vs) \<and> pk_ID ` set vs \<inter> set seen = {}"
proof (induction vs arbitrary: seen)
  case Nil
  then show ?case by simp
next
  case (Cons v vs)
  show ?case by (cases "validatePasskey G v") (auto simp: Cons.IH)
qed

lemma validatePasskeys_None:
  "validatePasskeys G vs = None \<longleftrightarrow>
     length vs \<le> MaxPasskeys \<and> (\<forall>v\<in>set vs. validatePasskey G v = None) \<and> distinct (map pk_ID vs)"
  by (auto simp: validatePasskeys_def passkeys_ok_None)

lemma validatePasskeys_Nil [simp]: "validatePasskeys G [] = None"
  by (simp add: validatePasskeys_def)

lemma passkey_slotD:
  "passkey_slot current v expected = Some i \<Longrightarrow> i < length (u_Passkeys current) \<and> pk_ID (u_Passkeys current ! i) = pk_ID v \<and>
     pk_RPID (u_Passkeys current ! i) = pk_RPID v \<and> pk_Name (u_Passkeys current ! i) = pk_Name v"
  by (auto simp: passkey_slot_def Let_def split: option.splits if_splits dest: index_of_SomeD)

lemma passkey_slot_map:
  assumes "passkey_slot current v expected = Some i" and "f v = f (u_Passkeys current ! i)"
  shows "map f ((u_Passkeys current)[i := v]) = map f (u_Passkeys current)"
  using assms by (metis list_update_id map_update)

lemma update_passkeys_valid:
  assumes "validatePasskeys G (u_Passkeys current) = None" and "validatePasskey G v = None"
    and "passkey_slot current v expected = Some i"
  shows "validatePasskeys G ((u_Passkeys current)[i := v]) = None"
proof -
  have "map pk_ID ((u_Passkeys current)[i := v]) = map pk_ID (u_Passkeys current)"
    using passkey_slotD [OF assms(3)] by (intro passkey_slot_map [OF assms(3)]) simp
  with assms(1,2) show ?thesis
    by (auto simp: validatePasskeys_None dest!: set_update_subset_insert [THEN subsetD])
qed

lemma disable_all_Inr:
  "disable_all rnd now i us = Inr vs \<Longrightarrow> length vs = length us \<and>
    (\<forall>k<length us. \<exists>w. advanceCredentialVersion (rnd (i + k)) (us ! k) = Inr w \<and>
        vs ! k = w\<lparr>u_Passkeys := [], u_UpdatedAt := now\<rparr>)"
proof (induction us arbitrary: i vs)
  case Nil
  then show ?case by simp
next
  case (Cons u us)
  then obtain w vs' where w: "advanceCredentialVersion (rnd i) u = Inr w"
    and vs': "disable_all rnd now (Suc i) us = Inr vs'"
    and vs: "vs = w\<lparr>u_Passkeys := [], u_UpdatedAt := now\<rparr> # vs'"
    by (auto split: sum.splits)
  show ?case
  proof (intro conjI allI impI)
    show "length vs = length (u # us)" using Cons.IH [OF vs'] vs by simp
  next
    fix k assume k: "k < length (u # us)"
    show "\<exists>w. advanceCredentialVersion (rnd (i + k)) ((u # us) ! k) = Inr w \<and>
        vs ! k = w\<lparr>u_Passkeys := [], u_UpdatedAt := now\<rparr>"
      using k w vs Cons.IH [OF vs'] by (cases k) simp_all
  qed
qed

end
