(* ===== verification/FileShares.thy ===== *)
theory FileShares
  imports StoreUsers
begin

text \<open>
  The public file shares of \<open>internal/store/store.go\<close>: bounded, expiring authorizations of one
  path each, found by the digest of a bearer token.
\<close>

definition MaxFileShares :: nat where "MaxFileShares = 256"
definition MaxFileShareBytes :: int where "MaxFileShareBytes = 10 * 2 ^ 30"

text \<open>A \<open>sha256:\<close> digest in lower case hexadecimal.\<close>

definition valid_version :: "genv \<Rightarrow> string \<Rightarrow> bool" where
  "valid_version G v =
     (length v = 71 \<and> has_prefix v ''sha256:'' \<and>
      (case hex_decode (trim_prefix v ''sha256:'') of None \<Rightarrow> False
       | Some digest \<Rightarrow> length digest = 32 \<and> v = to_lower (uni_lower G) v))"

definition validateFileShare :: "genv \<Rightarrow> file_share \<Rightarrow> store_error option" where
  "validateFileShare G v =
     (if (case b64_decode (fs_ID v) of None \<Rightarrow> True
          | Some i \<Rightarrow> length (fs_ID v) \<noteq> 22 \<or> length i \<noteq> 16 \<or> b64_encode i \<noteq> fs_ID v) then Some ErrInvalidRecord
      else if length (fs_TokenHash v) \<noteq> 64 \<or> fs_TokenHash v \<noteq> to_lower (uni_lower G) (fs_TokenHash v) then Some ErrInvalidRecord
      else if (case hex_decode (fs_TokenHash v) of None \<Rightarrow> True | Some h \<Rightarrow> length h \<noteq> 32) then Some ErrInvalidRecord
      else if fs_Path v = [] \<or> 4096 < length (fs_Path v) \<or> \<not> has_prefix (fs_Path v) ''/'' \<or>
          contains_any (fs_Path v) [CHR 0x5C, CHR 0x00] \<or> path_clean (fs_Path v) \<noteq> fs_Path v then Some ErrInvalidRecord
      else if \<not> valid_version G (fs_ResourceVersion v) then Some ErrInvalidRecord
      else if \<not> valid_version G (fs_ShareVersion v) then Some ErrInvalidRecord
      else if fs_SizeBytes v < 0 \<or> MaxFileShareBytes < fs_SizeBytes v then Some ErrInvalidRecord
      else if fs_CreatedAt v = zero_time \<or>
          (case fs_ExpiresAt v of None \<Rightarrow> False | Some e \<Rightarrow> \<not> fs_CreatedAt v < e) then Some ErrInvalidRecord
      else None)"

fun shares_ok :: "genv \<Rightarrow> string list \<Rightarrow> string list \<Rightarrow> string list \<Rightarrow> file_share list \<Rightarrow> bool" where
  "shares_ok G ids hashes paths [] = True"
| "shares_ok G ids hashes paths (v # vs) =
     (validateFileShare G v = None \<and> fs_ID v \<notin> set ids \<and> fs_TokenHash v \<notin> set hashes \<and> fs_Path v \<notin> set paths \<and>
      shares_ok G (fs_ID v # ids) (fs_TokenHash v # hashes) (fs_Path v # paths) vs)"

definition validateFileShares :: "genv \<Rightarrow> file_share list \<Rightarrow> store_error option" where
  "validateFileShares G vs =
     (if MaxFileShares < length vs then Some ErrInvalidRecord
      else if shares_ok G [] [] [] vs then None else Some ErrInvalidRecord)"

definition fileShareActive :: "file_share \<Rightarrow> gotime \<Rightarrow> bool" where
  "fileShareActive v now = (case fs_ExpiresAt v of None \<Rightarrow> True | Some e \<Rightarrow> now < e)"

section \<open>Operations\<close>

definition FileShareByPath :: "string \<Rightarrow> string \<Rightarrow> gotime \<Rightarrow> 'p store \<Rightarrow> store_error + file_share" where
  "FileShareByPath filePath resourceVersion now s =
     (case List.find (\<lambda>v. fs_Path v = filePath \<and> (resourceVersion = [] \<or> fs_ResourceVersion v = resourceVersion) \<and>
         fileShareActive v now) (d_FileShares (st_data s)) of
       None \<Rightarrow> Inl ErrNotFound | Some v \<Rightarrow> Inr v)"

definition token_hash :: "genv \<Rightarrow> string \<Rightarrow> string" where
  "token_hash G token = hex_encode (sha256 G token)"

definition FileShareByToken :: "genv \<Rightarrow> string \<Rightarrow> gotime \<Rightarrow> 'p store \<Rightarrow> store_error + file_share" where
  "FileShareByToken G token now s =
     (case List.find (\<lambda>v. fs_TokenHash v = token_hash G token \<and> fileShareActive v now) (d_FileShares (st_data s)) of
       None \<Rightarrow> Inl ErrNotFound | Some v \<Rightarrow> Inr v)"

text \<open>\<open>sort.SliceStable\<close> by creation time, newest first, then by ID (byte order).\<close>

fun string_less :: "string \<Rightarrow> string \<Rightarrow> bool" where
  "string_less _ [] = False"
| "string_less [] (_ # _) = True"
| "string_less (a # as) (b # bs) = (byte a < byte b \<or> a = b \<and> string_less as bs)"

definition share_before :: "file_share \<Rightarrow> file_share \<Rightarrow> bool" where
  "share_before l r = (if fs_CreatedAt l = fs_CreatedAt r then string_less (fs_ID l) (fs_ID r)
     else fs_CreatedAt r < fs_CreatedAt l)"

text \<open>Stable insertion: an equal or later element goes behind.\<close>

fun stable_insert :: "('a \<Rightarrow> 'a \<Rightarrow> bool) \<Rightarrow> 'a \<Rightarrow> 'a list \<Rightarrow> 'a list" where
  "stable_insert lt x [] = [x]"
| "stable_insert lt x (y # ys) = (if lt y x then y # stable_insert lt x ys else x # y # ys)"

definition stable_sort :: "('a \<Rightarrow> 'a \<Rightarrow> bool) \<Rightarrow> 'a list \<Rightarrow> 'a list" where
  "stable_sort lt xs = foldr (stable_insert lt) xs []"

definition ListFileShares :: "gotime \<Rightarrow> 'p store \<Rightarrow> file_share list" where
  "ListFileShares now s =
     stable_sort share_before (filter (\<lambda>v. fileShareActive v now) (d_FileShares (st_data s)))"

text \<open>\<open>FileShare{}\<close>, the \<open>currentForPath\<close> and \<open>replaced\<close> of a path without a share.\<close>

definition zero_share :: file_share where
  "zero_share = \<lparr>fs_ID = [], fs_TokenHash = [], fs_Path = [], fs_ResourceVersion = [], fs_ShareVersion = [],
     fs_SizeBytes = 0, fs_CreatedAt = zero_time, fs_ExpiresAt = None\<rparr>"

definition or_zero :: "file_share option \<Rightarrow> file_share" where
  "or_zero o' = (case o' of None \<Rightarrow> zero_share | Some v \<Rightarrow> v)"

definition CreateFileShare :: "genv \<Rightarrow> file_share \<Rightarrow> string \<Rightarrow> gotime \<Rightarrow> ('p, file_share \<times> file_share) body" where
  "CreateFileShare G v expectedID now d =
     (if validateFileShare G v \<noteq> None \<or> (case fs_ExpiresAt v of None \<Rightarrow> False | Some e \<Rightarrow> \<not> now < e)
      then Inl ErrInvalidRecord
      else
        let shares = d_FileShares d;
            currentForPath = or_zero (List.find (\<lambda>c. fs_Path c = fs_Path v \<and> fileShareActive c now) shares) in
        if (expectedID = [] \<and> fs_ID currentForPath \<noteq> [] \<and> fs_ShareVersion currentForPath = fs_ShareVersion v) \<or>
           (expectedID \<noteq> [] \<and> fs_ID currentForPath \<noteq> expectedID) then Inl ErrConflict
        else if list_ex (\<lambda>c. fs_ID c = fs_ID v \<or> fs_TokenHash c = fs_TokenHash v) shares then Inl ErrAlreadyExists
        else
          let kept = filter (\<lambda>c. fileShareActive c now \<and> fs_Path c \<noteq> fs_Path v) shares;
              replaced = or_zero (List.find (\<lambda>c. fileShareActive c now \<and> fs_Path c = fs_Path v) (rev shares)) in
          if MaxFileShares \<le> length kept then Inl ErrLimitReached
          else Inr ((v, replaced), d\<lparr>d_FileShares := kept @ [v]\<rparr>))"

definition DeleteFileShare :: "string \<Rightarrow> ('p, file_share) body" where
  "DeleteFileShare i d =
     (case index_of (\<lambda>v. fs_ID v = i) (d_FileShares d) of None \<Rightarrow> Inl ErrNotFound
      | Some k \<Rightarrow> Inr (d_FileShares d ! k, d\<lparr>d_FileShares := remove_nth k (d_FileShares d)\<rparr>))"

section \<open>Facts\<close>

lemma shares_ok_iff:
  "shares_ok G ids hs ps vs \<longleftrightarrow> (\<forall>v\<in>set vs. validateFileShare G v = None) \<and>
     distinct (map fs_ID vs) \<and> distinct (map fs_TokenHash vs) \<and> distinct (map fs_Path vs) \<and>
     fs_ID ` set vs \<inter> set ids = {} \<and> fs_TokenHash ` set vs \<inter> set hs = {} \<and> fs_Path ` set vs \<inter> set ps = {}"
proof (induction vs arbitrary: ids hs ps)
  case Nil
  then show ?case by simp
next
  case (Cons v vs)
  show ?case by (simp only: shares_ok.simps Cons.IH) auto
qed

lemma validateFileShares_None:
  "validateFileShares G vs = None \<longleftrightarrow> length vs \<le> MaxFileShares \<and> (\<forall>v\<in>set vs. validateFileShare G v = None) \<and>
     distinct (map fs_ID vs) \<and> distinct (map fs_TokenHash vs) \<and> distinct (map fs_Path vs)"
  by (auto simp: validateFileShares_def shares_ok_iff)

lemma to_lower_id: "list_all (\<lambda>c. byte c < 128 \<and> \<not> is_upper c) s \<Longrightarrow> to_lower uni s = s"
  by (simp add: to_lower_def is_ascii_def list_all_iff ascii_lower_def map_idI)

lemma lower_hex_char: "is_lower_hex c \<Longrightarrow> byte c < 128 \<and> \<not> is_upper c"
  by (auto simp: is_lower_hex_def is_digit_def is_upper_def)

lemma hex_encode_plain: "list_all (\<lambda>c. byte c < 128 \<and> \<not> is_upper c) (hex_encode s)"
  using hex_encode_lower [of s] by (auto simp: list_all_iff dest: lower_hex_char)

text \<open>Every digest the store computes itself passes its own format check.\<close>

lemma valid_version_digest: "length h = 32 \<Longrightarrow> valid_version G (''sha256:'' @ hex_encode h)"
proof -
  assume h: "length h = 32"
  have "list_all (\<lambda>c. byte c < 128 \<and> \<not> is_upper c) (''sha256:'' @ hex_encode h)"
    by (simp only: list_all_append hex_encode_plain) (simp add: byte_class_defs)
  then have "to_lower (uni_lower G) (''sha256:'' @ hex_encode h) = ''sha256:'' @ hex_encode h" by (rule to_lower_id)
  with h show ?thesis by (simp add: valid_version_def has_prefix_def trim_prefix_def)
qed

lemma validateFileShare_ID: "validateFileShare G v = None \<Longrightarrow> fs_ID v \<noteq> []"
  by (auto simp: validateFileShare_def split: option.splits if_splits)

lemma validateFileShare_expiry:
  "validateFileShare G v = None \<Longrightarrow> fs_ExpiresAt v = Some e \<Longrightarrow> fs_CreatedAt v < e"
  by (auto simp: validateFileShare_def split: option.splits if_splits)

lemma CreateFileShare_InrD:
  assumes "CreateFileShare G v expectedID now d = Inr (r, d')"
  obtains "validateFileShare G v = None" "fileShareActive v now"
    "\<forall>c\<in>set (d_FileShares d). fs_ID c \<noteq> fs_ID v \<and> fs_TokenHash c \<noteq> fs_TokenHash v"
    "length (filter (\<lambda>c. fileShareActive c now \<and> fs_Path c \<noteq> fs_Path v) (d_FileShares d)) < MaxFileShares"
    "d' = d\<lparr>d_FileShares := filter (\<lambda>c. fileShareActive c now \<and> fs_Path c \<noteq> fs_Path v) (d_FileShares d) @ [v]\<rparr>"
    "fst r = v"
  using assms that
  by (auto simp: CreateFileShare_def Let_def list_ex_iff not_le fileShareActive_def
      split: if_splits option.splits)

lemma filter_disj_distinct: "distinct (map f xs) \<Longrightarrow> distinct (map f (filter P xs))"
  by (rule distinct_map_filter)

lemma CreateFileShare_valid:
  assumes c: "CreateFileShare G v expectedID now d = Inr (r, d')"
    and ok: "validateFileShares G (d_FileShares d) = None"
  shows "validateFileShares G (d_FileShares d') = None"
  using ok
  by (rule_tac CreateFileShare_InrD [OF c])
     (auto simp: validateFileShares_None distinct_map_filter)

lemma remove_nth_memD: "x \<in> set (remove_nth k xs) \<Longrightarrow> x \<in> set xs"
  by (auto simp: remove_nth_def dest: in_set_takeD in_set_dropD)

lemma distinct_remove_nth: "distinct (map f xs) \<Longrightarrow> distinct (map f (remove_nth k xs))"
proof -
  assume d: "distinct (map f xs)"
  have "xs = take k xs @ drop k xs" by simp
  then have "map f xs = map f (take k xs) @ map f (drop k xs)" by (metis map_append)
  with d have "distinct (map f (take k xs) @ map f (drop k xs))" by simp
  moreover have "drop (Suc k) xs = drop 1 (drop k xs)" by simp
  then have "set (map f (drop (Suc k) xs)) \<subseteq> set (map f (drop k xs))"
    by (metis drop_map set_drop_subset)
  moreover have "distinct (map f (drop (Suc k) xs))"
    using d by (metis distinct_drop drop_map)
  ultimately show ?thesis by (auto simp: remove_nth_def)
qed

lemma length_remove_nth: "k < length xs \<Longrightarrow> length (remove_nth k xs) = length xs - 1"
  by (simp add: remove_nth_def)

lemma DeleteFileShare_valid:
  "DeleteFileShare i d = Inr (v, d') \<Longrightarrow> validateFileShares G (d_FileShares d) = None \<Longrightarrow>
    validateFileShares G (d_FileShares d') = None"
proof -
  assume del: "DeleteFileShare i d = Inr (v, d')" and ok: "validateFileShares G (d_FileShares d) = None"
  from del obtain k where "index_of (\<lambda>v. fs_ID v = i) (d_FileShares d) = Some k"
    and d': "d_FileShares d' = remove_nth k (d_FileShares d)"
    by (auto simp: DeleteFileShare_def split: option.splits)
  then have "k < length (d_FileShares d)" by (simp add: index_of_lt)
  with ok show ?thesis
    unfolding d' validateFileShares_None
    by (intro conjI ballI distinct_remove_nth) (auto simp: length_remove_nth dest: remove_nth_memD)
qed

lemma remove_nth_keyed:
  "distinct (map f xs) \<Longrightarrow> k < length xs \<Longrightarrow> set (remove_nth k xs) = {x \<in> set xs. f x \<noteq> f (xs ! k)}"
proof -
  assume d: "distinct (map f xs)" and k: "k < length xs"
  have split: "xs = take k xs @ xs ! k # drop (Suc k) xs" using k by (rule id_take_nth_drop)
  have "distinct (map f (take k xs @ xs ! k # drop (Suc k) xs))" using d split by simp
  then have "\<forall>x\<in>set (take k xs). f x \<noteq> f (xs ! k)" "\<forall>x\<in>set (drop (Suc k) xs). f x \<noteq> f (xs ! k)"
    by (auto simp: image_iff)
  moreover have "set xs = set (take k xs) \<union> {xs ! k} \<union> set (drop (Suc k) xs)"
    using arg_cong [OF split, of set] by auto
  ultimately show ?thesis by (auto simp: remove_nth_def)
qed

end
