(* ===== verification/PanelStore.thy ===== *)
theory PanelStore
  imports StorePasskeys FileShares
begin

text \<open>
  The panel store as a whole (\<open>internal/store\<close>): opening and validating a state file, the
  identity backup, one request type for all mutators, and the invariants every reachable store
  has. The validators of the panel preferences kept in \<open>d_Panel\<close> are a parameter: \<open>panel_ok\<close> is
  what \<open>Open\<close> checks of them, \<open>appearance_ok\<close> the check only a backup goes through.
\<close>

record 'p panel_checks =
  panel_ok :: "'p \<Rightarrow> bool"
  appearance_ok :: "'p \<Rightarrow> bool"

section \<open>Opening\<close>

definition open_user_error :: "genv \<Rightarrow> nat \<Rightarrow> user \<Rightarrow> store_error option" where
  "open_user_error G schema u =
     (if \<not> validCredentialEpoch (u_CredentialEpoch u) then Some ErrInvalidRecord
      else if u_Passkeys u \<noteq> [] \<and> schema < 2 then Some ErrInvalidRecord
      else case validateUserAvatar (u_Avatar u) of Some e \<Rightarrow> Some e
      | None \<Rightarrow> validatePasskeys G (u_Passkeys u))"

fun first_error :: "('a \<Rightarrow> store_error option) \<Rightarrow> 'a list \<Rightarrow> store_error option" where
  "first_error f [] = None"
| "first_error f (x # xs) = (case f x of Some e \<Rightarrow> Some e | None \<Rightarrow> first_error f xs)"

definition open_error :: "genv \<Rightarrow> 'p panel_checks \<Rightarrow> 'p disk_state \<Rightarrow> store_error option" where
  "open_error G V d =
     (if d_SchemaVersion d \<noteq> 1 \<and> d_SchemaVersion d \<noteq> 2 then Some ErrDecode
      else case first_error (open_user_error G (d_SchemaVersion d)) (d_Users d) of Some e \<Rightarrow> Some e
      | None \<Rightarrow> (case validateFileShares G (d_FileShares d) of Some e \<Rightarrow> Some e
      | None \<Rightarrow> (case ValidateClusterShareHostOrder (cs_HostOrder (d_ClusterShare d)) of Some e \<Rightarrow> Some e
      | None \<Rightarrow> (case (case d_ClusterHostOrder d of None \<Rightarrow> None | Some ids \<Rightarrow> ValidateClusterHostOrder ids) of Some e \<Rightarrow> Some e
      | None \<Rightarrow> if panel_ok V (d_Panel d) then None else Some ErrInvalidRecord))))"

text \<open>What reading the state file yields; an oversized, empty or undecodable file is \<open>Unreadable\<close>.\<close>

datatype 'p boot_file = Absent | Unreadable | Decoded "'p disk_state"

definition new_store :: "'p disk_state \<Rightarrow> 'p files \<Rightarrow> audit_log \<Rightarrow> 'p store" where
  "new_store d f l = \<lparr>st_data = d, st_files = f, st_writes = 0, st_audit = l\<rparr>"

text \<open>\<open>audit\<close> is the opened audit database, \<open>lock\<close> and \<open>chmod\<close> whether those system calls worked.\<close>

definition migrateAuditLocked :: "'p world \<Rightarrow> audit_io \<Rightarrow> 'p store \<Rightarrow> (store_error + unit) \<times> 'p store" where
  "migrateAuditLocked W io s =
     (if d_Audit (st_data s) = [] then (Inr (), s)
      else case audit_append io (d_Audit (st_data s)) (int MaxAuditEntries) True (st_audit s) of
        (Some e, l) \<Rightarrow> (Inl e, s\<lparr>st_audit := l\<rparr>)
      | (None, l) \<Rightarrow> commit W ((st_data s)\<lparr>d_Audit := []\<rparr>) () (s\<lparr>st_audit := l\<rparr>))"

definition Open ::
    "genv \<Rightarrow> 'p panel_checks \<Rightarrow> 'p world \<Rightarrow> audit_io \<Rightarrow> bool \<Rightarrow> bool \<Rightarrow> 'p \<Rightarrow> 'p boot_file \<Rightarrow> audit_log option \<Rightarrow>
     store_error + 'p store" where
  "Open G V W io lock chmod p0 file audit =
     (if \<not> lock then Inl ErrDecode
      else
        case (case file of
            Unreadable \<Rightarrow> Inl ErrDecode
          | Decoded d \<Rightarrow> (case open_error G V d of Some e \<Rightarrow> Inl e
              | None \<Rightarrow> Inr (d, \<lparr>f_target = Some d, f_previous = None\<rparr>))
          | Absent \<Rightarrow>
              (case persist_files (W 0) (empty_disk p0) \<lparr>f_target = None, f_previous = None\<rparr> of
                 (True, f) \<Rightarrow> Inr (empty_disk p0, f)
               | (False, f) \<Rightarrow> Inl ErrPersist)) of
          Inl e \<Rightarrow> Inl e
        | Inr (d, f) \<Rightarrow>
            if \<not> chmod then Inl ErrDecode
            else case audit of None \<Rightarrow> Inl ErrAuditUnavailable
            | Some l \<Rightarrow>
                (case migrateAuditLocked (\<lambda>n. W (Suc n)) io (new_store d f l) of
                   (Inl e, _) \<Rightarrow> Inl e
                 | (Inr _, s) \<Rightarrow> Inr s))"

definition CreateInitialAdmin :: "genv \<Rightarrow> user \<Rightarrow> ('p, unit) body" where
  "CreateInitialAdmin G u d =
     (if d_Users d \<noteq> [] then Inl ErrAlreadyInitialized
      else case validatePasskeys G (u_Passkeys u) of Some e \<Rightarrow> Inl e
      | None \<Rightarrow> (case validateUserAvatar (u_Avatar u) of Some e \<Rightarrow> Inl e
      | None \<Rightarrow>
          let d1 = (if u_Passkeys u \<noteq> [] then d\<lparr>d_SchemaVersion := 2\<rparr> else d) in
          Inr ((), d1\<lparr>d_Users := d_Users d1 @ [u]\<rparr>)))"

section \<open>Identity backup\<close>

definition ExportIdentity :: "'p store \<Rightarrow> 'p disk_state" where
  "ExportIdentity s =
     (empty_disk (d_Panel (st_data s)))\<lparr>
        d_Users := map (\<lambda>u. u\<lparr>u_CredentialEpoch := [], u_TOTPRecoveryCodeHashes := [], u_Passkeys := []\<rparr>)
          (d_Users (st_data s)),
        d_ClusterHostOrder := d_ClusterHostOrder (st_data s)\<rparr>"

definition valid_backup_user :: "user \<Rightarrow> bool" where
  "valid_backup_user u =
     (u_ID u \<noteq> [] \<and> length (u_ID u) \<le> 128 \<and> u_Role u = ''admin'' \<and> u_Username u \<noteq> [] \<and> length (u_Username u) \<le> 128 \<and>
      length (u_PasswordHash u) \<le> 1024 \<and> 32 \<le> length (u_PasswordHash u) \<and> u_TOTPRecoveryCodeHashes u = [] \<and>
      u_Passkeys u = [] \<and> validCredentialEpoch (u_CredentialEpoch u) \<and> validateUserAvatar (u_Avatar u) = None)"

definition ValidateIdentityBackup :: "'p panel_checks \<Rightarrow> 'p disk_state \<Rightarrow> store_error option" where
  "ValidateIdentityBackup V d =
     (if d_SchemaVersion d \<noteq> 1 \<or> length (d_Users d) \<noteq> 1 \<or> d_Sessions d \<noteq> [] \<or> d_Audit d \<noteq> [] \<or>
         d_LoginAttempts d \<noteq> [] \<or> d_FileShares d \<noteq> [] \<or> cs_Enabled (d_ClusterShare d) \<or> cs_Token (d_ClusterShare d) \<noteq> [] \<or>
         se_Enabled (d_SecurityEntrance d) \<or> d_PasskeyOrigin d \<noteq> [] then Some ErrInvalidRecord
      else if (case d_ClusterHostOrder d of None \<Rightarrow> False | Some ids \<Rightarrow> ValidateClusterHostOrder ids \<noteq> None)
      then Some ErrInvalidRecord
      else if \<not> appearance_ok V (d_Panel d) \<or> \<not> panel_ok V (d_Panel d) then Some ErrInvalidRecord
      else if \<not> valid_backup_user (hd (d_Users d)) then Some ErrInvalidRecord
      else None)"

text \<open>\<open>rnd i\<close> is the fresh epoch of the \<open>i\<close>-th imported account.\<close>

fun fresh_users :: "(nat \<Rightarrow> string option) \<Rightarrow> nat \<Rightarrow> user list \<Rightarrow> store_error + user list" where
  "fresh_users rnd i [] = Inr []"
| "fresh_users rnd i (u # us) =
     (case newCredentialEpoch (rnd i) of Inl e \<Rightarrow> Inl e
      | Inr epoch \<Rightarrow> (case fresh_users rnd (Suc i) us of Inl e \<Rightarrow> Inl e
          | Inr vs \<Rightarrow> Inr (u\<lparr>u_CredentialEpoch := epoch, u_CredentialVersion := 1, u_Passkeys := []\<rparr> # vs)))"

definition RestoreIdentity :: "'p panel_checks \<Rightarrow> (nat \<Rightarrow> string option) \<Rightarrow> 'p disk_state \<Rightarrow> ('p, unit) body" where
  "RestoreIdentity V rnd incoming d =
     (case ValidateIdentityBackup V incoming of Some e \<Rightarrow> Inl e
      | None \<Rightarrow> (case fresh_users rnd 0 (d_Users incoming) of Inl e \<Rightarrow> Inl e
        | Inr us \<Rightarrow> Inr ((), d\<lparr>d_Users := us, d_Sessions := [], d_LoginAttempts := [], d_FileShares := [],
            d_ClusterShare := zero_cluster_share, d_ClusterHostOrder := d_ClusterHostOrder incoming,
            d_Panel := d_Panel incoming\<rparr>)))"

section \<open>One request type for all mutators\<close>

text \<open>
  A request carries the caller's arguments, the clock reading and the random bytes of one call.
\<close>

datatype 'p request =
    RCreateAdmin user
  | RAvatar string string gotime
  | RPassword "string option" string string string gotime
  | RRecover audit_io audit_io "string option" password_recovery
  | RUsername "string option" string string string gotime
  | REnableTOTP "string option" string string "64 word" string gotime int "string list"
  | RTOTPStep string string int gotime
  | RRecoveryCode string string gotime
  | RRecoveryCodes "string option" string "string list" gotime
  | RDisableTOTP "string option" string gotime
  | RPutSession gotime session
  | RLoginSession gotime user session "login_attempt list" gotime
  | RRevokeAll
  | RDeleteSession string
  | RAttempts "login_attempt list" gotime
  | REntrance string security_entrance
  | RShare string cluster_share
  | ROrder string "string list"
  | ROrigin string string
  | RCreateShare file_share string gotime
  | RDeleteShare string
  | RPasskeys "string option" user "passkey list" string gotime
  | RUpdatePasskey gotime user passkey session
  | RDisablePasskeys "nat \<Rightarrow> string option" user string string gotime
  | RRestore "nat \<Rightarrow> string option" "'p disk_state"
  | RAudit audit_io audit_event int

definition forget :: "('p, 'a) body \<Rightarrow> ('p, unit) body" where
  "forget b d = (case b d of Inl e \<Rightarrow> Inl e | Inr (r, d') \<Rightarrow> Inr ((), d'))"

text \<open>The change of the state a request asks for; the audit log is not part of it.\<close>

fun request_body :: "genv \<Rightarrow> 'p panel_checks \<Rightarrow> 'p request \<Rightarrow> ('p, unit) body" where
  "request_body G V (RCreateAdmin u) = CreateInitialAdmin G u"
| "request_body G V (RAvatar i a t) = ReplaceUserAvatar i a t"
| "request_body G V (RPassword r i e n t) = ReplaceUserPassword r i e n t"
| "request_body G V (RRecover _ _ r inp) = recover_body r inp"
| "request_body G V (RUsername r i e n t) = ReplaceUserUsername G r i e n t"
| "request_body G V (REnableTOTP r i ep v sec t st hs) = EnableUserTOTP r i ep v sec t st hs"
| "request_body G V (RTOTPStep i sec st t) = ConsumeUserTOTPStep G i sec st t"
| "request_body G V (RRecoveryCode i h t) = ConsumeUserRecoveryCode i h t"
| "request_body G V (RRecoveryCodes r i hs t) = ReplaceUserRecoveryCodes r i hs t"
| "request_body G V (RDisableTOTP r i t) = DisableUserTOTP r i t"
| "request_body G V (RPutSession w x) = PutSession w x"
| "request_body G V (RLoginSession w u x as t) = PutLoginSession G w u x as t"
| "request_body G V RRevokeAll = RevokeAllSessions"
| "request_body G V (RDeleteSession h) = delete_session h"
| "request_body G V (RAttempts as t) = RecordLoginAttempts as t"
| "request_body G V (REntrance e v) = ReplaceSecurityEntrance G e v"
| "request_body G V (RShare e v) = ReplaceClusterShare G e v"
| "request_body G V (ROrder e v) = ReplaceClusterHostOrder G e v"
| "request_body G V (ROrigin e v) = ReplacePasskeyOrigin G e v"
| "request_body G V (RCreateShare v e t) = forget (CreateFileShare G v e t)"
| "request_body G V (RDeleteShare i) = forget (DeleteFileShare i)"
| "request_body G V (RPasskeys r u vs h t) = ReplaceUserPasskeys G r u vs h t"
| "request_body G V (RUpdatePasskey w u v x) = UpdateUserPasskey G w u v x"
| "request_body G V (RDisablePasskeys r u o' h t) = DisablePasskeys G r u o' h t"
| "request_body G V (RRestore r d) = RestoreIdentity V r d"
| "request_body G V (RAudit _ _ _) = (\<lambda>d. Inr ((), d))"

fun exec :: "genv \<Rightarrow> 'p panel_checks \<Rightarrow> 'p world \<Rightarrow> 'p request \<Rightarrow> 'p store \<Rightarrow> (store_error + unit) \<times> 'p store" where
  "exec G V W (RRecover io1 io2 r inp) s = RecoverUserPassword W io1 io2 r inp s"
| "exec G V W (RDeleteSession h) s = DeleteSession W h s"
| "exec G V W (RAudit io e m) s =
     (case AppendAudit io e m s of (None, s') \<Rightarrow> (Inr (), s') | (Some err, s') \<Rightarrow> (Inl err, s'))"
| "exec G V W rq s = mutate W (request_body G V rq) s"

definition run :: "genv \<Rightarrow> 'p panel_checks \<Rightarrow> 'p world \<Rightarrow> 'p request list \<Rightarrow> 'p store \<Rightarrow> 'p store" where
  "run G V W rqs s = fold (\<lambda>rq s. snd (exec G V W rq s)) rqs s"

end
