(* ===== verification/SampleStore.thy ===== *)
theory SampleStore
  imports PanelStore
begin

text \<open>
  One concrete panel: an environment, a world without failures and a store with one administrator
  and one signed-in session. The instances of the properties are computed on it.
\<close>

definition sample_env :: genv where
  "sample_env = \<lparr>sha256 = (\<lambda>s. s), uni_lower = (\<lambda>s. s), uni_upper = (\<lambda>s. s), uni_fold = (\<lambda>s t. s = t),
     json_valid = (\<lambda>s. s \<noteq> [])\<rparr>"

definition sample_checks :: "unit panel_checks" where
  "sample_checks = \<lparr>panel_ok = (\<lambda>_. True), appearance_ok = (\<lambda>_. True)\<rparr>"

definition good_io :: "'p io" where
  "good_io = \<lparr>io_encode = (\<lambda>_. True), io_temp = True, io_rename = True, io_remove_backup = True, io_backup = True,
     io_replace = True, io_restore = True, io_remove_backup2 = True\<rparr>"

definition sample_world :: "unit world" where "sample_world n = good_io"

definition sample_user :: user where
  "sample_user = zero_user\<lparr>u_ID := ''u1'', u_Username := ''admin'', u_PasswordHash := ''hash1'', u_Role := ''admin'',
     u_CredentialVersion := 7, u_TOTPSecret := ''sealed'', u_TOTPEnabledAt := Some 5, u_TOTPLastUsedStep := 40,
     u_TOTPRecoveryCodeHashes := [''r1'', ''r2'']\<rparr>"

definition sample_session :: session where
  "sample_session = \<lparr>s_TokenHash = ''t1'', s_CSRFHash = ''c1'', s_UserID = ''u1'', s_CreatedAt = 10, s_ExpiresAt = 1000\<rparr>"

definition sample_disk :: "unit disk_state" where
  "sample_disk = (empty_disk ())\<lparr>d_Users := [sample_user], d_Sessions := [sample_session]\<rparr>"

definition sample_store :: "unit store" where
  "sample_store = \<lparr>st_data = sample_disk, st_files = \<lparr>f_target = Some sample_disk, f_previous = None\<rparr>, st_writes = 0,
     st_audit = \<lparr>al_rows = [], al_nextSeq = 1, al_closed = False\<rparr>\<rparr>"

abbreviation sample_exec :: "unit request \<Rightarrow> unit store \<Rightarrow> (store_error + unit) \<times> unit store" where
  "sample_exec \<equiv> exec sample_env sample_checks sample_world"

abbreviation sample_run :: "unit request list \<Rightarrow> unit store \<Rightarrow> unit store" where
  "sample_run \<equiv> run sample_env sample_checks sample_world"

lemmas sample_defs = sample_env_def sample_checks_def good_io_def sample_world_def sample_user_def sample_session_def
  sample_disk_def sample_store_def empty_disk_def zero_user_def

lemma sample_synced [simp]: "target_synced sample_store"
  by (simp add: target_synced_def sample_store_def)

lemma sample_io [simp]: "io_rename (sample_world n)"
  by (simp add: sample_world_def good_io_def)

lemmas exec_eval = mutate_def commit_def persistLocked_def persist_files_def with_user_def userIndexLocked_def
  advance_and_revoke_def advance_user_def advanceCredentialVersion_def revokeUserSessionsLocked_def UserByID_def
  sameCredential_def secureStringEqual_def run_def

end
