(* ===== verification/Credentials.thy ===== *)
theory Credentials
  imports StoreInvariants "HOL-Library.Multiset"
begin

text \<open>
  The credential generation of an account (\<open>CredentialEpoch\<close>, \<open>CredentialVersion\<close>): what a
  snapshot of it vouches for, and what happens to the sessions when it moves.
\<close>

section \<open>The contract\<close>

definition same_stamp :: "user \<Rightarrow> user \<Rightarrow> bool" where
  "same_stamp u v = (u_CredentialEpoch u = u_CredentialEpoch v \<and> u_CredentialVersion u = u_CredentialVersion v)"

text \<open>
  What an unchanged generation promises between an earlier and a later value of an account: the
  password, the sign-in name, the authenticator secret and the set of passkeys are the same, used
  authenticator steps and recovery codes stay used.
\<close>

definition vouched :: "user \<Rightarrow> user \<Rightarrow> bool" where
  "vouched u v = (u_PasswordHash v = u_PasswordHash u \<and> u_Username v = u_Username u \<and> u_Role v = u_Role u \<and>
     u_TOTPSecret v = u_TOTPSecret u \<and> map pk_ID (u_Passkeys v) = map pk_ID (u_Passkeys u) \<and>
     u_TOTPLastUsedStep u \<le> u_TOTPLastUsedStep v \<and>
     mset (u_TOTPRecoveryCodeHashes v) \<subseteq># mset (u_TOTPRecoveryCodeHashes u))"

lemma vouched_refl [simp]: "vouched u u" by (simp add: vouched_def)

lemma vouched_trans: "vouched u v \<Longrightarrow> vouched v w \<Longrightarrow> vouched u w"
  by (auto simp: vouched_def intro: subset_mset.order_trans)

text \<open>One account across one request that may draw its epochs from \<open>E\<close>.\<close>

inductive account_step :: "string set \<Rightarrow> user \<Rightarrow> user \<Rightarrow> bool" for E where
  kept: "account_step E u v" if "u_ID v = u_ID u" "same_stamp u v" "vouched u v"
| advanced: "account_step E u v" if "u_ID v = u_ID u" "u_CredentialVersion u \<noteq> - 1"
    "u_CredentialEpoch v = u_CredentialEpoch u" "u_CredentialVersion v = u_CredentialVersion u + 1"
| rolled: "account_step E u v" if "u_ID v = u_ID u" "u_CredentialEpoch v \<in> E"

inductive_cases account_stepE: "account_step E u v"

lemma account_step_refl [simp]: "account_step E u u"
  by (rule kept) (simp_all add: same_stamp_def)

lemma account_step_ID: "account_step E u v \<Longrightarrow> u_ID v = u_ID u"
  by (erule account_stepE) simp_all

definition opt_epoch :: "string option \<Rightarrow> string set" where
  "opt_epoch r = (case r of None \<Rightarrow> {} | Some v \<Rightarrow> {hex_encode v})"

text \<open>The epochs a request can create.\<close>

fun epochs_of :: "'p request \<Rightarrow> string set" where
  "epochs_of (RPassword r _ _ _ _) = opt_epoch r"
| "epochs_of (RRecover _ _ r _) = opt_epoch r"
| "epochs_of (RUsername r _ _ _ _) = opt_epoch r"
| "epochs_of (REnableTOTP r _ _ _ _ _ _ _) = opt_epoch r"
| "epochs_of (RRecoveryCodes r _ _ _) = opt_epoch r"
| "epochs_of (RDisableTOTP r _ _) = opt_epoch r"
| "epochs_of (RPasskeys r _ _ _ _) = opt_epoch r"
| "epochs_of (RDisablePasskeys r _ _ _ _) = (\<Union>i. opt_epoch (r i))"
| "epochs_of (RRestore r _) = (\<Union>i. opt_epoch (r i))"
| "epochs_of _ = {}"

text \<open>What one request does to the accounts and to the sessions of those whose generation moved.\<close>

definition accounts_step :: "string set \<Rightarrow> 'p disk_state \<Rightarrow> 'p disk_state \<Rightarrow> bool" where
  "accounts_step E d d' =
     (list_all2 (account_step E) (d_Users d) (d_Users d') \<and>
        (\<forall>k<length (d_Users d). same_stamp (d_Users d ! k) (d_Users d' ! k) \<or>
            (\<forall>x\<in>set (d_Sessions d'). s_UserID x \<noteq> u_ID (d_Users d ! k))) \<or>
      d_Users d' \<noteq> [] \<and> (\<forall>v\<in>set (d_Users d'). u_CredentialEpoch v \<in> E) \<and> d_Sessions d' = [])"

section \<open>Every request meets it\<close>

lemma advanceCredentialVersion_step:
  assumes "advanceCredentialVersion rnd u = Inr w"
    and "u_ID v = u_ID w" "u_CredentialEpoch v = u_CredentialEpoch w" "u_CredentialVersion v = u_CredentialVersion w"
  shows "account_step (opt_epoch rnd) u v"
proof (cases "u_CredentialVersion u = - 1")
  case True
  with assms show ?thesis
    by (intro rolled) (auto simp: advanceCredentialVersion_def newCredentialEpoch_def opt_epoch_def split: option.splits)
next
  case False
  with assms show ?thesis by (intro advanced) (auto simp: advanceCredentialVersion_def)
qed

lemma accounts_step_same: "d_Users d' = d_Users d \<Longrightarrow> accounts_step E d d'"
  by (auto simp: accounts_step_def same_stamp_def list_all2_conv_all_nth)

lemma list_all2_update:
  assumes "\<And>x. R x x" and "k < length xs" and "R (xs ! k) y"
  shows "list_all2 R xs (xs[k := y])"
  using assms by (auto simp: list_all2_conv_all_nth nth_list_update)

lemma accounts_step_update:
  assumes "k < length (d_Users d)" "account_step E (d_Users d ! k) v" "d_Users d' = (d_Users d)[k := v]"
    and "same_stamp (d_Users d ! k) v \<or> (\<forall>x\<in>set (d_Sessions d'). s_UserID x \<noteq> u_ID (d_Users d ! k))"
  shows "accounts_step E d d'"
proof -
  have "list_all2 (account_step E) (d_Users d) (d_Users d')"
    using assms(1-3) by (simp add: list_all2_update)
  moreover have "\<forall>j<length (d_Users d). same_stamp (d_Users d ! j) (d_Users d' ! j) \<or>
      (\<forall>x\<in>set (d_Sessions d'). s_UserID x \<noteq> u_ID (d_Users d ! j))"
    using assms(1,3,4) by (auto simp: nth_list_update same_stamp_def)
  ultimately show ?thesis by (simp add: accounts_step_def)
qed

lemma userIndexLocked_SomeD:
  "userIndexLocked i d = Some k \<Longrightarrow> k < length (d_Users d) \<and> u_ID (d_Users d ! k) = i"
  by (auto simp: userIndexLocked_def dest: index_of_SomeD)

lemma with_user_Inr:
  assumes "with_user i f d = Inr r"
  obtains k where "k < length (d_Users d)" "u_ID (d_Users d ! k) = i" "f k (d_Users d ! k) d = Inr r"
  using assms that by (auto simp: with_user_def split: option.splits dest: userIndexLocked_SomeD)

lemma kept_update:
  assumes "k < length (d_Users d)" "d_Users d' = (d_Users d)[k := v]"
    and "u_ID v = u_ID (d_Users d ! k)" "same_stamp (d_Users d ! k) v" "vouched (d_Users d ! k) v"
  shows "accounts_step E d d'"
  using assms by (intro accounts_step_update [where v = v]) (auto intro: kept)

definition keeps_stamp :: "(user \<Rightarrow> user) \<Rightarrow> bool" where
  "keeps_stamp f = (\<forall>u. u_ID (f u) = u_ID u \<and> u_CredentialEpoch (f u) = u_CredentialEpoch u \<and>
     u_CredentialVersion (f u) = u_CredentialVersion u)"

lemma advance_update:
  assumes "k < length (d_Users d)" "advanceCredentialVersion rnd (d_Users d ! k) = Inr w" "keeps_stamp f"
    "d_Users d' = (d_Users d)[k := f w]" "\<forall>x\<in>set (d_Sessions d'). s_UserID x \<noteq> u_ID (d_Users d ! k)"
  shows "accounts_step (opt_epoch rnd) d d'"
  using assms by (intro accounts_step_update [where v = "f w"])
    (auto simp: keeps_stamp_def intro: advanceCredentialVersion_step)

lemma advance_and_revoke_step:
  assumes "advance_and_revoke rnd k f i d = Inr (r, d')" "k < length (d_Users d)" "u_ID (d_Users d ! k) = i" "keeps_stamp f"
  shows "accounts_step (opt_epoch rnd) d d'"
proof -
  from assms(1) obtain w where "advanceCredentialVersion rnd (d_Users d ! k) = Inr w"
    "d' = revokeUserSessionsLocked i (d\<lparr>d_Users := (d_Users d)[k := f w]\<rparr>)"
    by (auto simp: advance_and_revoke_def advance_user_def split: sum.splits)
  with assms(2-4) show ?thesis
    by (intro advance_update [where w = w and f = f and k = k]) (auto simp: revokeUserSessionsLocked_def)
qed

lemma ReplaceUserAvatar_step: "ReplaceUserAvatar i a t d = Inr (r, d') \<Longrightarrow> accounts_step E d d'"
  by (auto simp: ReplaceUserAvatar_def same_stamp_def vouched_def split: option.splits
      elim!: with_user_Inr intro: kept_update)

lemma ReplaceUserPassword_step:
  "ReplaceUserPassword rnd i e n t d = Inr (r, d') \<Longrightarrow> accounts_step (opt_epoch rnd) d d'"
  unfolding ReplaceUserPassword_def
  by (erule with_user_Inr) (auto simp: keeps_stamp_def split: if_splits intro: advance_and_revoke_step)

lemma ReplaceUserUsername_step:
  "ReplaceUserUsername G rnd i e n t d = Inr (r, d') \<Longrightarrow> accounts_step (opt_epoch rnd) d d'"
  unfolding ReplaceUserUsername_def
  by (erule with_user_Inr) (auto simp: keeps_stamp_def split: if_splits intro: advance_and_revoke_step)

lemma EnableUserTOTP_step:
  "EnableUserTOTP rnd i ep v sec t st hs d = Inr (r, d') \<Longrightarrow> accounts_step (opt_epoch rnd) d d'"
  unfolding EnableUserTOTP_def
  by (erule with_user_Inr) (auto simp: keeps_stamp_def split: if_splits intro: advance_and_revoke_step)

lemma ReplaceUserRecoveryCodes_step:
  "ReplaceUserRecoveryCodes rnd i hs t d = Inr (r, d') \<Longrightarrow> accounts_step (opt_epoch rnd) d d'"
  unfolding ReplaceUserRecoveryCodes_def
  by (erule with_user_Inr) (auto simp: keeps_stamp_def split: if_splits intro: advance_and_revoke_step)

lemma DisableUserTOTP_step:
  "DisableUserTOTP rnd i t d = Inr (r, d') \<Longrightarrow> accounts_step (opt_epoch rnd) d d'"
  unfolding DisableUserTOTP_def
  by (erule with_user_Inr)
     (auto simp: keeps_stamp_def clear_totp_def split: if_splits intro: advance_and_revoke_step)

lemma ConsumeUserTOTPStep_step: "ConsumeUserTOTPStep G i sec st t d = Inr (r, d') \<Longrightarrow> accounts_step E d d'"
  unfolding ConsumeUserTOTPStep_def
  by (erule with_user_Inr) (auto simp: same_stamp_def vouched_def split: if_splits intro: kept_update)

lemma last_index_of_SomeD:
  assumes "last_index_of P xs = Some m" shows "m < length xs \<and> P (xs ! m)"
proof -
  from assms obtain i where i: "index_of P (rev xs) = Some i" and m: "m = length xs - 1 - i"
    by (auto simp: last_index_of_def)
  from index_of_SomeD [OF i] have "i < length xs" "P (rev xs ! i)" by simp_all
  with m show ?thesis by (simp add: rev_nth)
qed

lemma mset_remove_nth: "m < length xs \<Longrightarrow> mset xs = add_mset (xs ! m) (mset (remove_nth m xs))"
  by (metis (no_types, lifting) id_take_nth_drop mset.simps(2) mset_append remove_nth_def union_mset_add_mset_right)

lemma ConsumeUserRecoveryCode_step: "ConsumeUserRecoveryCode i h t d = Inr (r, d') \<Longrightarrow> accounts_step E d d'"
proof -
  assume c: "ConsumeUserRecoveryCode i h t d = Inr (r, d')"
  show ?thesis
    using c unfolding ConsumeUserRecoveryCode_def
  proof (rule with_user_Inr)
    fix k
    let ?u = "d_Users d ! k"
    assume k: "k < length (d_Users d)" "(case last_index_of (\<lambda>c. c = h) (u_TOTPRecoveryCodeHashes ?u) of
          None \<Rightarrow> Inl ErrNotFound
        | Some m \<Rightarrow> Inr ((), d\<lparr>d_Users := (d_Users d)[k := ?u\<lparr>u_TOTPRecoveryCodeHashes :=
            remove_nth m (u_TOTPRecoveryCodeHashes ?u), u_UpdatedAt := t\<rparr>]\<rparr>)) = Inr (r, d')"
    then obtain m where m: "m < length (u_TOTPRecoveryCodeHashes ?u)"
      and d': "d' = d\<lparr>d_Users := (d_Users d)[k := ?u\<lparr>u_TOTPRecoveryCodeHashes :=
            remove_nth m (u_TOTPRecoveryCodeHashes ?u), u_UpdatedAt := t\<rparr>]\<rparr>"
      by (auto split: option.splits dest: last_index_of_SomeD)
    show "accounts_step E d d'"
      using mset_remove_nth [OF m] d'
      by (intro kept_update [OF k(1), where v = "?u\<lparr>u_TOTPRecoveryCodeHashes :=
          remove_nth m (u_TOTPRecoveryCodeHashes ?u), u_UpdatedAt := t\<rparr>"]) (simp_all add: same_stamp_def vouched_def)
  qed
qed

lemma keeps_stamp_recovered: "keeps_stamp (recovered_user inp)"
  by (simp add: keeps_stamp_def recovered_user_def clear_totp_def Let_def)

lemma recover_body_step: "recover_body rnd inp d = Inr (r, d') \<Longrightarrow> accounts_step (opt_epoch rnd) d d'"
  unfolding recover_body_def
proof (erule with_user_Inr)
  fix k
  assume k: "k < length (d_Users d)" and "u_ID (d_Users d ! k) = pr_UserID inp"
    and "(case advance_user rnd k (recovered_user inp) d of Inl e \<Rightarrow> Inl e
       | Inr d' \<Rightarrow> Inr ((), (revokeUserSessionsLocked (u_ID (d_Users d ! k)) d')\<lparr>d_LoginAttempts := []\<rparr>)) = Inr (r, d')"
  then obtain w where "advanceCredentialVersion rnd (d_Users d ! k) = Inr w"
    "d' = (revokeUserSessionsLocked (u_ID (d_Users d ! k)) (d\<lparr>d_Users := (d_Users d)[k := recovered_user inp w]\<rparr>))\<lparr>d_LoginAttempts := []\<rparr>"
    by (auto simp: advance_user_def split: sum.splits)
  with k show "accounts_step (opt_epoch rnd) d d'"
    by (intro advance_update [where w = w and k = k, OF _ _ keeps_stamp_recovered])
       (auto simp: revokeUserSessionsLocked_def)
qed

lemma ReplaceUserPasskeys_step:
  "ReplaceUserPasskeys G rnd u vs h t d = Inr (r, d') \<Longrightarrow> accounts_step (opt_epoch rnd) d d'"
proof -
  assume "ReplaceUserPasskeys G rnd u vs h t d = Inr (r, d')"
  then obtain k w where k: "userIndexLocked (u_ID u) d = Some k"
    and w: "advanceCredentialVersion rnd (d_Users d ! k) = Inr w"
    and u: "d_Users d' = (d_Users d)[k := w\<lparr>u_Passkeys := vs, u_UpdatedAt := t\<rparr>]"
    and s: "d_Sessions d' = filter (\<lambda>x. s_UserID x \<noteq> u_ID u) (d_Sessions d)"
    by (auto simp: ReplaceUserPasskeys_def Let_def revokeUserSessionsLocked_def split: option.splits if_splits sum.splits)
  have "keeps_stamp (\<lambda>w. w\<lparr>u_Passkeys := vs, u_UpdatedAt := t\<rparr>)" by (simp add: keeps_stamp_def)
  then show ?thesis
    using userIndexLocked_SomeD [OF k] u s by (intro advance_update [OF _ w]) auto
qed

lemma UpdateUserPasskey_step: "UpdateUserPasskey G wl u v x d = Inr (r, d') \<Longrightarrow> accounts_step E d d'"
proof -
  assume "UpdateUserPasskey G wl u v x d = Inr (r, d')"
  then obtain k i where k: "userIndexLocked (u_ID u) d = Some k" and i: "passkey_slot (d_Users d ! k) v u = Some i"
    and u: "d_Users d' = (d_Users d)[k := (d_Users d ! k)\<lparr>u_Passkeys := (u_Passkeys (d_Users d ! k))[i := v]\<rparr>]"
    by (auto simp: UpdateUserPasskey_def Let_def putSessionLocked_def split: option.splits if_splits)
  have "map pk_ID ((u_Passkeys (d_Users d ! k))[i := v]) = map pk_ID (u_Passkeys (d_Users d ! k))"
    using passkey_slotD [OF i] by (intro passkey_slot_map [OF i]) simp
  then show ?thesis
    using userIndexLocked_SomeD [OF k]
    by (intro kept_update [OF _ u]) (auto simp: same_stamp_def vouched_def)
qed

lemma DisablePasskeys_step:
  "DisablePasskeys G rnd u o' h t d = Inr (r, d') \<Longrightarrow> accounts_step (\<Union>i. opt_epoch (rnd i)) d d'"
proof -
  assume "DisablePasskeys G rnd u o' h t d = Inr (r, d')"
  then have all: "disable_all rnd t 0 (d_Users d) = Inr (d_Users d')" and s: "d_Sessions d' = []"
    by (auto simp: DisablePasskeys_def split: option.splits if_splits sum.splits)
  have "account_step (\<Union>i. opt_epoch (rnd i)) (d_Users d ! k) (d_Users d' ! k)" if k: "k < length (d_Users d)" for k
  proof -
    from disable_all_Inr [OF all] k obtain w where w: "advanceCredentialVersion (rnd k) (d_Users d ! k) = Inr w"
      and v: "d_Users d' ! k = w\<lparr>u_Passkeys := [], u_UpdatedAt := t\<rparr>" by auto
    have "account_step (opt_epoch (rnd k)) (d_Users d ! k) (d_Users d' ! k)"
      by (rule advanceCredentialVersion_step [OF w]) (simp_all add: v)
    then show ?thesis by (cases rule: account_step.cases) (auto intro: account_step.intros)
  qed
  then show ?thesis
    using disable_all_Inr [OF all] s by (auto simp: accounts_step_def list_all2_conv_all_nth)
qed

lemma fresh_users_Inr:
  "fresh_users rnd i us = Inr vs \<Longrightarrow> length vs = length us \<and>
     (\<forall>v\<in>set vs. u_CredentialEpoch v \<in> (\<Union>i. opt_epoch (rnd i)) \<and> u_Passkeys v = [] \<and> u_CredentialVersion v = 1) \<and>
     map u_Avatar vs = map u_Avatar us"
proof (induction us arbitrary: i vs)
  case Nil
  then show ?case by simp
next
  case (Cons u us)
  then show ?case
    by (fastforce simp: newCredentialEpoch_def opt_epoch_def split: sum.splits option.splits)
qed

lemma RestoreIdentity_step:
  "RestoreIdentity V rnd inc d = Inr (r, d') \<Longrightarrow> accounts_step (\<Union>i. opt_epoch (rnd i)) d d'"
proof -
  assume "RestoreIdentity V rnd inc d = Inr (r, d')"
  then have all: "fresh_users rnd 0 (d_Users inc) = Inr (d_Users d')" and "d_Sessions d' = []"
    and "length (d_Users inc) = 1"
    by (auto simp: RestoreIdentity_def ValidateIdentityBackup_def split: option.splits if_splits sum.splits)
  with fresh_users_Inr [OF all] show ?thesis by (auto simp: accounts_step_def)
qed

lemmas request_steps = ReplaceUserAvatar_step ReplaceUserPassword_step ReplaceUserUsername_step EnableUserTOTP_step
  ReplaceUserRecoveryCodes_step DisableUserTOTP_step ConsumeUserTOTPStep_step ConsumeUserRecoveryCode_step
  recover_body_step ReplaceUserPasskeys_step UpdateUserPasskey_step DisablePasskeys_step RestoreIdentity_step

lemma PutLoginSession_users: "PutLoginSession G w u x as t d = Inr (r, d') \<Longrightarrow> d_Users d' = d_Users d"
  by (auto simp: PutLoginSession_def recordLoginAttemptsLocked_def putSessionLocked_def
      split: option.splits if_splits sum.splits)

lemma request_accounts:
  assumes "request_body G V rq d = Inr (r, d')" and "d_Users d \<noteq> []"
  shows "accounts_step (epochs_of rq) d d'"
proof (cases rq)
  case (RLoginSession w u x as t)
  with assms show ?thesis by (auto intro: accounts_step_same dest: PutLoginSession_users)
next
  case (RCreateShare v e t)
  with assms show ?thesis
    by (auto simp: forget_def split: sum.splits intro!: accounts_step_same elim!: CreateFileShare_InrD)
qed (use assms in \<open>auto intro: request_steps accounts_step_same
      simp: CreateInitialAdmin_def PutSession_def putSessionLocked_def RevokeAllSessions_def delete_session_def
        RecordLoginAttempts_def recordLoginAttemptsLocked_def forget_def DeleteFileShare_def replace_cell_Inr
      split: sum.splits option.splits\<close>)

lemma accounts_step_nonempty: "accounts_step E d d' \<Longrightarrow> d_Users d \<noteq> [] \<Longrightarrow> d_Users d' \<noteq> []"
  by (auto simp: accounts_step_def)

lemma UserByID_Inr: "UserByID i s = Inr u \<Longrightarrow> u \<in> set (d_Users (st_data s)) \<and> u_ID u = i"
  by (auto simp: UserByID_def split: option.splits dest: find_SomeD)

section \<open>A credential change ends the sessions\<close>

text \<open>
  C2: Whenever a request changes the credential epoch or version of an account (password,
  username, TOTP, passkeys, recovery), the same persisted step leaves no session of that
  account.
\<close>

theorem credential_change_revokes:
  assumes "exec G V W rq s = (Inr (), s')" and "UserByID i s = Inr u"
    and "\<And>v. UserByID i s' = Inr v \<Longrightarrow> \<not> same_stamp u v"
  shows "\<forall>x\<in>set (d_Sessions (st_data s')). s_UserID x \<noteq> i"
proof -
  let ?d = "st_data s" and ?d' = "st_data s'"
  from assms(2) have f: "List.find (\<lambda>u. u_ID u = i) (d_Users ?d) = Some u"
    by (auto simp: UserByID_def split: option.splits)
  then obtain k where k: "index_of (\<lambda>u. u_ID u = i) (d_Users ?d) = Some k" and u: "u = d_Users ?d ! k"
    by (auto simp: find_index_of)
  note lt = index_of_lt [OF k]
  from exec_frame [OF assms(1)] have "request_body G V rq ?d = Inr ((), ?d')" by simp
  moreover have "d_Users ?d \<noteq> []" using lt by auto
  ultimately have "accounts_step (epochs_of rq) ?d ?d'" by (rule request_accounts)
  then show ?thesis
    unfolding accounts_step_def
  proof (elim disjE conjE)
    assume all: "list_all2 (account_step (epochs_of rq)) (d_Users ?d) (d_Users ?d')"
      and s: "\<forall>k<length (d_Users ?d). same_stamp (d_Users ?d ! k) (d_Users ?d' ! k) \<or>
        (\<forall>x\<in>set (d_Sessions ?d'). s_UserID x \<noteq> u_ID (d_Users ?d ! k))"
    have ids: "map u_ID (d_Users ?d') = map u_ID (d_Users ?d)"
      using all by (induction rule: list_all2_induct) (auto dest: account_step_ID)
    have "index_of (\<lambda>u. u_ID u = i) xs = index_of (\<lambda>j. j = i) (map u_ID xs)" for xs
      by (induction xs) auto
    with k ids have "index_of (\<lambda>u. u_ID u = i) (d_Users ?d') = Some k" by metis
    then have "UserByID i s' = Inr (d_Users ?d' ! k)" by (simp add: UserByID_def find_index_of)
    with assms(3) u have "\<not> same_stamp (d_Users ?d ! k) (d_Users ?d' ! k)" by blast
    with s lt index_of_sat [OF k] show ?thesis by auto
  qed simp
qed

lemma credential_change_revokes_witness:
  "list_all (\<lambda>x. s_UserID x \<noteq> ''u1'') (d_Sessions (st_data (snd (sample_exec (RDisableTOTP None ''u1'' 60) sample_store))))"
  unfolding list_all_iff
proof (rule credential_change_revokes)
  show "sample_exec (RDisableTOTP None ''u1'' 60) sample_store =
      (Inr (), snd (sample_exec (RDisableTOTP None ''u1'' 60) sample_store))"
    by (simp add: exec_eval sample_defs DisableUserTOTP_def)
  show "UserByID ''u1'' sample_store = Inr sample_user"
    by (simp add: exec_eval sample_defs)
  show "\<not> same_stamp sample_user v"
    if "UserByID ''u1'' (snd (sample_exec (RDisableTOTP None ''u1'' 60) sample_store)) = Inr v" for v
    using that by (auto simp: exec_eval sample_defs DisableUserTOTP_def clear_totp_def same_stamp_def)
qed

section \<open>What a snapshot vouches for\<close>

text \<open>The credential history of one account from the snapshot \<open>u\<close> on.\<close>

definition descends :: "user \<Rightarrow> user \<Rightarrow> bool" where
  "descends u v = (u_CredentialEpoch v \<noteq> u_CredentialEpoch u \<or>
     u_CredentialVersion u \<le> u_CredentialVersion v \<and> (u_CredentialVersion v = u_CredentialVersion u \<longrightarrow> vouched u v))"

lemma word_succ_greater: "(w :: 64 word) \<noteq> - 1 \<Longrightarrow> w < w + 1"
  using unatSuc [of w] by (simp add: word_less_nat_alt add.commute eq_neg_iff_add_eq_0)

lemma descends_step:
  assumes "descends u v" and "account_step E v w" and "u_CredentialEpoch u \<notin> E"
  shows "descends u w"
  using assms(2)
proof cases
  case kept
  with assms(1) show ?thesis by (auto simp: descends_def same_stamp_def intro: vouched_trans)
next
  case advanced
  then have "u_CredentialVersion v < u_CredentialVersion w" by (simp add: word_succ_greater)
  with advanced assms(1) show ?thesis by (auto simp: descends_def)
next
  case rolled
  with assms(3) show ?thesis by (auto simp: descends_def)
qed

definition all_descend :: "user \<Rightarrow> 'p disk_state \<Rightarrow> bool" where
  "all_descend u d = (d_Users d \<noteq> [] \<and> (\<forall>v\<in>set (d_Users d). u_ID v = u_ID u \<longrightarrow> descends u v))"

lemma all_descend_step:
  assumes "all_descend u d" and "accounts_step E d d'" and "u_CredentialEpoch u \<notin> E"
  shows "all_descend u d'"
  using assms(2) unfolding accounts_step_def
proof (elim disjE conjE)
  assume all: "list_all2 (account_step E) (d_Users d) (d_Users d')"
  have "descends u w" if w: "w \<in> set (d_Users d')" "u_ID w = u_ID u" for w
  proof -
    from w(1) obtain j where "j < length (d_Users d')" "w = d_Users d' ! j" by (auto simp: in_set_conv_nth)
    with all have "d_Users d ! j \<in> set (d_Users d)" "account_step E (d_Users d ! j) w"
      by (simp_all add: list_all2_conv_all_nth)
    then obtain v where "v \<in> set (d_Users d)" "account_step E v w" by blast
    with assms(1) w(2) account_step_ID have "descends u v" by (fastforce simp: all_descend_def)
    from descends_step [OF this \<open>account_step E v w\<close> assms(3)] show ?thesis .
  qed
  with assms(1) all show ?thesis by (auto simp: all_descend_def)
next
  assume "d_Users d' \<noteq> []" "\<forall>v\<in>set (d_Users d'). u_CredentialEpoch v \<in> E"
  with assms(3) show ?thesis by (auto simp: all_descend_def descends_def)
qed

lemma all_descend_run:
  assumes "all_descend u (st_data s)" and "\<And>rq. rq \<in> set rqs \<Longrightarrow> u_CredentialEpoch u \<notin> epochs_of rq"
  shows "all_descend u (st_data (run G V W rqs s))"
  using assms
proof (induction rqs arbitrary: s)
  case Nil
  then show ?case by simp
next
  case (Cons rq rqs)
  obtain r s1 where e: "exec G V W rq s = (r, s1)" by (cases "exec G V W rq s")
  have "all_descend u (st_data s1)"
  proof (cases r)
    case (Inl x)
    with exec_frame [OF e] Cons.prems(1) show ?thesis by simp
  next
    case (Inr x)
    with exec_frame [OF e] have "request_body G V rq (st_data s) = Inr ((), st_data s1)" by simp
    then have "accounts_step (epochs_of rq) (st_data s) (st_data s1)"
      using Cons.prems(1) by (intro request_accounts) (auto simp: all_descend_def)
    from all_descend_step [OF Cons.prems(1) this] Cons.prems(2) show ?thesis by simp
  qed
  with Cons e show ?case by simp
qed

lemma snapshot_vouched:
  assumes u: "UserByID i s = Inr u" and one: "distinct (map u_ID (d_Users (st_data s)))"
    and fresh: "\<And>rq. rq \<in> set rqs \<Longrightarrow> u_CredentialEpoch u \<notin> epochs_of rq"
    and v: "UserByID i (run G V W rqs s) = Inr v" and st: "same_stamp u v"
  shows "vouched u v"
proof -
  from UserByID_Inr [OF u] have f: "u \<in> set (d_Users (st_data s))" "u_ID u = i" by simp_all
  have "v = u" if "v \<in> set (d_Users (st_data s))" "u_ID v = u_ID u" for v
    using one that f(1) by (metis distinct_map inj_onD)
  moreover have "descends u u" by (simp add: descends_def)
  ultimately have "all_descend u (st_data s)" unfolding all_descend_def using f(1) by fastforce
  from all_descend_run [OF this fresh, of rqs G V W] UserByID_Inr [OF v] f(2) have "descends u v"
    by (simp add: all_descend_def)
  with st show ?thesis by (simp add: descends_def same_stamp_def)
qed

text \<open>
  C1: A password login commits its session only while the account it verified is still in the
  state it was read in: if PutLoginSession succeeds after any run of other requests, the account
  still has the epoch and version of the snapshot and the same username, role, password hash and
  TOTP secret.
\<close>

theorem login_snapshot_current:
  assumes "UserByID i s = Inr u" and "distinct (map u_ID (d_Users (st_data s)))"
    and "\<And>rq. rq \<in> set rqs \<Longrightarrow> u_CredentialEpoch u \<notin> epochs_of rq"
    and "exec G V W (RLoginSession wall u x as since) (run G V W rqs s) = (Inr (), s')"
  shows "\<exists>v. UserByID i (run G V W rqs s) = Inr v \<and> same_stamp u v \<and> vouched u v"
proof -
  let ?s = "run G V W rqs s"
  from exec_frame [OF assms(4)] have "PutLoginSession G wall u x as since (st_data ?s) = Inr ((), st_data s')" by simp
  then obtain k where k: "userIndexLocked (u_ID u) (st_data ?s) = Some k"
    and st: "same_stamp u (d_Users (st_data ?s) ! k)"
    unfolding PutLoginSession_def sameCredential_def same_stamp_def
    by (cases "userIndexLocked (u_ID u) (st_data ?s)") (simp_all split: if_splits)
  have "u_ID u = i" using UserByID_Inr [OF assms(1)] by simp
  with k have "UserByID i ?s = Inr (d_Users (st_data ?s) ! k)"
    by (simp add: UserByID_def userIndexLocked_def find_index_of)
  with snapshot_vouched [OF assms(1-3) this st] st show ?thesis by blast
qed

lemma login_snapshot_current_witness:
  "\<exists>v. UserByID ''u1'' (sample_run [RTOTPStep ''u1'' ''sealed'' 41 70] sample_store) = Inr v \<and>
     same_stamp sample_user v \<and> vouched sample_user v"
proof (rule login_snapshot_current)
  show "UserByID ''u1'' sample_store = Inr sample_user" by (simp add: exec_eval sample_defs)
  show "distinct (map u_ID (d_Users (st_data sample_store)))" by (simp add: sample_defs)
  show "u_CredentialEpoch sample_user \<notin> epochs_of rq" if "rq \<in> set [RTOTPStep ''u1'' ''sealed'' 41 70]"
    for rq :: "unit request" using that by simp
  let ?s = "sample_run [RTOTPStep ''u1'' ''sealed'' 41 70] sample_store"
  let ?rq = "RLoginSession 100 sample_user sample_session [] 0"
  show "sample_exec ?rq ?s = (Inr (), snd (sample_exec ?rq ?s))"
    by (simp add: exec_eval sample_defs ConsumeUserTOTPStep_def PutLoginSession_def recordLoginAttemptsLocked_def
        record_attempts_def scoped_count_def unauth_count_def active_def putSessionLocked_def)
qed

section \<open>Second factors are used once\<close>

lemma ConsumeUserTOTPStep_Inr:
  assumes "ConsumeUserTOTPStep G i sec st t d = Inr (r, d')"
  obtains k where "userIndexLocked i d = Some k"
    "d_Users d' = (d_Users d)[k := (d_Users d ! k)\<lparr>u_TOTPLastUsedStep := st, u_UpdatedAt := t\<rparr>]"
  using assms that by (auto simp: ConsumeUserTOTPStep_def with_user_def split: option.splits if_splits)

lemma ConsumeUserRecoveryCode_Inr:
  assumes "ConsumeUserRecoveryCode i h t d = Inr (r, d')"
  obtains k m where "userIndexLocked i d = Some k"
    "last_index_of (\<lambda>c. c = h) (u_TOTPRecoveryCodeHashes (d_Users d ! k)) = Some m"
    "d_Users d' = (d_Users d)[k := (d_Users d ! k)\<lparr>u_TOTPRecoveryCodeHashes :=
        remove_nth m (u_TOTPRecoveryCodeHashes (d_Users d ! k)), u_UpdatedAt := t\<rparr>]"
  using assms that by (auto simp: ConsumeUserRecoveryCode_def with_user_def split: option.splits)

lemma TOTP_step_frame:
  assumes "exec G V W (RTOTPStep i sec st t) s = (Inr (), s')" and "UserByID i s' = Inr u"
  shows "u_TOTPLastUsedStep u = st"
proof -
  from exec_frame [OF assms(1)] obtain k where k: "userIndexLocked i (st_data s) = Some k"
    and u': "d_Users (st_data s') = (d_Users (st_data s))[k := (d_Users (st_data s) ! k)\<lparr>u_TOTPLastUsedStep := st, u_UpdatedAt := t\<rparr>]"
    by (auto elim: ConsumeUserTOTPStep_Inr)
  have lt: "k < length (d_Users (st_data s))" and "u_ID (d_Users (st_data s) ! k) = i"
    using userIndexLocked_SomeD [OF k] by simp_all
  then have "index_of (\<lambda>u. u_ID u = i) (d_Users (st_data s')) = Some k"
    using k u' index_of_update [of "\<lambda>u. u_ID u = i" "d_Users (st_data s)" k] by (simp add: userIndexLocked_def)
  with assms(2) u' lt show ?thesis by (auto simp: UserByID_def find_index_of)
qed

lemma TOTP_step_refused:
  assumes "UserByID i s = Inr v" and "st \<le> u_TOTPLastUsedStep v"
  shows "fst (exec G V W (RTOTPStep i sec st t) s) = Inl ErrConflict"
proof -
  from assms(1) obtain k where "index_of (\<lambda>u. u_ID u = i) (d_Users (st_data s)) = Some k" "v = d_Users (st_data s) ! k"
    by (auto simp: UserByID_def find_index_of split: option.splits)
  with assms(2) show ?thesis
    by (simp add: mutate_def ConsumeUserTOTPStep_def with_user_def userIndexLocked_def)
qed

text \<open>
  C3: After a TOTP step has been consumed, no run of requests that keeps the credentials of the
  account lets the same or an earlier step be consumed again.
\<close>

theorem totp_step_single_use:
  assumes "exec G V W (RTOTPStep i sec st t) s = (Inr (), s1)"
    and "UserByID i s1 = Inr u" and "distinct (map u_ID (d_Users (st_data s1)))"
    and "\<And>rq. rq \<in> set rqs \<Longrightarrow> u_CredentialEpoch u \<notin> epochs_of rq"
    and "UserByID i (run G V W rqs s1) = Inr v" and "same_stamp u v" and "st' \<le> st"
  shows "fst (exec G V W (RTOTPStep i sec' st' t') (run G V W rqs s1)) = Inl ErrConflict"
proof -
  have "vouched u v" by (rule snapshot_vouched [OF assms(2-6)])
  then have "u_TOTPLastUsedStep u \<le> u_TOTPLastUsedStep v" by (simp add: vouched_def)
  with TOTP_step_frame [OF assms(1,2)] assms(7) have "st' \<le> u_TOTPLastUsedStep v" by simp
  from TOTP_step_refused [OF assms(5) this] show ?thesis .
qed

lemma totp_step_single_use_witness:
  "let s1 = snd (sample_exec (RTOTPStep ''u1'' ''sealed'' 41 70) sample_store) in
     fst (sample_exec (RTOTPStep ''u1'' ''sealed'' 41 90) (sample_run [RRevokeAll] s1)) = Inl ErrConflict"
  unfolding Let_def
proof (rule totp_step_single_use)
  let ?s1 = "snd (sample_exec (RTOTPStep ''u1'' ''sealed'' 41 70) sample_store)"
  let ?u = "sample_user\<lparr>u_TOTPLastUsedStep := 41, u_UpdatedAt := 70\<rparr>"
  show "sample_exec (RTOTPStep ''u1'' ''sealed'' 41 70) sample_store = (Inr (), ?s1)"
    "UserByID ''u1'' ?s1 = Inr ?u" "distinct (map u_ID (d_Users (st_data ?s1)))"
    "UserByID ''u1'' (sample_run [RRevokeAll] ?s1) = Inr ?u"
    by (simp_all add: exec_eval sample_defs ConsumeUserTOTPStep_def RevokeAllSessions_def)
  show "u_CredentialEpoch ?u \<notin> epochs_of rq" if "rq \<in> set [RRevokeAll]" for rq :: "unit request"
    using that by simp
qed (simp_all add: same_stamp_def)

lemma recovery_code_frame:
  assumes "exec G V W (RRecoveryCode i h t) s = (Inr (), s')" and "UserByID i s = Inr u0" and "UserByID i s' = Inr u"
  shows "mset (u_TOTPRecoveryCodeHashes u0) = add_mset h (mset (u_TOTPRecoveryCodeHashes u))"
proof -
  from exec_frame [OF assms(1)] obtain k m where k: "userIndexLocked i (st_data s) = Some k"
    and m: "last_index_of (\<lambda>c. c = h) (u_TOTPRecoveryCodeHashes (d_Users (st_data s) ! k)) = Some m"
    and u': "d_Users (st_data s') = (d_Users (st_data s))[k := (d_Users (st_data s) ! k)\<lparr>u_TOTPRecoveryCodeHashes :=
        remove_nth m (u_TOTPRecoveryCodeHashes (d_Users (st_data s) ! k)), u_UpdatedAt := t\<rparr>]"
    by (auto elim: ConsumeUserRecoveryCode_Inr)
  have lt: "k < length (d_Users (st_data s))" and "u_ID (d_Users (st_data s) ! k) = i"
    using userIndexLocked_SomeD [OF k] by simp_all
  then have "index_of (\<lambda>u. u_ID u = i) (d_Users (st_data s')) = Some k"
    using k u' index_of_update [of "\<lambda>u. u_ID u = i" "d_Users (st_data s)" k] by (simp add: userIndexLocked_def)
  with assms(2,3) k u' lt mset_remove_nth [of m] last_index_of_SomeD [OF m] show ?thesis
    by (auto simp: UserByID_def find_index_of userIndexLocked_def)
qed

lemma last_index_of_None: "h \<notin> set xs \<Longrightarrow> last_index_of (\<lambda>c. c = h) xs = None"
  by (auto simp: last_index_of_def index_of_None)

lemma recovery_code_refused:
  assumes "UserByID i s = Inr v" and "h \<notin> set (u_TOTPRecoveryCodeHashes v)"
  shows "fst (exec G V W (RRecoveryCode i h t) s) = Inl ErrNotFound"
proof -
  from assms(1) obtain k where "index_of (\<lambda>u. u_ID u = i) (d_Users (st_data s)) = Some k" "v = d_Users (st_data s) ! k"
    by (auto simp: UserByID_def find_index_of split: option.splits)
  with assms(2) show ?thesis
    by (simp add: mutate_def ConsumeUserRecoveryCode_def with_user_def userIndexLocked_def last_index_of_None)
qed

text \<open>
  C4: A recovery code that has been consumed is refused ever after, as long as the credentials
  it belongs to are in force.
\<close>

theorem recovery_code_single_use:
  assumes "exec G V W (RRecoveryCode i h t) s = (Inr (), s1)"
    and "UserByID i s = Inr u0" and "distinct (u_TOTPRecoveryCodeHashes u0)"
    and "UserByID i s1 = Inr u" and "distinct (map u_ID (d_Users (st_data s1)))"
    and "\<And>rq. rq \<in> set rqs \<Longrightarrow> u_CredentialEpoch u \<notin> epochs_of rq"
    and "UserByID i (run G V W rqs s1) = Inr v" and "same_stamp u v"
  shows "fst (exec G V W (RRecoveryCode i h t') (run G V W rqs s1)) = Inl ErrNotFound"
proof -
  have "vouched u v" by (rule snapshot_vouched [OF assms(4-8)])
  then have sub: "mset (u_TOTPRecoveryCodeHashes v) \<subseteq># mset (u_TOTPRecoveryCodeHashes u)" by (simp add: vouched_def)
  have m: "mset (u_TOTPRecoveryCodeHashes u0) = add_mset h (mset (u_TOTPRecoveryCodeHashes u))"
    by (rule recovery_code_frame [OF assms(1,2,4)])
  have "count (mset (u_TOTPRecoveryCodeHashes u0)) h \<le> 1"
    using assms(3) by (simp add: distinct_count_atmost_1)
  with m have "h \<notin># mset (u_TOTPRecoveryCodeHashes u)" by (simp add: not_in_iff)
  with sub have "h \<notin> set (u_TOTPRecoveryCodeHashes v)" by (metis mset_subset_eqD set_mset_mset)
  from recovery_code_refused [OF assms(7) this] show ?thesis .
qed

lemma recovery_code_single_use_witness:
  "let s1 = snd (sample_exec (RRecoveryCode ''u1'' ''r1'' 70) sample_store) in
     fst (sample_exec (RRecoveryCode ''u1'' ''r1'' 90) (sample_run [RRevokeAll] s1)) = Inl ErrNotFound"
  unfolding Let_def
proof (rule recovery_code_single_use)
  let ?s1 = "snd (sample_exec (RRecoveryCode ''u1'' ''r1'' 70) sample_store)"
  let ?u = "sample_user\<lparr>u_TOTPRecoveryCodeHashes := [''r2''], u_UpdatedAt := 70\<rparr>"
  show "UserByID ''u1'' sample_store = Inr sample_user" "distinct (u_TOTPRecoveryCodeHashes sample_user)"
    by (simp_all add: exec_eval sample_defs)
  show "sample_exec (RRecoveryCode ''u1'' ''r1'' 70) sample_store = (Inr (), ?s1)"
    "UserByID ''u1'' ?s1 = Inr ?u" "distinct (map u_ID (d_Users (st_data ?s1)))"
    "UserByID ''u1'' (sample_run [RRevokeAll] ?s1) = Inr ?u"
    by (simp_all add: exec_eval sample_defs ConsumeUserRecoveryCode_def RevokeAllSessions_def last_index_of_def
        remove_nth_def)
  show "u_CredentialEpoch ?u \<notin> epochs_of rq" if "rq \<in> set [RRevokeAll]" for rq :: "unit request"
    using that by simp
qed (simp add: same_stamp_def)

end
