(* ===== verification/StoreOpen.thy ===== *)
theory StoreOpen
  imports Credentials
begin

text \<open>
  A state the panel has written is a state the panel can open again: every request keeps what
  \<open>Open\<close> validates, the bounds of the session table and of the attempt history, and the distinct
  keys the lookups rely on.
\<close>

definition user_ok :: "genv \<Rightarrow> nat \<Rightarrow> user \<Rightarrow> bool" where
  "user_ok G schema u = (validCredentialEpoch (u_CredentialEpoch u) \<and> (u_Passkeys u \<noteq> [] \<longrightarrow> 2 \<le> schema) \<and>
     validateUserAvatar (u_Avatar u) = None \<and> validatePasskeys G (u_Passkeys u) = None)"

lemma open_user_error_None: "open_user_error G schema u = None \<longleftrightarrow> user_ok G schema u"
  by (auto simp: open_user_error_def user_ok_def split: option.splits)

lemma first_error_None: "first_error f xs = None \<longleftrightarrow> (\<forall>x\<in>set xs. f x = None)"
  by (induction xs) (auto split: option.splits)

lemma opt_seq_None: "(case x of None \<Rightarrow> y | Some e \<Rightarrow> Some e) = None \<longleftrightarrow> x = None \<and> y = None"
  by (cases x) auto

lemma open_error_None:
  "open_error G V d = None \<longleftrightarrow> d_SchemaVersion d \<in> {1, 2} \<and> (\<forall>u\<in>set (d_Users d). user_ok G (d_SchemaVersion d) u) \<and>
     validateFileShares G (d_FileShares d) = None \<and> ValidateClusterHostOrder (cs_HostOrder (d_ClusterShare d)) = None \<and>
     (case d_ClusterHostOrder d of None \<Rightarrow> True | Some ids \<Rightarrow> ValidateClusterHostOrder ids = None) \<and> panel_ok V (d_Panel d)"
  unfolding open_error_def
  by (cases "d_SchemaVersion d = 1 \<or> d_SchemaVersion d = 2")
     (auto simp: opt_seq_None first_error_None open_user_error_None ValidateClusterShareHostOrder_def
       simp del: One_nat_def split: option.split)

text \<open>The part of the invariant \<open>Open\<close> does not check: the bounds the mutators keep.\<close>

definition bounds_ok :: "'p disk_state \<Rightarrow> bool" where
  "bounds_ok d = (length (d_Sessions d) \<le> maxRetainedSessions \<and> distinct (map s_TokenHash (d_Sessions d)) \<and>
     ledger_ok (d_LoginAttempts d) \<and> distinct (map u_ID (d_Users d)) \<and> d_Audit d = [])"

definition store_ok :: "genv \<Rightarrow> 'p panel_checks \<Rightarrow> 'p disk_state \<Rightarrow> bool" where
  "store_ok G V d = (open_error G V d = None \<and> bounds_ok d)"

text \<open>
  What is asked of a request: its random epochs are 16 bytes, and a first administrator comes
  with a valid epoch (\<open>Bootstrap\<close> leaves it empty).
\<close>

definition request_ok :: "'p request \<Rightarrow> bool" where
  "request_ok rq = ((\<forall>e\<in>epochs_of rq. length e = 32) \<and>
     (case rq of RCreateAdmin u \<Rightarrow> validCredentialEpoch (u_CredentialEpoch u) | _ \<Rightarrow> True))"

section \<open>Preservation\<close>

lemma valid_epoch_hex: "length (hex_encode v) = 32 \<Longrightarrow> validCredentialEpoch (hex_encode v)"
  by (simp add: validCredentialEpoch_def)

lemma advance_user_ok:
  assumes "advanceCredentialVersion rnd u = Inr w" and "user_ok G n u" and "\<forall>e\<in>opt_epoch rnd. length e = 32"
  shows "user_ok G n w"
  using assms
  by (auto simp: advanceCredentialVersion_def newCredentialEpoch_def opt_epoch_def user_ok_def valid_epoch_hex
      split: if_splits option.splits)

lemma user_ok_mono: "user_ok G m u \<Longrightarrow> m \<le> n \<Longrightarrow> user_ok G n u"
  by (auto simp: user_ok_def)

lemma ids_update: "k < length us \<Longrightarrow> u_ID v = u_ID (us ! k) \<Longrightarrow> map u_ID (us[k := v]) = map u_ID us"
  by (metis list_update_id map_update)

text \<open>The frame of the account mutators: one user changes, sessions are only removed.\<close>

lemma store_ok_user_update:
  assumes "store_ok G V d" "k < length (d_Users d)" "user_ok G (d_SchemaVersion d') v" "u_ID v = u_ID (d_Users d ! k)"
    and "d_Users d' = (d_Users d)[k := v]" "d_Sessions d' = filter P (d_Sessions d)"
    and "d_SchemaVersion d' \<in> {d_SchemaVersion d, 2}" "d_LoginAttempts d' = d_LoginAttempts d \<or> d_LoginAttempts d' = []"
    and "d_FileShares d' = d_FileShares d" "d_ClusterShare d' = d_ClusterShare d"
    "d_ClusterHostOrder d' = d_ClusterHostOrder d" "d_Panel d' = d_Panel d" "d_Audit d' = d_Audit d"
  shows "store_ok G V d'"
proof -
  have le: "d_SchemaVersion d \<le> d_SchemaVersion d'" using assms(1,7) by (auto simp: store_ok_def open_error_None)
  have "\<forall>u\<in>set (d_Users d'). user_ok G (d_SchemaVersion d') u"
    using assms(1,3,5) le by (auto simp: store_ok_def open_error_None dest!: set_update_subset_insert [THEN subsetD]
        intro: user_ok_mono)
  moreover have "map u_ID (d_Users d') = map u_ID (d_Users d)" using assms(2,4,5) by (simp add: ids_update)
  moreover have "length (d_Sessions d') \<le> length (d_Sessions d)" using assms(6) by simp
  then have "length (d_Sessions d') \<le> maxRetainedSessions" using assms(1) by (simp add: store_ok_def bounds_ok_def)
  moreover have "ledger_ok []" by (simp add: ledger_ok_def scoped_count_def unauth_count_def)
  ultimately show ?thesis
    using assms(1,6-13) by (auto simp: store_ok_def open_error_None bounds_ok_def distinct_map_filter)
qed

lemma store_ok_advance:
  assumes "advance_and_revoke rnd k f i d = Inr (r, d')" "k < length (d_Users d)" "store_ok G V d"
    "\<forall>e\<in>opt_epoch rnd. length e = 32"
    "\<And>n u. user_ok G n u \<Longrightarrow> user_ok G n (f u)" "\<And>u. u_ID (f u) = u_ID u"
  shows "store_ok G V d'"
proof -
  from assms(1) obtain w where w: "advanceCredentialVersion rnd (d_Users d ! k) = Inr w"
    and d': "d' = revokeUserSessionsLocked i (d\<lparr>d_Users := (d_Users d)[k := f w]\<rparr>)"
    by (auto simp: advance_and_revoke_def advance_user_def split: sum.splits)
  have "user_ok G (d_SchemaVersion d) (d_Users d ! k)" using assms(2,3) by (simp add: store_ok_def open_error_None)
  with advance_user_ok [OF w] assms(4,5) have "user_ok G (d_SchemaVersion d') (f w)"
    by (simp add: d' revokeUserSessionsLocked_def)
  moreover have "u_ID (f w) = u_ID (d_Users d ! k)"
    using w assms(6) by (auto simp: advanceCredentialVersion_def split: if_splits sum.splits)
  ultimately show ?thesis
    using assms(2,3)
    by - (rule store_ok_user_update [where k = k and v = "f w" and P = "\<lambda>x. s_UserID x \<noteq> i" and d = d],
       simp_all add: d' revokeUserSessionsLocked_def)
qed

lemma store_ok_kept:
  assumes "store_ok G V d" "k < length (d_Users d)" "d' = d\<lparr>d_Users := (d_Users d)[k := v]\<rparr>"
    "u_ID v = u_ID (d_Users d ! k)" "user_ok G (d_SchemaVersion d) v"
  shows "store_ok G V d'"
  using assms by - (rule store_ok_user_update [where k = k and v = v and P = "\<lambda>_. True" and d = d], simp_all)

lemma store_ok_user: "store_ok G V d \<Longrightarrow> k < length (d_Users d) \<Longrightarrow> user_ok G (d_SchemaVersion d) (d_Users d ! k)"
  by (simp add: store_ok_def open_error_None)

lemma account_requests_ok:
  assumes "store_ok G V d" and "request_ok rq" and "request_body G V rq d = Inr (r, d')"
    and "(\<exists>i a t. rq = RAvatar i a t) \<or> (\<exists>r i e n t. rq = RPassword r i e n t) \<or> (\<exists>r i e n t. rq = RUsername r i e n t) \<or>
      (\<exists>r i ep v sec t st hs. rq = REnableTOTP r i ep v sec t st hs) \<or> (\<exists>i sec st t. rq = RTOTPStep i sec st t) \<or>
      (\<exists>i h t. rq = RRecoveryCode i h t) \<or> (\<exists>r i hs t. rq = RRecoveryCodes r i hs t) \<or> (\<exists>r i t. rq = RDisableTOTP r i t)"
  shows "store_ok G V d'"
  using assms(4)
proof (elim disjE exE)
  fix i a t assume "rq = RAvatar i a t"
  with assms(3) obtain k where k: "k < length (d_Users d)" and a: "validateUserAvatar a = None"
    and d': "d' = d\<lparr>d_Users := (d_Users d)[k := (d_Users d ! k)\<lparr>u_Avatar := a, u_UpdatedAt := t\<rparr>]\<rparr>"
    by (auto simp: ReplaceUserAvatar_def split: option.splits elim!: with_user_Inr)
  show ?thesis
    by (rule store_ok_kept [OF assms(1) k d']) (use a store_ok_user [OF assms(1) k] in \<open>simp_all add: user_ok_def\<close>)
next
  fix r i e n t assume "rq = RPassword r i e n t"
  with assms show ?thesis
    by (auto simp: ReplaceUserPassword_def request_ok_def user_ok_def split: if_splits elim!: with_user_Inr
        intro: store_ok_advance)
next
  fix r i e n t assume "rq = RUsername r i e n t"
  with assms show ?thesis
    by (auto simp: ReplaceUserUsername_def request_ok_def user_ok_def split: if_splits elim!: with_user_Inr
        intro: store_ok_advance)
next
  fix r i ep v sec t st hs assume "rq = REnableTOTP r i ep v sec t st hs"
  with assms show ?thesis
    by (auto simp: EnableUserTOTP_def request_ok_def user_ok_def split: if_splits elim!: with_user_Inr
        intro: store_ok_advance)
next
  fix i sec st t assume "rq = RTOTPStep i sec st t"
  with assms(3) obtain k where k: "k < length (d_Users d)"
    and d': "d' = d\<lparr>d_Users := (d_Users d)[k := (d_Users d ! k)\<lparr>u_TOTPLastUsedStep := st, u_UpdatedAt := t\<rparr>]\<rparr>"
    by (auto simp: ConsumeUserTOTPStep_def split: if_splits elim!: with_user_Inr)
  show ?thesis
    by (rule store_ok_kept [OF assms(1) k d']) (use store_ok_user [OF assms(1) k] in \<open>simp_all add: user_ok_def\<close>)
next
  fix i h t assume "rq = RRecoveryCode i h t"
  with assms(3) obtain k m where k: "k < length (d_Users d)"
    and d': "d' = d\<lparr>d_Users := (d_Users d)[k := (d_Users d ! k)\<lparr>u_TOTPRecoveryCodeHashes :=
        remove_nth m (u_TOTPRecoveryCodeHashes (d_Users d ! k)), u_UpdatedAt := t\<rparr>]\<rparr>"
    by (auto simp: ConsumeUserRecoveryCode_def split: option.splits elim!: with_user_Inr)
  show ?thesis
    by (rule store_ok_kept [OF assms(1) k d']) (use store_ok_user [OF assms(1) k] in \<open>simp_all add: user_ok_def\<close>)
next
  fix r i hs t assume "rq = RRecoveryCodes r i hs t"
  with assms show ?thesis
    by (auto simp: ReplaceUserRecoveryCodes_def request_ok_def user_ok_def split: if_splits elim!: with_user_Inr
        intro: store_ok_advance)
next
  fix r i t assume "rq = RDisableTOTP r i t"
  with assms show ?thesis
    by (auto simp: DisableUserTOTP_def request_ok_def user_ok_def clear_totp_def split: if_splits elim!: with_user_Inr
        intro: store_ok_advance)
qed

lemma store_ok_sessions:
  assumes "store_ok G V d" "d' = d\<lparr>d_Sessions := xs\<rparr>" "length xs \<le> maxRetainedSessions" "distinct (map s_TokenHash xs)"
  shows "store_ok G V d'"
  using assms by (simp add: store_ok_def open_error_None bounds_ok_def)

lemma store_ok_put_session: "store_ok G V d \<Longrightarrow> store_ok G V (putSessionLocked w x d)"
  using put_session_length [of w x "d_Sessions d"]
  by (intro store_ok_sessions [OF _ putSessionLocked_def])
     (auto simp: store_ok_def bounds_ok_def maxRetainedSessions_def intro: put_session_distinct)

lemma record_keeps: "recordLoginAttemptsLocked as t d = Inr d' \<Longrightarrow> \<exists>l. ledger_ok l \<and> d' = d\<lparr>d_LoginAttempts := l\<rparr>"
  by (auto simp: recordLoginAttemptsLocked_def record_attempts_Inr split: sum.splits)

lemma store_ok_ledger: "store_ok G V d \<Longrightarrow> ledger_ok l \<Longrightarrow> store_ok G V (d\<lparr>d_LoginAttempts := l\<rparr>)"
  by (simp add: store_ok_def open_error_None bounds_ok_def)

lemma store_ok_record: "store_ok G V d \<Longrightarrow> recordLoginAttemptsLocked as t d = Inr d' \<Longrightarrow> store_ok G V d'"
  by (drule record_keeps) (auto intro: store_ok_ledger)

lemma session_requests_ok:
  assumes "store_ok G V d" and "request_body G V rq d = Inr (r, d')"
    and "(\<exists>w x. rq = RPutSession w x) \<or> (\<exists>w u x as t. rq = RLoginSession w u x as t) \<or> rq = RRevokeAll \<or>
      (\<exists>h. rq = RDeleteSession h) \<or> (\<exists>as t. rq = RAttempts as t)"
  shows "store_ok G V d'"
  using assms(3)
proof (elim disjE exE)
  fix w x assume "rq = RPutSession w x"
  with assms show ?thesis by (auto simp: PutSession_def intro: store_ok_put_session)
next
  fix w u x as t assume "rq = RLoginSession w u x as t"
  with assms obtain d1 where "recordLoginAttemptsLocked as t d = Inr d1" "d' = putSessionLocked w x d1"
    by (auto simp: PutLoginSession_def split: option.splits if_splits sum.splits)
  with assms(1) show ?thesis by (auto intro: store_ok_put_session store_ok_record)
next
  assume "rq = RRevokeAll"
  with assms show ?thesis by (auto simp: RevokeAllSessions_def intro: store_ok_sessions)
next
  fix h assume "rq = RDeleteSession h"
  with assms(2) have d': "d' = d\<lparr>d_Sessions := filter (\<lambda>x. s_TokenHash x \<noteq> h) (d_Sessions d)\<rparr>"
    by (simp add: delete_session_def)
  have "length (filter (\<lambda>x. s_TokenHash x \<noteq> h) (d_Sessions d)) \<le> length (d_Sessions d)" by simp
  also have "\<dots> \<le> maxRetainedSessions" using assms(1) by (simp add: store_ok_def bounds_ok_def)
  finally show ?thesis
    using assms(1)
    by (intro store_ok_sessions [OF assms(1) d']) (simp_all add: store_ok_def bounds_ok_def distinct_map_filter)
next
  fix as t assume "rq = RAttempts as t"
  with assms show ?thesis by (auto simp: RecordLoginAttempts_def split: sum.splits intro: store_ok_record)
qed

lemma cell_requests_ok:
  assumes "store_ok G V d" and "request_body G V rq d = Inr (r, d')"
    and "(\<exists>e v. rq = REntrance e v) \<or> (\<exists>e v. rq = RShare e v) \<or> (\<exists>e v. rq = ROrder e v) \<or> (\<exists>e v. rq = ROrigin e v) \<or>
      (\<exists>v e t. rq = RCreateShare v e t) \<or> (\<exists>i. rq = RDeleteShare i) \<or> (\<exists>io e m. rq = RAudit io e m)"
  shows "store_ok G V d'"
  using assms(3)
proof (elim disjE exE)
  fix e v assume "rq = ROrigin e v"
  with assms show ?thesis
    by (auto simp: replace_cell_Inr store_ok_def open_error_None bounds_ok_def intro: user_ok_mono)
next
  fix v e t assume rq: "rq = RCreateShare v e t"
  with assms(2) obtain p where p: "CreateFileShare G v e t d = Inr (p, d')" by (auto simp: forget_def split: sum.splits)
  have "validateFileShares G (d_FileShares d') = None"
    using assms(1) by (intro CreateFileShare_valid [OF p]) (simp add: store_ok_def open_error_None)
  moreover obtain l where "d' = d\<lparr>d_FileShares := l\<rparr>" using p by (auto elim: CreateFileShare_InrD)
  ultimately show ?thesis using assms(1) by (simp add: store_ok_def open_error_None bounds_ok_def)
next
  fix i assume rq: "rq = RDeleteShare i"
  with assms(2) obtain p where p: "DeleteFileShare i d = Inr (p, d')" by (auto simp: forget_def split: sum.splits)
  have "validateFileShares G (d_FileShares d') = None"
    using assms(1) by (intro DeleteFileShare_valid [OF p]) (simp add: store_ok_def open_error_None)
  moreover obtain l where "d' = d\<lparr>d_FileShares := l\<rparr>" using p by (auto simp: DeleteFileShare_def split: option.splits)
  ultimately show ?thesis using assms(1) by (simp add: store_ok_def open_error_None bounds_ok_def)
qed (use assms in \<open>auto simp: replace_cell_Inr store_ok_def open_error_None bounds_ok_def ValidateClusterShareHostOrder_def\<close>)

lemma recover_ok:
  assumes "store_ok G V d" and "request_ok (RRecover io1 io2 rnd inp :: 'p request)" and "recover_body rnd inp d = Inr (r, d')"
  shows "store_ok G V d'"
  using assms(3) unfolding recover_body_def
proof (rule with_user_Inr)
  fix k
  assume k: "k < length (d_Users d)"
    and f: "(case advance_user rnd k (recovered_user inp) d of Inl e \<Rightarrow> Inl e
       | Inr d' \<Rightarrow> Inr ((), (revokeUserSessionsLocked (u_ID (d_Users d ! k)) d')\<lparr>d_LoginAttempts := []\<rparr>)) = Inr (r, d')"
  let ?i = "u_ID (d_Users d ! k)"
  obtain d1 where d1: "advance_and_revoke rnd k (recovered_user inp) ?i d = Inr ((), d1)"
    and d': "d' = d1\<lparr>d_LoginAttempts := []\<rparr>"
    using f by (auto simp: advance_and_revoke_def split: sum.splits)
  have "store_ok G V d1"
    using assms(1,2) k
    by (intro store_ok_advance [OF d1])
       (auto simp: request_ok_def recovered_user_def clear_totp_def user_ok_def Let_def)
  then show ?thesis
    unfolding d' by (rule store_ok_ledger) (simp add: ledger_ok_def scoped_count_def unauth_count_def)
qed

lemma passkey_requests_ok:
  assumes "store_ok G V d" and "request_ok rq" and "request_body G V rq d = Inr (r, d')"
    and "(\<exists>r u vs h t. rq = RPasskeys r u vs h t) \<or> (\<exists>w u v x. rq = RUpdatePasskey w u v x) \<or>
      (\<exists>r u o' h t. rq = RDisablePasskeys r u o' h t)"
  shows "store_ok G V d'"
  using assms(4)
proof (elim disjE exE)
  fix rnd u vs h t assume rq: "rq = RPasskeys rnd u vs h t"
  with assms(3) obtain k w where k: "userIndexLocked (u_ID u) d = Some k"
    and w: "advanceCredentialVersion rnd (d_Users d ! k) = Inr w" and vs: "validatePasskeys G vs = None"
    and d': "d' = revokeUserSessionsLocked (u_ID u) (if vs \<noteq> []
        then (d\<lparr>d_Users := (d_Users d)[k := w\<lparr>u_Passkeys := vs, u_UpdatedAt := t\<rparr>]\<rparr>)\<lparr>d_SchemaVersion := 2\<rparr>
        else d\<lparr>d_Users := (d_Users d)[k := w\<lparr>u_Passkeys := vs, u_UpdatedAt := t\<rparr>]\<rparr>)"
    by (auto simp: ReplaceUserPasskeys_def Let_def split: option.splits if_splits sum.splits)
  have lt: "k < length (d_Users d)" using userIndexLocked_SomeD [OF k] by simp
  have "user_ok G (d_SchemaVersion d) w"
    using advance_user_ok [OF w store_ok_user [OF assms(1) lt]] assms(2) rq by (simp add: request_ok_def)
  then have "user_ok G (d_SchemaVersion d') (w\<lparr>u_Passkeys := vs, u_UpdatedAt := t\<rparr>)"
    using vs by (auto simp: user_ok_def d' revokeUserSessionsLocked_def)
  moreover have "u_ID w = u_ID (d_Users d ! k)"
    using w by (auto simp: advanceCredentialVersion_def split: if_splits sum.splits)
  ultimately show ?thesis
    using lt assms(1)
    by - (rule store_ok_user_update [where k = k and v = "w\<lparr>u_Passkeys := vs, u_UpdatedAt := t\<rparr>" and d = d and
        P = "\<lambda>x. s_UserID x \<noteq> u_ID u"], simp_all add: d' revokeUserSessionsLocked_def)
next
  fix wl u v x assume rq: "rq = RUpdatePasskey wl u v x"
  with assms(3) obtain k i where k: "userIndexLocked (u_ID u) d = Some k" and v: "validatePasskey G v = None"
    and i: "passkey_slot (d_Users d ! k) v u = Some i"
    and d': "d' = putSessionLocked wl x (d\<lparr>d_Users := (d_Users d)[k := (d_Users d ! k)\<lparr>u_Passkeys := (u_Passkeys (d_Users d ! k))[i := v]\<rparr>]\<rparr>)"
    by (auto simp: UpdateUserPasskey_def Let_def split: option.splits if_splits)
  have lt: "k < length (d_Users d)" using userIndexLocked_SomeD [OF k] by simp
  note u = store_ok_user [OF assms(1) lt]
  then have "validatePasskeys G ((u_Passkeys (d_Users d ! k))[i := v]) = None"
    by (intro update_passkeys_valid [OF _ v i]) (simp add: user_ok_def)
  with u have "user_ok G (d_SchemaVersion d) ((d_Users d ! k)\<lparr>u_Passkeys := (u_Passkeys (d_Users d ! k))[i := v]\<rparr>)"
    by (auto simp: user_ok_def)
  then show ?thesis
    unfolding d' by (intro store_ok_put_session store_ok_kept [OF assms(1) lt refl]) simp_all
next
  fix rnd u o' h t assume rq: "rq = RDisablePasskeys rnd u o' h t"
  with assms(3) have all: "disable_all rnd t 0 (d_Users d) = Inr (d_Users d')"
    and d': "d' = d\<lparr>d_Users := d_Users d', d_PasskeyOrigin := [], d_Sessions := []\<rparr>"
    by (auto simp: DisablePasskeys_def split: option.splits if_splits sum.splits)
  have eps: "\<forall>e\<in>opt_epoch (rnd k). length e = 32" for k using assms(2) rq by (auto simp: request_ok_def)
  have each: "user_ok G (d_SchemaVersion d) (d_Users d' ! k) \<and> u_ID (d_Users d' ! k) = u_ID (d_Users d ! k)"
    if k: "k < length (d_Users d)" for k
  proof -
    from disable_all_Inr [OF all] k obtain w where w: "advanceCredentialVersion (rnd k) (d_Users d ! k) = Inr w"
      and v: "d_Users d' ! k = w\<lparr>u_Passkeys := [], u_UpdatedAt := t\<rparr>" by auto
    have "user_ok G (d_SchemaVersion d) w"
      by (rule advance_user_ok [OF w store_ok_user [OF assms(1) k] eps])
    moreover have "u_ID w = u_ID (d_Users d ! k)"
      using w by (auto simp: advanceCredentialVersion_def split: if_splits sum.splits)
    ultimately show ?thesis by (simp add: v user_ok_def)
  qed
  have len: "length (d_Users d') = length (d_Users d)" using disable_all_Inr [OF all] by simp
  have "map u_ID (d_Users d') = map u_ID (d_Users d)"
    by (rule nth_equalityI) (simp_all add: len each)
  moreover have "\<forall>u\<in>set (d_Users d'). user_ok G (d_SchemaVersion d) u"
    using each len by (auto simp: in_set_conv_nth)
  ultimately show ?thesis
    using assms(1) by (subst d') (simp add: store_ok_def open_error_None bounds_ok_def)
qed

lemma restore_ok:
  assumes "store_ok G V d" and "request_ok (RRestore rnd inc :: 'p request)" and "RestoreIdentity V rnd inc d = Inr (r, d')"
  shows "store_ok G V d'"
proof -
  from assms(3) have all: "fresh_users rnd 0 (d_Users inc) = Inr (d_Users d')"
    and vb: "ValidateIdentityBackup V inc = None"
    and d': "d' = d\<lparr>d_Users := d_Users d', d_Sessions := [], d_LoginAttempts := [], d_FileShares := [],
            d_ClusterShare := zero_cluster_share, d_ClusterHostOrder := d_ClusterHostOrder inc, d_Panel := d_Panel inc\<rparr>"
    by (auto simp: RestoreIdentity_def split: option.splits if_splits sum.splits)
  from vb have len: "length (d_Users inc) = 1" and ho: "case d_ClusterHostOrder inc of None \<Rightarrow> True | Some ids \<Rightarrow> ValidateClusterHostOrder ids = None"
    and pan: "panel_ok V (d_Panel inc)" and bu: "valid_backup_user (hd (d_Users inc))"
    by (auto simp: ValidateIdentityBackup_def split: if_splits option.splits)
  obtain a where a: "d_Users inc = [a]" using len by (cases "d_Users inc") auto
  obtain v where v: "d_Users d' = [v]" using fresh_users_Inr [OF all] len by (cases "d_Users d'") auto
  have "user_ok G n v" for n
  proof -
    have "u_CredentialEpoch v \<in> (\<Union>i. opt_epoch (rnd i))" "u_Passkeys v = []" "u_Avatar v = u_Avatar a"
      using fresh_users_Inr [OF all] a v by auto
    moreover have "\<forall>e\<in>(\<Union>i. opt_epoch (rnd i)). validCredentialEpoch e"
      using assms(2) by (auto simp: request_ok_def opt_epoch_def validCredentialEpoch_def split: option.splits)
    moreover have "validateUserAvatar (u_Avatar a) = None" using bu a by (simp add: valid_backup_user_def)
    moreover have "validCredentialEpoch (u_CredentialEpoch v)" using calculation(1,4) by blast
    ultimately show ?thesis by (simp add: user_ok_def)
  qed
  moreover have "ValidateClusterHostOrder [] = None" by (simp add: ValidateClusterHostOrder_def)
  moreover have "ledger_ok []" by (simp add: ledger_ok_def scoped_count_def unauth_count_def)
  ultimately show ?thesis
    using assms(1) ho pan v
    by (subst d') (simp add: store_ok_def open_error_None bounds_ok_def zero_cluster_share_def validateFileShares_def)
qed

lemma create_admin_ok:
  assumes "store_ok G V d" and "request_ok (RCreateAdmin u :: 'p request)" and "CreateInitialAdmin G u d = Inr (r, d')"
  shows "store_ok G V d'"
proof -
  from assms(3) have "d_Users d = []" "validatePasskeys G (u_Passkeys u) = None" "validateUserAvatar (u_Avatar u) = None"
    and d': "d' = (if u_Passkeys u \<noteq> [] then d\<lparr>d_SchemaVersion := 2\<rparr> else d)\<lparr>d_Users := [u]\<rparr>"
    by (auto simp: CreateInitialAdmin_def Let_def split: option.splits if_splits)
  then show ?thesis
    using assms(1,2) by (auto simp: store_ok_def open_error_None bounds_ok_def user_ok_def request_ok_def)
qed

lemma request_store_ok:
  assumes "store_ok G V d" and "request_ok rq" and "request_body G V rq d = Inr (r, d')"
  shows "store_ok G V d'"
  using assms account_requests_ok [OF assms] session_requests_ok [OF assms(1,3)] cell_requests_ok [OF assms(1,3)]
    passkey_requests_ok [OF assms]
  by (cases rq) (auto intro: recover_ok restore_ok create_admin_ok)

lemma run_store_ok:
  assumes "store_ok G V (st_data s)" and "\<And>rq. rq \<in> set rqs \<Longrightarrow> request_ok rq"
  shows "store_ok G V (st_data (run G V W rqs s))"
  using assms
proof (induction rqs arbitrary: s)
  case Nil
  then show ?case by simp
next
  case (Cons rq rqs)
  obtain r s1 where e: "exec G V W rq s = (r, s1)" by (cases "exec G V W rq s")
  have "store_ok G V (st_data s1)"
    using exec_frame [OF e] Cons.prems by (cases r) (auto intro: request_store_ok)
  with Cons e show ?case by simp
qed

lemma run_target_synced:
  assumes "target_synced s" and "\<And>n. io_rename (W n)"
  shows "target_synced (run G V W rqs s)"
  using assms(1)
proof (induction rqs arbitrary: s)
  case Nil
  then show ?case by simp
next
  case (Cons rq rqs)
  have "target_synced (snd (exec G V W rq s))"
    by (rule exec_target_synced [OF prod.collapse [symmetric] Cons.prems assms(2)])
  then show ?case by (simp add: Cons.IH)
qed

section \<open>Properties\<close>

text \<open>What a restart finds at the path of the state file.\<close>

definition boot_of :: "'p files \<Rightarrow> 'p boot_file" where
  "boot_of f = (case f_target f of None \<Rightarrow> Absent | Some d \<Rightarrow> Decoded d)"

lemma reopen:
  assumes "store_ok G V (st_data s)" and "target_synced s"
  shows "Open G V W' io True True pd (boot_of (st_files s)) (Some l) =
    Inr (new_store (st_data s) \<lparr>f_target = Some (st_data s), f_previous = None\<rparr> l)"
proof -
  have "boot_of (st_files s) = Decoded (st_data s)"
    using assms(2) by (simp add: boot_of_def target_synced_def)
  with assms(1) show ?thesis
    by (simp add: Open_def store_ok_def bounds_ok_def migrateAuditLocked_def new_store_def)
qed


lemma sample_ok: "store_ok sample_env sample_checks sample_disk"
  by (simp add: store_ok_def open_error_None bounds_ok_def sample_defs user_ok_def validCredentialEpoch_def
      validateUserAvatar_def validateFileShares_def ValidateClusterHostOrder_def zero_cluster_share_def
      maxRetainedSessions_def ledger_ok_def scoped_count_def unauth_count_def)


text \<open>
  The write that loses the state file: the first rename fails, the old file is moved aside, the
  second rename fails and so does the undo.
\<close>

definition lost_io :: "'p io \<Rightarrow> 'p disk_state \<Rightarrow> bool" where
  "lost_io io d = (io_encode io d \<and> io_temp io \<and> \<not> io_rename io \<and> io_backup io \<and> \<not> io_replace io \<and> \<not> io_restore io)"

text \<open>
  C7: When a persist fails after the old state file was renamed to its previous name and the
  undo rename fails too, memory still holds the account but the next start finds no state file
  and opens an uninitialised store.
\<close>

theorem lost_state_file_reopens_uninitialized:
  assumes "target_synced s" and "lost_io (W (st_writes s)) ((st_data s)\<lparr>d_Sessions := []\<rparr>)"
    and "exec G V W RRevokeAll s = (r, s')"
    and "persist_files (W' 0) (empty_disk pd) \<lparr>f_target = None, f_previous = None\<rparr> = (True, f)"
  shows "r = Inl ErrPersist \<and> st_data s' = st_data s \<and> f_previous (st_files s') = Some (st_data s) \<and>
    (\<exists>s2. Open G V W' io True True pd (boot_of (st_files s')) (Some l) = Inr s2 \<and> \<not> IsInitialized s2)"
proof -
  have "persist_files (W (st_writes s)) ((st_data s)\<lparr>d_Sessions := []\<rparr>) (st_files s) =
      (False, \<lparr>f_target = None, f_previous = Some (st_data s)\<rparr>)"
    using assms(1,2)
    by (cases "st_files s"; cases "io_remove_backup (W (st_writes s))")
       (simp_all add: persist_files_def lost_io_def target_synced_def Let_def)
  then have s': "s' = s\<lparr>st_files := \<lparr>f_target = None, f_previous = Some (st_data s)\<rparr>, st_writes := Suc (st_writes s)\<rparr>"
    and r: "r = Inl ErrPersist"
    using assms(3) by (auto simp: mutate_def commit_def persistLocked_def RevokeAllSessions_def)
  have "boot_of (st_files s') = Absent" by (simp add: s' boot_of_def)
  then have "Open G V W' io True True pd (boot_of (st_files s')) (Some l) = Inr (new_store (empty_disk pd) f l)"
    using assms(4) by (simp add: Open_def migrateAuditLocked_def new_store_def empty_disk_def)
  then show ?thesis
    by (simp add: r s' IsInitialized_def new_store_def empty_disk_def)
qed

lemma lost_state_file_reopens_uninitialized_witness:
  "\<exists>s2. Open sample_env sample_checks sample_world sample_audit_io True True ()
     (boot_of (st_files (snd (exec sample_env sample_checks (\<lambda>_. good_io\<lparr>io_rename := False, io_replace := False, io_restore := False\<rparr>)
       RRevokeAll sample_store)))) (Some sample_log) = Inr s2 \<and> \<not> IsInitialized s2"
proof -
  let ?W = "\<lambda>_::nat. good_io\<lparr>io_rename := False, io_replace := False, io_restore := False\<rparr> :: unit io"
  have "lost_io (?W (st_writes sample_store)) ((st_data sample_store)\<lparr>d_Sessions := []\<rparr>)"
    by (simp add: lost_io_def good_io_def)
  moreover have "persist_files (sample_world 0) (empty_disk ()) \<lparr>f_target = None, f_previous = None\<rparr> =
      (True, \<lparr>f_target = Some (empty_disk ()), f_previous = None\<rparr>)"
    by (simp add: persist_files_def sample_world_def good_io_def)
  ultimately show ?thesis
    using lost_state_file_reopens_uninitialized [of sample_store ?W sample_env sample_checks _ _ sample_world "()" _ sample_audit_io sample_log,
        OF sample_synced _ prod.collapse [symmetric]] by blast
qed

end
