(* ===== verification/StoreProps.thy ===== *)
theory StoreProps
  imports StoreOpen
begin

text \<open>
  Functional contracts of the single parts of the panel store: the attempt history, the file
  shares, the identity backup and the passkey state.
\<close>

section \<open>The attempt history\<close>

text \<open>
  Recording attempts raises the failure count of a key by exactly the recorded failures that
  come after its latest success, uses up exactly that much room, and a refused record changes no
  count.
\<close>

theorem attempts_counted_exactly:
  assumes "exec G V W (RAttempts as t) s = (r, s')" and "t \<le> since"
    and "\<And>a. a \<in> set as \<Longrightarrow> la_Key a = key \<Longrightarrow> \<not> la_Success a"
  shows "FailedLoginCount key since s' = FailedLoginCount key since s +
      (if is_ok r then count_if (\<lambda>a. la_Key a = key \<and>
         latest_success key since (d_LoginAttempts (st_data s)) < la_OccurredAt a) as else 0) \<and>
    (is_ok r \<longrightarrow> ledger_ok (d_LoginAttempts (st_data s')) \<and>
       UnauthenticatedLoginAttemptRoom t s' = UnauthenticatedLoginAttemptRoom t s - int (unauth_count (active t as)))"
proof (cases r)
  case (Inl e)
  with exec_frame [OF assms(1)] show ?thesis by (simp add: FailedLoginCount_def)
next
  case (Inr u)
  let ?l = "d_LoginAttempts (st_data s)"
  from exec_frame [OF assms(1)] Inr have "RecordLoginAttempts as t (st_data s) = Inr ((), st_data s')" by simp
  then have "record_attempts as t ?l = Inr (d_LoginAttempts (st_data s'))"
    by (auto simp: RecordLoginAttempts_def recordLoginAttemptsLocked_def split: sum.splits dest!: sym [of _ "st_data s'"])
  note rec = this [unfolded record_attempts_Inr]
  note l' = rec [THEN conjunct1] and ok = rec [THEN conjunct2]
  have "failed_count key since (active t ?l @ as) = failed_count key since ?l +
      count_if (\<lambda>a. la_Key a = key \<and> latest_success key since ?l < la_OccurredAt a) as"
    using assms(2,3) by (simp add: failed_count_append_failures failed_count_active latest_success_active)
  moreover have "active t (active t ?l @ as) = active t ?l @ active t as" by (simp add: active_def)
  ultimately show ?thesis
    using Inr ok by (simp add: FailedLoginCount_def UnauthenticatedLoginAttemptRoom_def l' unauth_count_active ledger_simps)
qed

definition sample_attempt :: "string \<Rightarrow> gotime \<Rightarrow> login_attempt" where
  "sample_attempt k t = \<lparr>la_Key = k, la_OccurredAt = t, la_Success = False\<rparr>"

lemma attempts_counted_exactly_witness:
  "FailedLoginCount ''ip:a'' 3 (snd (sample_exec (RAttempts [sample_attempt ''ip:a'' 8, sample_attempt ''acct:b'' 8] 2) sample_store)) = 1"
proof -
  let ?rq = "RAttempts [sample_attempt ''ip:a'' 8, sample_attempt ''acct:b'' 8] 2"
  have ok: "is_ok (fst (sample_exec ?rq sample_store))"
    by (simp add: exec_eval sample_defs RecordLoginAttempts_def recordLoginAttemptsLocked_def record_attempts_def active_def
        scoped_count_def unauth_count_def maxUserScopedLoginAttempts_def maxLoginAttempts_def)
  have "FailedLoginCount ''ip:a'' 3 (snd (sample_exec ?rq sample_store)) = FailedLoginCount ''ip:a'' 3 sample_store +
      (if is_ok (fst (sample_exec ?rq sample_store)) then count_if (\<lambda>a. la_Key a = ''ip:a'' \<and>
         latest_success ''ip:a'' 3 (d_LoginAttempts (st_data sample_store)) < la_OccurredAt a)
         [sample_attempt ''ip:a'' 8, sample_attempt ''acct:b'' 8] else 0)"
    by (rule attempts_counted_exactly [OF prod.collapse [symmetric], THEN conjunct1]) (auto simp: sample_attempt_def)
  with ok show ?thesis
    by (simp add: FailedLoginCount_def sample_defs sample_attempt_def latest_success_def)
qed

section \<open>File shares\<close>

lemma find_unique: "x \<in> set xs \<Longrightarrow> P x \<Longrightarrow> (\<And>y. y \<in> set xs \<Longrightarrow> P y \<Longrightarrow> y = x) \<Longrightarrow> List.find P xs = Some x"
  by (cases "List.find P xs") (metis find_NoneD, metis find_SomeD)

lemma share_by_hash_unique:
  assumes "distinct (map f xs)" "x \<in> set xs" "y \<in> set xs" "f x = f y" shows "x = y"
  using assms by (metis distinct_map inj_onD)

text \<open>
  A file share that was created is found by its token and by its path while it is active,
  and is not found by its token once it was deleted.
\<close>

theorem file_share_lifecycle:
  assumes ok: "store_ok G V (st_data s)"
    and create: "exec G V W (RCreateShare v expectedID now) s = (Inr (), s1)"
    and token: "fs_TokenHash v = token_hash G token" and act: "fileShareActive v later"
    and delete: "exec G V W (RDeleteShare (fs_ID v)) s1 = (Inr (), s2)"
  shows "FileShareByToken G token later s1 = Inr v \<and> FileShareByPath (fs_Path v) [] later s1 = Inr v \<and>
    FileShareByToken G token later s2 = Inl ErrNotFound"
proof -
  have rq: "request_ok (RCreateShare v expectedID now)" by (simp add: request_ok_def)
  from exec_frame [OF create] have b: "request_body G V (RCreateShare v expectedID now) (st_data s) = Inr ((), st_data s1)" by simp
  then obtain r where c: "CreateFileShare G v expectedID now (st_data s) = Inr (r, st_data s1)"
    by (auto simp: forget_def split: sum.splits)
  have mem: "v \<in> set (d_FileShares (st_data s1))" by (rule CreateFileShare_InrD [OF c]) simp
  have "store_ok G V (st_data s1)" by (rule request_store_ok [OF ok rq b])
  then have vs: "distinct (map fs_ID (d_FileShares (st_data s1)))" "distinct (map fs_TokenHash (d_FileShares (st_data s1)))"
    "distinct (map fs_Path (d_FileShares (st_data s1)))"
    by (simp_all add: store_ok_def open_error_None validateFileShares_None)
  have t1: "FileShareByToken G token later s1 = Inr v"
  proof -
    have "List.find (\<lambda>w. fs_TokenHash w = token_hash G token \<and> fileShareActive w later) (d_FileShares (st_data s1)) = Some v"
      by (rule find_unique [OF mem]) (use token act in \<open>auto intro: share_by_hash_unique [OF vs(2) _ mem]\<close>)
    then show ?thesis by (simp add: FileShareByToken_def)
  qed
  have p1: "FileShareByPath (fs_Path v) [] later s1 = Inr v"
  proof -
    have "List.find (\<lambda>w. fs_Path w = fs_Path v \<and> fileShareActive w later) (d_FileShares (st_data s1)) = Some v"
      by (rule find_unique [OF mem]) (use act in \<open>auto intro: share_by_hash_unique [OF vs(3) _ mem]\<close>)
    then show ?thesis by (simp add: FileShareByPath_def)
  qed
  from exec_frame [OF delete] obtain w where "DeleteFileShare (fs_ID v) (st_data s1) = Inr (w, st_data s2)"
    by (auto simp: forget_def split: sum.splits)
  then obtain k where k: "index_of (\<lambda>w. fs_ID w = fs_ID v) (d_FileShares (st_data s1)) = Some k"
    and s2: "d_FileShares (st_data s2) = remove_nth k (d_FileShares (st_data s1))"
    by (cases "index_of (\<lambda>w. fs_ID w = fs_ID v) (d_FileShares (st_data s1))")
       (auto simp: DeleteFileShare_def dest!: sym [of _ "st_data s2"])
  have "set (d_FileShares (st_data s2)) = {x \<in> set (d_FileShares (st_data s1)). fs_ID x \<noteq> fs_ID v}"
    using remove_nth_keyed [OF vs(1) index_of_lt [OF k]] index_of_sat [OF k] by (simp add: s2)
  then have "\<forall>x\<in>set (d_FileShares (st_data s2)). fs_TokenHash x \<noteq> token_hash G token"
    using share_by_hash_unique [OF vs(2) _ mem] token by fastforce
  then have "FileShareByToken G token later s2 = Inl ErrNotFound"
    by (auto simp: FileShareByToken_def find_None_iff split: option.splits dest: find_SomeD)
  with t1 p1 show ?thesis by simp
qed

definition sample_token :: string where "sample_token = ''0123456789abcdef0123456789abcdef''"

definition sample_id :: string where "sample_id = ''0123456789abcdef''"

definition sample_share :: file_share where
  "sample_share = \<lparr>fs_ID = b64_encode sample_id, fs_TokenHash = token_hash sample_env sample_token,
     fs_Path = ''/srv/a'', fs_ResourceVersion = ''sha256:'' @ hex_encode sample_token,
     fs_ShareVersion = ''sha256:'' @ hex_encode sample_token, fs_SizeBytes = 5, fs_CreatedAt = 5, fs_ExpiresAt = Some 100\<rparr>"

lemma sample_share_valid: "validateFileShare sample_env sample_share = None"
proof -
  have hash: "token_hash sample_env sample_token = hex_encode sample_token"
    by (simp add: token_hash_def sample_env_def)
  have len: "length sample_token = 32" "length sample_id = 16" by (simp_all add: sample_token_def sample_id_def)
  have low: "to_lower uni (hex_encode sample_token) = hex_encode sample_token" for uni
    by (rule to_lower_id [OF hex_encode_plain])
  have path: "path_clean ''/srv/a'' = ''/srv/a''"
    by (simp add: path_clean_def)
  show ?thesis
    by (simp add: validateFileShare_def sample_share_def hash len low path valid_version_digest [simplified] length_b64_encode
        has_prefix_def contains_any_def MaxFileShareBytes_def zero_time_def Second_def del: hex_decode.simps)
qed

lemma file_share_lifecycle_witness:
  "FileShareByToken sample_env sample_token 60 (snd (sample_exec (RCreateShare sample_share [] 50) sample_store)) =
     Inr sample_share"
proof -
  let ?s1 = "snd (sample_exec (RCreateShare sample_share [] 50) sample_store)"
  have c: "sample_exec (RCreateShare sample_share [] 50) sample_store = (Inr (), ?s1)"
    "d_FileShares (st_data ?s1) = [sample_share]"
    by (simp_all add: exec_eval sample_defs forget_def CreateFileShare_def sample_share_valid [unfolded sample_defs]
        sample_share_def [symmetric] or_zero_def zero_share_def MaxFileShares_def)
       (simp_all add: sample_share_def)
  have ok: "store_ok sample_env sample_checks (st_data sample_store)" by (simp add: sample_store_def sample_ok)
  have d: "sample_exec (RDeleteShare (fs_ID sample_share)) ?s1 = (Inr (), snd (sample_exec (RDeleteShare (fs_ID sample_share)) ?s1))"
    using c(2) by (simp add: mutate_def forget_def DeleteFileShare_def commit_def persistLocked_def persist_files_def
        sample_world_def good_io_def)
  have "fs_TokenHash sample_share = token_hash sample_env sample_token" "fileShareActive sample_share 60"
    by (simp_all add: sample_share_def fileShareActive_def)
  from file_share_lifecycle [OF ok c(1) this d] show ?thesis by simp
qed

section \<open>Identity backup\<close>

lemma export_valid:
  assumes "d_Users (st_data s) = [u]" "valid_backup_user (u\<lparr>u_CredentialEpoch := [], u_TOTPRecoveryCodeHashes := [], u_Passkeys := []\<rparr>)"
    "appearance_ok V (d_Panel (st_data s))" "open_error G V (st_data s) = None"
  shows "ValidateIdentityBackup V (ExportIdentity s) = None"
  using assms
  by (auto simp: ValidateIdentityBackup_def ExportIdentity_def empty_disk_def zero_cluster_share_def
      zero_security_entrance_def open_error_None split: option.splits)

text \<open>
  C8: Restoring an exported identity gives back the account, the host order and the panel
  settings, with a fresh credential epoch, and without sessions, login attempts, passkeys,
  recovery codes or shares.
\<close>

theorem backup_restores_account:
  assumes "d_Users (st_data s) = [u]" and "open_error G V (st_data s) = None" and "appearance_ok V (d_Panel (st_data s))"
    and "valid_backup_user (u\<lparr>u_CredentialEpoch := [], u_TOTPRecoveryCodeHashes := [], u_Passkeys := []\<rparr>)"
    and "rnd 0 = Some bytes"
  shows "request_body G V (RRestore rnd (ExportIdentity s)) d = Inr ((), d\<lparr>
      d_Users := [u\<lparr>u_CredentialEpoch := hex_encode bytes, u_CredentialVersion := 1, u_TOTPRecoveryCodeHashes := [], u_Passkeys := []\<rparr>],
      d_Sessions := [], d_LoginAttempts := [], d_FileShares := [], d_ClusterShare := zero_cluster_share,
      d_ClusterHostOrder := d_ClusterHostOrder (st_data s), d_Panel := d_Panel (st_data s)\<rparr>)"
proof -
  have "ValidateIdentityBackup V (ExportIdentity s) = None"
    using assms(1-4) by (intro export_valid)
  then show ?thesis
    using assms(1,5) by (simp add: RestoreIdentity_def ExportIdentity_def empty_disk_def newCredentialEpoch_def)
qed

definition long_hash :: string where "long_hash = replicate 40 (CHR ''h'')"

definition backup_store :: "unit store" where
  "backup_store = sample_store\<lparr>st_data := sample_disk\<lparr>d_Users := [sample_user\<lparr>u_PasswordHash := long_hash\<rparr>]\<rparr>\<rparr>"

lemma backup_restores_account_witness:
  "request_body sample_env sample_checks (RRestore (\<lambda>_. Some ''0123456789abcdef'') (ExportIdentity backup_store)) sample_disk =
    Inr ((), sample_disk\<lparr>d_Users := [sample_user\<lparr>u_CredentialEpoch := hex_encode ''0123456789abcdef'', u_CredentialVersion := 1,
       u_PasswordHash := long_hash, u_TOTPRecoveryCodeHashes := []\<rparr>], d_Sessions := []\<rparr>)"
proof -
  have "d_Users (st_data backup_store) = [sample_user\<lparr>u_PasswordHash := long_hash\<rparr>]"
    by (simp add: backup_store_def)
  moreover have "open_error sample_env sample_checks (st_data backup_store) = None"
    by (simp add: backup_store_def open_error_None sample_defs user_ok_def validCredentialEpoch_def
      validateUserAvatar_def validateFileShares_def ValidateClusterHostOrder_def zero_cluster_share_def)
  moreover have "appearance_ok sample_checks (d_Panel (st_data backup_store))" by (simp add: sample_checks_def)
  moreover have "valid_backup_user ((sample_user\<lparr>u_PasswordHash := long_hash\<rparr>)\<lparr>u_CredentialEpoch := [],
      u_TOTPRecoveryCodeHashes := [], u_Passkeys := []\<rparr>)"
    by (simp add: valid_backup_user_def sample_defs long_hash_def validCredentialEpoch_def validateUserAvatar_def)
  ultimately show ?thesis
    using backup_restores_account [of backup_store "sample_user\<lparr>u_PasswordHash := long_hash\<rparr>" sample_env sample_checks
        "\<lambda>_. Some ''0123456789abcdef''" "''0123456789abcdef''" sample_disk]
    by (simp add: backup_store_def sample_disk_def sample_user_def zero_user_def empty_disk_def)
qed

section \<open>Passkey state\<close>

text \<open>
  Once a passkey login has advanced a passkey, a second login that verified against the same
  snapshot of the account is refused.
\<close>

theorem passkey_snapshot_once:
  assumes "exec G V W (RUpdatePasskey wall u v x) s = (Inr (), s1)"
    and "\<And>old. old \<in> set (u_Passkeys u) \<Longrightarrow> pk_ID old = pk_ID v \<Longrightarrow>
      pk_Credential old \<noteq> pk_Credential v \<or> pk_LastUsedAt old \<noteq> pk_LastUsedAt v"
    and "pk_ID v' = pk_ID v"
  shows "\<exists>e. fst (exec G V W (RUpdatePasskey wall' u v' x') s1) = Inl e"
proof -
  from exec_frame [OF assms(1)] have b: "UpdateUserPasskey G wall u v x (st_data s) = Inr ((), st_data s1)" by simp
  then obtain k i where k: "userIndexLocked (u_ID u) (st_data s) = Some k"
    and i: "passkey_slot (d_Users (st_data s) ! k) v u = Some i"
    and s1: "st_data s1 = putSessionLocked wall x ((st_data s)\<lparr>d_Users := (d_Users (st_data s))[k :=
        (d_Users (st_data s) ! k)\<lparr>u_Passkeys := (u_Passkeys (d_Users (st_data s) ! k))[i := v]\<rparr>]\<rparr>)"
    unfolding UpdateUserPasskey_def Let_def
    by (cases "userIndexLocked (u_ID u) (st_data s)"; cases "validatePasskey G v")
       (auto split: if_splits option.splits)
  let ?u = "d_Users (st_data s) ! k" and ?u1 = "d_Users (st_data s1) ! k"
  have lt: "k < length (d_Users (st_data s))" and ID: "u_ID ?u = u_ID u" using userIndexLocked_SomeD [OF k] by simp_all
  have u1: "u_Passkeys ?u1 = (u_Passkeys ?u)[i := v]" using lt by (simp add: s1 putSessionLocked_def)
  have k1: "userIndexLocked (u_ID u) (st_data s1) = Some k"
    using k lt ID index_of_update [of "\<lambda>w. u_ID w = u_ID u" "d_Users (st_data s)" k]
    by (simp add: s1 putSessionLocked_def userIndexLocked_def)
  have "index_of (\<lambda>p. pk_ID p = pk_ID v) (u_Passkeys ?u) = Some i"
    using i by (auto simp: passkey_slot_def Let_def split: option.splits if_splits)
  then have i1: "index_of (\<lambda>p. pk_ID p = pk_ID v') (u_Passkeys ?u1) = Some i"
    unfolding u1 assms(3) by (rule index_of_update) simp
  have "u_Passkeys ?u1 ! i = v" using passkey_slotD [OF i] by (simp add: u1)
  with i1 assms(2) have "passkey_slot ?u1 v' u = None"
    by (auto simp: passkey_slot_def Let_def list_ex_iff sameOptionalTime_def)
  then have "\<exists>e. UpdateUserPasskey G wall' u v' x' (st_data s1) = Inl e"
    by (simp add: UpdateUserPasskey_def k1 Let_def split: option.split)
  then show ?thesis by (auto simp: mutate_def)
qed

definition sample_passkey :: passkey where
  "sample_passkey = \<lparr>pk_ID = b64_encode sample_id, pk_RPID = ''panel.dev'', pk_Name = ''key'', pk_Credential = ''{1}'',
     pk_CreatedAt = 5, pk_LastUsedAt = None\<rparr>"

definition used_passkey :: passkey where
  "used_passkey = sample_passkey\<lparr>pk_Credential := ''{2}'', pk_LastUsedAt := Some 50\<rparr>"

definition passkey_user :: user where "passkey_user = sample_user\<lparr>u_Passkeys := [sample_passkey]\<rparr>"

definition passkey_store :: "unit store" where
  "passkey_store = sample_store\<lparr>st_data := sample_disk\<lparr>d_SchemaVersion := 2, d_Users := [passkey_user]\<rparr>\<rparr>"

lemma used_passkey_valid: "validatePasskey sample_env used_passkey = None"
proof -
  have len: "length sample_id = 16" by (simp add: sample_id_def)
  have rp: "validPasskeyRPID sample_env ''panel.dev''"
    by (simp add: validPasskeyRPID_def to_lower_def is_ascii_def byte_class_defs ascii_lower_def rp_label_ok_def parse_ip_ok_def parse_eval)
  have name: "runes ''key'' = Some [107, 101, 121]" using runes_ascii [of "''key''"] by (simp add: is_ascii_def byte_def)
  have sp: "trim_space ''key'' = ''key''" "trim_space ''{2}'' = ''{2}''"
    by (rule trim_space_id; simp add: space_codes_def starts_with_code_def byte_def)+
  have js: "json_valid sample_env x \<longleftrightarrow> x \<noteq> []" for x by (simp add: sample_env_def)
  have ne: "b64_encode sample_id \<noteq> []" "sample_id \<noteq> []" using length_b64_encode [of sample_id] len by auto
  show ?thesis
    by (simp add: validatePasskey_def used_passkey_def sample_passkey_def length_b64_encode len rp name sp ne valid_utf8_def
        rune_count_def no_control_def is_control_def MaxPasskeyCredentialBytes_def first_json_byte_def zero_time_def Second_def
        js)
qed

lemma passkey_snapshot_once_witness:
  "let s1 = snd (sample_exec (RUpdatePasskey 60 passkey_user used_passkey sample_session) passkey_store) in
     \<exists>e. fst (sample_exec (RUpdatePasskey 70 passkey_user used_passkey sample_session) s1) = Inl e"
  unfolding Let_def
proof (rule passkey_snapshot_once)
  let ?s1 = "snd (sample_exec (RUpdatePasskey 60 passkey_user used_passkey sample_session) passkey_store)"
  show "sample_exec (RUpdatePasskey 60 passkey_user used_passkey sample_session) passkey_store = (Inr (), ?s1)"
  proof -
    have slot: "passkey_slot passkey_user used_passkey passkey_user = Some 0" "pk_LastUsedAt used_passkey = Some 50"
      by (simp_all add: passkey_slot_def passkey_user_def used_passkey_def sample_passkey_def sameOptionalTime_def)
    have d: "d_Users (st_data passkey_store) = [passkey_user]" "u_ID passkey_user = ''u1''"
      by (simp_all add: passkey_store_def passkey_user_def sample_user_def)
    show ?thesis
      by (simp add: exec_eval UpdateUserPasskey_def used_passkey_valid slot d
        sample_session_def zero_time_def Second_def sample_world_def good_io_def)
  qed
qed (auto simp: passkey_user_def used_passkey_def sample_passkey_def)

end
