(* ===== verification/Totp.thy ===== *)
theory Totp
  imports StoreUsers GoTime
begin

text \<open>
  \<open>internal/auth/totp.go\<close>: the time-based one-time codes of the second factor, the recovery codes
  and the sealed secret. HMAC-SHA1 and AES-GCM are parameters; everything around them is computed.
\<close>

section \<open>base32 without padding\<close>

text \<open>The \<open>n\<close> digits of a number in base \<open>b\<close>, most significant first.\<close>

fun digs :: "nat \<Rightarrow> nat \<Rightarrow> nat \<Rightarrow> nat list" where
  "digs b 0 N = []"
| "digs b (Suc n) N = digs b n (N div b) @ [N mod b]"

definition undigs :: "nat \<Rightarrow> nat list \<Rightarrow> nat" where
  "undigs b ds = foldl (\<lambda>a d. a * b + d) 0 ds"

lemma length_digs [simp]: "length (digs b n N) = n"
  by (induction n arbitrary: N) simp_all

lemma digs_lt: "0 < b \<Longrightarrow> d \<in> set (digs b n N) \<Longrightarrow> d < b"
  by (induction n arbitrary: N) auto

lemma undigs_snoc: "undigs b (ds @ [d]) = undigs b ds * b + d"
  by (simp add: undigs_def)

lemma undigs_digs: "undigs b (digs b n N) = N mod b ^ n"
proof (induction n arbitrary: N)
  case 0
  then show ?case by (simp add: undigs_def)
next
  case (Suc n)
  show ?case by (simp add: undigs_snoc Suc.IH mod_mult2_eq)
qed

lemma digs_undigs: "\<forall>d\<in>set ds. d < b \<Longrightarrow> digs b (length ds) (undigs b ds) = ds"
proof (induction ds rule: rev_induct)
  case Nil
  then show ?case by (simp add: undigs_def)
next
  case (snoc d ds)
  then show ?case by (simp add: undigs_snoc)
qed

lemma undigs_lt: "\<forall>d\<in>set ds. d < b \<Longrightarrow> undigs b ds < b ^ length ds"
proof (induction ds rule: rev_induct)
  case Nil
  then show ?case by (simp add: undigs_def)
next
  case (snoc d ds)
  then have "undigs b ds + 1 \<le> b ^ length ds" and "d < b" by auto
  then have "(undigs b ds + 1) * b \<le> b ^ length ds * b" by (intro mult_right_mono) simp_all
  with \<open>d < b\<close> show ?case by (simp add: undigs_snoc algebra_simps)
qed

definition b32_char :: "nat \<Rightarrow> char" where
  "b32_char n = (if n < 26 then char_of (65 + n) else char_of (24 + n))"

definition b32_val :: "char \<Rightarrow> nat option" where
  "b32_val c = (if is_upper c then Some (byte c - 65)
     else if 50 \<le> byte c \<and> byte c \<le> 55 then Some (byte c - 24) else None)"

text \<open>Groups of five bytes give eight characters; \<open>n\<close> trailing bytes give \<open>\<lceil>8n/5\<rceil>\<close>.\<close>

function b32_encode :: "string \<Rightarrow> string" where
  "b32_encode s =
     (if s = [] then []
      else map b32_char (take ((8 * min 5 (length s) + 4) div 5)
             (digs 32 8 (undigs 256 (take 5 (map byte s @ replicate 4 0))))) @ b32_encode (drop 5 s))"
  by auto
termination by (relation "measure length") auto

declare b32_encode.simps [simp del]

text \<open>
  Decoding: a last group of 2, 4, 5 or 7 characters gives 1 to 4 bytes; Go's decoder without
  padding drops a last group of another length without an error.
\<close>

definition b32_tail :: "nat \<Rightarrow> nat" where
  "b32_tail n = (if n = 2 then 1 else if n = 4 then 2 else if n = 5 then 3 else if n = 7 then 4 else if 8 \<le> n then 5 else 0)"

function b32_groups :: "nat list \<Rightarrow> string" where
  "b32_groups vs =
     (if vs = [] then []
      else map char_of (take (b32_tail (length vs)) (digs 256 5 (undigs 32 (take 8 (vs @ replicate 7 0))))) @
        b32_groups (drop 8 vs))"
  by auto
termination by (relation "measure length") auto

declare b32_groups.simps [simp del]

definition b32_decode :: "string \<Rightarrow> string option" where
  "b32_decode s = (let t = filter (\<lambda>c. byte c \<noteq> 10 \<and> byte c \<noteq> 13) s in
     if list_all (\<lambda>c. b32_val c \<noteq> None) t then Some (b32_groups (map (\<lambda>c. the (b32_val c)) t)) else None)"

definition b32_letter :: "char \<Rightarrow> bool" where
  "b32_letter c = (is_upper c \<or> 50 \<le> byte c \<and> byte c \<le> 55)"

lemma b32_val_char: "n < 32 \<Longrightarrow> b32_val (b32_char n) = Some n"
  by (auto simp: b32_val_def b32_char_def is_upper_def byte_char_of)

lemma b32_char_letter: "n < 32 \<Longrightarrow> b32_letter (b32_char n)"
  by (auto simp: b32_letter_def b32_char_def is_upper_def byte_char_of)

lemma b32_letterD: "b32_letter c \<Longrightarrow> 50 \<le> byte c \<and> byte c \<le> 90 \<and> \<not> is_lower c \<and> c \<noteq> CHR ''-'' \<and> c \<noteq> CHR '' ''"
  by (auto simp: b32_letter_def is_upper_def is_lower_def byte_def)

lemma b32_encode_letters: "list_all b32_letter (b32_encode s)"
proof (induction s rule: b32_encode.induct)
  case (1 s)
  have "list_all b32_letter (map b32_char (take k (digs 32 8 N)))" for k N
    using digs_lt [of 32 _ 8 N] by (auto simp: list_all_iff b32_char_letter dest!: in_set_takeD)
  with 1 show ?case by (subst b32_encode.simps) simp
qed

lemma length_b32_encode_5: "length s mod 5 = 0 \<Longrightarrow> length (b32_encode s) = 8 * (length s div 5)"
proof (induction s rule: b32_encode.induct)
  case (1 s)
  show ?case
  proof (cases "s = []")
    case True
    then show ?thesis by (simp add: b32_encode.simps)
  next
    case False
    with "1.prems" have "5 \<le> length s" by (cases "length s < 5") auto
    moreover from this "1.prems" have "length (drop 5 s) mod 5 = 0" by (simp add: mod_if)
    ultimately show ?thesis
      using False 1 by (subst b32_encode.simps) (simp add: min_def div_if)
  qed
qed

lemma b32_groups_encode:
  "length s mod 5 = 0 \<Longrightarrow> b32_groups (map (\<lambda>c. the (b32_val c)) (b32_encode s)) = s"
proof (induction s rule: b32_encode.induct)
  case (1 s)
  show ?case
  proof (cases "s = []")
    case True
    then show ?thesis by (simp add: b32_encode.simps b32_groups.simps)
  next
    case False
    with "1.prems" have len: "5 \<le> length s" by (cases "length s < 5") auto
    have dl: "length (drop 5 s) mod 5 = 0" using "1.prems" len by (simp add: mod_if)
    define bs where "bs = take 5 (map byte s)"
    have lb: "length bs = 5" "\<forall>b\<in>set bs. b < 256" using len by (auto simp: bs_def byte_lt dest!: in_set_takeD)
    have tk: "take 5 (map byte s @ replicate 4 0) = bs" using len by (simp add: bs_def)
    define vs where "vs = digs 32 8 (undigs 256 bs)"
    have lv: "length vs = 8" "\<forall>v\<in>set vs. v < 32" by (auto simp: vs_def dest: digs_lt [of 32, rotated])
    have enc: "b32_encode s = map b32_char vs @ b32_encode (drop 5 s)"
      using False len by (subst b32_encode.simps) (simp add: bs_def vs_def min_def)
    have vals: "map (\<lambda>c. the (b32_val c)) (map b32_char vs) = vs"
      using lv(2) by (auto simp: b32_val_char intro!: map_idI)
    define rest where "rest = map (\<lambda>c. the (b32_val c)) (b32_encode (drop 5 s))"
    have "undigs 32 vs = undigs 256 bs"
      using undigs_lt [OF lb(2)] lb(1) by (simp add: vs_def undigs_digs)
    then have "digs 256 5 (undigs 32 vs) = bs" using digs_undigs [OF lb(2)] lb(1) by simp
    moreover have "take 8 ((vs @ rest) @ replicate 7 0) = vs" using lv(1) by simp
    moreover have "b32_tail (length (vs @ rest)) = 5" using lv(1) by (simp add: b32_tail_def)
    moreover have "vs @ rest \<noteq> []" "drop 8 (vs @ rest) = rest" using lv(1) by auto
    moreover have "take 5 bs = bs" using lb(1) by simp
    ultimately have "b32_groups (vs @ rest) = map char_of bs @ b32_groups rest"
      by (subst b32_groups.simps) (simp only: if_False)
    moreover have "map char_of bs = take 5 s" by (simp add: bs_def take_map comp_def)
    moreover have "b32_groups rest = drop 5 s" unfolding rest_def using False dl by (rule "1.IH")
    ultimately show ?thesis
      unfolding enc map_append vals rest_def [symmetric] by simp
  qed
qed

lemma b32_decode_encode: "length s mod 5 = 0 \<Longrightarrow> b32_decode (b32_encode s) = Some s"
proof -
  assume len: "length s mod 5 = 0"
  have l: "\<forall>c\<in>set (b32_encode s). b32_letter c" using b32_encode_letters by (simp add: list_all_iff)
  then have "\<forall>c\<in>set (b32_encode s). 50 \<le> byte c" using b32_letterD by blast
  then have "filter (\<lambda>c. byte c \<noteq> 10 \<and> byte c \<noteq> 13) (b32_encode s) = b32_encode s"
    by (intro filter_True) fastforce
  moreover have "list_all (\<lambda>c. b32_val c \<noteq> None) (b32_encode s)"
    using l by (auto simp: list_all_iff b32_letter_def b32_val_def)
  ultimately show ?thesis using b32_groups_encode [OF len] by (simp add: b32_decode_def)
qed

section \<open>Time-based codes\<close>

text \<open>
  The cryptography the code calls: HMAC-SHA1 of a key and a message, and AES-256-GCM sealing and
  opening under a key, a nonce and the fixed additional data.
\<close>

record crypto =
  hmac_sha1 :: "string \<Rightarrow> string \<Rightarrow> string"
  gcm_seal :: "string \<Rightarrow> string \<Rightarrow> string \<Rightarrow> string"
  gcm_open :: "string \<Rightarrow> string \<Rightarrow> string \<Rightarrow> string option"

definition totpDigits :: nat where "totpDigits = 6"
definition totpPeriod :: duration where "totpPeriod = 30 * Second"
definition totpSecretBytes :: nat where "totpSecretBytes = 20"
definition totpKeyBytes :: nat where "totpKeyBytes = 32"
definition recoveryCodeCount :: nat where "recoveryCodeCount = 10"
definition recoveryCodeBytes :: nat where "recoveryCodeBytes = 10"
definition gcmNonceSize :: nat where "gcmNonceSize = 12"

text \<open>\<open>binary.BigEndian.PutUint64(counter[:], uint64(step))\<close>: a negative step wraps.\<close>

definition counter_bytes :: "int \<Rightarrow> string" where
  "counter_bytes step = map char_of (digs 256 8 (nat (step mod 2 ^ 64)))"

definition truncated :: "string \<Rightarrow> nat" where
  "truncated mac =
     (let offset = byte (last mac) mod 16 in
      (byte (mac ! offset) mod 128) * 2 ^ 24 + byte (mac ! (offset + 1)) * 2 ^ 16 +
      byte (mac ! (offset + 2)) * 2 ^ 8 + byte (mac ! (offset + 3)))"

text \<open>\<open>None\<close> is the error of an invalid secret.\<close>

definition totpAtStep :: "genv \<Rightarrow> crypto \<Rightarrow> string \<Rightarrow> int \<Rightarrow> string option" where
  "totpAtStep G K secret step =
     (case b32_decode (to_upper (uni_upper G) secret) of
        None \<Rightarrow> None
      | Some decoded \<Rightarrow>
          if length decoded < 16 then None
          else Some (show_padded totpDigits (int (truncated (hmac_sha1 K decoded (counter_bytes step)) mod 1000000))))"

definition totp_code_pattern :: "string \<Rightarrow> bool" where
  "totp_code_pattern code = (length code = 6 \<and> list_all is_digit code)"

definition matchTOTPStep :: "genv \<Rightarrow> crypto \<Rightarrow> string \<Rightarrow> string \<Rightarrow> gotime \<Rightarrow> int option" where
  "matchTOTPStep G K secret code now =
     (if \<not> totp_code_pattern code then None
      else let current = quot (unix now) (totpPeriod div Second) in
        List.find (\<lambda>step. totpAtStep G K secret step = Some code) (map (\<lambda>offset. current + offset) [0, - 1, 1]))"

section \<open>Recovery codes\<close>

definition recovery_code_pattern :: "string \<Rightarrow> bool" where
  "recovery_code_pattern c =
     (length c = 17 \<and> list_all b32_letter (take 5 c) \<and> c ! 5 = CHR ''-'' \<and> list_all b32_letter (take 5 (drop 6 c)) \<and>
      c ! 11 = CHR ''-'' \<and> list_all b32_letter (drop 12 c))"

definition dashed :: "string \<Rightarrow> string" where
  "dashed raw = take 5 raw @ ''-'' @ take 5 (drop 5 raw) @ ''-'' @ drop 10 raw"

definition normalizeRecoveryCode :: "genv \<Rightarrow> string \<Rightarrow> string" where
  "normalizeRecoveryCode G value =
     (let v = filter (\<lambda>c. c \<noteq> CHR '' '') (to_upper (uni_upper G) (trim_space value)) in
      if CHR ''-'' \<notin> set v \<and> length v = 15 then dashed v else v)"

definition recoveryCodeHash :: "genv \<Rightarrow> string \<Rightarrow> string" where
  "recoveryCodeHash G code =
     b64_encode (sha256 G (''kpanel-totp-recovery'' @ [CHR 0x00] @ normalizeRecoveryCode G code))"

text \<open>\<open>rnd i\<close> is the \<open>i\<close>-th read of 10 random bytes.\<close>

definition recovery_code :: "string \<Rightarrow> string" where
  "recovery_code buffer = dashed (take 15 (b32_encode buffer))"

fun recovery_codes :: "(nat \<Rightarrow> string option) \<Rightarrow> nat \<Rightarrow> nat \<Rightarrow> string list option" where
  "recovery_codes rnd i 0 = Some []"
| "recovery_codes rnd i (Suc n) =
     (case rnd i of None \<Rightarrow> None
      | Some buffer \<Rightarrow> map_option (\<lambda>cs. recovery_code buffer # cs) (recovery_codes rnd (Suc i) n))"

definition generateRecoveryCodes :: "genv \<Rightarrow> (nat \<Rightarrow> string option) \<Rightarrow> (string list \<times> string list) option" where
  "generateRecoveryCodes G rnd =
     map_option (\<lambda>codes. (codes, map (recoveryCodeHash G) codes)) (recovery_codes rnd 0 recoveryCodeCount)"

definition generateTOTPSecret :: "string option \<Rightarrow> string option" where
  "generateTOTPSecret rnd = map_option b32_encode rnd"

section \<open>The sealed secret\<close>

text \<open>\<open>key\<close> is the content of the key file, \<open>None\<close> where it cannot be loaded or created.\<close>

definition sealTOTPSecret :: "crypto \<Rightarrow> string option \<Rightarrow> string option \<Rightarrow> string \<Rightarrow> string option" where
  "sealTOTPSecret K key nonce secret =
     (case key of None \<Rightarrow> None
      | Some k \<Rightarrow>
          if length k \<noteq> totpKeyBytes then None
          else (case nonce of None \<Rightarrow> None
            | Some n \<Rightarrow> Some (b64_encode (n @ gcm_seal K k n secret))))"

definition openTOTPSecret :: "crypto \<Rightarrow> string option \<Rightarrow> string \<Rightarrow> string option" where
  "openTOTPSecret K key encoded =
     (case key of None \<Rightarrow> None
      | Some k \<Rightarrow>
          if length k \<noteq> totpKeyBytes then None
          else (case b64_decode encoded of None \<Rightarrow> None
            | Some s \<Rightarrow> if length s \<le> gcmNonceSize then None
                else gcm_open K k (take gcmNonceSize s) (drop gcmNonceSize s)))"

section \<open>Facts\<close>

lemma length_show_nat_le: "n < 10 ^ k \<Longrightarrow> 0 < k \<Longrightarrow> length (show_nat n) \<le> k"
proof (induction k arbitrary: n)
  case 0
  then show ?case by simp
next
  case (Suc k)
  show ?case
  proof (cases "n < 10")
    case True
    then show ?thesis using length_show_nat_one [of n] by simp
  next
    case False
    with Suc.prems have "n div 10 < 10 ^ k" by (simp add: less_mult_imp_div_less mult.commute)
    moreover have "0 < k" using False Suc.prems by (cases k) auto
    ultimately have "length (show_nat (n div 10)) \<le> k" by (rule Suc.IH)
    then show ?thesis using False by (subst show_nat.simps) simp
  qed
qed

lemma show_padded_digits:
  assumes "n < 10 ^ w" "0 < w"
  shows "length (show_padded w (int n)) = w \<and> list_all is_digit (show_padded w (int n))"
proof -
  have "length (show_nat n) \<le> w" using assms by (rule length_show_nat_le)
  moreover have "list_all is_digit (show_nat n)" by (rule show_nat_digits)
  ultimately show ?thesis
    by (auto simp: show_padded_def Let_def list_all_iff is_digit_def byte_def)
qed

lemma totpAtStep_digits: "totpAtStep G K secret step = Some code \<Longrightarrow> totp_code_pattern code"
  using show_padded_digits [of _ 6]
  by (auto simp: totpAtStep_def totp_code_pattern_def totpDigits_def split: option.splits if_splits)

lemma find_three:
  "List.find P [a, b, c] = Some x \<Longrightarrow> P x \<and> x \<in> {a, b, c}"
  by (auto split: if_splits)

text \<open>
  Code matching is equivalent to comparing with the codes of the current 30 second step,
  the one before and the one after, in this order, and nothing else is accepted.
\<close>

theorem totp_accepts_adjacent_steps:
  "matchTOTPStep G K secret code now =
     (if totpAtStep G K secret (quot (unix now) 30) = Some code then Some (quot (unix now) 30)
      else if totpAtStep G K secret (quot (unix now) 30 - 1) = Some code then Some (quot (unix now) 30 - 1)
      else if totpAtStep G K secret (quot (unix now) 30 + 1) = Some code then Some (quot (unix now) 30 + 1)
      else None)"
proof (cases "totp_code_pattern code")
  case True
  have "totpPeriod div Second = 30" by (simp add: totpPeriod_def Second_def)
  with True show ?thesis by (auto simp: matchTOTPStep_def Let_def)
next
  case False
  then show ?thesis using totpAtStep_digits by (auto simp: matchTOTPStep_def)
qed

subsection \<open>Recovery codes survive retyping\<close>

lemma recovery_raw:
  assumes "length buffer = 10"
  shows "length (take 15 (b32_encode buffer)) = 15" and "\<forall>c\<in>set (take 15 (b32_encode buffer)). b32_letter c"
  using length_b32_encode_5 [of buffer] assms b32_encode_letters [of buffer]
  by (auto simp: list_all_iff dest: in_set_takeD)

lemma list_15:
  "length raw = 15 \<Longrightarrow> \<exists>a b c. raw = a @ b @ c \<and> length a = 5 \<and> length b = 5 \<and> length c = 5 \<and> dashed raw = a @ ''-'' @ b @ ''-'' @ c"
  by (rule exI [of _ "take 5 raw"], rule exI [of _ "take 5 (drop 5 raw)"], rule exI [of _ "drop 10 raw"])
     (simp add: dashed_def append_assoc [symmetric] take_add [symmetric] flip: take_add)

lemma dashed_pattern:
  assumes "length raw = 15" "\<forall>c\<in>set raw. b32_letter c"
  shows "recovery_code_pattern (dashed raw)"
proof -
  from list_15 [OF assms(1)] obtain a b c where r: "raw = a @ b @ c" "length a = 5" "length b = 5" "length c = 5"
    and d: "dashed raw = a @ ''-'' @ b @ ''-'' @ c" by blast
  from assms(2) r(1) have "list_all b32_letter a" "list_all b32_letter b" "list_all b32_letter c"
    by (auto simp: list_all_iff)
  then show ?thesis unfolding d recovery_code_pattern_def by (simp add: r nth_append)
qed

lemma letter_upper: "b32_letter c \<Longrightarrow> ascii_upper c = c \<and> ascii_upper (ascii_lower c) = c \<and> byte c < 128"
  by (auto simp: b32_letter_def ascii_upper_def ascii_lower_def is_upper_def is_lower_def byte_char_of)

text \<open>A string of base32 letters and dashes, however it is cased, comes back in upper case.\<close>

definition code_char :: "char \<Rightarrow> bool" where "code_char c = (b32_letter c \<or> c = CHR ''-'')"

lemma code_char_facts:
  "code_char c \<Longrightarrow> ascii_upper c = c \<and> ascii_upper (ascii_lower c) = c \<and> 45 \<le> byte c \<and> byte c \<le> 90 \<and> c \<noteq> CHR '' ''"
  using letter_upper [of c] b32_letterD [of c]
  by (auto simp: code_char_def ascii_upper_def ascii_lower_def is_upper_def is_lower_def byte_def)

lemma normalize_cased:
  assumes "\<forall>c\<in>set s. code_char c" and "v = s \<or> v = map ascii_lower s"
  shows "normalizeRecoveryCode G v = (if CHR ''-'' \<notin> set s \<and> length s = 15 then dashed s else s)"
proof -
  have b: "32 < byte c \<and> byte c < 127" if "c \<in> set v" for c
    using assms that code_char_facts by (fastforce simp: byte_ascii_lower is_upper_def)
  have "trim_space v = v"
    by (rule trim_space_id) (cases "v = []", simp_all add: b)
  moreover have "to_upper (uni_upper G) v = s"
  proof -
    have "is_ascii v" using b by (fastforce simp: is_ascii_def list_all_iff)
    moreover have "map ascii_upper v = s"
    proof -
      have f: "\<forall>c\<in>set s. ascii_upper c = c \<and> ascii_upper (ascii_lower c) = c"
        using assms(1) code_char_facts by blast
      from assms(2) show ?thesis
      proof
        assume "v = s" with f show ?thesis by (simp add: map_idI)
      next
        assume v: "v = map ascii_lower s"
        show ?thesis unfolding v map_map by (rule map_idI) (simp add: f)
      qed
    qed
    ultimately show ?thesis by (simp add: to_upper_def)
  qed
  moreover have "filter (\<lambda>c. c \<noteq> CHR '' '') s = s" using assms(1) code_char_facts by (intro filter_True) blast
  ultimately show ?thesis by (simp add: normalizeRecoveryCode_def)
qed

text \<open>
  A generated recovery code has the accepted pattern, is its own normal form, and is
  recognised when typed in lower case or without its dashes.
\<close>

theorem recovery_code_retyped:
  assumes "length buffer = 10"
  shows "recovery_code_pattern (recovery_code buffer) \<and>
    normalizeRecoveryCode G (recovery_code buffer) = recovery_code buffer \<and>
    normalizeRecoveryCode G (map ascii_lower (recovery_code buffer)) = recovery_code buffer \<and>
    normalizeRecoveryCode G (map ascii_lower (filter (\<lambda>c. c \<noteq> CHR ''-'') (recovery_code buffer))) = recovery_code buffer"
proof -
  define raw where "raw = take 15 (b32_encode buffer)"
  note raw = recovery_raw [OF assms, folded raw_def]
  from list_15 [OF raw(1)] obtain a b c where r: "raw = a @ b @ c" "length a = 5" "length b = 5" "length c = 5"
    and d: "dashed raw = a @ ''-'' @ b @ ''-'' @ c" by blast
  have letters: "\<forall>x\<in>set raw. code_char x" and nodash: "\<forall>x\<in>set raw. x \<noteq> CHR ''-''"
    using raw(2) b32_letterD by (auto simp: code_char_def)
  have chars: "\<forall>x\<in>set (dashed raw). code_char x" using letters unfolding d by (auto simp: code_char_def r(1))
  have "filter (\<lambda>x. x \<noteq> CHR ''-'') (dashed raw) = raw"
    using nodash unfolding d by (simp add: r(1) filter_True)
  moreover have "CHR ''-'' \<in> set (dashed raw)" by (simp add: d)
  ultimately show ?thesis
    using normalize_cased [OF chars, of "dashed raw" G] normalize_cased [OF chars, of "map ascii_lower (dashed raw)" G]
      normalize_cased [OF letters, of "map ascii_lower raw" G] nodash raw dashed_pattern
    by (auto simp: recovery_code_def raw_def [symmetric])
qed

lemma recovery_code_retyped_witness:
  "normalizeRecoveryCode demo_env (map ascii_lower (filter (\<lambda>c. c \<noteq> CHR ''-'') (recovery_code ''0123456789''))) = recovery_code ''0123456789''"
  using recovery_code_retyped [of "''0123456789''" demo_env] by simp

subsection \<open>The sealed secret opens again\<close>

lemma totp_of_generated:
  assumes "length bytes = totpSecretBytes"
  shows "totpAtStep G K (b32_encode bytes) step =
    Some (show_padded 6 (int (truncated (hmac_sha1 K bytes (counter_bytes step)) mod 1000000)))"
proof -
  have "\<forall>c\<in>set (b32_encode bytes). b32_letter c" using b32_encode_letters by (simp add: list_all_iff)
  then have "is_ascii (b32_encode bytes)" "map ascii_upper (b32_encode bytes) = b32_encode bytes"
    using letter_upper by (auto simp: is_ascii_def list_all_iff intro!: map_idI)
  then have "to_upper (uni_upper G) (b32_encode bytes) = b32_encode bytes" by (simp add: to_upper_def)
  moreover have "b32_decode (b32_encode bytes) = Some bytes"
    using assms by (intro b32_decode_encode) (simp add: totpSecretBytes_def)
  ultimately show ?thesis using assms by (simp add: totpAtStep_def totpSecretBytes_def totpDigits_def)
qed

text \<open>
  A generated TOTP secret survives sealing and opening under the key file, and the opened
  secret computes the RFC 6238 code of the random bytes it was generated from.
\<close>

theorem sealed_secret_usable:
  assumes "\<And>m. gcm_open K k n (gcm_seal K k n m) = Some m" and "\<And>m. gcm_seal K k n m \<noteq> []"
    and "length k = totpKeyBytes" and "length n = gcmNonceSize" and "length bytes = totpSecretBytes"
  shows "\<exists>secret sealed. generateTOTPSecret (Some bytes) = Some secret \<and> sealTOTPSecret K (Some k) (Some n) secret = Some sealed \<and>
    openTOTPSecret K (Some k) sealed = Some secret \<and>
    totpAtStep G K secret step = Some (show_padded 6 (int (truncated (hmac_sha1 K bytes (counter_bytes step)) mod 1000000)))"
proof -
  let ?secret = "b32_encode bytes"
  let ?sealed = "b64_encode (n @ gcm_seal K k n ?secret)"
  have "openTOTPSecret K (Some k) ?sealed = Some ?secret"
    using assms(1) [of ?secret] assms(2) [of ?secret] assms(3,4) by (simp add: openTOTPSecret_def)
  with assms show ?thesis
    using totp_of_generated [OF assms(5)] by (simp add: generateTOTPSecret_def sealTOTPSecret_def)
qed

definition demo_crypto :: crypto where
  "demo_crypto = \<lparr>hmac_sha1 = (\<lambda>k m. replicate 20 (CHR 0x05)), gcm_seal = (\<lambda>k n m. CHR ''t'' # m), gcm_open = (\<lambda>k n c. Some (tl c))\<rparr>"

lemma sealed_secret_usable_witness:
  "\<exists>secret sealed. generateTOTPSecret (Some (replicate 20 (CHR ''s''))) = Some secret \<and>
    sealTOTPSecret demo_crypto (Some (replicate 32 (CHR ''k''))) (Some (replicate 12 (CHR ''n''))) secret = Some sealed \<and>
    openTOTPSecret demo_crypto (Some (replicate 32 (CHR ''k''))) sealed = Some secret"
  using sealed_secret_usable [of demo_crypto "replicate 32 (CHR ''k'')" "replicate 12 (CHR ''n'')" "replicate 20 (CHR ''s'')"]
  by (fastforce simp: demo_crypto_def totpKeyBytes_def gcmNonceSize_def totpSecretBytes_def)

end
