(* ===== verification/AuthService.thy ===== *)
theory AuthService
  imports StoreProps Totp
begin

text \<open>
  \<open>internal/auth/service.go\<close> and \<open>compute_budget.go\<close>: the service in front of the panel store. Its own
  state is the number of attempts in flight per rate-limit key, the password work admitted per
  source, the hash slots in use and the pending TOTP enrollments; the bootstrap token file is kept with it. A handler is a function from
  the service state to its result and the new state; clock readings, random bytes and the
  outcome of password hashing are arguments of the call.
\<close>

section \<open>State\<close>

datatype auth_error = ErrBootstrapUnavailable | ErrInvalidBootstrapToken | ErrInvalidCredentials | ErrInvalidSession
  | ErrInvalidCSRFToken | RateLimitError duration | ErrInvalidUsername | ErrWeakPassword | ErrInvalidCurrentPassword
  | ErrPasswordUnchanged | ErrUsernameUnchanged | ErrUsernameUnavailable | ErrTOTPRequired | ErrInvalidSecondFactor
  | ErrTOTPAlreadyEnabled | ErrTOTPDisabled | ErrTOTPEnrollmentExpired | ErrSecondFactorUnavailable
  | ErrHash | ErrToken | ErrSeal | ErrConfig | ErrFile | StoreError store_error

record config =
  SessionTTL :: duration
  LoginWindow :: duration
  MaxLoginFailures :: int
  MaxConcurrentHashes :: int

text \<open>\<open>NewService\<close> fills in the defaults and refuses more than eight concurrent hashes.\<close>

definition service_config :: "config \<Rightarrow> auth_error + config" where
  "service_config c0 =
     (let c1 = (if SessionTTL c0 \<le> 0 then c0\<lparr>SessionTTL := 12 * Hour\<rparr> else c0);
          c2 = (if LoginWindow c1 \<le> 0 then c1\<lparr>LoginWindow := 15 * Minute\<rparr> else c1);
          c3 = (if MaxLoginFailures c2 \<le> 0 then c2\<lparr>MaxLoginFailures := 5\<rparr> else c2);
          c4 = (if MaxConcurrentHashes c3 \<le> 0 then c3\<lparr>MaxConcurrentHashes := 1\<rparr> else c3) in
      if 8 < MaxConcurrentHashes c4 then Inl ErrConfig else Inr c4)"

definition accountFailureLimitMultiplier :: int where "accountFailureLimitMultiplier = 10"

record compute_budget =
  cb_start :: gotime
  cb_used :: int

record pending_enrollment =
  pe_id :: string
  pe_secret :: string
  pe_expiresAt :: gotime
  pe_credentialEpoch :: string
  pe_credentialVersion :: "64 word"

record 'p auth =
  a_store :: "'p store"
  a_pending :: "(string \<times> nat) list"
  a_compute :: "(string \<times> compute_budget) list"
  a_hashSlots :: nat
  a_enrollments :: "(string \<times> pending_enrollment) list"
  a_bootstrap :: "string option"

text \<open>
  What the service is constructed over: the store's environment, the cryptography, its
  configuration, \<open>PasswordHasher.Verify\<close> (\<open>None\<close> is an error), the content of the TOTP key file
  (\<open>None\<close> where it cannot be loaded or created) and the hash checked for unknown accounts.
\<close>

record 'p auth_env =
  x_G :: genv
  x_K :: crypto
  x_W :: "'p world"
  x_cfg :: config
  x_verify :: "string \<Rightarrow> string \<Rightarrow> bool option"
  x_key :: "string option"
  x_dummyHash :: string

text \<open>What one call draws from outside: its clock readings in order, its reads of random bytes in
  order, the store's own clock, the outcome of \<open>PasswordHasher.Hash\<close>, the bytes of a new credential
  epoch and whether its file operations work.\<close>

record call =
  in_now :: "nat \<Rightarrow> gotime"
  in_rnd :: "nat \<Rightarrow> string option"
  in_wall :: gotime
  in_hash :: "string option"
  in_epoch :: "string option"
  in_file :: "nat \<Rightarrow> bool"

record public_user =
  pu_ID :: string
  pu_Username :: string
  pu_Role :: string
  pu_Avatar :: string
  pu_TOTPEnabled :: bool

record credentials =
  cr_Token :: string
  cr_CSRFToken :: string
  cr_ExpiresAt :: gotime
  cr_User :: public_user

record auth_session =
  as_TokenHash :: string
  as_CSRFHash :: string
  as_ExpiresAt :: gotime
  as_User :: public_user

section \<open>Keys, tokens and input checks\<close>

definition publicUser :: "user \<Rightarrow> public_user" where
  "publicUser u = \<lparr>pu_ID = u_ID u, pu_Username = u_Username u, pu_Role = u_Role u, pu_Avatar = u_Avatar u,
     pu_TOTPEnabled = (u_TOTPSecret u \<noteq> [])\<rparr>"

definition hashSecret :: "genv \<Rightarrow> string \<Rightarrow> string" where
  "hashSecret G v = hex_encode (sha256 G v)"

definition secureEqual :: "genv \<Rightarrow> string \<Rightarrow> string \<Rightarrow> bool" where
  "secureEqual G l r = (sha256 G l = sha256 G r)"

definition randomToken :: "string option \<Rightarrow> auth_error + string" where
  "randomToken rnd = (case rnd of None \<Rightarrow> Inl ErrToken | Some v \<Rightarrow> Inr (b64_encode v))"

definition valid_username :: "string \<Rightarrow> bool" where
  "valid_username u =
     (3 \<le> length u \<and> length u \<le> 32 \<and> (is_letter (hd u) \<or> is_digit (hd u)) \<and>
      list_all (\<lambda>c. is_letter c \<or> is_digit c \<or> c = CHR ''.'' \<or> c = CHR ''_'' \<or> c = CHR ''-'') (tl u))"

definition validateUsername :: "string \<Rightarrow> auth_error option" where
  "validateUsername u = (if valid_username u then None else Some ErrInvalidUsername)"

definition validatePassword :: "string \<Rightarrow> auth_error option" where
  "validatePassword p =
     (if length p < 12 \<or> 256 < length p then Some ErrWeakPassword
      else if \<not> (list_ex is_letter p \<and> list_ex is_digit p) then Some ErrWeakPassword else None)"

text \<open>The /64 of an IPv6 address, as \<open>netip.PrefixFrom(address, 64).Masked().String()\<close> prints it.\<close>

definition masked_64 :: "128 word \<Rightarrow> 128 word" where
  "masked_64 w = push_bit 64 (drop_bit 64 w)"

definition loginSource :: "genv \<Rightarrow> string \<Rightarrow> string" where
  "loginSource G ip0 =
     (let ip = trim_space (to_lower (uni_lower G) ip0) in
      case parse_addr ip of
        Some a \<Rightarrow> (case with_zone [] (unmap a) of
            V6 w z \<Rightarrow> show_addr (V6 (masked_64 w) []) @ ''/64''
          | b \<Rightarrow> show_addr b)
      | None \<Rightarrow> take 128 ip)"

definition loginKeys :: "genv \<Rightarrow> string \<Rightarrow> string \<Rightarrow> string \<times> string" where
  "loginKeys G ip username =
     (''ip:'' @ loginSource G ip, ''account:'' @ take 64 (trim_space (to_lower (uni_lower G) username)))"

section \<open>Results\<close>

type_synonym ('p, 'a) handler = "'p auth \<Rightarrow> (auth_error + 'a) \<times> 'p auth"

definition ret :: "'a \<Rightarrow> ('p, 'a) handler" where "ret a s = (Inr a, s)"

definition fail :: "auth_error \<Rightarrow> ('p, 'a) handler" where "fail e s = (Inl e, s)"

definition andThen :: "('p, 'a) handler \<Rightarrow> ('a \<Rightarrow> ('p, 'b) handler) \<Rightarrow> ('p, 'b) handler" where
  "andThen m f s = (case m s of (Inl e, s') \<Rightarrow> (Inl e, s') | (Inr a, s') \<Rightarrow> f a s')"

definition map_error :: "(auth_error \<Rightarrow> auth_error) \<Rightarrow> ('p, 'a) handler \<Rightarrow> ('p, 'a) handler" where
  "map_error f m s = (case m s of (Inl e, s') \<Rightarrow> (Inl (f e), s') | (Inr a, s') \<Rightarrow> (Inr a, s'))"

text \<open>A store mutator as a step of the service; its errors are passed on.\<close>

definition on_store :: "'p world \<Rightarrow> ('p, 'a) body \<Rightarrow> ('p, 'a) handler" where
  "on_store W b s = (case mutate W b (a_store s) of
     (Inl e, st) \<Rightarrow> (Inl (StoreError e), s\<lparr>a_store := st\<rparr>) | (Inr r, st) \<Rightarrow> (Inr r, s\<lparr>a_store := st\<rparr>))"

section \<open>Rate limiting\<close>

definition pending_of :: "string \<Rightarrow> 'p auth \<Rightarrow> nat" where
  "pending_of k s = alist_nat (a_pending s) k"

definition inFlight :: "'p auth \<Rightarrow> nat" where
  "inFlight s = alist_sum (\<lambda>k. \<not> UserScopedLoginAttempt k) (a_pending s)"

definition hasAttemptRoomLocked :: "nat \<Rightarrow> gotime \<Rightarrow> 'p auth \<Rightarrow> bool" where
  "hasAttemptRoomLocked records since s =
     (int (inFlight s + records) \<le> UnauthenticatedLoginAttemptRoom since (a_store s))"

definition inc_pending :: "string \<Rightarrow> 'p auth \<Rightarrow> 'p auth" where
  "inc_pending k s = s\<lparr>a_pending := alist_put k (Suc (pending_of k s)) (a_pending s)\<rparr>"

definition dec_pending :: "string \<Rightarrow> 'p auth \<Rightarrow> 'p auth" where
  "dec_pending k s =
     (if pending_of k s \<le> 1 then s\<lparr>a_pending := alist_del k (a_pending s)\<rparr>
      else s\<lparr>a_pending := alist_put k (pending_of k s - 1) (a_pending s)\<rparr>)"

definition reserveAuthenticationAttempt :: "string \<Rightarrow> gotime \<Rightarrow> int \<Rightarrow> 'p auth \<Rightarrow> bool \<times> 'p auth" where
  "reserveAuthenticationAttempt key since limit s =
     (if limit \<le> int (FailedLoginCount key since (a_store s) + pending_of key s) then (False, s)
      else if \<not> UserScopedLoginAttempt key \<and> \<not> hasAttemptRoomLocked 1 since s then (False, s)
      else (True, inc_pending key s))"

definition releaseAuthenticationAttempt :: "string \<Rightarrow> 'p auth \<Rightarrow> 'p auth" where
  "releaseAuthenticationAttempt key s = dec_pending key s"

definition reserveLogin :: "config \<Rightarrow> string \<Rightarrow> string \<Rightarrow> gotime \<Rightarrow> 'p auth \<Rightarrow> bool \<times> 'p auth" where
  "reserveLogin cfg ipKey accountKey since s =
     (if MaxLoginFailures cfg \<le> int (FailedLoginCount ipKey since (a_store s) + pending_of ipKey s) then (False, s)
      else if MaxLoginFailures cfg * accountFailureLimitMultiplier \<le>
          int (FailedLoginCount accountKey since (a_store s) + pending_of accountKey s) then (False, s)
      else if \<not> hasAttemptRoomLocked 2 since s then (False, s)
      else (True, inc_pending accountKey (inc_pending ipKey s)))"

definition releaseLogin :: "string \<Rightarrow> string \<Rightarrow> 'p auth \<Rightarrow> 'p auth" where
  "releaseLogin ipKey accountKey s = dec_pending accountKey (dec_pending ipKey s)"

definition login_attempts :: "string \<Rightarrow> string \<Rightarrow> gotime \<Rightarrow> bool \<Rightarrow> login_attempt list" where
  "login_attempts ipKey accountKey now success =
     [\<lparr>la_Key = ipKey, la_OccurredAt = now, la_Success = success\<rparr>,
      \<lparr>la_Key = accountKey, la_OccurredAt = now, la_Success = success\<rparr>]"

definition recordLoginAttempt :: "'p world \<Rightarrow> config \<Rightarrow> string \<Rightarrow> string \<Rightarrow> gotime \<Rightarrow> bool \<Rightarrow> ('p, unit) handler" where
  "recordLoginAttempt W cfg ipKey accountKey now success =
     on_store W (RecordLoginAttempts (login_attempts ipKey accountKey now success) (now - LoginWindow cfg))"

definition maxComputeSources :: nat where "maxComputeSources = 4096"

definition admitPasswordComputation :: "config \<Rightarrow> gotime \<Rightarrow> string \<Rightarrow> 'p auth \<Rightarrow> bool \<times> 'p auth" where
  "admitPasswordComputation cfg now key s =
     (let kept = filter (\<lambda>p. now < cb_start (snd p) + LoginWindow cfg) (a_compute s);
          s1 = s\<lparr>a_compute := kept\<rparr> in
      case map_of kept key of
        None \<Rightarrow>
          if maxComputeSources \<le> length kept then (False, s1)
          else if max 2 (MaxLoginFailures cfg * 2) \<le> 0 then (False, s1)
          else (True, s1\<lparr>a_compute := alist_put key \<lparr>cb_start = now, cb_used = 1\<rparr> kept\<rparr>)
      | Some b \<Rightarrow>
          if max 2 (MaxLoginFailures cfg * 2) \<le> cb_used b then (False, s1)
          else (True, s1\<lparr>a_compute := alist_put key (b\<lparr>cb_used := cb_used b + 1\<rparr>) kept\<rparr>))"

text \<open>A hash slot is taken without waiting and given back on every return path.\<close>

definition with_slot :: "config \<Rightarrow> ('p, 'a) handler \<Rightarrow> ('p, 'a) handler" where
  "with_slot cfg f s =
     (if MaxConcurrentHashes cfg \<le> int (a_hashSlots s) then (Inl (RateLimitError Second), s)
      else case f (s\<lparr>a_hashSlots := Suc (a_hashSlots s)\<rparr>) of (r, s') \<Rightarrow> (r, s'\<lparr>a_hashSlots := a_hashSlots s' - 1\<rparr>))"

text \<open>A reserved attempt of one key, released on every return path.\<close>

definition with_attempt :: "config \<Rightarrow> string \<Rightarrow> gotime \<Rightarrow> int \<Rightarrow> ('p, 'a) handler \<Rightarrow> ('p, 'a) handler" where
  "with_attempt cfg key since limit f s =
     (case reserveAuthenticationAttempt key since limit s of
        (False, s') \<Rightarrow> (Inl (RateLimitError (LoginWindow cfg)), s')
      | (True, s1) \<Rightarrow> (case f s1 of (r, s2) \<Rightarrow> (r, releaseAuthenticationAttempt key s2)))"

end
