(* ===== verification/AuthHandlers.thy ===== *)
theory AuthHandlers
  imports AuthService
begin

text \<open>
  The handlers of \<open>internal/auth/service.go\<close>: bootstrap, login, authentication, the second factor's
  management and the changes of password and username. Each is composed of the steps of
  AuthService in the order the code makes them; \<open>in_now t i\<close> is the \<open>i\<close>-th clock reading of the
  call \<open>t\<close> and \<open>in_rnd t i\<close> its \<open>i\<close>-th read of random bytes.
\<close>

section \<open>The second factor\<close>

definition verifyAndConsumeSecondFactor :: "'p auth_env \<Rightarrow> user \<Rightarrow> string \<Rightarrow> gotime \<Rightarrow> ('p, unit) handler" where
  "verifyAndConsumeSecondFactor X u value0 now =
     (let value = trim_space value0; recovery = normalizeRecoveryCode (x_G X) value in
      if length value < 1 \<or> 64 < length value then fail ErrInvalidSecondFactor
      else if recovery_code_pattern recovery
      then on_store (x_W X) (ConsumeUserRecoveryCode (u_ID u) (recoveryCodeHash (x_G X) recovery) now)
      else (case openTOTPSecret (x_K X) (x_key X) (u_TOTPSecret u) of
          None \<Rightarrow> fail ErrSecondFactorUnavailable
        | Some secret \<Rightarrow> (case matchTOTPStep (x_G X) (x_K X) secret value now of
            None \<Rightarrow> fail ErrInvalidSecondFactor
          | Some step \<Rightarrow> on_store (x_W X) (ConsumeUserTOTPStep (x_G X) (u_ID u) (u_TOTPSecret u) step now))))"

section \<open>Sessions\<close>

text \<open>\<open>r\<close> is the index of the first of the two random reads, \<open>c\<close> of the clock reading.\<close>

definition newSession :: "'p auth_env \<Rightarrow> call \<Rightarrow> nat \<Rightarrow> nat \<Rightarrow> user \<Rightarrow> auth_error + (credentials \<times> session)" where
  "newSession X t r c u =
     (case randomToken (in_rnd t r) of Inl e \<Rightarrow> Inl e
      | Inr token \<Rightarrow> (case randomToken (in_rnd t (r + 1)) of Inl e \<Rightarrow> Inl e
        | Inr csrfToken \<Rightarrow>
            let now = in_now t c; expiresAt = now + SessionTTL (x_cfg X) in
            Inr (\<lparr>cr_Token = token, cr_CSRFToken = csrfToken, cr_ExpiresAt = expiresAt, cr_User = publicUser u\<rparr>,
              \<lparr>s_TokenHash = hashSecret (x_G X) token, s_CSRFHash = hashSecret (x_G X) csrfToken, s_UserID = u_ID u,
                s_CreatedAt = now, s_ExpiresAt = expiresAt\<rparr>)))"

definition createSession :: "'p auth_env \<Rightarrow> call \<Rightarrow> nat \<Rightarrow> nat \<Rightarrow> user \<Rightarrow> ('p, credentials) handler" where
  "createSession X t r c u =
     (case newSession X t r c u of Inl e \<Rightarrow> fail e
      | Inr (creds, x) \<Rightarrow> andThen (on_store (x_W X) (PutSession (in_wall t) x)) (\<lambda>_. ret creds))"

definition Authenticate :: "genv \<Rightarrow> gotime \<Rightarrow> string \<Rightarrow> 'p auth \<Rightarrow> auth_error + auth_session" where
  "Authenticate G now token s =
     (if token = [] then Inl ErrInvalidSession
      else case SessionByTokenHash (hashSecret G token) now (a_store s) of
        Inl _ \<Rightarrow> Inl ErrInvalidSession
      | Inr x \<Rightarrow> (case UserByID (s_UserID x) (a_store s) of
          Inl _ \<Rightarrow> Inl ErrInvalidSession
        | Inr u \<Rightarrow> Inr \<lparr>as_TokenHash = hashSecret G token, as_CSRFHash = s_CSRFHash x,
            as_ExpiresAt = s_ExpiresAt x, as_User = publicUser u\<rparr>))"

definition ValidateCSRF :: "genv \<Rightarrow> auth_session \<Rightarrow> string \<Rightarrow> auth_error option" where
  "ValidateCSRF G x token =
     (if token = [] \<or> \<not> secureEqual G (as_CSRFHash x) (hashSecret G token) then Some ErrInvalidCSRFToken else None)"

definition Logout :: "'p auth_env \<Rightarrow> string \<Rightarrow> ('p, unit) handler" where
  "Logout X token s =
     (if token = [] then (Inr (), s)
      else case DeleteSession (x_W X) (hashSecret (x_G X) token) (a_store s) of
        (Inl e, st) \<Rightarrow> (Inl (StoreError e), s\<lparr>a_store := st\<rparr>)
      | (Inr r, st) \<Rightarrow> (Inr r, s\<lparr>a_store := st\<rparr>))"

text \<open>\<open>change\<close> is the caller's activation of the new boundary.\<close>

definition ChangeTransportBoundary :: "'p auth_env \<Rightarrow> ('p, unit) handler \<Rightarrow> ('p, unit) handler" where
  "ChangeTransportBoundary X change = andThen (on_store (x_W X) RevokeAllSessions) (\<lambda>_. change)"

section \<open>Login\<close>

definition login_second_factor ::
    "'p auth_env \<Rightarrow> string \<Rightarrow> string \<Rightarrow> gotime \<Rightarrow> user \<Rightarrow> string \<Rightarrow> ('p, unit) handler" where
  "login_second_factor X ipKey accountKey now u secondFactor s =
     (if u_TOTPSecret u = [] then (Inr (), s)
      else if trim_space secondFactor = [] then (Inl ErrTOTPRequired, s)
      else case verifyAndConsumeSecondFactor X u secondFactor now s of
        (Inr _, s') \<Rightarrow> (Inr (), s')
      | (Inl e, s') \<Rightarrow>
          (if e = ErrSecondFactorUnavailable then (Inl e, s')
           else andThen (recordLoginAttempt (x_W X) (x_cfg X) ipKey accountKey now False)
             (\<lambda>_. fail ErrInvalidSecondFactor) s'))"

definition login_finish ::
    "'p auth_env \<Rightarrow> call \<Rightarrow> string \<Rightarrow> string \<Rightarrow> gotime \<Rightarrow> user \<Rightarrow> ('p, credentials) handler" where
  "login_finish X t ipKey accountKey now u =
     (case newSession X t 0 2 u of Inl e \<Rightarrow> fail e
      | Inr (creds, x) \<Rightarrow> andThen (on_store (x_W X) (PutLoginSession (x_G X) (in_wall t) u x
            (login_attempts ipKey accountKey now True) (now - LoginWindow (x_cfg X)))) (\<lambda>_. ret creds))"

definition login_checked ::
    "'p auth_env \<Rightarrow> call \<Rightarrow> string \<Rightarrow> string \<Rightarrow> gotime \<Rightarrow> string \<Rightarrow> string \<Rightarrow> string \<Rightarrow> ('p, credentials) handler" where
  "login_checked X t ipKey accountKey now username password secondFactor s =
     (let found = UserByUsername username (a_store s);
          inputInvalid = (length password < 1 \<or> 256 < length password \<or> 64 < length username);
          stored = (case found of Inl _ \<Rightarrow> x_dummyHash X | Inr u \<Rightarrow> u_PasswordHash u);
          passwordToVerify = (if inputInvalid then ''invalid-input'' else password);
          hash = (if inputInvalid then x_dummyHash X else stored) in
      case admitPasswordComputation (x_cfg X) (in_now t 1) ipKey s of
        (False, s1) \<Rightarrow> (Inl (RateLimitError (LoginWindow (x_cfg X))), s1)
      | (True, s1) \<Rightarrow> (case (if inputInvalid \<or> x_verify X passwordToVerify hash \<noteq> Some True then None
            else case found of Inl _ \<Rightarrow> None | Inr u \<Rightarrow> Some u) of
          None \<Rightarrow> andThen (recordLoginAttempt (x_W X) (x_cfg X) ipKey accountKey now False)
            (\<lambda>_. fail ErrInvalidCredentials) s1
        | Some u \<Rightarrow> andThen (login_second_factor X ipKey accountKey now u secondFactor)
            (\<lambda>_. login_finish X t ipKey accountKey now u) s1))"

definition Login ::
    "'p auth_env \<Rightarrow> call \<Rightarrow> string \<Rightarrow> string \<Rightarrow> string \<Rightarrow> string \<Rightarrow> ('p, credentials) handler" where
  "Login X t ip username password secondFactor s =
     (let now = in_now t 0; keys = loginKeys (x_G X) ip username;
          since = now - LoginWindow (x_cfg X) in
      case reserveLogin (x_cfg X) (fst keys) (snd keys) since s of
        (False, s1) \<Rightarrow> (Inl (RateLimitError (LoginWindow (x_cfg X))), s1)
      | (True, s1) \<Rightarrow>
          (case with_slot (x_cfg X) (login_checked X t (fst keys) (snd keys) now username password secondFactor) s1 of
             (r, s2) \<Rightarrow> (r, releaseLogin (fst keys) (snd keys) s2)))"

section \<open>Checking the current password\<close>

definition reauth_record :: "'p auth_env \<Rightarrow> string \<Rightarrow> gotime \<Rightarrow> bool \<Rightarrow> ('p, unit) handler" where
  "reauth_record X key now success = on_store (x_W X)
     (RecordLoginAttempt \<lparr>la_Key = key, la_OccurredAt = now, la_Success = success\<rparr> (now - LoginWindow (x_cfg X)))"

definition reauth_key :: "string \<Rightarrow> string" where "reauth_key userID = ''reauth:'' @ userID"

definition reauth_checked :: "'p auth_env \<Rightarrow> call \<Rightarrow> nat \<Rightarrow> string \<Rightarrow> string \<Rightarrow> ('p, user) handler" where
  "reauth_checked X t c userID password s =
     (case UserByID userID (a_store s) of
        Inl _ \<Rightarrow> andThen (reauth_record X (reauth_key userID) (in_now t c) False) (\<lambda>_. fail ErrInvalidCurrentPassword) s
      | Inr u \<Rightarrow> (case admitPasswordComputation (x_cfg X) (in_now t (c + 1)) (''user:'' @ userID) s of
          (False, s1) \<Rightarrow> (Inl (RateLimitError (LoginWindow (x_cfg X))), s1)
        | (True, s1) \<Rightarrow>
            if x_verify X password (u_PasswordHash u) \<noteq> Some True
            then andThen (reauth_record X (reauth_key userID) (in_now t c) False) (\<lambda>_. fail ErrInvalidCurrentPassword) s1
            else andThen (reauth_record X (reauth_key userID) (in_now t c) True) (\<lambda>_. ret u) s1))"

definition verifyCurrentPasswordWithSlot ::
    "'p auth_env \<Rightarrow> call \<Rightarrow> nat \<Rightarrow> string \<Rightarrow> string \<Rightarrow> bool \<Rightarrow> ('p, user) handler" where
  "verifyCurrentPasswordWithSlot X t c userID password slotHeld =
     with_attempt (x_cfg X) (reauth_key userID) (in_now t c - LoginWindow (x_cfg X)) (MaxLoginFailures (x_cfg X))
       (if length password < 1 \<or> 256 < length password
        then andThen (reauth_record X (reauth_key userID) (in_now t c) False) (\<lambda>_. fail ErrInvalidCurrentPassword)
        else if slotHeld then reauth_checked X t c userID password
        else with_slot (x_cfg X) (reauth_checked X t c userID password))"

definition verifyCurrentPassword :: "'p auth_env \<Rightarrow> call \<Rightarrow> nat \<Rightarrow> string \<Rightarrow> string \<Rightarrow> ('p, user) handler" where
  "verifyCurrentPassword X t c userID password = verifyCurrentPasswordWithSlot X t c userID password False"

definition managementFactorKeyPrefix :: string where "managementFactorKeyPrefix = ''passkey-reauth:''"

text \<open>The password and, where the account has one, the second factor.\<close>

definition management_factors ::
    "'p auth_env \<Rightarrow> call \<Rightarrow> nat \<Rightarrow> string \<Rightarrow> string \<Rightarrow> string \<Rightarrow> ('p, unit) handler" where
  "management_factors X t c userID password second =
     andThen (verifyCurrentPassword X t (c + 1) userID password) (\<lambda>u.
       if u_TOTPSecret u = [] then ret ()
       else map_error (\<lambda>e. if e = ErrSecondFactorUnavailable then e else ErrInvalidSecondFactor)
         (verifyAndConsumeSecondFactor X u second (in_now t c)))"

definition verifyManagementFactors ::
    "'p auth_env \<Rightarrow> call \<Rightarrow> nat \<Rightarrow> string \<Rightarrow> string \<Rightarrow> string \<Rightarrow> ('p, user) handler" where
  "verifyManagementFactors X t c userID password second =
     (let key = managementFactorKeyPrefix @ userID; now = in_now t c in
      with_attempt (x_cfg X) key (now - LoginWindow (x_cfg X)) (MaxLoginFailures (x_cfg X)) (\<lambda>s.
        case management_factors X t c userID password second s of (r, s1) \<Rightarrow>
          (case reauth_record X key now (is_ok r) s1 of
             (Inl e, s2) \<Rightarrow> (Inl e, s2)
           | (Inr _, s2) \<Rightarrow> (case r of Inl e \<Rightarrow> (Inl e, s2)
               | Inr _ \<Rightarrow> (case UserByID userID (a_store s2) of
                   Inl e \<Rightarrow> (Inl (StoreError e), s2) | Inr u \<Rightarrow> (Inr u, s2))))))"

end
