(* ===== verification/AuthManagement.thy ===== *)
theory AuthManagement
  imports AuthHandlers
begin

text \<open>
  \<open>internal/auth/service.go\<close>: the bootstrap of the first account, the enrollment and the
  removal of the second factor, and the changes of password and username.
\<close>

section \<open>The bootstrap token\<close>

datatype open_outcome = Opened | AlreadyThere | OpenFailed

text \<open>\<open>bi_write = Some p\<close> is a write that failed after the prefix \<open>p\<close>.\<close>

record bootstrap_io =
  bi_remove :: bool
  bi_mkdir :: bool
  bi_read :: bool
  bi_chmod :: bool
  bi_open :: open_outcome
  bi_write :: "string option"
  bi_sync :: bool
  bi_close :: bool

definition drop_token :: "bootstrap_io \<Rightarrow> string \<Rightarrow> 'p auth \<Rightarrow> 'p auth" where
  "drop_token io content s = s\<lparr>a_bootstrap := (if bi_remove io then None else Some content)\<rparr>"

definition EnsureBootstrapToken :: "bootstrap_io \<Rightarrow> string option \<Rightarrow> ('p, unit) handler" where
  "EnsureBootstrapToken io rnd s =
     (if IsInitialized (a_store s)
      then (if bi_remove io then (Inr (), s\<lparr>a_bootstrap := None\<rparr>) else (Inl ErrFile, s))
      else if \<not> bi_mkdir io then (Inl ErrFile, s)
      else if \<not> bi_read io then (Inl ErrFile, s)
      else case a_bootstrap s of
        Some content \<Rightarrow>
          if trim_space content = [] then (Inl ErrFile, s)
          else if bi_chmod io then (Inr (), s) else (Inl ErrFile, s)
      | None \<Rightarrow> (case randomToken rnd of Inl e \<Rightarrow> (Inl e, s)
        | Inr token \<Rightarrow> (case bi_open io of
            AlreadyThere \<Rightarrow> (Inr (), s)
          | OpenFailed \<Rightarrow> (Inl ErrFile, s)
          | Opened \<Rightarrow> (case bi_write io of
              Some p \<Rightarrow> (Inl ErrFile, drop_token io p s)
            | None \<Rightarrow>
                let content = token @ [CHR 0x0A] in
                if \<not> bi_sync io \<or> \<not> bi_close io then (Inl ErrFile, drop_token io content s)
                else (Inr (), s\<lparr>a_bootstrap := Some content\<rparr>)))))"

text \<open>\<open>removed\<close> and \<open>emptied\<close> are the outcomes of \<open>os.Remove\<close> and of the write that blanks the file.\<close>

definition consumeBootstrapToken :: "bool \<Rightarrow> bool \<Rightarrow> 'p auth \<Rightarrow> 'p auth" where
  "consumeBootstrapToken removed emptied s =
     (if a_bootstrap s = None then s
      else if removed then s\<lparr>a_bootstrap := None\<rparr>
      else if emptied then s\<lparr>a_bootstrap := Some []\<rparr> else s)"

definition bootstrap_user :: "string \<Rightarrow> string \<Rightarrow> string \<Rightarrow> gotime \<Rightarrow> user" where
  "bootstrap_user userID username hash now =
     zero_user\<lparr>u_ID := userID, u_Username := username, u_PasswordHash := hash, u_Role := ''admin'',
       u_CreatedAt := now, u_UpdatedAt := now\<rparr>"

definition bootstrap_account :: "'p auth_env \<Rightarrow> call \<Rightarrow> string \<Rightarrow> ('p, credentials) handler" where
  "bootstrap_account X t username =
     (case in_hash t of None \<Rightarrow> fail ErrHash
      | Some hash \<Rightarrow> (case randomToken (in_rnd t 0) of Inl e \<Rightarrow> fail e
        | Inr userID \<Rightarrow>
            let u = bootstrap_user userID username hash (in_now t 0) in
            andThen (map_error (\<lambda>e. if e = StoreError ErrAlreadyInitialized then ErrBootstrapUnavailable else e)
                (on_store (x_W X) (CreateInitialAdmin (x_G X) u)))
              (\<lambda>_ s. createSession X t 1 1 u (consumeBootstrapToken (in_file t 1) (in_file t 2) s))))"

definition Bootstrap :: "'p auth_env \<Rightarrow> call \<Rightarrow> string \<Rightarrow> string \<Rightarrow> string \<Rightarrow> ('p, credentials) handler" where
  "Bootstrap X t token username password s =
     (if IsInitialized (a_store s) then (Inl ErrBootstrapUnavailable, s)
      else if \<not> in_file t 0 then (Inl ErrFile, s)
      else case a_bootstrap s of
        None \<Rightarrow> (Inl ErrBootstrapUnavailable, s)
      | Some expected \<Rightarrow>
          if \<not> secureEqual (x_G X) (trim_space expected) (trim_space token) then (Inl ErrInvalidBootstrapToken, s)
          else case validateUsername username of Some e \<Rightarrow> (Inl e, s)
          | None \<Rightarrow> (case validatePassword password of Some e \<Rightarrow> (Inl e, s)
          | None \<Rightarrow> with_slot (x_cfg X) (bootstrap_account X t username) s))"

section \<open>Enrolling the second factor\<close>

definition enrollmentTTL :: duration where "enrollmentTTL = 10 * Minute"
definition maxPendingEnrollments :: nat where "maxPendingEnrollments = 8"

record totp_status =
  ts_Enabled :: bool
  ts_EnabledAt :: "gotime option"
  ts_RecoveryCodesRemaining :: nat

definition TOTPStatus :: "string \<Rightarrow> 'p auth \<Rightarrow> auth_error + totp_status" where
  "TOTPStatus userID s = (case UserByID userID (a_store s) of Inl e \<Rightarrow> Inl (StoreError e)
     | Inr u \<Rightarrow> Inr \<lparr>ts_Enabled = (u_TOTPSecret u \<noteq> []), ts_EnabledAt = u_TOTPEnabledAt u,
         ts_RecoveryCodesRemaining = length (u_TOTPRecoveryCodeHashes u)\<rparr>)"

record totp_enrollment =
  te_ID :: string
  te_Secret :: string
  te_OTPAuthURI :: string
  te_ExpiresAt :: gotime

text \<open>
  \<open>net/url\<close>: a path escapes every byte outside \<open>keep\<close>, a query component likewise, with a space as
  \<open>+\<close>; \<open>Values.Encode\<close> sorts its keys.
\<close>

definition upper_hex :: "nat \<Rightarrow> char" where
  "upper_hex n = ascii_upper (hex_char n)"

definition url_escape :: "(char \<Rightarrow> bool) \<Rightarrow> string \<Rightarrow> string" where
  "url_escape keep s = concat (map (\<lambda>c. if keep c then [c]
     else [CHR ''%'', upper_hex (byte c div 16), upper_hex (byte c mod 16)]) s)"

definition url_unreserved :: "char \<Rightarrow> bool" where
  "url_unreserved c = (is_letter c \<or> is_digit c \<or> c \<in> set ''-_.~'')"

definition url_path :: "string \<Rightarrow> string" where
  "url_path = url_escape (\<lambda>c. url_unreserved c \<or> c \<in> set ''$&+,/:;=@'')"

definition url_query :: "string \<Rightarrow> string" where
  "url_query s = map (\<lambda>c. if c = CHR '' '' then CHR ''+'' else c) (url_escape (\<lambda>c. url_unreserved c \<or> c = CHR '' '') s)"

definition buildOTPAuthURI :: "string \<Rightarrow> string \<Rightarrow> string" where
  "buildOTPAuthURI username secret =
     ''otpauth://totp'' @ url_path (''/KPanel:'' @ username) @
     ''?algorithm=SHA1&digits=6&issuer=KPanel&period=30&secret='' @ url_query secret"

definition live_enrollments :: "gotime \<Rightarrow> string \<Rightarrow> (string \<times> pending_enrollment) list \<Rightarrow> (string \<times> pending_enrollment) list" where
  "live_enrollments now userID m = filter (\<lambda>p. now < pe_expiresAt (snd p) \<and> fst p \<noteq> userID) m"

definition StartTOTPEnrollment :: "'p auth_env \<Rightarrow> call \<Rightarrow> string \<Rightarrow> string \<Rightarrow> ('p, totp_enrollment) handler" where
  "StartTOTPEnrollment X t userID password =
     andThen (verifyCurrentPassword X t 0 userID password) (\<lambda>u s.
       if u_TOTPSecret u \<noteq> [] then (Inl ErrTOTPAlreadyEnabled, s)
       else case generateTOTPSecret (in_rnd t 0) of None \<Rightarrow> (Inl ErrToken, s)
       | Some secret \<Rightarrow> (case randomToken (in_rnd t 1) of Inl e \<Rightarrow> (Inl e, s)
         | Inr i \<Rightarrow>
             let now = in_now t 2; expiresAt = now + enrollmentTTL;
                 live = live_enrollments now userID (a_enrollments s) in
             if maxPendingEnrollments \<le> length live
             then (Inl (RateLimitError Minute), s\<lparr>a_enrollments := live\<rparr>)
             else (Inr \<lparr>te_ID = i, te_Secret = secret, te_OTPAuthURI = buildOTPAuthURI (u_Username u) secret,
                     te_ExpiresAt = expiresAt\<rparr>,
                   s\<lparr>a_enrollments := alist_put userID \<lparr>pe_id = i, pe_secret = secret, pe_expiresAt = expiresAt,
                     pe_credentialEpoch = u_CredentialEpoch u, pe_credentialVersion = u_CredentialVersion u\<rparr> live\<rparr>)))"

definition drop_enrollment :: "string \<Rightarrow> 'p auth \<Rightarrow> 'p auth" where
  "drop_enrollment userID s = s\<lparr>a_enrollments := alist_del userID (a_enrollments s)\<rparr>"

definition enable_enrolled ::
    "'p auth_env \<Rightarrow> call \<Rightarrow> string \<Rightarrow> pending_enrollment \<Rightarrow> int \<Rightarrow> ('p, string list) handler" where
  "enable_enrolled X t userID pending step =
     (case sealTOTPSecret (x_K X) (x_key X) (in_rnd t 0) (pe_secret pending) of None \<Rightarrow> fail ErrSeal
      | Some sealed \<Rightarrow> (case generateRecoveryCodes (x_G X) (\<lambda>i. in_rnd t (Suc i)) of None \<Rightarrow> fail ErrToken
        | Some (codes, hashes) \<Rightarrow>
            andThen (map_error (\<lambda>e. if e = StoreError ErrConflict then ErrTOTPEnrollmentExpired else e)
              (on_store (x_W X) (EnableUserTOTP (in_epoch t) userID (pe_credentialEpoch pending) (pe_credentialVersion pending)
                 sealed (in_now t 2) step hashes))) (\<lambda>_. ret codes)))"

definition ConfirmTOTPEnrollment ::
    "'p auth_env \<Rightarrow> call \<Rightarrow> string \<Rightarrow> string \<Rightarrow> string \<Rightarrow> ('p, string list) handler" where
  "ConfirmTOTPEnrollment X t userID enrollmentID code s =
     (if length enrollmentID < 1 \<or> 128 < length enrollmentID then (Inl ErrTOTPEnrollmentExpired, s)
      else if 64 < length code then (Inl ErrInvalidSecondFactor, s)
      else case map_of (a_enrollments s) userID of
        None \<Rightarrow> (Inl ErrTOTPEnrollmentExpired, drop_enrollment userID s)
      | Some pending \<Rightarrow>
          if \<not> secureEqual (x_G X) (pe_id pending) enrollmentID \<or> pe_expiresAt pending \<le> in_now t 0
          then (Inl ErrTOTPEnrollmentExpired, drop_enrollment userID s)
          else (case matchTOTPStep (x_G X) (x_K X) (pe_secret pending) (trim_space code) (in_now t 1) of
              None \<Rightarrow> (Inl ErrInvalidSecondFactor, s)
            | Some step \<Rightarrow> enable_enrolled X t userID pending step (drop_enrollment userID s)))"

definition RegenerateRecoveryCodes ::
    "'p auth_env \<Rightarrow> call \<Rightarrow> string \<Rightarrow> string \<Rightarrow> string \<Rightarrow> ('p, string list) handler" where
  "RegenerateRecoveryCodes X t userID password second =
     andThen (verifyManagementFactors X t 0 userID password second) (\<lambda>u.
       if u_TOTPSecret u = [] then fail ErrTOTPDisabled
       else case generateRecoveryCodes (x_G X) (in_rnd t) of None \<Rightarrow> fail ErrToken
       | Some (codes, hashes) \<Rightarrow>
           andThen (on_store (x_W X) (ReplaceUserRecoveryCodes (in_epoch t) userID hashes (in_now t 3))) (\<lambda>_. ret codes))"

definition DisableTOTP :: "'p auth_env \<Rightarrow> call \<Rightarrow> string \<Rightarrow> string \<Rightarrow> string \<Rightarrow> ('p, unit) handler" where
  "DisableTOTP X t userID password second =
     andThen (verifyManagementFactors X t 0 userID password second) (\<lambda>u.
       if u_TOTPSecret u = [] then fail ErrTOTPDisabled
       else map_error (\<lambda>e. if e = StoreError ErrConflict then ErrTOTPDisabled else e)
         (on_store (x_W X) (DisableUserTOTP (in_epoch t) userID (in_now t 3))))"

section \<open>Password and username\<close>

definition stale_password :: "auth_error \<Rightarrow> auth_error" where
  "stale_password e = (if e = StoreError ErrConflict \<or> e = StoreError ErrNotFound then ErrInvalidCurrentPassword else e)"

definition ChangePassword :: "'p auth_env \<Rightarrow> call \<Rightarrow> string \<Rightarrow> string \<Rightarrow> string \<Rightarrow> ('p, unit) handler" where
  "ChangePassword X t userID currentPassword newPassword =
     (case validatePassword newPassword of Some e \<Rightarrow> fail e
      | None \<Rightarrow> with_slot (x_cfg X) (andThen (verifyCurrentPasswordWithSlot X t 0 userID currentPassword True) (\<lambda>u.
          if secureEqual (x_G X) currentPassword newPassword then fail ErrPasswordUnchanged
          else case in_hash t of None \<Rightarrow> fail ErrHash
          | Some newHash \<Rightarrow> map_error stale_password (on_store (x_W X)
              (ReplaceUserPassword (in_epoch t) (u_ID u) (u_PasswordHash u) newHash (in_now t 2))))))"

definition ChangeUsername :: "'p auth_env \<Rightarrow> call \<Rightarrow> string \<Rightarrow> string \<Rightarrow> string \<Rightarrow> ('p, unit) handler" where
  "ChangeUsername X t userID currentPassword newUsername =
     (case validateUsername newUsername of Some e \<Rightarrow> fail e
      | None \<Rightarrow> with_slot (x_cfg X) (andThen (verifyCurrentPasswordWithSlot X t 0 userID currentPassword True) (\<lambda>u.
          if u_Username u = newUsername then fail ErrUsernameUnchanged
          else map_error (\<lambda>e. if e = StoreError ErrAlreadyExists then ErrUsernameUnavailable else stale_password e)
            (on_store (x_W X) (ReplaceUserUsername (x_G X) (in_epoch t) (u_ID u) (u_Username u) newUsername (in_now t 2))))))"

definition recovery_event :: "string \<Rightarrow> gotime \<Rightarrow> user \<Rightarrow> bool \<Rightarrow> audit_event" where
  "recovery_event eventID now u disableTOTP =
     \<lparr>ae_ID = eventID, ae_OccurredAt = now, ae_ActorType = ''cli'', ae_ActorID = [], ae_SourceIP = [],
       ae_Action = ''auth.password.recover'', ae_TargetKind = ''user'', ae_TargetID = u_ID u, ae_Result = ''success'',
       ae_RequestID = [],
       ae_Change = [(''passkeysRevoked'', CInt (int (length (u_Passkeys u)))), (''twoFactorDisabled'', CBool disableTOTP)]\<rparr>"

definition stale_account :: "store_error \<Rightarrow> auth_error" where
  "stale_account e = (if e = ErrConflict \<or> e = ErrNotFound then ErrInvalidCredentials else StoreError e)"

definition recover_account ::
    "'p auth_env \<Rightarrow> call \<Rightarrow> audit_io \<Rightarrow> audit_io \<Rightarrow> string \<Rightarrow> bool \<Rightarrow> ('p, public_user) handler" where
  "recover_account X t io1 io2 userID disableTOTP s =
     (case UserByID userID (a_store s) of
        Inl e \<Rightarrow> (Inl (if e = ErrNotFound then ErrInvalidCredentials else StoreError e), s)
      | Inr u \<Rightarrow> (case in_hash t of None \<Rightarrow> (Inl ErrHash, s)
        | Some newHash \<Rightarrow> (case randomToken (in_rnd t 0) of Inl e \<Rightarrow> (Inl e, s)
          | Inr eventID \<Rightarrow>
              (case RecoverUserPassword (x_W X) io1 io2 (in_epoch t)
                  \<lparr>pr_UserID = u_ID u, pr_ExpectedHash = u_PasswordHash u, pr_NewHash = newHash, pr_DisableTOTP = disableTOTP,
                    pr_UpdatedAt = in_now t 0, pr_AuditEvent = recovery_event eventID (in_now t 0) u disableTOTP,
                    pr_MaxAuditEntries = int MaxAuditEntries\<rparr> (a_store s) of
                 (Inl e, st) \<Rightarrow> (Inl (stale_account e), s\<lparr>a_store := st\<rparr>)
               | (Inr _, st) \<Rightarrow> (Inr (publicUser (if disableTOTP then clear_totp u else u)), s\<lparr>a_store := st\<rparr>)))))"

definition RecoverPassword ::
    "'p auth_env \<Rightarrow> call \<Rightarrow> audit_io \<Rightarrow> audit_io \<Rightarrow> string \<Rightarrow> string \<Rightarrow> bool \<Rightarrow> ('p, public_user) handler" where
  "RecoverPassword X t io1 io2 userID newPassword disableTOTP =
     (case validatePassword newPassword of Some e \<Rightarrow> fail e
      | None \<Rightarrow> with_slot (x_cfg X) (recover_account X t io1 io2 userID disableTOTP))"

end
