(* ===== verification/ServiceCalls.thy ===== *)
theory ServiceCalls
  imports AuthManagement
begin

text \<open>
  All handlers of the auth service as one type of calls, and the relation every call has between
  the states before and after it, for each of the service's tables. The contract is stated once,
  as a locale over the elementary steps, and instantiated with the relations of interest.
\<close>

section \<open>Calls\<close>

datatype service_call =
    CEnsure bootstrap_io "string option"
  | CBootstrap call string string string
  | CLogin call string string string string
  | CLogout string
  | CBoundary bool
  | CStartTOTP call string string
  | CConfirmTOTP call string string string
  | CRegenerate call string string string
  | CDisableTOTP call string string string
  | CChangePassword call string string string
  | CChangeUsername call string string string
  | CRecover call audit_io audit_io string string bool

definition void :: "('p, 'a) handler \<Rightarrow> ('p, unit) handler" where
  "void m s = (case m s of (Inl e, s') \<Rightarrow> (Inl e, s') | (Inr _, s') \<Rightarrow> (Inr (), s'))"

text \<open>The activation of a transport boundary does not touch the service: only its outcome matters.\<close>

fun serve :: "'p auth_env \<Rightarrow> service_call \<Rightarrow> ('p, unit) handler" where
  "serve X (CEnsure io rnd) = EnsureBootstrapToken io rnd"
| "serve X (CBootstrap t token n p) = void (Bootstrap X t token n p)"
| "serve X (CLogin t ip n p f) = void (Login X t ip n p f)"
| "serve X (CLogout token) = Logout X token"
| "serve X (CBoundary ok) = ChangeTransportBoundary X (if ok then ret () else fail ErrFile)"
| "serve X (CStartTOTP t i p) = void (StartTOTPEnrollment X t i p)"
| "serve X (CConfirmTOTP t i e c) = void (ConfirmTOTPEnrollment X t i e c)"
| "serve X (CRegenerate t i p f) = void (RegenerateRecoveryCodes X t i p f)"
| "serve X (CDisableTOTP t i p f) = DisableTOTP X t i p f"
| "serve X (CChangePassword t i p q) = ChangePassword X t i p q"
| "serve X (CChangeUsername t i p n) = ChangeUsername X t i p n"
| "serve X (CRecover t io1 io2 i q d) = void (RecoverPassword X t io1 io2 i q d)"

definition serve_all :: "'p auth_env \<Rightarrow> service_call list \<Rightarrow> 'p auth \<Rightarrow> 'p auth" where
  "serve_all X cs s = fold (\<lambda>c s. snd (serve X c s)) cs s"

text \<open>The random bytes of an epoch are sixteen.\<close>

definition epoch_ok :: "call \<Rightarrow> bool" where
  "epoch_ok t = (case in_epoch t of None \<Rightarrow> True | Some v \<Rightarrow> length v = 16)"

fun call_ok :: "service_call \<Rightarrow> bool" where
  "call_ok (CConfirmTOTP t _ _ _) = epoch_ok t"
| "call_ok (CRegenerate t _ _ _) = epoch_ok t"
| "call_ok (CDisableTOTP t _ _ _) = epoch_ok t"
| "call_ok (CChangePassword t _ _ _) = epoch_ok t"
| "call_ok (CChangeUsername t _ _ _) = epoch_ok t"
| "call_ok (CRecover t _ _ _ _ _) = epoch_ok t"
| "call_ok _ = True"

section \<open>The contract of the elementary steps\<close>

fun signs_in :: "service_call \<Rightarrow> bool" where
  "signs_in (CBootstrap _ _ _ _) = True"
| "signs_in (CLogin _ _ _ _ _) = True"
| "signs_in _ = False"

text \<open>The requests that put a session into the table.\<close>

fun opens_session :: "'p request \<Rightarrow> bool" where
  "opens_session (RPutSession _ _) = True"
| "opens_session (RLoginSession _ _ _ _ _) = True"
| "opens_session (RUpdatePasskey _ _ _ _) = True"
| "opens_session _ = False"

locale service_relation =
  fixes X :: "'p auth_env" and V :: "'p panel_checks" and R :: "'p auth \<Rightarrow> 'p auth \<Rightarrow> bool"
  assumes refl: "R s s"
    and trans: "R s t \<Longrightarrow> R t u \<Longrightarrow> R s u"
    and store_step: "request_ok rq \<Longrightarrow> \<not> opens_session rq \<Longrightarrow> R s (s\<lparr>a_store := snd (exec (x_G X) V (x_W X) rq (a_store s))\<rparr>)"
    and compute_step: "R s (snd (admitPasswordComputation (x_cfg X) now key s))"
    and prune_step: "R s (s\<lparr>a_enrollments := live_enrollments now i (a_enrollments s)\<rparr>)"
    and enroll_step: "length (live_enrollments now i (a_enrollments s)) < maxPendingEnrollments \<Longrightarrow>
      R s (s\<lparr>a_enrollments := alist_put i e (live_enrollments now i (a_enrollments s))\<rparr>)"
    and drop_step: "R s (drop_enrollment i s)"
    and bootstrap_step: "R s (s\<lparr>a_bootstrap := b\<rparr>)"
    and slot_bracket: "int (a_hashSlots s) < MaxConcurrentHashes (x_cfg X) \<Longrightarrow>
      R (s\<lparr>a_hashSlots := Suc (a_hashSlots s)\<rparr>) s' \<Longrightarrow> R s (s'\<lparr>a_hashSlots := a_hashSlots s' - 1\<rparr>)"
    and attempt_bracket: "R (inc_pending k s) s' \<Longrightarrow> R s (dec_pending k s')"
    and login_bracket: "R (inc_pending a (inc_pending i s)) s' \<Longrightarrow> R s (dec_pending a (dec_pending i s'))"
begin

definition rel :: "('p, 'a) handler \<Rightarrow> bool" where
  "rel m = (\<forall>s. R s (snd (m s)))"

lemma relD: "rel m \<Longrightarrow> R s (snd (m s))" by (simp add: rel_def)

lemma relD_eq: "rel m \<Longrightarrow> m s = (r, s') \<Longrightarrow> R s s'" by (metis relD snd_conv)

lemma rel_ret [intro!, simp]: "rel (ret a)" and rel_fail [intro!, simp]: "rel (fail e)"
  by (simp_all add: rel_def ret_def fail_def refl)

lemma rel_andThen: "rel m \<Longrightarrow> (\<And>a. rel (f a)) \<Longrightarrow> rel (andThen m f)"
  unfolding rel_def andThen_def by (auto split: prod.split sum.split) (metis snd_conv trans)+

lemma rel_map_error: "rel m \<Longrightarrow> rel (map_error g m)"
  unfolding rel_def map_error_def by (auto split: prod.split sum.split) (metis snd_conv)+

lemma rel_void: "rel m \<Longrightarrow> rel (void m)"
  unfolding rel_def void_def by (auto split: prod.split sum.split) (metis snd_conv)+

lemma rel_with_slot:
  assumes "rel m" shows "rel (with_slot (x_cfg X) m)"
proof -
  have "R s (snd (with_slot (x_cfg X) m s))" for s
  proof (cases "MaxConcurrentHashes (x_cfg X) \<le> int (a_hashSlots s)")
    case True
    then show ?thesis by (simp add: with_slot_def refl)
  next
    case False
    obtain r s' where e: "m (s\<lparr>a_hashSlots := Suc (a_hashSlots s)\<rparr>) = (r, s')" by fastforce
    from False slot_bracket relD_eq [OF assms e] e show ?thesis by (simp add: with_slot_def)
  qed
  then show ?thesis by (simp add: rel_def)
qed

lemma rel_with_attempt:
  assumes "rel m" shows "rel (with_attempt cfg key since limit m)"
proof -
  have "R s (snd (with_attempt cfg key since limit m s))" for s
  proof -
    obtain r s' where e: "m (inc_pending key s) = (r, s')" by fastforce
    from attempt_bracket relD_eq [OF assms e] e show ?thesis
      by (auto simp: with_attempt_def reserveAuthenticationAttempt_def releaseAuthenticationAttempt_def refl)
  qed
  then show ?thesis by (simp add: rel_def)
qed

lemma rel_on_store:
  assumes "request_ok rq" and "\<not> opens_session rq" and "\<And>st. exec (x_G X) V (x_W X) rq st = mutate (x_W X) b st"
  shows "rel (on_store (x_W X) b)"
proof -
  have "snd (on_store (x_W X) b s) = s\<lparr>a_store := snd (exec (x_G X) V (x_W X) rq (a_store s))\<rparr>" for s
    by (auto simp: on_store_def assms(3) split: prod.split sum.split)
  with store_step [OF assms(1,2)] show ?thesis by (simp add: rel_def)
qed

lemma rel_record: "rel (recordLoginAttempt (x_W X) cfg ip account now ok)"
  unfolding recordLoginAttempt_def by (rule rel_on_store [where rq = "RAttempts _ _"]) (simp_all add: request_ok_def)

lemma rel_reauth_record: "rel (reauth_record X key now ok)"
  unfolding reauth_record_def RecordLoginAttempt_def
  by (rule rel_on_store [where rq = "RAttempts _ _"]) (simp_all add: request_ok_def)

lemma rel_second_factor: "rel (verifyAndConsumeSecondFactor X u v now)"
proof -
  have "rel (on_store (x_W X) (ConsumeUserRecoveryCode i h now))" for i h
    by (rule rel_on_store [where rq = "RRecoveryCode _ _ _"]) (simp_all add: request_ok_def)
  moreover have "rel (on_store (x_W X) (ConsumeUserTOTPStep (x_G X) i sec st now))" for i sec st
    by (rule rel_on_store [where rq = "RTOTPStep _ _ _ _"]) (simp_all add: request_ok_def)
  ultimately show ?thesis by (auto simp: verifyAndConsumeSecondFactor_def Let_def split: option.split)
qed

lemma admit_related: "admitPasswordComputation (x_cfg X) now key s = (b, s') \<Longrightarrow> R s s'"
  by (metis compute_step snd_conv)

lemma rel_login_second_factor: "rel (login_second_factor X ip account now u v)"
proof -
  have "R s (snd (login_second_factor X ip account now u v s))" for s
  proof -
    obtain r s1 where e: "verifyAndConsumeSecondFactor X u v now s = (r, s1)" by fastforce
    have 1: "R s s1" by (rule relD_eq [OF rel_second_factor e])
    let ?m = "andThen (recordLoginAttempt (x_W X) (x_cfg X) ip account now False) (\<lambda>_. fail ErrInvalidSecondFactor)"
    have "R s1 (snd (?m s1))" by (intro relD rel_andThen rel_record rel_fail)
    with 1 trans refl show ?thesis unfolding login_second_factor_def e by (auto split: sum.split)
  qed
  then show ?thesis by (simp add: rel_def)
qed

lemma rel_reauth_checked: "rel (reauth_checked X t c i p)"
proof -
  have "R s (snd (reauth_checked X t c i p s))" for s
  proof -
    obtain b s1 where e: "admitPasswordComputation (x_cfg X) (in_now t (c + 1)) (''user:'' @ i) s = (b, s1)" by fastforce
    have 1: "R s s1" by (rule admit_related [OF e])
    let ?m = "\<lambda>ok g. andThen (reauth_record X (reauth_key i) (in_now t c) ok) (\<lambda>_. g :: ('p, user) handler)"
    have 2: "R s' (snd (?m ok (fail err) s'))" and 3: "R s' (snd (?m ok (ret u) s'))" for s' ok err u
      by (intro relD rel_andThen rel_reauth_record rel_fail rel_ret)+
    show ?thesis using 1 2 3 trans unfolding reauth_checked_def e
      by (cases b) (auto split: sum.split)
  qed
  then show ?thesis by (simp add: rel_def)
qed

lemma rel_verifyCurrent: "rel (verifyCurrentPasswordWithSlot X t c i p held)"
  unfolding verifyCurrentPasswordWithSlot_def
  by (rule rel_with_attempt) (auto intro: rel_andThen rel_reauth_record rel_reauth_checked rel_with_slot)

lemma rel_management_factors: "rel (management_factors X t c i p f)"
  unfolding management_factors_def verifyCurrentPassword_def
  by (auto intro!: rel_andThen rel_verifyCurrent rel_map_error rel_second_factor)

lemma rel_verifyManagement: "rel (verifyManagementFactors X t c i p f)"
proof -
  let ?k = "managementFactorKeyPrefix @ i"
  have "R s (snd ((\<lambda>s. case management_factors X t c i p f s of (r, s1) \<Rightarrow>
          (case reauth_record X ?k (in_now t c) (is_ok r) s1 of
             (Inl e, s2) \<Rightarrow> (Inl e, s2)
           | (Inr _, s2) \<Rightarrow> (case r of Inl e \<Rightarrow> (Inl e, s2)
               | Inr _ \<Rightarrow> (case UserByID i (a_store s2) of
                   Inl e \<Rightarrow> (Inl (StoreError e), s2) | Inr u \<Rightarrow> (Inr u, s2))))) s))" for s
  proof -
    obtain r s1 where e1: "management_factors X t c i p f s = (r, s1)" by fastforce
    obtain q s2 where e2: "reauth_record X ?k (in_now t c) (is_ok r) s1 = (q, s2)" by fastforce
    have "R s s2" using relD_eq [OF rel_management_factors e1] relD_eq [OF rel_reauth_record e2] trans by blast
    then show ?thesis by (auto simp: e1 e2 split: sum.split)
  qed
  then have "rel (\<lambda>s. case management_factors X t c i p f s of (r, s1) \<Rightarrow>
          (case reauth_record X ?k (in_now t c) (is_ok r) s1 of
             (Inl e, s2) \<Rightarrow> (Inl e, s2)
           | (Inr _, s2) \<Rightarrow> (case r of Inl e \<Rightarrow> (Inl e, s2)
               | Inr _ \<Rightarrow> (case UserByID i (a_store s2) of
                   Inl e \<Rightarrow> (Inl (StoreError e), s2) | Inr u \<Rightarrow> (Inr u, s2)))))" unfolding rel_def by blast
  then show ?thesis unfolding verifyManagementFactors_def Let_def by (rule rel_with_attempt)
qed

end

section \<open>The management handlers\<close>

lemma epoch_ok_32: "epoch_ok t \<Longrightarrow> e \<in> opt_epoch (in_epoch t) \<Longrightarrow> length e = 32"
  by (auto simp: epoch_ok_def opt_epoch_def length_hex_encode split: option.splits)

context service_relation
begin

lemma rel_plain: "(\<And>s. R s (snd (m s))) \<Longrightarrow> rel m"
  by (simp add: rel_def)

lemma rel_StartTOTP: "rel (StartTOTPEnrollment X t i p)"
  unfolding StartTOTPEnrollment_def verifyCurrentPassword_def
  by (intro rel_andThen rel_verifyCurrent rel_plain)
     (auto simp: Let_def refl prune_step enroll_step split: option.split sum.split)

lemma rel_enable_enrolled: "epoch_ok t \<Longrightarrow> rel (enable_enrolled X t i pend step)"
proof -
  assume t: "epoch_ok t"
  have "rel (on_store (x_W X) (EnableUserTOTP (in_epoch t) i ep v sec now st hs))" for ep v sec now st hs
    by (rule rel_on_store [where rq = "REnableTOTP (in_epoch t) _ _ _ _ _ _ _"])
       (use t in \<open>auto simp: request_ok_def epoch_ok_32\<close>)
  then show ?thesis
    by (auto simp: enable_enrolled_def split: option.split intro!: rel_andThen rel_map_error)
qed

lemma rel_ConfirmTOTP:
  assumes "epoch_ok t" shows "rel (ConfirmTOTPEnrollment X t i e c)"
proof (rule rel_plain)
  fix s
  have "R s (snd (enable_enrolled X t i pend step (drop_enrollment i s)))" for pend step
    by (rule trans [OF drop_step relD [OF rel_enable_enrolled [OF assms]]])
  then show "R s (snd (ConfirmTOTPEnrollment X t i e c s))"
    by (auto simp: ConfirmTOTPEnrollment_def refl drop_step split: option.split)
qed

lemma rel_Regenerate: "epoch_ok t \<Longrightarrow> rel (RegenerateRecoveryCodes X t i p f)"
proof -
  assume t: "epoch_ok t"
  have "rel (on_store (x_W X) (ReplaceUserRecoveryCodes (in_epoch t) i hs now))" for hs now
    by (rule rel_on_store [where rq = "RRecoveryCodes (in_epoch t) _ _ _"])
       (use t in \<open>auto simp: request_ok_def epoch_ok_32\<close>)
  then show ?thesis
    by (auto simp: RegenerateRecoveryCodes_def split: option.split intro!: rel_andThen rel_verifyManagement)
qed

lemma rel_DisableTOTP: "epoch_ok t \<Longrightarrow> rel (DisableTOTP X t i p f)"
proof -
  assume t: "epoch_ok t"
  have "rel (on_store (x_W X) (DisableUserTOTP (in_epoch t) i now))" for now
    by (rule rel_on_store [where rq = "RDisableTOTP (in_epoch t) _ _"])
       (use t in \<open>auto simp: request_ok_def epoch_ok_32\<close>)
  then show ?thesis
    by (auto simp: DisableTOTP_def intro!: rel_andThen rel_verifyManagement rel_map_error)
qed

lemma rel_ChangePassword: "epoch_ok t \<Longrightarrow> rel (ChangePassword X t i p q)"
proof -
  assume t: "epoch_ok t"
  have "rel (on_store (x_W X) (ReplaceUserPassword (in_epoch t) j h n now))" for j h n now
    by (rule rel_on_store [where rq = "RPassword (in_epoch t) _ _ _ _"])
       (use t in \<open>auto simp: request_ok_def epoch_ok_32\<close>)
  then show ?thesis
    by (auto simp: ChangePassword_def split: option.split
        intro!: rel_with_slot rel_andThen rel_verifyCurrent rel_map_error)
qed

lemma rel_ChangeUsername: "epoch_ok t \<Longrightarrow> rel (ChangeUsername X t i p n)"
proof -
  assume t: "epoch_ok t"
  have "rel (on_store (x_W X) (ReplaceUserUsername (x_G X) (in_epoch t) j h n now))" for j h n now
    by (rule rel_on_store [where rq = "RUsername (in_epoch t) _ _ _ _"])
       (use t in \<open>auto simp: request_ok_def epoch_ok_32\<close>)
  then show ?thesis
    by (auto simp: ChangeUsername_def split: option.split
        intro!: rel_with_slot rel_andThen rel_verifyCurrent rel_map_error)
qed

lemma rel_RecoverPassword:
  assumes "epoch_ok t" shows "rel (RecoverPassword X t io1 io2 i q d)"
proof -
  have step: "R s (s\<lparr>a_store := snd (RecoverUserPassword (x_W X) io1 io2 (in_epoch t) inp (a_store s))\<rparr>)" for s inp
    using store_step [of "RRecover io1 io2 (in_epoch t) inp" s] assms by (simp add: request_ok_def epoch_ok_32)
  have "R s (snd (recover_account X t io1 io2 i d s))" for s
  proof -
    have "R s (s\<lparr>a_store := st\<rparr>)" if "RecoverUserPassword (x_W X) io1 io2 (in_epoch t) inp (a_store s) = (r, st)" for r st inp
      using step [of s inp] that by simp
    then show ?thesis
      by (auto simp: recover_account_def refl split: option.split sum.split prod.split)
  qed
  then have "rel (recover_account X t io1 io2 i d)" by (rule rel_plain)
  then show ?thesis by (auto simp: RecoverPassword_def split: option.split intro: rel_with_slot)
qed

lemma rel_Ensure: "rel (EnsureBootstrapToken io rnd)"
  by (intro rel_plain)
     (auto simp: EnsureBootstrapToken_def drop_token_def Let_def refl bootstrap_step
       split: option.split sum.split open_outcome.split)

lemma rel_Logout: "rel (Logout X token)"
proof (rule rel_plain)
  fix s
  have "R s (s\<lparr>a_store := snd (DeleteSession (x_W X) h (a_store s))\<rparr>)" for h
    using store_step [of "RDeleteSession h" s] by (simp add: request_ok_def)
  then have "R s (s\<lparr>a_store := st\<rparr>)" if "DeleteSession (x_W X) h (a_store s) = (r, st)" for h r st
    using that by (metis snd_conv)
  then show "R s (snd (Logout X token s))" by (auto simp: Logout_def refl split: prod.split sum.split)
qed

lemma rel_Boundary: "rel m \<Longrightarrow> rel (ChangeTransportBoundary X m)"
proof -
  have "rel (on_store (x_W X) RevokeAllSessions)"
    by (rule rel_on_store [where rq = RRevokeAll]) (simp_all add: request_ok_def)
  then show "rel m \<Longrightarrow> ?thesis" by (simp add: ChangeTransportBoundary_def rel_andThen)
qed

lemmas handlers_related = rel_Ensure rel_Logout rel_Boundary rel_StartTOTP rel_ConfirmTOTP
  rel_Regenerate rel_DisableTOTP rel_ChangePassword rel_ChangeUsername rel_RecoverPassword

text \<open>Every call but a login and the bootstrap.\<close>

theorem serve_related_plain: "call_ok c \<Longrightarrow> \<not> signs_in c \<Longrightarrow> R s (snd (serve X c s))"
  by (cases c) (auto intro!: relD rel_void handlers_related)

end

section \<open>The calls that sign in\<close>

locale session_relation = service_relation X V R
  for X :: "'p auth_env" and V :: "'p panel_checks" and R :: "'p auth \<Rightarrow> 'p auth \<Rightarrow> bool" +
  assumes session_step: "opens_session rq \<Longrightarrow> R s (s\<lparr>a_store := snd (exec (x_G X) V (x_W X) rq (a_store s))\<rparr>)"
begin

lemma rel_on_store_session:
  assumes "opens_session rq" and "\<And>st. exec (x_G X) V (x_W X) rq st = mutate (x_W X) b st"
  shows "rel (on_store (x_W X) b)"
proof -
  have "snd (on_store (x_W X) b s) = s\<lparr>a_store := snd (exec (x_G X) V (x_W X) rq (a_store s))\<rparr>" for s
    by (auto simp: on_store_def assms(2) split: prod.split sum.split)
  with session_step [OF assms(1)] show ?thesis by (simp add: rel_def)
qed

lemma rel_createSession: "rel (createSession X t r c u)"
proof -
  have "rel (on_store (x_W X) (PutSession w x))" for w x
    by (rule rel_on_store_session [where rq = "RPutSession _ _"]) simp_all
  then show ?thesis by (auto simp: createSession_def split: sum.split intro: rel_andThen)
qed

lemma rel_login_finish: "rel (login_finish X t ip account now u)"
proof -
  have "rel (on_store (x_W X) (PutLoginSession (x_G X) w u x as since))" for w x as since
    by (rule rel_on_store_session [where rq = "RLoginSession _ _ _ _ _"]) simp_all
  then show ?thesis by (auto simp: login_finish_def split: sum.split intro: rel_andThen)
qed

lemma rel_login_checked: "rel (login_checked X t ip account now n p f)"
proof -
  have "R s (snd (login_checked X t ip account now n p f s))" for s
  proof -
    obtain b s1 where e: "admitPasswordComputation (x_cfg X) (in_now t 1) ip s = (b, s1)" by fastforce
    have 1: "R s s1" by (rule admit_related [OF e])
    let ?m1 = "andThen (recordLoginAttempt (x_W X) (x_cfg X) ip account now False)
      (\<lambda>_. fail ErrInvalidCredentials :: ('p, credentials) handler)"
    let ?m2 = "\<lambda>u. andThen (login_second_factor X ip account now u f) (\<lambda>_. login_finish X t ip account now u)"
    have "R s1 (snd (?m1 s1))" by (intro relD rel_andThen rel_record rel_fail)
    moreover have "R s1 (snd (?m2 u s1))" for u
      by (intro relD rel_andThen rel_login_second_factor rel_login_finish)
    ultimately show ?thesis using 1 trans unfolding login_checked_def Let_def e
      by (cases b) (auto split: option.split)
  qed
  then show ?thesis by (simp add: rel_def)
qed

lemma rel_Login: "rel (Login X t ip n p f)"
proof -
  have "R s (snd (Login X t ip n p f s))" for s
  proof -
    let ?ip = "fst (loginKeys (x_G X) ip n)" and ?ac = "snd (loginKeys (x_G X) ip n)"
    obtain r s1 where e: "with_slot (x_cfg X) (login_checked X t ?ip ?ac (in_now t 0) n p f) (inc_pending ?ac (inc_pending ?ip s)) = (r, s1)"
      by fastforce
    have "R (inc_pending ?ac (inc_pending ?ip s)) s1"
      by (rule relD_eq [OF rel_with_slot [OF rel_login_checked] e])
    with login_bracket e show ?thesis
      by (auto simp: Login_def Let_def reserveLogin_def releaseLogin_def refl)
  qed
  then show ?thesis by (simp add: rel_def)
qed

lemma rel_Bootstrap: "rel (Bootstrap X t token n p)"
proof -
  have b: "R s (consumeBootstrapToken x y s)" for x y s
    by (simp add: consumeBootstrapToken_def refl bootstrap_step)
  have "rel (\<lambda>s. createSession X t 1 1 u (consumeBootstrapToken x y s))" for u x y
  proof (rule rel_plain)
    fix s
    show "R s (snd (createSession X t 1 1 u (consumeBootstrapToken x y s)))"
      by (rule trans [OF b relD [OF rel_createSession]])
  qed
  moreover have "rel (on_store (x_W X) (CreateInitialAdmin (x_G X) (bootstrap_user i n h now)))" for i h now
    by (rule rel_on_store [where rq = "RCreateAdmin _"])
       (simp_all add: request_ok_def bootstrap_user_def zero_user_def validCredentialEpoch_def)
  ultimately have "rel (bootstrap_account X t n)"
    by (auto simp: bootstrap_account_def Let_def split: option.split sum.split intro!: rel_andThen rel_map_error)
  from rel_with_slot [OF this] show ?thesis
    by (intro rel_plain) (auto simp: Bootstrap_def refl relD split: option.split)
qed

theorem serve_related: "call_ok c \<Longrightarrow> R s (snd (serve X c s))"
  by (cases c) (auto intro!: relD rel_void handlers_related rel_Bootstrap rel_Login)

theorem serve_all_related: "(\<And>c. c \<in> set cs \<Longrightarrow> call_ok c) \<Longrightarrow> R s (serve_all X cs s)"
proof (induction cs arbitrary: s)
  case Nil
  then show ?case by (simp add: serve_all_def refl)
next
  case (Cons c cs)
  have "R s (snd (serve X c s))" using Cons.prems by (intro serve_related) simp
  moreover have "R (snd (serve X c s)) (serve_all X cs (snd (serve X c s)))"
    using Cons.prems by (intro Cons.IH) simp
  ultimately show ?case using trans by (simp add: serve_all_def)
qed

end

end
