(* ===== verification/ServiceProps.thy ===== *)
theory ServiceProps
  imports ServiceCalls
begin

text \<open>
  What every call to the auth service keeps: the reservations it made are given back, its tables
  stay within their bounds, and on the store it does no more than a sequence of store requests,
  so that what holds of all runs of requests holds behind the service.
\<close>

section \<open>Reservations\<close>

definition balanced :: "'p auth \<Rightarrow> 'p auth \<Rightarrow> bool" where
  "balanced s s' = (a_hashSlots s' = a_hashSlots s \<and> (\<forall>k. pending_of k s' = pending_of k s))"

lemma admit_fields:
  "admitPasswordComputation cfg now key s = (b, s') \<Longrightarrow>
    a_hashSlots s' = a_hashSlots s \<and> a_pending s' = a_pending s \<and> a_store s' = a_store s \<and>
    a_enrollments s' = a_enrollments s \<and> a_bootstrap s' = a_bootstrap s"
  by (auto simp: admitPasswordComputation_def Let_def split: option.splits if_splits)

lemma pending_inc: "pending_of k (inc_pending j s) = (if k = j then Suc (pending_of k s) else pending_of k s)"
  by (simp add: inc_pending_def pending_of_def alist_nat_def)

lemma pending_dec: "pending_of k (dec_pending j s) = (if k = j then pending_of k s - 1 else pending_of k s)"
  by (simp add: dec_pending_def pending_of_def alist_nat_def)

lemma hashSlots_pending [simp]:
  "a_hashSlots (inc_pending k s) = a_hashSlots s" "a_hashSlots (dec_pending k s) = a_hashSlots s"
  by (simp_all add: inc_pending_def dec_pending_def)

lemma pending_of_upd [simp]:
  "pending_of k (s\<lparr>a_store := st\<rparr>) = pending_of k s" "pending_of k (s\<lparr>a_enrollments := e\<rparr>) = pending_of k s"
  "pending_of k (s\<lparr>a_bootstrap := b\<rparr>) = pending_of k s" "pending_of k (s\<lparr>a_hashSlots := n\<rparr>) = pending_of k s"
  by (simp_all add: pending_of_def)

interpretation balance: session_relation X V balanced for X :: "'p auth_env" and V :: "'p panel_checks"
proof
  fix now key s
  show "balanced s (snd (admitPasswordComputation (x_cfg X) now key s))"
    using admit_fields [of "x_cfg X" now key s] by (cases "admitPasswordComputation (x_cfg X) now key s")
      (auto simp: balanced_def pending_of_def)
qed (auto simp: balanced_def drop_enrollment_def pending_inc pending_dec split: if_splits)

text \<open>
  Whatever calls are served and however they end, every attempt reservation and every hash
  slot they took is given back.
\<close>

theorem service_releases_reservations:
  assumes "\<And>c. c \<in> set cs \<Longrightarrow> call_ok c"
  shows "a_hashSlots (serve_all X cs s) = a_hashSlots s \<and> pending_of k (serve_all X cs s) = pending_of k s"
  using balance.serve_all_related [OF assms, where X = X and s = s] by (simp add: balanced_def)

section \<open>Bounded tables\<close>

definition compute_limit :: "config \<Rightarrow> int" where "compute_limit cfg = max 2 (MaxLoginFailures cfg * 2)"

definition tables_ok :: "config \<Rightarrow> 'p auth \<Rightarrow> bool" where
  "tables_ok cfg s =
     (distinct (map fst (a_compute s)) \<and> length (a_compute s) \<le> maxComputeSources \<and>
      (\<forall>p\<in>set (a_compute s). 0 < cb_used (snd p) \<and> cb_used (snd p) \<le> compute_limit cfg) \<and>
      distinct (map fst (a_enrollments s)) \<and> length (a_enrollments s) \<le> maxPendingEnrollments \<and>
      int (a_hashSlots s) \<le> MaxConcurrentHashes cfg)"

lemma length_alist_put: "length (alist_put k v m) = (if k \<in> fst ` set m then length m else Suc (length m))"
  by (induction k v m rule: alist_put.induct) auto

lemma admit_tables:
  assumes "tables_ok cfg s" shows "tables_ok cfg (snd (admitPasswordComputation cfg now key s))"
proof -
  define kept where "kept = filter (\<lambda>p. now < cb_start (snd p) + LoginWindow cfg) (a_compute s)"
  have d: "distinct (map fst kept)" and l: "length kept \<le> maxComputeSources"
    and b: "\<forall>p\<in>set kept. 0 < cb_used (snd p) \<and> cb_used (snd p) \<le> compute_limit cfg"
    using assms le_trans [OF length_filter_le] by (auto simp: tables_ok_def kept_def distinct_map_filter)
  have put: "tables_ok cfg (s\<lparr>a_compute := alist_put key v kept\<rparr>)"
    if "0 < cb_used v" "cb_used v \<le> compute_limit cfg" "key \<in> fst ` set kept \<or> length kept < maxComputeSources" for v
  proof -
    have "0 < cb_used (snd p) \<and> cb_used (snd p) \<le> compute_limit cfg" if "p \<in> set (alist_put key v kept)" for p
      using set_alist_put [of key v kept] that b \<open>0 < cb_used v\<close> \<open>cb_used v \<le> compute_limit cfg\<close> by auto
    moreover have "length (alist_put key v kept) \<le> maxComputeSources"
      using that(3) l by (auto simp: length_alist_put)
    ultimately show ?thesis using assms d by (simp add: tables_ok_def distinct_alist_put)
  qed
  have same: "tables_ok cfg (s\<lparr>a_compute := kept\<rparr>)"
    using assms d l b by (simp add: tables_ok_def)
  have lim: "2 \<le> compute_limit cfg" by (simp add: compute_limit_def)
  show ?thesis
  proof (cases "map_of kept key")
    case None
    with same put [of "\<lparr>cb_start = now, cb_used = 1\<rparr>"] lim show ?thesis
      by (auto simp: admitPasswordComputation_def Let_def simp flip: kept_def)
  next
    case (Some v)
    then have "(key, v) \<in> set kept" by (rule map_of_SomeD)
    with Some same put [of "v\<lparr>cb_used := cb_used v + 1\<rparr>"] b show ?thesis
      by (force simp: admitPasswordComputation_def Let_def compute_limit_def simp flip: kept_def)
  qed
qed

lemma live_enrollments_le: "length (live_enrollments now i m) \<le> length m"
  and live_enrollments_distinct: "distinct (map fst m) \<Longrightarrow> distinct (map fst (live_enrollments now i m))"
  by (simp_all add: live_enrollments_def distinct_map_filter)

lemma tables_ok_pending [simp]:
  "tables_ok cfg (inc_pending k s) = tables_ok cfg s" "tables_ok cfg (dec_pending k s) = tables_ok cfg s"
  by (simp_all add: tables_ok_def inc_pending_def dec_pending_def)

interpretation tables: session_relation X V "\<lambda>s s'. tables_ok (x_cfg X) s \<longrightarrow> tables_ok (x_cfg X) s'"
  for X :: "'p auth_env" and V :: "'p panel_checks"
proof
  fix i and s :: "'p auth"
  show "tables_ok (x_cfg X) s \<longrightarrow> tables_ok (x_cfg X) (drop_enrollment i s)"
    using le_trans [OF length_filter_le] by (auto simp: tables_ok_def drop_enrollment_def alist_del_def distinct_map_filter)
next
  fix now i and s :: "'p auth"
  show "tables_ok (x_cfg X) s \<longrightarrow>
      tables_ok (x_cfg X) (s\<lparr>a_enrollments := live_enrollments now i (a_enrollments s)\<rparr>)"
    using le_trans [OF live_enrollments_le] by (auto simp: tables_ok_def live_enrollments_distinct)
next
  fix now i e and s :: "'p auth"
  assume "length (live_enrollments now i (a_enrollments s)) < maxPendingEnrollments"
  then show "tables_ok (x_cfg X) s \<longrightarrow>
      tables_ok (x_cfg X) (s\<lparr>a_enrollments := alist_put i e (live_enrollments now i (a_enrollments s))\<rparr>)"
    by (auto simp: tables_ok_def live_enrollments_distinct distinct_alist_put length_alist_put)
qed (auto simp: admit_tables, auto simp: tables_ok_def)

text \<open>
  The password work table never exceeds 4096 sources, no source exceeds its budget, at most
  eight enrollments are pending and the hash slots in use never exceed the configured number,
  after any calls.
\<close>

theorem service_tables_bounded:
  assumes "\<And>c. c \<in> set cs \<Longrightarrow> call_ok c" and "tables_ok (x_cfg X) s"
  shows "tables_ok (x_cfg X) (serve_all X cs s)"
  using tables.serve_all_related [OF assms(1), where X = X and s = s] assms(2) by simp

section \<open>The store behind the service\<close>

definition store_runs :: "'p auth_env \<Rightarrow> 'p panel_checks \<Rightarrow> 'p auth \<Rightarrow> 'p auth \<Rightarrow> bool" where
  "store_runs X V s s' =
     (\<exists>rqs. (\<forall>rq\<in>set rqs. request_ok rq) \<and> a_store s' = run (x_G X) V (x_W X) rqs (a_store s))"

lemma store_runs_same: "a_store s' = a_store s \<Longrightarrow> store_runs X V s s'"
  unfolding store_runs_def by (rule exI [of _ "[]"]) simp

lemma store_runs_step:
  "request_ok rq \<Longrightarrow> store_runs X V s (s\<lparr>a_store := snd (exec (x_G X) V (x_W X) rq (a_store s))\<rparr>)"
  unfolding store_runs_def by (rule exI [of _ "[rq]"]) (simp add: run_def)

lemma store_runs_trans: "store_runs X V s t \<Longrightarrow> store_runs X V t u \<Longrightarrow> store_runs X V s u"
proof -
  assume "store_runs X V s t" "store_runs X V t u"
  then obtain p q where "\<forall>rq\<in>set p. request_ok rq" "a_store t = run (x_G X) V (x_W X) p (a_store s)"
    "\<forall>rq\<in>set q. request_ok rq" "a_store u = run (x_G X) V (x_W X) q (a_store t)"
    by (auto simp: store_runs_def)
  then show ?thesis unfolding store_runs_def by (intro exI [of _ "p @ q"]) (auto simp: run_def)
qed

lemma store_runs_frame:
  "a_store s = a_store s' \<Longrightarrow> a_store t = a_store t' \<Longrightarrow> store_runs X V s t = store_runs X V s' t'"
  by (simp add: store_runs_def)

lemma opens_session_ok: "opens_session rq \<Longrightarrow> request_ok rq"
  by (cases rq) (simp_all add: request_ok_def)

lemma a_store_pending [simp]: "a_store (inc_pending k s) = a_store s" "a_store (dec_pending k s) = a_store s"
  by (simp_all add: inc_pending_def dec_pending_def)

interpretation runs: session_relation X V "store_runs X V" for X :: "'p auth_env" and V :: "'p panel_checks"
proof
  fix now key s
  show "store_runs X V s (snd (admitPasswordComputation (x_cfg X) now key s))"
    using admit_fields [of "x_cfg X" now key s] by (cases "admitPasswordComputation (x_cfg X) now key s")
      (auto intro: store_runs_same)
next
  fix s t u
  assume "store_runs X V s t" "store_runs X V t u"
  then show "store_runs X V s u" by (rule store_runs_trans)
next
  fix s s' :: "'p auth"
  assume "store_runs X V (s\<lparr>a_hashSlots := Suc (a_hashSlots s)\<rparr>) s'"
  then show "store_runs X V s (s'\<lparr>a_hashSlots := a_hashSlots s' - 1\<rparr>)" by (simp add: store_runs_def)
next
  fix k and s s' :: "'p auth"
  assume "store_runs X V (inc_pending k s) s'"
  then show "store_runs X V s (dec_pending k s')" by (simp add: store_runs_def)
next
  fix a i and s s' :: "'p auth"
  assume "store_runs X V (inc_pending a (inc_pending i s)) s'"
  then show "store_runs X V s (dec_pending a (dec_pending i s'))" by (simp add: store_runs_def)
qed (simp_all add: store_runs_step store_runs_same opens_session_ok drop_enrollment_def)

text \<open>
  Any sequence of service calls acts on the store as a sequence of store requests; opening
  the files on disk afterwards gives back the state in memory.
\<close>

theorem service_restart_restores:
  assumes "\<And>c. c \<in> set cs \<Longrightarrow> call_ok c" and "\<And>n. io_rename (x_W X n)"
    and "store_ok (x_G X) V (st_data (a_store s))" and "target_synced (a_store s)"
  shows "Open (x_G X) V W' io True True pd (boot_of (st_files (a_store (serve_all X cs s)))) (Some l) =
    Inr (new_store (st_data (a_store (serve_all X cs s)))
      \<lparr>f_target = Some (st_data (a_store (serve_all X cs s))), f_previous = None\<rparr> l)"
proof -
  obtain rqs where rqs: "\<forall>rq\<in>set rqs. request_ok rq"
      "a_store (serve_all X cs s) = run (x_G X) V (x_W X) rqs (a_store s)"
    using runs.serve_all_related [OF assms(1), where X = X and V = V and s = s] by (auto simp: store_runs_def)
  show ?thesis unfolding rqs(2)
    by (intro reopen run_store_ok run_target_synced) (simp_all add: assms rqs(1))
qed


section \<open>Only a sign-in opens a session\<close>

lemma advance_and_revoke_sessions:
  "advance_and_revoke rnd k f i d = Inr (r, d') \<Longrightarrow> set (d_Sessions d') \<subseteq> set (d_Sessions d)"
  by (auto simp: advance_and_revoke_def advance_user_def revokeUserSessionsLocked_def split: sum.splits)

lemma with_user_sessions:
  assumes "with_user i f d = Inr r" and "\<And>k u. f k u d = Inr r \<Longrightarrow> P"
  shows P
  using assms by (auto simp: with_user_def split: option.splits)

lemmas account_bodies = ReplaceUserAvatar_def ReplaceUserPassword_def ReplaceUserUsername_def EnableUserTOTP_def
  ConsumeUserTOTPStep_def ConsumeUserRecoveryCode_def ReplaceUserRecoveryCodes_def DisableUserTOTP_def

definition sessions_shrink :: "('p, 'a) body \<Rightarrow> bool" where
  "sessions_shrink b = (\<forall>d r d'. b d = Inr (r, d') \<longrightarrow> set (d_Sessions d') \<subseteq> set (d_Sessions d))"

lemma shrink_with_user:
  "(\<And>k u. sessions_shrink (f k u)) \<Longrightarrow> sessions_shrink (with_user i f)"
  unfolding sessions_shrink_def with_user_def by (auto split: option.splits)

lemma shrink_advance [intro]: "sessions_shrink (advance_and_revoke rnd k f i)"
  unfolding sessions_shrink_def using advance_and_revoke_sessions by blast

lemma shrink_Inl: "sessions_shrink (\<lambda>d. Inl e)"
  by (simp add: sessions_shrink_def)

lemma shrink_if: "sessions_shrink b \<Longrightarrow> sessions_shrink (\<lambda>d. if P d then Inl e else b d)"
  by (auto simp: sessions_shrink_def)

lemma shrink_keep: "(\<And>d r d'. b d = Inr (r, d') \<Longrightarrow> d_Sessions d' = d_Sessions d) \<Longrightarrow> sessions_shrink b"
  by (auto simp: sessions_shrink_def)

lemma account_shrink:
  "sessions_shrink (ReplaceUserPassword r i e n t)" "sessions_shrink (ReplaceUserUsername G r i e n t)"
  "sessions_shrink (EnableUserTOTP r i ep v sec t st hs)" "sessions_shrink (ReplaceUserRecoveryCodes r i hs t)"
  "sessions_shrink (DisableUserTOTP r i t)"
  by (auto simp: account_bodies intro!: shrink_with_user shrink_if shrink_advance)

lemma factor_shrink:
  "sessions_shrink (ConsumeUserTOTPStep G i sec st t)" "sessions_shrink (ConsumeUserRecoveryCode i h t)"
  "sessions_shrink (ReplaceUserAvatar i a t)"
  by (rule shrink_keep; auto simp: account_bodies with_user_def split: option.splits if_splits)+

lemma cell_shrink:
  "sessions_shrink (CreateInitialAdmin G u)" "sessions_shrink (RecordLoginAttempts as t)"
  "sessions_shrink (ReplaceSecurityEntrance G e v)" "sessions_shrink (ReplaceClusterShare G e w)"
  "sessions_shrink (ReplaceClusterHostOrder G e ids)" "sessions_shrink (ReplacePasskeyOrigin G e x)"
  "sessions_shrink (forget (CreateFileShare G fs e t))" "sessions_shrink (forget (DeleteFileShare i))"
  by (rule shrink_keep; force simp: CreateInitialAdmin_def RecordLoginAttempts_def recordLoginAttemptsLocked_def
      ReplaceSecurityEntrance_Inr ReplaceClusterShare_Inr ReplaceClusterHostOrder_Inr ReplacePasskeyOrigin_Inr forget_def
      CreateFileShare_def DeleteFileShare_def Let_def split: option.splits sum.splits if_splits prod.splits)+

lemma revoking_shrink:
  "sessions_shrink RevokeAllSessions" "sessions_shrink (delete_session h)" "sessions_shrink (recover_body r inp)"
  "sessions_shrink (ReplaceUserPasskeys G r u vs h t)" "sessions_shrink (DisablePasskeys G rs u o' h t)"
  "sessions_shrink (RestoreIdentity V rs incoming)"
  by (auto simp: sessions_shrink_def RevokeAllSessions_def delete_session_def recover_body_def with_user_def advance_user_def
      ReplaceUserPasskeys_def DisablePasskeys_def RestoreIdentity_def revokeUserSessionsLocked_def Let_def
      split: option.splits sum.splits if_splits)

lemma exec_sessions:
  assumes "\<not> opens_session rq"
  shows "set (d_Sessions (st_data (snd (exec G V W rq s)))) \<subseteq> set (d_Sessions (st_data s))"
proof -
  have b: "sessions_shrink (request_body G V rq)"
    using assms by (cases rq) (simp_all add: account_shrink factor_shrink cell_shrink revoking_shrink sessions_shrink_def [of "\<lambda>d. Inr ((), d)"])
  obtain r s' where e: "exec G V W rq s = (r, s')" by fastforce
  from exec_frame [OF e] b e show ?thesis by (cases r) (auto simp: sessions_shrink_def)
qed

definition sessions_from :: "'p auth \<Rightarrow> 'p auth \<Rightarrow> bool" where
  "sessions_from s s' = (set (d_Sessions (st_data (a_store s'))) \<subseteq> set (d_Sessions (st_data (a_store s))))"

interpretation signed: service_relation X V sessions_from for X :: "'p auth_env" and V :: "'p panel_checks"
proof
  fix now key s
  show "sessions_from s (snd (admitPasswordComputation (x_cfg X) now key s))"
    using admit_fields [of "x_cfg X" now key s] by (cases "admitPasswordComputation (x_cfg X) now key s")
      (auto simp: sessions_from_def)
qed (auto simp: sessions_from_def drop_enrollment_def exec_sessions [THEN subsetD])

text \<open>
  A token that no live session had before a call authenticates after it only if the call is
  a login or the bootstrap.
\<close>

theorem only_sign_in_opens_session:
  assumes "call_ok c" and "Authenticate G now token (snd (serve X c s)) = Inr x"
    and "\<And>y. y \<in> set (d_Sessions (st_data (a_store s))) \<Longrightarrow> s_TokenHash y = hashSecret G token \<Longrightarrow> s_ExpiresAt y \<le> now"
  shows "\<exists>t. (\<exists>b n p. c = CBootstrap t b n p) \<or> (\<exists>ip n p f. c = CLogin t ip n p f)"
proof (rule ccontr)
  assume n: "\<not> ?thesis"
  then have "\<not> signs_in c" by (cases c) auto
  from signed.serve_related_plain [OF assms(1) this, where X = X and s = s]
  have sub: "set (d_Sessions (st_data (a_store (snd (serve X c s))))) \<subseteq> set (d_Sessions (st_data (a_store s)))"
    by (simp add: sessions_from_def)
  from assms(2) obtain y where "session_by_hash (hashSecret G token) now (d_Sessions (st_data (a_store (snd (serve X c s))))) = Some y"
    by (auto simp: Authenticate_def SessionByTokenHash_def split: if_splits option.splits)
  with session_by_hash_SomeD sub assms(3) show False by fastforce
qed

end
