(* ===== verification/LoginProps.thy ===== *)
theory LoginProps
  imports ServiceProps
begin

text \<open>
  What a successful login has established, and what its credentials are good for.
\<close>

section \<open>The steps of a successful login\<close>

lemma andThen_InrE:
  assumes "andThen m f s = (Inr b, s')"
  obtains a s1 where "m s = (Inr a, s1)" "f a s1 = (Inr b, s')"
  using assms by (auto simp: andThen_def split: prod.splits sum.splits)

lemma on_store_InrE:
  assumes "on_store W b s = (Inr a, s')"
  obtains st where "mutate W b (a_store s) = (Inr a, st)" "s' = s\<lparr>a_store := st\<rparr>"
  using assms by (auto simp: on_store_def split: prod.splits sum.splits)

lemma map_error_InrD: "map_error g m s = (Inr a, s') \<Longrightarrow> m s = (Inr a, s')"
  by (auto simp: map_error_def split: prod.splits sum.splits)

lemma ret_Inr [simp]: "ret a s = (Inr b, s') \<longleftrightarrow> b = a \<and> s' = s"
  and fail_Inr [simp]: "fail e s \<noteq> (Inr b, s')"
  by (auto simp: ret_def fail_def)

lemma with_slot_InrE:
  assumes "with_slot cfg m s = (Inr a, s')"
  obtains s1 where "m (s\<lparr>a_hashSlots := Suc (a_hashSlots s)\<rparr>) = (Inr a, s1)" "s' = s1\<lparr>a_hashSlots := a_hashSlots s1 - 1\<rparr>"
    "int (a_hashSlots s) < MaxConcurrentHashes cfg"
  using assms by (auto simp: with_slot_def split: if_splits prod.splits)

lemma login_checked_InrE:
  assumes "login_checked X t ip ac now n p f s = (Inr creds, s')"
  obtains u x s1 s2 where "UserByUsername n (a_store s) = Inr u" "0 < length p" "length p \<le> 256" "length n \<le> 64"
    "x_verify X p (u_PasswordHash u) = Some True" "a_store s1 = a_store s"
    "login_second_factor X ip ac now u f s1 = (Inr (), s2)" "newSession X t 0 2 u = Inr (creds, x)"
    "mutate (x_W X) (PutLoginSession (x_G X) (in_wall t) u x (login_attempts ip ac now True) (now - LoginWindow (x_cfg X)))
       (a_store s2) = (Inr (), a_store s')"
proof -
  obtain b s1 where a: "admitPasswordComputation (x_cfg X) (in_now t 1) ip s = (b, s1)" by fastforce
  have st: "a_store s1 = a_store s" using admit_fields [OF a] by simp
  from assms a obtain u where u: "UserByUsername n (a_store s) = Inr u" "0 < length p" "length p \<le> 256" "length n \<le> 64"
    "x_verify X p (u_PasswordHash u) = Some True"
    and r: "andThen (login_second_factor X ip ac now u f) (\<lambda>_. login_finish X t ip ac now u) s1 = (Inr creds, s')"
    by (fastforce simp: login_checked_def Let_def elim!: andThen_InrE split: bool.splits option.splits sum.splits if_splits)
  from r obtain s2 where sf: "login_second_factor X ip ac now u f s1 = (Inr (), s2)"
    and fin: "login_finish X t ip ac now u s2 = (Inr creds, s')" by (auto elim!: andThen_InrE)
  from fin obtain x where x: "newSession X t 0 2 u = Inr (creds, x)"
    "mutate (x_W X) (PutLoginSession (x_G X) (in_wall t) u x (login_attempts ip ac now True) (now - LoginWindow (x_cfg X)))
       (a_store s2) = (Inr (), a_store s')"
    by (auto simp: login_finish_def elim!: andThen_InrE on_store_InrE split: sum.splits)
  from that [OF u st sf x] show thesis .
qed

section \<open>The account after the second factor\<close>

lemma UserByID_index: "UserByID i s = Inr u \<longleftrightarrow> (\<exists>k. userIndexLocked i (st_data s) = Some k \<and> d_Users (st_data s) ! k = u)"
  by (auto simp: UserByID_def userIndexLocked_def find_index_of split: option.splits)

lemma UserByID_update:
  assumes "userIndexLocked i d = Some k" and "d_Users (st_data s) = (d_Users d)[k := w]" and "u_ID w = i"
  shows "UserByID i s = Inr w"
proof -
  have k: "k < length (d_Users d)" using userIndexLocked_SomeD [OF assms(1)] by simp
  have "index_of (\<lambda>u. u_ID u = i) ((d_Users d)[k := w]) = Some k"
    using assms(1,3) k by (simp add: userIndexLocked_def index_of_update)
  with k show ?thesis by (auto simp: UserByID_index userIndexLocked_def assms(2))
qed

text \<open>What a spent second factor changes of the account: one recovery code less, or a later step.\<close>

definition factor_spent :: "'p auth_env \<Rightarrow> string \<Rightarrow> gotime \<Rightarrow> user \<Rightarrow> user \<Rightarrow> bool" where
  "factor_spent X f now u v =
     (mset (u_TOTPRecoveryCodeHashes u) =
        add_mset (recoveryCodeHash (x_G X) (normalizeRecoveryCode (x_G X) (trim_space f))) (mset (u_TOTPRecoveryCodeHashes v)) \<or>
      (\<exists>secret. openTOTPSecret (x_K X) (x_key X) (u_TOTPSecret u) = Some secret \<and>
        matchTOTPStep (x_G X) (x_K X) secret (trim_space f) now = Some (u_TOTPLastUsedStep v) \<and>
        u_TOTPLastUsedStep u < u_TOTPLastUsedStep v))"

lemma second_factor_Inr:
  assumes v: "verifyAndConsumeSecondFactor X u f now s = (Inr (), s')"
    and u: "UserByID (u_ID u) (a_store s) = Inr u"
  shows "\<exists>v. UserByID (u_ID u) (a_store s') = Inr v \<and> factor_spent X f now u v \<and> publicUser v = publicUser u"
proof -
  let ?r = "normalizeRecoveryCode (x_G X) (trim_space f)"
  let ?d = "st_data (a_store s)"
  from u obtain k where k: "userIndexLocked (u_ID u) ?d = Some k" "d_Users ?d ! k = u"
    by (auto simp: UserByID_index)
  consider (code) "mutate (x_W X) (ConsumeUserRecoveryCode (u_ID u) (recoveryCodeHash (x_G X) ?r) now) (a_store s) = (Inr (), a_store s')"
    | (step) secret step where "openTOTPSecret (x_K X) (x_key X) (u_TOTPSecret u) = Some secret"
      "matchTOTPStep (x_G X) (x_K X) secret (trim_space f) now = Some step"
      "mutate (x_W X) (ConsumeUserTOTPStep (x_G X) (u_ID u) (u_TOTPSecret u) step now) (a_store s) = (Inr (), a_store s')"
    using v by (auto simp: verifyAndConsumeSecondFactor_def Let_def elim!: on_store_InrE split: if_splits option.splits)
  then show ?thesis
  proof cases
    case code
    from mutate_InrD [OF code]
    have "ConsumeUserRecoveryCode (u_ID u) (recoveryCodeHash (x_G X) ?r) now ?d = Inr ((), st_data (a_store s'))" by simp
    then obtain m where m: "last_index_of (\<lambda>c. c = recoveryCodeHash (x_G X) ?r) (u_TOTPRecoveryCodeHashes u) = Some m"
      and d: "d_Users (st_data (a_store s')) = (d_Users ?d)[k := u\<lparr>u_TOTPRecoveryCodeHashes :=
        remove_nth m (u_TOTPRecoveryCodeHashes u), u_UpdatedAt := now\<rparr>]"
      by (rule ConsumeUserRecoveryCode_Inr) (auto simp: k)
    from last_index_of_SomeD [OF m] mset_remove_nth [of m "u_TOTPRecoveryCodeHashes u"]
    have "mset (u_TOTPRecoveryCodeHashes u) =
        add_mset (recoveryCodeHash (x_G X) ?r) (mset (remove_nth m (u_TOTPRecoveryCodeHashes u)))" by simp
    with UserByID_update [OF k(1) d] show ?thesis by (auto simp: factor_spent_def publicUser_def)
  next
    case step
    from mutate_InrD [OF step(3)]
    have c: "ConsumeUserTOTPStep (x_G X) (u_ID u) (u_TOTPSecret u) step now ?d = Inr ((), st_data (a_store s'))" by simp
    have less: "u_TOTPLastUsedStep u < step"
      using c k by (auto simp: ConsumeUserTOTPStep_def with_user_def split: if_splits)
    from c obtain d: "d_Users (st_data (a_store s')) = (d_Users ?d)[k := u\<lparr>u_TOTPLastUsedStep := step, u_UpdatedAt := now\<rparr>]"
      by (rule ConsumeUserTOTPStep_Inr) (auto simp: k)
    with UserByID_update [OF k(1) d] step(1,2) less show ?thesis
      by (auto simp: factor_spent_def publicUser_def)
  qed
qed

lemma login_second_factor_Inr:
  assumes "login_second_factor X ip ac now u f s = (Inr (), s')" and "UserByID (u_ID u) (a_store s) = Inr u"
  shows "\<exists>v. UserByID (u_ID u) (a_store s') = Inr v \<and> publicUser v = publicUser u \<and>
    (if u_TOTPSecret u = [] then a_store s' = a_store s else factor_spent X f now u v)"
proof (cases "u_TOTPSecret u = []")
  case True
  with assms show ?thesis by (auto simp: login_second_factor_def)
next
  case False
  with assms(1) have "verifyAndConsumeSecondFactor X u f now s = (Inr (), s')"
    by (auto simp: login_second_factor_def elim!: andThen_InrE split: if_splits prod.splits sum.splits)
  from second_factor_Inr [OF this assms(2)] False show ?thesis by auto
qed

lemma UserByUsername_ID:
  assumes "UserByUsername n s = Inr u" and "distinct (map u_ID (d_Users (st_data s)))"
  shows "UserByID (u_ID u) s = Inr u"
proof -
  from assms(1) have "u \<in> set (d_Users (st_data s))"
    by (auto simp: UserByUsername_def split: option.splits dest: find_SomeD)
  with assms(2) find_distinct_key [of u "d_Users (st_data s)" u_ID] show ?thesis
    by (simp add: UserByID_def)
qed

section \<open>Logging in\<close>

lemma PutLoginSession_Inr:
  assumes "PutLoginSession G wall u x as since d = Inr (r, d')"
  obtains k where "userIndexLocked (u_ID u) d = Some k" "d_Users d' = d_Users d"
    "d_Sessions d' = put_session wall x (d_Sessions d)" "sameCredential G (d_Users d ! k) u"
  using assms by (auto simp: PutLoginSession_def recordLoginAttemptsLocked_def putSessionLocked_def
      split: option.splits sum.splits if_splits)

lemma find_skip: "(\<And>x. x \<in> set xs \<Longrightarrow> \<not> P x) \<Longrightarrow> List.find P (xs @ ys) = List.find P ys"
  by (induction xs) auto

lemma session_by_hash_put:
  "now < s_ExpiresAt x \<Longrightarrow> session_by_hash (s_TokenHash x) now (put_session wall x xs) = Some x"
proof -
  assume "now < s_ExpiresAt x"
  define ys where "ys = last_n (maxRetainedSessions - 1)
    (filter (\<lambda>item. s_TokenHash item \<noteq> s_TokenHash x \<and> wall < s_ExpiresAt item) xs)"
  have "s_TokenHash y \<noteq> s_TokenHash x" if "y \<in> set ys" for y
    using set_last_n [THEN subsetD, OF that [unfolded ys_def]] by simp
  then have "List.find (\<lambda>y. s_TokenHash y = s_TokenHash x \<and> now < s_ExpiresAt y) (ys @ [x]) =
      List.find (\<lambda>y. s_TokenHash y = s_TokenHash x \<and> now < s_ExpiresAt y) [x]"
    by (intro find_skip) blast
  then show ?thesis using \<open>now < s_ExpiresAt x\<close> unfolding session_by_hash_def put_session_snoc ys_def [symmetric] by simp
qed

lemma newSession_Inr:
  assumes "newSession X t r c u = Inr (creds, x)"
  shows "cr_User creds = publicUser u \<and> s_TokenHash x = hashSecret (x_G X) (cr_Token creds) \<and>
    s_CSRFHash x = hashSecret (x_G X) (cr_CSRFToken creds) \<and> s_UserID x = u_ID u \<and> s_ExpiresAt x = cr_ExpiresAt creds \<and>
    cr_ExpiresAt creds = in_now t c + SessionTTL (x_cfg X) \<and>
    (\<exists>v w. in_rnd t r = Some v \<and> in_rnd t (r + 1) = Some w \<and> cr_Token creds = b64_encode v \<and> cr_CSRFToken creds = b64_encode w)"
  using assms by (auto simp: newSession_def randomToken_def Let_def split: option.splits sum.splits)

lemma b64_encode_Nil_iff: "b64_encode v = [] \<longleftrightarrow> v = []" "[] = b64_encode v \<longleftrightarrow> v = []"
  using length_b64_encode [of v] by (cases v; force)+

definition login_limits :: "'p auth_env \<Rightarrow> string \<Rightarrow> string \<Rightarrow> gotime \<Rightarrow> 'p auth \<Rightarrow> bool" where
  "login_limits X ip ac since s =
     (int (FailedLoginCount ip since (a_store s) + pending_of ip s) < MaxLoginFailures (x_cfg X) \<and>
      int (FailedLoginCount ac since (a_store s) + pending_of ac s) < MaxLoginFailures (x_cfg X) * 10 \<and>
      hasAttemptRoomLocked 2 since s \<and> int (a_hashSlots s) < MaxConcurrentHashes (x_cfg X))"

lemma Login_InrE:
  assumes "Login X t ip n p f s = (Inr creds, s')"
  obtains keys s0 s1 where "keys = loginKeys (x_G X) ip n" "a_store s0 = a_store s" "a_store s1 = a_store s'"
    "login_limits X (fst keys) (snd keys) (in_now t 0 - LoginWindow (x_cfg X)) s"
    "login_checked X t (fst keys) (snd keys) (in_now t 0) n p f s0 = (Inr creds, s1)"
proof -
  let ?keys = "loginKeys (x_G X) ip n" and ?since = "in_now t 0 - LoginWindow (x_cfg X)"
  let ?s = "inc_pending (snd ?keys) (inc_pending (fst ?keys) s)"
  from assms have lim: "login_limits X (fst ?keys) (snd ?keys) ?since s"
    and slot: "\<exists>s2. with_slot (x_cfg X) (login_checked X t (fst ?keys) (snd ?keys) (in_now t 0) n p f) ?s = (Inr creds, s2) \<and>
      s' = releaseLogin (fst ?keys) (snd ?keys) s2"
    by (auto simp: Login_def Let_def reserveLogin_def login_limits_def accountFailureLimitMultiplier_def with_slot_def
        split: if_splits prod.splits)
  from slot obtain s2 where s2: "with_slot (x_cfg X) (login_checked X t (fst ?keys) (snd ?keys) (in_now t 0) n p f) ?s = (Inr creds, s2)"
      "s' = releaseLogin (fst ?keys) (snd ?keys) s2" by blast
  from s2(1) obtain s3 where "login_checked X t (fst ?keys) (snd ?keys) (in_now t 0) n p f (?s\<lparr>a_hashSlots := Suc (a_hashSlots ?s)\<rparr>) = (Inr creds, s3)"
      "s2 = s3\<lparr>a_hashSlots := a_hashSlots s3 - 1\<rparr>" by (rule with_slot_InrE)
  with that [of ?keys "?s\<lparr>a_hashSlots := Suc (a_hashSlots ?s)\<rparr>" s3] lim s2(2) show thesis
    by (simp add: releaseLogin_def)
qed

text \<open>
  C11: A successful login has verified the non-empty password against the stored hash of the
  named account, has spent a recovery code or a later authenticator step where the account has a
  second factor, and was within both failure limits, the room of the attempt table and the hash
  slots when it started.
\<close>

theorem login_sound:
  assumes "Login X t ip n p f s = (Inr creds, s')" and "distinct (map u_ID (d_Users (st_data (a_store s))))"
  shows "\<exists>u v. UserByUsername n (a_store s) = Inr u \<and> x_verify X p (u_PasswordHash u) = Some True \<and> p \<noteq> [] \<and>
    cr_User creds = publicUser u \<and> UserByID (u_ID u) (a_store s') = Inr v \<and>
    (u_TOTPSecret u \<noteq> [] \<longrightarrow> factor_spent X f (in_now t 0) u v) \<and>
    login_limits X (fst (loginKeys (x_G X) ip n)) (snd (loginKeys (x_G X) ip n)) (in_now t 0 - LoginWindow (x_cfg X)) s"
proof -
  from assms(1) obtain s0 s1 where st: "a_store s0 = a_store s" "a_store s1 = a_store s'"
    and lim: "login_limits X (fst (loginKeys (x_G X) ip n)) (snd (loginKeys (x_G X) ip n)) (in_now t 0 - LoginWindow (x_cfg X)) s"
    and chk: "login_checked X t (fst (loginKeys (x_G X) ip n)) (snd (loginKeys (x_G X) ip n)) (in_now t 0) n p f s0 = (Inr creds, s1)"
    by (rule Login_InrE) auto
  from chk obtain u x s2 s3 where u: "UserByUsername n (a_store s) = Inr u" "0 < length p"
      "x_verify X p (u_PasswordHash u) = Some True" "a_store s2 = a_store s"
    and sf: "login_second_factor X (fst (loginKeys (x_G X) ip n)) (snd (loginKeys (x_G X) ip n)) (in_now t 0) u f s2 = (Inr (), s3)"
    and x: "newSession X t 0 2 u = Inr (creds, x)"
    and put: "mutate (x_W X) (PutLoginSession (x_G X) (in_wall t) u x (login_attempts (fst (loginKeys (x_G X) ip n))
        (snd (loginKeys (x_G X) ip n)) (in_now t 0) True) (in_now t 0 - LoginWindow (x_cfg X))) (a_store s3) = (Inr (), a_store s')"
    by (rule login_checked_InrE) (auto simp: st)
  have "UserByID (u_ID u) (a_store s2) = Inr u" using UserByUsername_ID [OF u(1) assms(2)] u(4) by simp
  from login_second_factor_Inr [OF sf this] obtain v where v: "UserByID (u_ID u) (a_store s3) = Inr v"
      "u_TOTPSecret u \<noteq> [] \<longrightarrow> factor_spent X f (in_now t 0) u v" by auto
  from mutate_InrD [OF put] have "UserByID (u_ID u) (a_store s') = Inr v"
    using v(1) by (auto simp: UserByID_def elim!: PutLoginSession_Inr)
  with u v(2) lim newSession_Inr [OF x] show ?thesis by auto
qed

lemma login_authenticates:
  assumes login: "Login X t ip n p f s = (Inr creds, s')" and ids: "distinct (map u_ID (d_Users (st_data (a_store s))))"
    and rnd: "in_rnd t 0 \<noteq> Some []" "in_rnd t 1 \<noteq> Some []" and now: "now < cr_ExpiresAt creds"
  shows "\<exists>x. Authenticate (x_G X) now (cr_Token creds) s' = Inr x \<and> as_User x = cr_User creds \<and>
    as_ExpiresAt x = in_now t 2 + SessionTTL (x_cfg X) \<and> ValidateCSRF (x_G X) x (cr_CSRFToken creds) = None"
proof -
  from login obtain s0 s1 ip' ac where st: "a_store s0 = a_store s" "a_store s1 = a_store s'"
    and chk: "login_checked X t ip' ac (in_now t 0) n p f s0 = (Inr creds, s1)"
    by (rule Login_InrE) auto
  from chk obtain u x s2 s3 where u: "UserByUsername n (a_store s) = Inr u" "a_store s2 = a_store s"
    and sf: "login_second_factor X ip' ac (in_now t 0) u f s2 = (Inr (), s3)"
    and x: "newSession X t 0 2 u = Inr (creds, x)"
    and put: "mutate (x_W X) (PutLoginSession (x_G X) (in_wall t) u x (login_attempts ip' ac (in_now t 0) True)
        (in_now t 0 - LoginWindow (x_cfg X))) (a_store s3) = (Inr (), a_store s')"
    by (rule login_checked_InrE) (auto simp: st)
  have "UserByID (u_ID u) (a_store s2) = Inr u" using UserByUsername_ID [OF u(1) ids] u(2) by simp
  from login_second_factor_Inr [OF sf this] obtain v where v: "UserByID (u_ID u) (a_store s3) = Inr v"
      "publicUser v = publicUser u" by auto
  have x': "cr_User creds = publicUser u" "s_TokenHash x = hashSecret (x_G X) (cr_Token creds)"
      "s_CSRFHash x = hashSecret (x_G X) (cr_CSRFToken creds)" "s_UserID x = u_ID u" "s_ExpiresAt x = cr_ExpiresAt creds"
      "cr_ExpiresAt creds = in_now t 2 + SessionTTL (x_cfg X)" "cr_Token creds \<noteq> []" "cr_CSRFToken creds \<noteq> []"
    using newSession_Inr [OF x] rnd by (auto simp: b64_encode_Nil_iff)
  from mutate_InrD [OF put] have users: "UserByID (u_ID u) (a_store s') = Inr v"
    and sess: "d_Sessions (st_data (a_store s')) = put_session (in_wall t) x (d_Sessions (st_data (a_store s3)))"
    using v(1) by (auto simp: UserByID_def elim!: PutLoginSession_Inr)
  have "SessionByTokenHash (hashSecret (x_G X) (cr_Token creds)) now (a_store s') = Inr x"
    using session_by_hash_put [of now x] now x'(2,5) by (simp add: SessionByTokenHash_def sess)
  with users v(2) x' show ?thesis by (simp add: Authenticate_def ValidateCSRF_def secureEqual_def)
qed

text \<open>
  C12: The token a login returned authenticates as the same public account until it expires,
  which is the session lifetime after the login, and the CSRF token of the same login is
  accepted with it.
\<close>

theorem login_then_authenticate:
  assumes login: "Login X t ip n p f s = (Inr creds, s')" and ids: "distinct (map u_ID (d_Users (st_data (a_store s))))"
    and rnd: "in_rnd t 0 \<noteq> Some []" "in_rnd t 1 \<noteq> Some []" and now: "now < cr_ExpiresAt creds"
  shows "\<exists>x. Authenticate (x_G X) now (cr_Token creds) s' = Inr x \<and> as_User x = cr_User creds \<and>
    as_ExpiresAt x = in_now t 2 + SessionTTL (x_cfg X) \<and> ValidateCSRF (x_G X) x (cr_CSRFToken creds) = None"
  using assms by (rule login_authenticates)

section \<open>Changing the password\<close>

lemma reauth_record_Inr: "reauth_record X key now ok s = (Inr r, s') \<Longrightarrow>
    d_Users (st_data (a_store s')) = d_Users (st_data (a_store s))"
  by (auto simp: reauth_record_def RecordLoginAttempt_def RecordLoginAttempts_def recordLoginAttemptsLocked_def
      elim!: on_store_InrE dest!: mutate_InrD sym [of _ "st_data _"] split: sum.splits)

lemma reauth_checked_InrE:
  assumes "reauth_checked X t c i p s = (Inr u, s')"
  shows "UserByID i (a_store s) = Inr u \<and> x_verify X p (u_PasswordHash u) = Some True \<and>
    d_Users (st_data (a_store s')) = d_Users (st_data (a_store s))"
proof -
  obtain b s1 where a: "admitPasswordComputation (x_cfg X) (in_now t (c + 1)) (''user:'' @ i) s = (b, s1)" by fastforce
  from assms show ?thesis using admit_fields [OF a] unfolding reauth_checked_def a
    by (auto elim!: andThen_InrE dest: reauth_record_Inr
        split: sum.splits bool.splits if_splits)
qed

lemma verifyCurrent_Inr:
  assumes "verifyCurrentPasswordWithSlot X t c i p held s = (Inr u, s')"
  shows "UserByID i (a_store s) = Inr u \<and> x_verify X p (u_PasswordHash u) = Some True \<and> p \<noteq> [] \<and>
    d_Users (st_data (a_store s')) = d_Users (st_data (a_store s))"
proof -
  let ?k = "reauth_key i"
  let ?m = "if length p < 1 \<or> 256 < length p
        then andThen (reauth_record X ?k (in_now t c) False) (\<lambda>_. fail ErrInvalidCurrentPassword)
        else if held then reauth_checked X t c i p else with_slot (x_cfg X) (reauth_checked X t c i p)"
  from assms obtain s1 where m: "?m (inc_pending ?k s) = (Inr u, s1)" "s' = dec_pending ?k s1"
    by (auto simp: verifyCurrentPasswordWithSlot_def with_attempt_def reserveAuthenticationAttempt_def
        releaseAuthenticationAttempt_def simp del: fail_Inr split: prod.splits if_splits)
  have p: "\<not> (length p < 1 \<or> 256 < length p)"
  proof
    assume "length p < 1 \<or> 256 < length p"
    with m(1) show False by (auto elim!: andThen_InrE)
  qed
  show ?thesis
  proof (cases held)
    case True
    with m p reauth_checked_InrE [of X t c i p "inc_pending ?k s" u s1] show ?thesis by (auto split: if_splits)
  next
    case False
    with m(1) p have "with_slot (x_cfg X) (reauth_checked X t c i p) (inc_pending ?k s) = (Inr u, s1)" by (simp split: if_splits)
    then obtain s2 where "reauth_checked X t c i p ((inc_pending ?k s)\<lparr>a_hashSlots := Suc (a_hashSlots (inc_pending ?k s))\<rparr>) = (Inr u, s2)"
        "s1 = s2\<lparr>a_hashSlots := a_hashSlots s2 - 1\<rparr>" by (rule with_slot_InrE)
    from reauth_checked_InrE [OF this(1)] this(2) m(2) p show ?thesis by auto
  qed
qed

lemma ReplaceUserPassword_Inr:
  assumes "ReplaceUserPassword rnd i e h now d = Inr (r, d')"
  obtains k v where "userIndexLocked i d = Some k" "d_Users d' = (d_Users d)[k := v]" "u_ID v = i" "u_PasswordHash v = h"
    "d_Sessions d' = filter (\<lambda>x. s_UserID x \<noteq> i) (d_Sessions d)"
proof -
  from assms obtain k w where k: "userIndexLocked i d = Some k"
    and w: "advanceCredentialVersion rnd (d_Users d ! k) = Inr w"
    and d': "d_Users d' = (d_Users d)[k := w\<lparr>u_PasswordHash := h, u_UpdatedAt := now\<rparr>]"
      "d_Sessions d' = filter (\<lambda>x. s_UserID x \<noteq> i) (d_Sessions d)"
    by (auto simp: ReplaceUserPassword_def with_user_def advance_and_revoke_def advance_user_def revokeUserSessionsLocked_def
        split: option.splits if_splits sum.splits)
  have "u_ID w = i" using w userIndexLocked_SomeD [OF k]
    by (auto simp: advanceCredentialVersion_def split: if_splits sum.splits)
  with that [OF k d'(1) _ _ d'(2)] show thesis by simp
qed

text \<open>
  A successful password change was authorised by the old password, stores the hash of the
  new one, which satisfies the password rules, and leaves no token that authenticates as that
  account.
\<close>

theorem password_change_signs_out:
  assumes "ChangePassword X t i old new s = (Inr (), s')"
  shows "(\<exists>u v. UserByID i (a_store s) = Inr u \<and> x_verify X old (u_PasswordHash u) = Some True \<and>
      UserByID i (a_store s') = Inr v \<and> in_hash t = Some (u_PasswordHash v)) \<and> validatePassword new = None \<and>
    (\<forall>now token x. Authenticate (x_G X) now token s' = Inr x \<longrightarrow> pu_ID (as_User x) \<noteq> i)"
proof -
  let ?s = "s\<lparr>a_hashSlots := Suc (a_hashSlots s)\<rparr>"
  from assms have new: "validatePassword new = None"
    by (auto simp: ChangePassword_def split: option.splits)
  from assms new obtain u s1 h s2 where v: "verifyCurrentPasswordWithSlot X t 0 i old True ?s = (Inr u, s1)"
    and h: "in_hash t = Some h"
    and r: "on_store (x_W X) (ReplaceUserPassword (in_epoch t) (u_ID u) (u_PasswordHash u) h (in_now t 2)) s1 = (Inr (), s2)"
    and s': "a_store s' = a_store s2"
    by (auto simp: ChangePassword_def elim!: with_slot_InrE andThen_InrE dest!: map_error_InrD split: option.splits if_splits)
  from verifyCurrent_Inr [OF v] have u: "UserByID i (a_store s) = Inr u" "x_verify X old (u_PasswordHash u) = Some True"
    and users: "d_Users (st_data (a_store s1)) = d_Users (st_data (a_store s))" by simp_all
  have i: "u_ID u = i" using UserByID_Inr [OF u(1)] by simp
  from r have "ReplaceUserPassword (in_epoch t) i (u_PasswordHash u) h (in_now t 2) (st_data (a_store s1)) =
      Inr ((), st_data (a_store s2))"
    by (auto elim!: on_store_InrE dest!: mutate_InrD simp: i)
  then obtain k w where w: "userIndexLocked i (st_data (a_store s1)) = Some k"
      "d_Users (st_data (a_store s2)) = (d_Users (st_data (a_store s1)))[k := w]" "u_ID w = i" "u_PasswordHash w = h"
    and sess: "d_Sessions (st_data (a_store s2)) = filter (\<lambda>x. s_UserID x \<noteq> i) (d_Sessions (st_data (a_store s1)))"
    by (rule ReplaceUserPassword_Inr)
  have "UserByID i (a_store s') = Inr w" using UserByID_update [OF w(1) w(2) w(3)] s' by simp
  moreover have "pu_ID (as_User x) \<noteq> i" if a: "Authenticate (x_G X) now token s' = Inr x" for now token x
  proof -
    from a obtain y u' where y: "session_by_hash (hashSecret (x_G X) token) now (d_Sessions (st_data (a_store s'))) = Some y"
        "UserByID (s_UserID y) (a_store s') = Inr u'" "as_User x = publicUser u'"
      by (auto simp: Authenticate_def SessionByTokenHash_def split: if_splits sum.splits option.splits)
    with session_by_hash_SomeD [OF y(1)] UserByID_Inr [OF y(2)] show ?thesis by (auto simp: s' sess publicUser_def)
  qed
  ultimately show ?thesis using u h w(4) new by auto
qed


section \<open>Enrolling\<close>

lemma seal_open:
  assumes "sealTOTPSecret K (Some k) (Some n) secret = Some sealed" and "length n = gcmNonceSize"
    and "gcm_open K k n (gcm_seal K k n secret) = Some secret" and "gcm_seal K k n secret \<noteq> []"
  shows "openTOTPSecret K (Some k) sealed = Some secret"
  using assms by (auto simp: sealTOTPSecret_def openTOTPSecret_def split: if_splits)

lemma EnableUserTOTP_Inr:
  assumes "EnableUserTOTP rnd i ep v sec now st hs d = Inr (r, d')"
  obtains k w where "userIndexLocked i d = Some k" "d_Users d' = (d_Users d)[k := w]" "u_ID w = i" "u_TOTPSecret w = sec"
    "u_TOTPLastUsedStep w = st" "u_TOTPRecoveryCodeHashes w = hs" "d_Sessions d' = filter (\<lambda>x. s_UserID x \<noteq> i) (d_Sessions d)"
proof -
  from assms obtain k w where k: "userIndexLocked i d = Some k"
    and w: "advanceCredentialVersion rnd (d_Users d ! k) = Inr w"
    and d': "d_Users d' = (d_Users d)[k := w\<lparr>u_TOTPSecret := sec, u_TOTPEnabledAt := Some now, u_TOTPLastUsedStep := st,
        u_TOTPRecoveryCodeHashes := hs, u_UpdatedAt := now\<rparr>]"
      "d_Sessions d' = filter (\<lambda>x. s_UserID x \<noteq> i) (d_Sessions d)"
    by (auto simp: EnableUserTOTP_def with_user_def advance_and_revoke_def advance_user_def revokeUserSessionsLocked_def
        split: option.splits if_splits sum.splits)
  have "u_ID w = i" using w userIndexLocked_SomeD [OF k]
    by (auto simp: advanceCredentialVersion_def split: if_splits sum.splits)
  with that [OF k d'(1) _ _ _ _ d'(2)] show thesis by simp
qed

lemma StartTOTP_Inr:
  assumes "StartTOTPEnrollment X t i p s = (Inr e, s')"
  obtains pend u where "map_of (a_enrollments s') i = Some pend" "pe_id pend = te_ID e" "pe_secret pend = te_Secret e"
    "pe_expiresAt pend = te_ExpiresAt e" "te_ExpiresAt e = in_now t 2 + enrollmentTTL" "UserByID i (a_store s) = Inr u"
    "x_verify X p (u_PasswordHash u) = Some True" "u_TOTPSecret u = []"
    "te_Secret e = b32_encode (the (in_rnd t 0))"
proof -
  from assms obtain u s1 where v: "verifyCurrentPasswordWithSlot X t 0 i p False s = (Inr u, s1)"
    and r: "(if u_TOTPSecret u \<noteq> [] then (Inl ErrTOTPAlreadyEnabled, s1)
       else case generateTOTPSecret (in_rnd t 0) of None \<Rightarrow> (Inl ErrToken, s1)
       | Some secret \<Rightarrow> (case randomToken (in_rnd t 1) of Inl e \<Rightarrow> (Inl e, s1)
         | Inr j \<Rightarrow>
             let now = in_now t 2; expiresAt = now + enrollmentTTL;
                 live = live_enrollments now i (a_enrollments s1) in
             if maxPendingEnrollments \<le> length live
             then (Inl (RateLimitError Minute), s1\<lparr>a_enrollments := live\<rparr>)
             else (Inr \<lparr>te_ID = j, te_Secret = secret, te_OTPAuthURI = buildOTPAuthURI (u_Username u) secret,
                     te_ExpiresAt = expiresAt\<rparr>,
                   s1\<lparr>a_enrollments := alist_put i \<lparr>pe_id = j, pe_secret = secret, pe_expiresAt = expiresAt,
                     pe_credentialEpoch = u_CredentialEpoch u, pe_credentialVersion = u_CredentialVersion u\<rparr> live\<rparr>))) = (Inr e, s')"
    unfolding StartTOTPEnrollment_def verifyCurrentPassword_def by (rule andThen_InrE)
  from r that [of _ u] verifyCurrent_Inr [OF v] show thesis
    by (auto simp: Let_def generateTOTPSecret_def split: if_splits option.splits sum.splits)
qed

text \<open>
  Starting and confirming an enrollment within its lifetime installs exactly the secret
  that was shown, sealed, marks the confirming step as used, stores the hashes of the recovery
  codes it returns, removes the pending enrollment and ends the sessions of the account.
\<close>

theorem enrollment_installs_secret:
  assumes start: "StartTOTPEnrollment X t i p s = (Inr e, s1)"
    and confirm: "ConfirmTOTPEnrollment X t' i (te_ID e) code s1 = (Inr codes, s2)"
    and key: "x_key X = Some k" and nonce: "in_rnd t' 0 = Some n" "length n = gcmNonceSize"
    and gcm: "\<And>m. gcm_open (x_K X) k n (gcm_seal (x_K X) k n m) = Some m" "\<And>m. gcm_seal (x_K X) k n m \<noteq> []"
  shows "(\<exists>v. UserByID i (a_store s2) = Inr v \<and> openTOTPSecret (x_K X) (x_key X) (u_TOTPSecret v) = Some (te_Secret e) \<and>
      matchTOTPStep (x_G X) (x_K X) (te_Secret e) (trim_space code) (in_now t' 1) = Some (u_TOTPLastUsedStep v) \<and>
      u_TOTPRecoveryCodeHashes v = map (recoveryCodeHash (x_G X)) codes) \<and>
    in_now t' 0 < te_ExpiresAt e \<and> map_of (a_enrollments s2) i = None \<and>
    (\<forall>x\<in>set (d_Sessions (st_data (a_store s2))). s_UserID x \<noteq> i)"
proof -
  from start obtain pend u where pend: "map_of (a_enrollments s1) i = Some pend" "pe_id pend = te_ID e"
    "pe_secret pend = te_Secret e" "pe_expiresAt pend = te_ExpiresAt e" by (rule StartTOTP_Inr) auto
  from confirm pend obtain step where live: "in_now t' 0 < te_ExpiresAt e"
    and step: "matchTOTPStep (x_G X) (x_K X) (te_Secret e) (trim_space code) (in_now t' 1) = Some step"
    and en: "enable_enrolled X t' i pend step (drop_enrollment i s1) = (Inr codes, s2)"
    by (auto simp: ConfirmTOTPEnrollment_def not_le split: if_splits option.splits)
  from en key nonce(1) pend(3) obtain sealed where seal: "sealTOTPSecret (x_K X) (Some k) (Some n) (te_Secret e) = Some sealed"
    and rest: "(case generateRecoveryCodes (x_G X) (\<lambda>i. in_rnd t' (Suc i)) of None \<Rightarrow> fail ErrToken
        | Some (codes, hashes) \<Rightarrow>
            andThen (map_error (\<lambda>e. if e = StoreError ErrConflict then ErrTOTPEnrollmentExpired else e)
              (on_store (x_W X) (EnableUserTOTP (in_epoch t') i (pe_credentialEpoch pend) (pe_credentialVersion pend)
                 sealed (in_now t' 2) step hashes))) (\<lambda>_. ret codes)) (drop_enrollment i s1) = (Inr codes, s2)"
    by (auto simp: enable_enrolled_def split: option.splits)
  from rest obtain st where enr: "EnableUserTOTP (in_epoch t') i (pe_credentialEpoch pend) (pe_credentialVersion pend) sealed
      (in_now t' 2) step (map (recoveryCodeHash (x_G X)) codes) (st_data (a_store (drop_enrollment i s1))) = Inr ((), st_data st)"
    and s2: "s2 = (drop_enrollment i s1)\<lparr>a_store := st\<rparr>"
    by (auto simp: generateRecoveryCodes_def split: option.splits elim!: andThen_InrE on_store_InrE
        dest!: map_error_InrD mutate_InrD)
  from enr obtain j w where w: "userIndexLocked i (st_data (a_store (drop_enrollment i s1))) = Some j"
      "d_Users (st_data st) = (d_Users (st_data (a_store (drop_enrollment i s1))))[j := w]" "u_ID w = i" "u_TOTPSecret w = sealed"
      "u_TOTPLastUsedStep w = step" "u_TOTPRecoveryCodeHashes w = map (recoveryCodeHash (x_G X)) codes"
    and sess: "d_Sessions (st_data st) = filter (\<lambda>x. s_UserID x \<noteq> i) (d_Sessions (st_data (a_store (drop_enrollment i s1))))"
    by (rule EnableUserTOTP_Inr)
  have "UserByID i (a_store s2) = Inr w" using UserByID_update [OF w(1) w(2) w(3)] by (simp add: s2)
  moreover have "openTOTPSecret (x_K X) (x_key X) (u_TOTPSecret w) = Some (te_Secret e)"
    using seal_open [OF seal nonce(2) gcm] key w(4) by simp
  moreover have "map_of (a_enrollments s2) i = None" by (simp add: s2 drop_enrollment_def)
  ultimately show ?thesis using step live w sess by (auto simp: s2)
qed


section \<open>A refused login does not tell which accounts exist\<close>

definition with_users :: "user list \<Rightarrow> 'p auth \<Rightarrow> 'p auth" where
  "with_users us s = s\<lparr>a_store := (a_store s)\<lparr>st_data := (st_data (a_store s))\<lparr>d_Users := us\<rparr>\<rparr>\<rparr>"

lemma with_users_fields [simp]:
  "a_pending (with_users us s) = a_pending s" "a_hashSlots (with_users us s) = a_hashSlots s"
  "a_compute (with_users us s) = a_compute s" "pending_of k (with_users us s) = pending_of k s"
  "FailedLoginCount k since (a_store (with_users us s)) = FailedLoginCount k since (a_store s)"
  "hasAttemptRoomLocked r since (with_users us s) = hasAttemptRoomLocked r since s"
  "inc_pending k (with_users us s) = with_users us (inc_pending k s)"
  "(with_users us s)\<lparr>a_hashSlots := m\<rparr> = with_users us (s\<lparr>a_hashSlots := m\<rparr>)"
  "st_data (a_store (with_users us s)) = (st_data (a_store s))\<lparr>d_Users := us\<rparr>"
  by (simp_all add: with_users_def pending_of_def FailedLoginCount_def hasAttemptRoomLocked_def inFlight_def
      UnauthenticatedLoginAttemptRoom_def inc_pending_def)

lemma admit_with_users:
  "admitPasswordComputation cfg now key (with_users us s) =
     (case admitPasswordComputation cfg now key s of (b, s') \<Rightarrow> (b, with_users us s'))"
  by (auto simp: admitPasswordComputation_def Let_def with_users_def split: option.split)

lemma persist_files_fst:
  "io_encode io d = io_encode io d' \<Longrightarrow> fst (persist_files io d f) = fst (persist_files io d' f)"
  by (auto simp: persist_files_def Let_def split: option.splits)

lemma record_with_users:
  assumes "\<And>m d d'. io_encode (W m) d = io_encode (W m) d'"
  shows "fst (recordLoginAttempt W cfg ip ac now ok (with_users us s)) = fst (recordLoginAttempt W cfg ip ac now ok s)"
proof -
  let ?st = "a_store s" and ?as = "login_attempts ip ac now ok" and ?t = "now - LoginWindow cfg"
  have st: "st_writes (a_store (with_users us s)) = st_writes ?st" "st_files (a_store (with_users us s)) = st_files ?st"
    by (simp_all add: with_users_def)
  show ?thesis
  proof (cases "record_attempts ?as ?t (d_LoginAttempts (st_data ?st))")
    case (Inl e)
    then show ?thesis
      by (simp add: recordLoginAttempt_def on_store_def mutate_def RecordLoginAttempts_def recordLoginAttemptsLocked_def)
  next
    case (Inr l)
    let ?d = "(st_data ?st)\<lparr>d_LoginAttempts := l\<rparr>"
    have "fst (persist_files (W (st_writes ?st)) ((st_data ?st)\<lparr>d_Users := us, d_LoginAttempts := l\<rparr>) (st_files ?st)) =
        fst (persist_files (W (st_writes ?st)) ?d (st_files ?st))"
      by (rule persist_files_fst) (rule assms)
    with Inr st show ?thesis
      by (auto simp: recordLoginAttempt_def on_store_def mutate_def RecordLoginAttempts_def recordLoginAttemptsLocked_def
          commit_def persistLocked_def split: prod.splits)
  qed
qed

lemma andThen_fail: "fst (andThen m (\<lambda>_. fail e) s) = (case fst (m s) of Inl e' \<Rightarrow> Inl e' | Inr _ \<Rightarrow> Inl e)"
  by (simp add: andThen_def fail_def split: prod.split sum.split)

lemma login_checked_refused:
  assumes "\<And>u. UserByUsername n (a_store s) = Inr u \<Longrightarrow> x_verify X p (u_PasswordHash u) \<noteq> Some True"
  shows "fst (login_checked X t ip ac now n p f s) =
    (case admitPasswordComputation (x_cfg X) (in_now t 1) ip s of
       (False, s1) \<Rightarrow> Inl (RateLimitError (LoginWindow (x_cfg X)))
     | (True, s1) \<Rightarrow> (case fst (recordLoginAttempt (x_W X) (x_cfg X) ip ac now False s1) of
         Inl e \<Rightarrow> Inl e | Inr _ \<Rightarrow> Inl ErrInvalidCredentials))"
proof -
  show ?thesis
  proof (cases "UserByUsername n (a_store s)")
    case (Inl e)
    then show ?thesis unfolding login_checked_def Let_def
      by (simp add: andThen_fail split: prod.split bool.split)
  next
    case (Inr u)
    with assms show ?thesis unfolding login_checked_def Let_def
      by (simp add: andThen_fail split: prod.split bool.split)
  qed
qed

text \<open>
  C13: When the password matches no account, the answer to a login is the same whatever accounts
  exist: the user table cannot be probed through it.
\<close>

theorem refused_login_hides_accounts:
  assumes "\<And>u. u \<in> set (d_Users (st_data (a_store s))) \<union> set us \<Longrightarrow> x_verify X p (u_PasswordHash u) \<noteq> Some True"
    and "\<And>m d d'. io_encode (x_W X m) d = io_encode (x_W X m) d'"
  shows "fst (Login X t ip n p f (with_users us s)) = fst (Login X t ip n p f s)"
proof -
  let ?ip = "fst (loginKeys (x_G X) ip n)" and ?ac = "snd (loginKeys (x_G X) ip n)"
  define s1 where "s1 = (inc_pending ?ac (inc_pending ?ip s))\<lparr>a_hashSlots := Suc (a_hashSlots s)\<rparr>"
  have mem: "UserByUsername n st = Inr u \<Longrightarrow> u \<in> set (d_Users (st_data st))" for st :: "'a store" and u
    by (auto simp: UserByUsername_def split: option.splits dest: find_SomeD)
  have "fst (login_checked X t ?ip ?ac (in_now t 0) n p f (with_users us s1)) =
      fst (login_checked X t ?ip ?ac (in_now t 0) n p f s1)"
  proof -
    have 1: "x_verify X p (u_PasswordHash u) \<noteq> Some True" if "UserByUsername n (a_store s1) = Inr u" for u
      using mem [OF that] assms(1) by (simp add: s1_def)
    have 2: "x_verify X p (u_PasswordHash u) \<noteq> Some True" if "UserByUsername n (a_store (with_users us s1)) = Inr u" for u
      using mem [OF that] assms(1) by simp
    show ?thesis
      by (subst (1 2) login_checked_refused)
         (auto simp: 1 2 admit_with_users record_with_users [OF assms(2)] split: prod.split bool.split)
  qed
  then have "fst (with_slot (x_cfg X) (login_checked X t ?ip ?ac (in_now t 0) n p f)
        (inc_pending ?ac (inc_pending ?ip (with_users us s)))) =
      fst (with_slot (x_cfg X) (login_checked X t ?ip ?ac (in_now t 0) n p f) (inc_pending ?ac (inc_pending ?ip s)))"
    by (auto simp: with_slot_def s1_def split: prod.splits)
  then show ?thesis
    by (auto simp: Login_def Let_def reserveLogin_def split: prod.splits)
qed

end
