(* ===== verification/SampleService.thy ===== *)
theory SampleService
  imports LoginProps
begin

text \<open>
  One concrete service over a panel with one administrator, on which the instances of the
  service's properties are computed.
\<close>

definition sample_config :: config where
  "sample_config = \<lparr>SessionTTL = 1000, LoginWindow = 100, MaxLoginFailures = 5, MaxConcurrentHashes = 1\<rparr>"

definition sample_service :: "unit auth_env" where
  "sample_service = \<lparr>x_G = sample_env, x_K = demo_crypto, x_W = sample_world, x_cfg = sample_config,
     x_verify = (\<lambda>p h. Some (p = h)), x_key = Some (replicate 32 (CHR ''k'')), x_dummyHash = ''-''\<rparr>"

definition plain_user :: user where
  "plain_user = sample_user\<lparr>u_TOTPSecret := [], u_TOTPEnabledAt := None, u_TOTPLastUsedStep := 0, u_TOTPRecoveryCodeHashes := []\<rparr>"

definition plain_disk :: "unit disk_state" where
  "plain_disk = sample_disk\<lparr>d_Users := [plain_user]\<rparr>"

definition plain_store :: "unit store" where
  "plain_store = sample_store\<lparr>st_data := plain_disk, st_files := \<lparr>f_target = Some plain_disk, f_previous = None\<rparr>\<rparr>"

definition sample_auth :: "unit auth" where
  "sample_auth = \<lparr>a_store = plain_store, a_pending = [], a_compute = [], a_hashSlots = 0, a_enrollments = [], a_bootstrap = None\<rparr>"

definition sample_call :: call where
  "sample_call = \<lparr>in_now = (\<lambda>i. 500 + int i), in_rnd = (\<lambda>i. Some (if i = 0 then ''token-bytes'' else ''other-bytes'')),
     in_wall = 500, in_hash = Some ''hash2'', in_epoch = Some ''0123456789abcdef'', in_file = (\<lambda>_. True)\<rparr>"

lemmas service_defs = sample_config_def sample_service_def plain_user_def plain_disk_def plain_store_def sample_auth_def
  sample_call_def

lemma sample_keys: "loginKeys sample_env ''console'' ''admin'' = (''ip:console'', ''account:admin'')"
  by code_simp

lemma sample_user_found: "UserByUsername ''admin'' plain_store = Inr plain_user"
  by (simp add: UserByUsername_def usernameEqual_def service_defs sample_defs)

lemmas login_eval = Login_def reserveLogin_def releaseLogin_def with_slot_def login_checked_def login_second_factor_def
  login_finish_def newSession_def randomToken_def admitPasswordComputation_def andThen_def ret_def fail_def on_store_def
  hasAttemptRoomLocked_def inFlight_def UnauthenticatedLoginAttemptRoom_def attempt_room_def maxLoginAttempts_def
  maxUserScopedLoginAttempts_def FailedLoginCount_def failed_count_def latest_success_def pending_of_def alist_nat_def alist_sum_def
  PutLoginSession_def putSessionLocked_def put_session_def recordLoginAttemptsLocked_def record_attempts_def active_def
  scoped_count_def unauth_count_def login_attempts_def maxComputeSources_def inc_pending_def accountFailureLimitMultiplier_def
  count_if_def UserScopedLoginAttempt_def userScopedLoginAttemptPrefixes_def has_prefix_def

definition sample_result :: "(auth_error + credentials) \<times> unit auth" where
  "sample_result = Login sample_service sample_call ''console'' ''admin'' ''hash1'' [] sample_auth"

lemma sample_login: "is_ok (fst sample_result)"
  using sample_keys sample_user_found
  by (simp add: sample_result_def login_eval service_defs sample_defs exec_eval usernameEqual_def UserByUsername_def)

section \<open>Instances\<close>

lemma service_releases_reservations_witness:
  "a_hashSlots (serve_all sample_service [CLogin sample_call ''console'' ''admin'' ''hash1'' []] sample_auth) = 0 \<and>
   pending_of ''ip:console'' (serve_all sample_service [CLogin sample_call ''console'' ''admin'' ''hash1'' []] sample_auth) = 0"
  using service_releases_reservations [of "[CLogin sample_call ''console'' ''admin'' ''hash1'' []]" sample_service sample_auth "''ip:console''"]
  by (simp add: sample_auth_def pending_of_def alist_nat_def)

lemma service_tables_bounded_witness:
  "tables_ok sample_config (serve_all sample_service [CLogin sample_call ''console'' ''admin'' ''hash1'' []] sample_auth)"
  using service_tables_bounded [of "[CLogin sample_call ''console'' ''admin'' ''hash1'' []]" sample_service sample_auth]
  by (simp add: tables_ok_def sample_service_def sample_auth_def sample_config_def)

lemma plain_ok: "store_ok sample_env sample_checks plain_disk"
  by (simp add: store_ok_def open_error_None bounds_ok_def plain_disk_def plain_user_def sample_defs user_ok_def validCredentialEpoch_def
      validateUserAvatar_def validateFileShares_def ValidateClusterHostOrder_def zero_cluster_share_def
      maxRetainedSessions_def ledger_ok_def scoped_count_def unauth_count_def)

lemma service_restart_restores_witness:
  "\<exists>st. Open sample_env sample_checks sample_world sample_audit_io True True ()
     (boot_of (st_files (a_store (serve_all sample_service [CLogin sample_call ''console'' ''admin'' ''hash1'' []] sample_auth)))) (Some sample_log)
     = Inr st"
  using service_restart_restores [of "[CLogin sample_call ''console'' ''admin'' ''hash1'' []]" sample_service sample_checks sample_auth
      sample_world sample_audit_io "()" sample_log] plain_ok
  by (simp add: sample_service_def sample_auth_def plain_store_def target_synced_def)

lemma sample_ids: "distinct (map u_ID (d_Users (st_data (a_store sample_auth))))"
  by (simp add: service_defs sample_defs)

lemma sample_result_Inr: "\<exists>creds s'. sample_result = (Inr creds, s')"
proof -
  obtain r s' where r: "sample_result = (r, s')" by fastforce
  with sample_login show ?thesis by (cases r) (auto simp: r)
qed

lemma login_sound_witness:
  "\<exists>creds s' u. sample_result = (Inr creds, s') \<and> UserByUsername ''admin'' plain_store = Inr u \<and> cr_User creds = publicUser u"
proof -
  obtain creds s' where r: "sample_result = (Inr creds, s')" using sample_result_Inr by blast
  from login_sound [OF r [unfolded sample_result_def] sample_ids] r show ?thesis by (auto simp: sample_auth_def)
qed

lemma sample_expires: "sample_result = (Inr creds, s') \<Longrightarrow> cr_ExpiresAt creds = 1502"
  unfolding sample_result_def
  by (elim Login_InrE login_checked_InrE) (auto dest!: newSession_Inr simp: sample_call_def sample_service_def sample_config_def)

lemma login_then_authenticate_witness:
  "\<exists>creds s' x. sample_result = (Inr creds, s') \<and> Authenticate sample_env 1000 (cr_Token creds) s' = Inr x \<and> as_ExpiresAt x = 1502"
proof -
  obtain creds s' where r: "sample_result = (Inr creds, s')" using sample_result_Inr by blast
  from sample_expires [OF r] have e: "cr_ExpiresAt creds = 1502" .
  have "\<exists>x. Authenticate (x_G sample_service) 1000 (cr_Token creds) s' = Inr x \<and> as_User x = cr_User creds \<and>
      as_ExpiresAt x = in_now sample_call 2 + SessionTTL (x_cfg sample_service) \<and>
      ValidateCSRF (x_G sample_service) x (cr_CSRFToken creds) = None"
    by (rule login_then_authenticate [OF r [unfolded sample_result_def] sample_ids]) (simp_all add: sample_call_def e)
  with r show ?thesis by (auto simp: sample_service_def sample_call_def sample_config_def)
qed

lemma only_sign_in_opens_session_witness:
  "\<exists>t. (\<exists>b n p. CLogin sample_call ''console'' ''admin'' ''hash1'' [] = CBootstrap t b n p) \<or>
     (\<exists>ip n p f. CLogin sample_call ''console'' ''admin'' ''hash1'' [] = CLogin t ip n p f)"
proof -
  obtain creds s' where r: "sample_result = (Inr creds, s')" using sample_result_Inr by blast
  have "\<exists>x. Authenticate (x_G sample_service) 1000 (cr_Token creds) s' = Inr x \<and> as_User x = cr_User creds \<and>
      as_ExpiresAt x = in_now sample_call 2 + SessionTTL (x_cfg sample_service) \<and>
      ValidateCSRF (x_G sample_service) x (cr_CSRFToken creds) = None"
    by (rule login_authenticates [OF r [unfolded sample_result_def] sample_ids]) (simp_all add: sample_call_def sample_expires [OF r])
  then obtain x where "Authenticate sample_env 1000 (cr_Token creds) s' = Inr x" by (auto simp: sample_service_def)
  moreover have "snd (serve sample_service (CLogin sample_call ''console'' ''admin'' ''hash1'' []) sample_auth) = s'"
    using r by (simp add: sample_result_def void_def)
  ultimately show ?thesis
    using only_sign_in_opens_session [of "CLogin sample_call ''console'' ''admin'' ''hash1'' []" sample_env 1000 "cr_Token creds" sample_service sample_auth x]
    by (simp add: sample_auth_def plain_store_def plain_disk_def sample_disk_def sample_session_def)
qed

lemma refused_login_hides_accounts_witness:
  "fst (Login sample_service sample_call ''console'' ''admin'' ''wrong'' [] (with_users [] sample_auth)) =
   fst (Login sample_service sample_call ''console'' ''admin'' ''wrong'' [] sample_auth)"
  by (rule refused_login_hides_accounts)
     (auto simp: sample_service_def sample_auth_def plain_store_def plain_disk_def plain_user_def sample_user_def zero_user_def
       sample_world_def good_io_def)

lemmas reauth_eval = verifyCurrentPasswordWithSlot_def verifyCurrentPassword_def with_attempt_def
  reserveAuthenticationAttempt_def releaseAuthenticationAttempt_def dec_pending_def reauth_checked_def reauth_record_def
  reauth_key_def RecordLoginAttempt_def RecordLoginAttempts_def map_error_def alist_del_def

definition password_result :: "(auth_error + unit) \<times> unit auth" where
  "password_result = ChangePassword sample_service sample_call ''u1'' ''hash1'' ''longer-password-2'' sample_auth"

lemma sample_password_change: "fst password_result = Inr ()"
  by (simp add: password_result_def ChangePassword_def validatePassword_def is_letter_def is_digit_def is_lower_def is_upper_def byte_def
      secureEqual_def ReplaceUserPassword_def reauth_eval login_eval service_defs sample_defs exec_eval)

lemma password_change_signs_out_witness:
  "\<exists>v. UserByID ''u1'' (a_store (snd password_result)) = Inr v \<and> u_PasswordHash v = ''hash2''"
proof -
  obtain r s' where r: "password_result = (r, s')" by fastforce
  have p: "password_result = (Inr (), s')" using sample_password_change unfolding r by simp
  show ?thesis
    using password_change_signs_out [OF p [unfolded password_result_def]] unfolding p by (auto simp: sample_call_def)
qed

definition enroll_call :: call where
  "enroll_call = sample_call\<lparr>in_rnd := (\<lambda>i. Some (replicate 20 (CHR ''s'')))\<rparr>"

definition confirm_call :: call where
  "confirm_call = sample_call\<lparr>in_rnd := (\<lambda>i. Some (if i = 0 then replicate 12 (CHR ''n'') else replicate 10 (CHR ''r'')))\<rparr>"

definition enroll_result :: "(auth_error + totp_enrollment) \<times> unit auth" where
  "enroll_result = StartTOTPEnrollment sample_service enroll_call ''u1'' ''hash1'' sample_auth"

lemma sample_enroll: "is_ok (fst enroll_result)"
  by (simp add: enroll_result_def StartTOTPEnrollment_def reauth_eval login_eval service_defs sample_defs exec_eval enroll_call_def
      generateTOTPSecret_def live_enrollments_def maxPendingEnrollments_def Let_def)

lemma enroll_secret: "enroll_result = (Inr e, s1) \<Longrightarrow> te_Secret e = b32_encode (replicate 20 (CHR ''s''))"
  unfolding enroll_result_def by (erule StartTOTP_Inr) (simp add: enroll_call_def)

lemma sample_code: "matchTOTPStep sample_env demo_crypto (b32_encode (replicate 20 (CHR ''s''))) ''215045'' now = Some (quot (unix now) 30)"
proof -
  have "totpAtStep sample_env demo_crypto (b32_encode (replicate 20 (CHR ''s''))) step = Some ''215045''" for step
  proof -
    have "truncated (replicate 20 (CHR 0x05)) mod 1000000 = 215045" by (simp add: truncated_def byte_def Let_def)
    moreover have "show_padded 6 215045 = ''215045''" by (simp add: show_padded_def show_nat.simps char_of_def bit_0)
    ultimately show ?thesis
      by (subst totp_of_generated) (simp_all add: totpSecretBytes_def demo_crypto_def)
  qed
  then show ?thesis by (simp add: matchTOTPStep_def totp_code_pattern_def is_digit_def byte_def totpPeriod_def Second_def Let_def)
qed

definition confirm_result :: "(auth_error + string list) \<times> unit auth" where
  "confirm_result = ConfirmTOTPEnrollment sample_service confirm_call ''u1''
     (case fst enroll_result of Inl _ \<Rightarrow> [] | Inr e \<Rightarrow> te_ID e) ''215045'' (snd enroll_result)"

lemma recovery_codes_Some: "(\<And>i. rnd i \<noteq> None) \<Longrightarrow> \<exists>cs. recovery_codes rnd i n = Some cs"
proof (induction n arbitrary: i)
  case 0
  then show ?case by simp
next
  case (Suc n)
  from Suc.IH [OF Suc.prems, of "Suc i"] obtain cs where "recovery_codes rnd (Suc i) n = Some cs" by blast
  moreover obtain b where "rnd i = Some b" using Suc.prems [of i] by blast
  ultimately show ?case by simp
qed

lemma sample_codes: "\<exists>codes. generateRecoveryCodes sample_env (\<lambda>i. Some (replicate 10 (CHR ''r''))) = Some codes"
  using recovery_codes_Some [of "\<lambda>i. Some (replicate 10 (CHR ''r''))" 0 recoveryCodeCount]
  by (auto simp: generateRecoveryCodes_def)

lemma trim_code: "trim_space ''215045'' = ''215045''" by code_simp

lemma sample_confirm: "is_ok (fst confirm_result)"
proof -
  obtain codes hashes where c: "generateRecoveryCodes sample_env (\<lambda>i. Some (replicate 10 (CHR ''r''))) = Some (codes, hashes)"
    using sample_codes by auto
  show ?thesis
    by (simp add: confirm_result_def enroll_result_def StartTOTPEnrollment_def reauth_eval login_eval service_defs
        sample_checks_def good_io_def sample_world_def sample_user_def sample_session_def sample_disk_def sample_store_def
        empty_disk_def zero_user_def exec_eval enroll_call_def confirm_call_def generateTOTPSecret_def live_enrollments_def
        maxPendingEnrollments_def Let_def ConfirmTOTPEnrollment_def enable_enrolled_def sealTOTPSecret_def EnableUserTOTP_def
        sample_code trim_code c secureEqual_def drop_enrollment_def enrollmentTTL_def duration_defs totpKeyBytes_def
        b64_encode_Nil_iff length_b64_encode)
qed

lemma enrollment_installs_secret_witness:
  "\<exists>codes s2 v. confirm_result = (Inr codes, s2) \<and> UserByID ''u1'' (a_store s2) = Inr v \<and>
     openTOTPSecret demo_crypto (Some (replicate 32 (CHR ''k''))) (u_TOTPSecret v) = Some (b32_encode (replicate 20 (CHR ''s'')))"
proof -
  obtain r s1 where r: "enroll_result = (r, s1)" by fastforce
  obtain e where e: "r = Inr e" using sample_enroll unfolding r by (cases r) auto
  obtain q s2 where q: "confirm_result = (q, s2)" by fastforce
  obtain codes where codes: "q = Inr codes" using sample_confirm unfolding q by (cases q) auto
  have c: "ConfirmTOTPEnrollment sample_service confirm_call ''u1'' (te_ID e) ''215045'' s1 = (Inr codes, s2)"
    using q codes by (simp add: confirm_result_def r e)
  have "te_Secret e = b32_encode (replicate 20 (CHR ''s''))" by (rule enroll_secret) (use r e in simp)
  with enrollment_installs_secret [OF r [unfolded enroll_result_def e] c, of "replicate 32 (CHR ''k'')" "replicate 12 (CHR ''n'')"] q codes
  show ?thesis by (auto simp: sample_service_def confirm_call_def gcmNonceSize_def demo_crypto_def)
qed

end
