(* ===== verification/McpPolicy.thy ===== *)
theory McpPolicy
  imports StoreTypes
begin

text \<open>
  \<open>internal/mcpaccess/policy.go\<close>: the snapshot of the tools, domains and file roots granted to a
  delegated client, its validation and the three questions asked of it. A Go map of strings is
  an association list with distinct keys.
\<close>

record policy =
  po_Domains :: "string list"
  po_Operations :: "string list"
  po_OperationVersions :: "(string \<times> string) list"
  po_Write :: bool
  po_AutoApprove :: bool
  po_FileRoots :: "string list"

definition Domains :: "string list" where
  "Domains = [''system'', ''docker'', ''sites'', ''apps'', ''diagnostics'', ''files'', ''backups'']"

definition validHex :: "string \<Rightarrow> nat \<Rightarrow> bool" where
  "validHex s n = (case hex_decode s of None \<Rightarrow> False | Some b \<Rightarrow> length s = n \<and> length b * 2 = n)"

definition lookup_or :: "'v \<Rightarrow> ('k \<times> 'v) list \<Rightarrow> 'k \<Rightarrow> 'v" where
  "lookup_or z m k = (case map_of m k of None \<Rightarrow> z | Some v \<Rightarrow> v)"

definition operation_char :: "char \<Rightarrow> bool" where
  "operation_char c = (is_lower c \<or> is_digit c \<or> c = CHR ''_'')"

text \<open>The loops over the names keep the set of those already seen.\<close>

fun operations_ok :: "(string \<times> string) list \<Rightarrow> string list \<Rightarrow> string list \<Rightarrow> bool" where
  "operations_ok versions seen [] = True"
| "operations_ok versions seen (name # names) =
     (if length name = 0 \<or> 128 < length name \<or> name \<in> set seen \<or> \<not> validHex (lookup_or [] versions name) 64 then False
      else if \<not> list_all operation_char name then False
      else operations_ok versions (name # seen) names)"

fun domains_ok :: "string list \<Rightarrow> string list \<Rightarrow> bool" where
  "domains_ok seen [] = True"
| "domains_ok seen (d # ds) = (if d \<notin> set Domains \<or> d \<in> set seen then False else domains_ok (d # seen) ds)"

definition validFilePath :: "string \<Rightarrow> bool" where
  "validFilePath v = (length v \<le> 4096 \<and> has_prefix v ''/'' \<and>
     \<not> contains_any v [CHR 0x00, CHR 0x0D, CHR 0x0A, CHR 0x5C])"

definition root_ok :: "string \<Rightarrow> bool" where
  "root_ok root = (validFilePath root \<and> path_clean root = root \<and> root \<noteq> ''/'')"

definition Valid :: "policy option \<Rightarrow> bool" where
  "Valid p = (case p of None \<Rightarrow> True
     | Some p \<Rightarrow>
         if length (po_Domains p) = 0 \<or> length Domains < length (po_Domains p) \<or> length (po_Operations p) = 0 \<or>
            128 < length (po_Operations p) \<or> 16 < length (po_FileRoots p) \<or> (po_AutoApprove p \<and> \<not> po_Write p) then False
         else if length (po_OperationVersions p) \<noteq> length (po_Operations p) then False
         else if \<not> operations_ok (po_OperationVersions p) [] (po_Operations p) then False
         else if \<not> domains_ok [] (po_Domains p) then False
         else if (''files'' \<in> set (po_Domains p)) \<noteq> (po_FileRoots p \<noteq> []) then False
         else list_all root_ok (po_FileRoots p))"

definition Allows :: "policy option \<Rightarrow> string \<Rightarrow> bool \<Rightarrow> bool" where
  "Allows p domain write = (case p of None \<Rightarrow> False
     | Some p \<Rightarrow> (\<not> write \<or> po_Write p) \<and> domain \<in> set (po_Domains p))"

definition AllowsOperation :: "policy option \<Rightarrow> string \<Rightarrow> string \<Rightarrow> bool \<Rightarrow> bool" where
  "AllowsOperation p name domain write = (Allows p domain write \<and>
     (case p of None \<Rightarrow> False | Some p \<Rightarrow> name \<in> set (po_Operations p)))"

definition AllowsPath :: "policy option \<Rightarrow> string \<Rightarrow> bool" where
  "AllowsPath p value = (case p of None \<Rightarrow> False
     | Some p \<Rightarrow>
         if \<not> validFilePath value then False
         else list_ex (\<lambda>root. path_clean value = root \<or> has_prefix (path_clean value) (root @ ''/'')) (po_FileRoots p))"

section \<open>The delegation boundary on path elements\<close>

text \<open>The elements of a rooted path: its cleaned form without the leading separator, split.\<close>

definition elems :: "string \<Rightarrow> string list" where
  "elems p = clean_elems True [] (split_on (CHR ''/'') p)"

lemma elems_plain: "\<forall>e\<in>set (elems p). plain_elem e"
  unfolding elems_def by (rule clean_elems_rooted_plain) (simp_all add: split_on_no_sep)

lemma path_clean_elems: "has_prefix p ''/'' \<Longrightarrow> path_clean p = ''/'' @ join ''/'' (elems p)"
  by (auto simp: has_prefix_iff path_clean_def elems_def simp del: clean_elems.simps)

lemma split_on_append: "split_on c (a @ c # b) = split_on c a @ split_on c b"
  by (induction a) (auto split: list.splits)

lemma join_append: "us \<noteq> [] \<Longrightarrow> vs \<noteq> [] \<Longrightarrow> join sep (us @ vs) = join sep us @ sep @ join sep vs"
proof (induction us)
  case Nil
  then show ?case by simp
next
  case (Cons u us)
  then show ?case by (cases us; cases vs) auto
qed

lemma split_plain: "\<forall>e\<in>set es. plain_elem e \<Longrightarrow> es \<noteq> [] \<Longrightarrow> split_on (CHR ''/'') (join ''/'' es) = es"
  by (intro split_on_join) (auto simp: plain_elem_def)

lemma join_prefix:
  assumes "\<forall>e\<in>set xs. plain_elem e" "\<forall>e\<in>set ys. plain_elem e" "xs \<noteq> []"
  shows "(join ''/'' ys = join ''/'' xs \<or> has_prefix (join ''/'' ys) (join ''/'' xs @ ''/'')) \<longleftrightarrow> (\<exists>zs. ys = xs @ zs)"
    (is "?L = ?R")
proof
  assume ?L
  have xs: "split_on (CHR ''/'') (join ''/'' xs) = xs" using assms by (intro split_plain)
  have "ys \<noteq> []"
  proof
    assume "ys = []"
    with \<open>?L\<close> have "join ''/'' xs = []" by (auto simp: has_prefix_def)
    with xs have "xs = [[]]" by simp
    with assms(1) show False by (simp add: plain_elem_def)
  qed
  then have ys: "split_on (CHR ''/'') (join ''/'' ys) = ys" using assms by (intro split_plain)
  from \<open>?L\<close> show ?R
  proof
    assume "join ''/'' ys = join ''/'' xs"
    with xs ys have "ys = xs @ []" by simp
    then show ?R by blast
  next
    assume "has_prefix (join ''/'' ys) (join ''/'' xs @ ''/'')"
    then obtain r where "join ''/'' ys = join ''/'' xs @ CHR ''/'' # r" by (auto simp: has_prefix_iff)
    with xs ys have "ys = xs @ split_on (CHR ''/'') r" by (metis split_on_append)
    then show ?R by blast
  qed
next
  assume ?R
  then obtain zs where ys: "ys = xs @ zs" by blast
  show ?L
  proof (cases "zs = []")
    case False
    with assms(3) ys show ?thesis by (simp add: join_append has_prefix_iff)
  qed (simp add: ys)
qed

lemma root_elems:
  assumes "root_ok root"
  shows "root = ''/'' @ join ''/'' (elems root)" and "elems root \<noteq> []"
proof -
  from assms show 1: "root = ''/'' @ join ''/'' (elems root)"
    using path_clean_elems [of root] by (simp add: root_ok_def validFilePath_def)
  show "elems root \<noteq> []" using 1 assms by (auto simp: root_ok_def)
qed

text \<open>
  C14: A path that a valid policy allows has exactly the elements of one of the granted roots as
  its first elements, and no element of it leads upwards: a delegated client never leaves its
  roots.
\<close>

theorem granted_paths_below_roots:
  assumes "Valid (Some p)"
  shows "AllowsPath (Some p) v \<longleftrightarrow> validFilePath v \<and>
    (\<exists>root\<in>set (po_FileRoots p). \<exists>rest. elems v = elems root @ rest) \<and> ''..'' \<notin> set (elems v)"
proof (cases "validFilePath v")
  case False
  then show ?thesis by (simp add: AllowsPath_def)
next
  case True
  then have v: "path_clean v = ''/'' @ join ''/'' (elems v)"
    by (intro path_clean_elems) (simp add: validFilePath_def)
  have dots: "''..'' \<notin> set (elems v)" using elems_plain [of v] by (auto simp: plain_elem_def)
  have "(path_clean v = root \<or> has_prefix (path_clean v) (root @ ''/'')) \<longleftrightarrow> (\<exists>rest. elems v = elems root @ rest)"
    if "root \<in> set (po_FileRoots p)" for root
  proof -
    have ok: "root_ok root" using assms that by (auto simp: Valid_def list_all_iff split: if_splits)
    have "(path_clean v = root \<or> has_prefix (path_clean v) (root @ ''/'')) \<longleftrightarrow>
        (join ''/'' (elems v) = join ''/'' (elems root) \<or> has_prefix (join ''/'' (elems v)) (join ''/'' (elems root) @ ''/''))"
      unfolding v by (subst (1 2) root_elems(1) [OF ok]) (simp add: has_prefix_def)
    also have "\<dots> \<longleftrightarrow> (\<exists>rest. elems v = elems root @ rest)"
      by (rule join_prefix [OF elems_plain elems_plain root_elems(2) [OF ok]])
    finally show ?thesis .
  qed
  with True dots show ?thesis by (auto simp: AllowsPath_def list_ex_iff)
qed

definition sample_policy :: policy where
  "sample_policy = \<lparr>po_Domains = [''files''], po_Operations = [''host_file_read''],
     po_OperationVersions = [(''host_file_read'', replicate 64 (CHR ''a''))], po_Write = False, po_AutoApprove = False,
     po_FileRoots = [''/srv/www'']\<rparr>"

lemma sample_policy_valid: "Valid (Some sample_policy)"
  by (simp add: Valid_def sample_policy_def Domains_def lookup_or_def validHex_def numeral_eq_Suc hex_val_def operation_char_def
      is_lower_def is_digit_def byte_def root_ok_def validFilePath_def has_prefix_def contains_any_def path_clean_def)

lemma granted_paths_below_roots_witness:
  "AllowsPath (Some sample_policy) ''/srv/www/a'' \<and> \<not> AllowsPath (Some sample_policy) ''/srv/www/../x''"
  using granted_paths_below_roots [OF sample_policy_valid, of "''/srv/www/a''"]
    granted_paths_below_roots [OF sample_policy_valid, of "''/srv/www/../x''"]
  by (simp add: sample_policy_def validFilePath_def has_prefix_def contains_any_def elems_def)

end
