(* ===== verification/McpOperations.thy ===== *)
theory McpOperations
  imports McpPolicy
begin

text \<open>
  \<open>internal/mcpaccess/operations.go\<close>: the durable queue of planned host operations. A client plans
  an operation under its own key, an administrator decides on it, a worker claims it, and its
  outcome is recorded. The private state file is \<open>os_file\<close>; every save names whether the write
  succeeded and, when it failed, whether the file was replaced nevertheless.
\<close>

section \<open>State\<close>

datatype mcp_error = MErrUnavailable | MErrConflict | MErrInvalid | MErrUnauthorized | MErrLimited | MErrRandom | MErrOAuth

text \<open>
  \<open>encoding/json\<close> as the code uses it: \<open>js_canonical\<close> decodes with \<open>UseNumber\<close> and encodes again,
  \<open>js_valid\<close> is \<open>json.Valid\<close>, \<open>js_compact\<close> is \<open>json.Marshal\<close> of a \<open>RawMessage\<close>, \<open>js_array\<close> encodes the
  array of four strings and the raw arguments.
\<close>

record mcp_env =
  mx_G :: genv
  js_canonical :: "string \<Rightarrow> string option"
  js_valid :: "string \<Rightarrow> bool"
  js_compact :: "string \<Rightarrow> string option"
  js_array :: "string \<Rightarrow> string \<Rightarrow> string \<Rightarrow> string \<Rightarrow> string \<Rightarrow> string"

definition MaxOperations :: nat where "MaxOperations = 64"
definition MaxOperationArguments :: nat where "MaxOperationArguments = 98304"
definition MaxOperationResult :: nat where "MaxOperationResult = 98304"

record operation =
  o_ID :: string
  o_ClientID :: string
  o_Key :: string
  o_HostID :: string
  o_HostIdentity :: string
  o_Tool :: string
  o_Arguments :: string
  o_Digest :: string
  o_State :: string
  o_CreatedAt :: gotime
  o_ExpiresAt :: gotime
  o_UpdatedAt :: gotime
  o_ApprovedBy :: string
  o_Result :: string
  o_Error :: string

text \<open>A file that cannot be read, decrypted or decoded, or of another version, is \<open>BadFile\<close>.\<close>

datatype op_file = NoFile | BadFile | OpFile "operation list"

record operations =
  os_items :: "operation list"
  os_available :: bool
  os_file :: op_file

datatype save_io = Saved | SaveFailed bool

type_synonym 'a op_result = "(mcp_error + 'a) \<times> operations"

definition validOperationState :: "string \<Rightarrow> bool" where
  "validOperationState st = (st \<in> {''pending'', ''approved'', ''rejected'', ''executing'', ''submitted'', ''succeeded'',
     ''failed'', ''unknown'', ''expired''})"

definition operationDigest :: "mcp_env \<Rightarrow> operation \<Rightarrow> string" where
  "operationDigest M o1 = hex_encode (sha256 (mx_G M)
     (js_array M (o_ClientID o1) (o_HostID o1) (o_HostIdentity o1) (o_Tool o1) (o_Arguments o1)))"

definition save_ops :: "save_io \<Rightarrow> operation list \<Rightarrow> operations \<Rightarrow> bool \<times> operations" where
  "save_ops io next s =
     (case io of
        Saved \<Rightarrow> (True, s\<lparr>os_items := next, os_file := OpFile next\<rparr>)
      | SaveFailed replaced \<Rightarrow>
          (False, s\<lparr>os_available := False, os_file := (if replaced then OpFile next else os_file s)\<rparr>))"

section \<open>Opening\<close>

definition bad_operation :: "mcp_env \<Rightarrow> string list \<Rightarrow> operation \<Rightarrow> bool" where
  "bad_operation M seen o1 =
     (\<not> validHex (o_ID o1) 32 \<or> \<not> validHex (o_ClientID o1) 32 \<or> \<not> validHex (o_Digest o1) 64 \<or> o_ID o1 \<in> set seen \<or>
      \<not> validOperationState (o_State o1) \<or> MaxOperationArguments < length (o_Arguments o1) \<or>
      MaxOperationResult < length (o_Result o1) \<or> \<not> js_valid M (o_Arguments o1) \<or> operationDigest M o1 \<noteq> o_Digest o1)"

definition interrupted :: "gotime \<Rightarrow> operation \<Rightarrow> operation" where
  "interrupted now o1 =
     (if o_State o1 = ''executing''
      then o1\<lparr>o_State := ''unknown'', o_Error := ''execution_interrupted_verify_host_state'', o_UpdatedAt := now\<rparr> else o1)"

text \<open>The loop over the loaded items: whether all were valid, the items as it leaves them, whether one changed.\<close>

fun check_items :: "mcp_env \<Rightarrow> (nat \<Rightarrow> gotime) \<Rightarrow> nat \<Rightarrow> string list \<Rightarrow> operation list \<Rightarrow> bool \<times> operation list \<times> bool" where
  "check_items M now i seen [] = (True, [], False)"
| "check_items M now i seen (o1 # os) =
     (if bad_operation M seen o1 then (False, o1 # os, False)
      else case check_items M now (Suc i) (o_ID o1 # seen) os of
        (ok, os', changed) \<Rightarrow> (ok, interrupted (now i) o1 # os', changed \<or> o_State o1 = ''executing''))"

definition OpenOperations :: "mcp_env \<Rightarrow> (nat \<Rightarrow> gotime) \<Rightarrow> save_io \<Rightarrow> op_file \<Rightarrow> operations" where
  "OpenOperations M now io f =
     (case f of
        NoFile \<Rightarrow> \<lparr>os_items = [], os_available = True, os_file = f\<rparr>
      | BadFile \<Rightarrow> \<lparr>os_items = [], os_available = False, os_file = f\<rparr>
      | OpFile items \<Rightarrow>
          if MaxOperations < length items then \<lparr>os_items = items, os_available = False, os_file = f\<rparr>
          else case check_items M now 0 [] items of
            (ok, items', changed) \<Rightarrow>
              if \<not> ok then \<lparr>os_items = items', os_available = False, os_file = f\<rparr>
              else if changed then snd (save_ops io items' \<lparr>os_items = items', os_available = True, os_file = f\<rparr>)
              else \<lparr>os_items = items', os_available = True, os_file = f\<rparr>)"

section \<open>Operations\<close>

definition new_operation ::
    "mcp_env \<Rightarrow> string \<Rightarrow> string \<Rightarrow> string \<Rightarrow> string \<Rightarrow> string \<Rightarrow> string \<Rightarrow> gotime \<Rightarrow> operation" where
  "new_operation M clientID key hostID identity tool canonical now =
     (let o1 = \<lparr>o_ID = [], o_ClientID = clientID, o_Key = key, o_HostID = hostID, o_HostIdentity = identity, o_Tool = tool,
        o_Arguments = canonical, o_Digest = [], o_State = ''pending'', o_CreatedAt = now, o_ExpiresAt = now + 15 * Minute,
        o_UpdatedAt = now, o_ApprovedBy = [], o_Result = [], o_Error = []\<rparr> in
      o1\<lparr>o_Digest := operationDigest M o1\<rparr>)"

definition retained :: "gotime \<Rightarrow> operation \<Rightarrow> bool" where
  "retained now prior = (o_State prior = ''executing'' \<or> o_State prior = ''submitted'' \<or>
     now - o_UpdatedAt prior < 7 * 24 * Hour)"

definition bad_plan :: "string \<Rightarrow> string \<Rightarrow> string \<Rightarrow> string \<Rightarrow> string \<Rightarrow> string \<Rightarrow> bool" where
  "bad_plan clientID key hostID identity tool arguments =
     (\<not> validHex clientID 32 \<or> length key < 8 \<or> 128 < length key \<or> hostID = [] \<or> 128 < length hostID \<or>
      \<not> validHex identity 64 \<or> tool = [] \<or> 128 < length tool \<or> MaxOperationArguments < length arguments)"

definition Plan ::
    "mcp_env \<Rightarrow> gotime \<Rightarrow> string option \<Rightarrow> save_io \<Rightarrow> string \<Rightarrow> string \<Rightarrow> string \<Rightarrow> string \<Rightarrow> string \<Rightarrow> string \<Rightarrow> bool \<Rightarrow>
     operations \<Rightarrow> operation op_result" where
  "Plan M now rnd io clientID key hostID identity tool arguments automatic s =
     (if \<not> os_available s then (Inl MErrUnavailable, s)
      else if bad_plan clientID key hostID identity tool arguments then (Inl MErrInvalid, s)
      else case js_canonical M arguments of
        None \<Rightarrow> (Inl MErrInvalid, s)
      | Some canonical \<Rightarrow>
          if MaxOperationArguments < length canonical then (Inl MErrInvalid, s)
          else
            let o1 = new_operation M clientID key hostID identity tool canonical now in
            case List.find (\<lambda>prior. o_ClientID prior = clientID \<and> o_Key prior = key) (os_items s) of
              Some prior \<Rightarrow> if o_Digest prior \<noteq> o_Digest o1 then (Inl MErrConflict, s) else (Inr prior, s)
            | None \<Rightarrow>
                let kept = filter (retained now) (os_items s) in
                if MaxOperations \<le> length kept then (Inl MErrLimited, s)
                else (case rnd of
                    None \<Rightarrow> (Inl MErrRandom, s)
                  | Some v \<Rightarrow>
                      let o2 = o1\<lparr>o_ID := hex_encode v\<rparr>;
                          o3 = (if automatic then o2\<lparr>o_State := ''approved'', o_ApprovedBy := ''client_policy''\<rparr> else o2) in
                      case save_ops io (kept @ [o3]) s of
                        (True, s') \<Rightarrow> (Inr o3, s')
                      | (False, s') \<Rightarrow> (Inl MErrUnavailable, s')))"

definition find_op :: "(operation \<Rightarrow> bool) \<Rightarrow> operations \<Rightarrow> mcp_error + operation" where
  "find_op P s =
     (if \<not> os_available s then Inl MErrUnavailable
      else case List.find P (os_items s) of None \<Rightarrow> Inl MErrInvalid | Some o1 \<Rightarrow> Inr o1)"

definition Get :: "string \<Rightarrow> operations \<Rightarrow> mcp_error + operation" where
  "Get i = find_op (\<lambda>o1. o_ID o1 = i)"

definition ByKey :: "string \<Rightarrow> string \<Rightarrow> operations \<Rightarrow> mcp_error + operation" where
  "ByKey clientID key = find_op (\<lambda>o1. o_ClientID o1 = clientID \<and> o_Key o1 = key)"

definition List_ops :: "string \<Rightarrow> operations \<Rightarrow> mcp_error + operation list" where
  "List_ops clientID s = (if \<not> os_available s then Inl MErrUnavailable
     else Inr (filter (\<lambda>o1. clientID = [] \<or> clientID = o_ClientID o1) (os_items s)))"

text \<open>The search-update-save frame; \<open>now\<close> stamps the change.\<close>

definition change ::
    "gotime \<Rightarrow> save_io \<Rightarrow> string \<Rightarrow> (operation \<Rightarrow> mcp_error + operation) \<Rightarrow> operations \<Rightarrow> operation op_result" where
  "change now io i update s =
     (if \<not> os_available s then (Inl MErrUnavailable, s)
      else case index_of (\<lambda>o1. o_ID o1 = i) (os_items s) of
        None \<Rightarrow> (Inl MErrInvalid, s)
      | Some k \<Rightarrow> (case update (os_items s ! k) of
          Inl e \<Rightarrow> (Inl e, s)
        | Inr o1 \<Rightarrow>
            let o2 = o1\<lparr>o_UpdatedAt := now\<rparr> in
            case save_ops io ((os_items s)[k := o2]) s of
              (True, s') \<Rightarrow> (Inr o2, s')
            | (False, s') \<Rightarrow> (Inl MErrUnavailable, s')))"

definition Decide ::
    "gotime \<Rightarrow> gotime \<Rightarrow> save_io \<Rightarrow> string \<Rightarrow> string \<Rightarrow> string \<Rightarrow> bool \<Rightarrow> operations \<Rightarrow> operation op_result" where
  "Decide now1 now2 io i digest actor approve = change now2 io i (\<lambda>o1.
     if o_State o1 \<noteq> ''pending'' \<or> o_Digest o1 \<noteq> digest \<or> actor = [] then Inl MErrConflict
     else if \<not> now1 < o_ExpiresAt o1 then Inl MErrConflict
     else Inr (o1\<lparr>o_State := (if approve then ''approved'' else ''rejected''), o_ApprovedBy := actor\<rparr>))"

definition Claim ::
    "gotime \<Rightarrow> gotime \<Rightarrow> save_io \<Rightarrow> string \<Rightarrow> string \<Rightarrow> string \<Rightarrow> string \<Rightarrow> operations \<Rightarrow> operation op_result" where
  "Claim now1 now2 io i clientID digest identity = change now2 io i (\<lambda>o1.
     if o_State o1 \<noteq> ''approved'' \<or> o_ClientID o1 \<noteq> clientID \<or> o_Digest o1 \<noteq> digest \<or> o_HostIdentity o1 \<noteq> identity \<or>
        \<not> now1 < o_ExpiresAt o1 then Inl MErrConflict
     else Inr (o1\<lparr>o_State := ''executing''\<rparr>))"

definition finish_state :: "string \<Rightarrow> operation \<Rightarrow> bool" where
  "finish_state st o1 = (st \<in> {''submitted'', ''succeeded'', ''failed'', ''unknown''} \<or>
     (st = ''approved'' \<and> o_HostID o1 \<noteq> ''local''))"

definition finish_update :: "mcp_env \<Rightarrow> string \<Rightarrow> string \<Rightarrow> string \<Rightarrow> operation \<Rightarrow> mcp_error + operation" where
  "finish_update M st res errorCode o1 =
     (if o_State o1 \<noteq> ''executing'' \<or> \<not> finish_state st o1 \<or> MaxOperationResult < length res \<or>
         (0 < length res \<and> \<not> js_valid M res) \<or> 128 < length errorCode then Inl MErrConflict
      else Inr (o1\<lparr>o_State := st, o_Result := res, o_Error := errorCode\<rparr>))"

definition Finish ::
    "mcp_env \<Rightarrow> gotime \<Rightarrow> save_io \<Rightarrow> string \<Rightarrow> string \<Rightarrow> string \<Rightarrow> string \<Rightarrow> operations \<Rightarrow> operation op_result" where
  "Finish M now io i st res errorCode s =
     (if 0 < length res
      then (case js_compact M res of
          None \<Rightarrow> (Inl MErrInvalid, s)
        | Some encoded \<Rightarrow>
            if MaxOperationResult < length encoded then (Inl MErrInvalid, s)
            else change now io i (finish_update M st encoded errorCode) s)
      else change now io i (finish_update M st res errorCode) s)"

definition Reset_ops :: "save_io \<Rightarrow> operations \<Rightarrow> mcp_error option \<times> operations" where
  "Reset_ops io s = (case save_ops io [] s of (True, s') \<Rightarrow> (None, s') | (False, s') \<Rightarrow> (Some MErrUnavailable, s'))"

definition revoked :: "string \<Rightarrow> operation \<Rightarrow> bool" where
  "revoked clientID o1 = ((clientID = [] \<or> clientID = o_ClientID o1) \<and> (o_State o1 = ''pending'' \<or> o_State o1 = ''approved''))"

definition invalidate_op :: "string \<Rightarrow> (nat \<Rightarrow> gotime) \<Rightarrow> nat \<times> operation \<Rightarrow> operation" where
  "invalidate_op clientID now p =
     (if revoked clientID (snd p)
      then (snd p)\<lparr>o_State := ''rejected'', o_Error := ''authorization_revoked'', o_UpdatedAt := now (fst p)\<rparr> else snd p)"

definition Invalidate :: "(nat \<Rightarrow> gotime) \<Rightarrow> save_io \<Rightarrow> string \<Rightarrow> operations \<Rightarrow> mcp_error option \<times> operations" where
  "Invalidate now io clientID s =
     (if \<not> os_available s then (Some MErrUnavailable, s)
      else if \<not> list_ex (revoked clientID) (os_items s) then (None, s)
      else case save_ops io (map (invalidate_op clientID now) (enumerate 0 (os_items s))) s of
        (True, s') \<Rightarrow> (None, s') | (False, s') \<Rightarrow> (Some MErrUnavailable, s'))"

definition Observe :: "mcp_env \<Rightarrow> gotime \<Rightarrow> save_io \<Rightarrow> string \<Rightarrow> string \<Rightarrow> string \<Rightarrow> operations \<Rightarrow> operation op_result" where
  "Observe M now io i st res0 s =
     (case js_compact M res0 of
        None \<Rightarrow> (Inl MErrInvalid, s)
      | Some res \<Rightarrow>
          if MaxOperationResult < length res then (Inl MErrInvalid, s)
          else change now io i (\<lambda>o1.
            if (o_State o1 \<noteq> ''submitted'' \<and> o_State o1 \<noteq> ''unknown'') \<or> \<not> finish_state st o1 \<or>
               MaxOperationResult < length res \<or> \<not> js_valid M res then Inl MErrConflict
            else Inr (o1\<lparr>o_State := st, o_Result := res, o_Error := []\<rparr>)) s)"

end
