(* ===== verification/McpAccess.thy ===== *)
theory McpAccess
  imports McpOperations
begin

text \<open>
  \<open>internal/mcpaccess/store.go\<close>: the delegated credentials of MCP clients - grants, their resource
  version, revocation, and the bounded use of a token. The write of \<open>access.json\<close> has the outcomes
  of \<open>save_io\<close>; the content of the file is \<open>mt_file\<close>.
\<close>

section \<open>State\<close>

definition MaxClients :: nat where "MaxClients = 32"
definition MaxHosts :: nat where "MaxHosts = 101"
definition MaxBytes :: nat where "MaxBytes = 524288"

record host_grant =
  hg_ID :: string
  hg_Identity :: string

record mcp_client =
  mc_ID :: string
  mc_Name :: string
  mc_Hosts :: "host_grant list"
  mc_CreatedAt :: gotime
  mc_ExpiresAt :: gotime
  mc_Policy :: "policy option"

record mcp_credential =
  cd_Client :: mcp_client
  cd_Digest :: string

record mcp_state =
  ms_Version :: int
  ms_Enabled :: bool
  ms_Clients :: "mcp_credential list"

record snapshot =
  sn_Enabled :: bool
  sn_Available :: bool
  sn_ResourceVersion :: string
  sn_Clients :: "mcp_client list"

record principal =
  pr_Client :: mcp_client
  pr_digest :: string

text \<open>
  The counters of a client are shared by pointer with the release functions of its requests:
  \<open>us_ref\<close> names the object, \<open>mt_open\<close> the release functions not yet called, each with the object
  it decrements.
\<close>

record mcp_usage =
  us_minute :: int
  us_count :: nat
  us_active :: nat
  us_ref :: nat

datatype access_file = NoAccess | BadAccess | AccessFile mcp_state

record mcp_store =
  mt_state :: mcp_state
  mt_available :: bool
  mt_usage :: "(string \<times> mcp_usage) list"
  mt_open :: "(nat \<times> nat) list"
  mt_next :: nat
  mt_file :: access_file

text \<open>\<open>ax_encode\<close> is \<open>json.Marshal\<close> of the state.\<close>

record access_env =
  ax_G :: genv
  ax_encode :: "mcp_state \<Rightarrow> string option"

type_synonym 'a access = "(mcp_error + 'a) \<times> mcp_store"

definition zero_mcp_state :: mcp_state where
  "zero_mcp_state = \<lparr>ms_Version = 1, ms_Enabled = False, ms_Clients = []\<rparr>"

section \<open>Validation\<close>

definition validName :: "string \<Rightarrow> bool" where
  "validName s = (case runes s of None \<Rightarrow> False
     | Some rs \<Rightarrow> trim_space s = s \<and> s \<noteq> [] \<and> length rs \<le> 48 \<and> list_all (\<lambda>r. \<not> is_control r) rs)"

fun hosts_ok :: "string list \<Rightarrow> host_grant list \<Rightarrow> bool" where
  "hosts_ok seen [] = True"
| "hosts_ok seen (h # hs) =
     (if hg_ID h = [] \<or> 128 < length (hg_ID h) \<or> \<not> validHex (hg_Identity h) 64 \<or> hg_ID h \<in> set seen then False
      else hosts_ok (hg_ID h # seen) hs)"

definition validHosts :: "host_grant list \<Rightarrow> bool" where
  "validHosts hosts = (if length hosts = 0 \<or> MaxHosts < length hosts then False else hosts_ok [] hosts)"

definition client_ok :: "mcp_credential \<Rightarrow> bool" where
  "client_ok c =
     (validHex (mc_ID (cd_Client c)) 32 \<and> validHex (cd_Digest c) 64 \<and> validName (mc_Name (cd_Client c)) \<and>
      validHosts (mc_Hosts (cd_Client c)) \<and> Valid (mc_Policy (cd_Client c)) \<and> mc_CreatedAt (cd_Client c) \<noteq> zero_time \<and>
      mc_CreatedAt (cd_Client c) < mc_ExpiresAt (cd_Client c) \<and>
      mc_ExpiresAt (cd_Client c) - mc_CreatedAt (cd_Client c) \<le> 90 * 24 * Hour)"

fun clients_ok :: "string list \<Rightarrow> mcp_credential list \<Rightarrow> bool" where
  "clients_ok seen [] = True"
| "clients_ok seen (c # cs) =
     (if \<not> client_ok c \<or> mc_ID (cd_Client c) \<in> set seen then False else clients_ok (mc_ID (cd_Client c) # seen) cs)"

definition validState :: "mcp_state \<Rightarrow> bool" where
  "validState v = (if ms_Version v \<noteq> 1 \<or> MaxClients < length (ms_Clients v) then False else clients_ok [] (ms_Clients v))"

definition Open_access :: "access_file \<Rightarrow> mcp_store" where
  "Open_access f =
     (let s = \<lparr>mt_state = zero_mcp_state, mt_available = True, mt_usage = [], mt_open = [], mt_next = 0, mt_file = f\<rparr> in
      case f of NoAccess \<Rightarrow> s
      | BadAccess \<Rightarrow> s\<lparr>mt_available := False\<rparr>
      | AccessFile v \<Rightarrow> if validState v then s\<lparr>mt_state := v\<rparr> else s\<lparr>mt_available := False\<rparr>)"

section \<open>Reading\<close>

definition version :: "access_env \<Rightarrow> mcp_state \<Rightarrow> string" where
  "version E v = ''sha256:'' @ hex_encode (sha256 (ax_G E) (case ax_encode E v of None \<Rightarrow> [] | Some b \<Rightarrow> b))"

definition Snapshot :: "access_env \<Rightarrow> mcp_store \<Rightarrow> snapshot" where
  "Snapshot E s = \<lparr>sn_Enabled = (mt_available s \<and> ms_Enabled (mt_state s)), sn_Available = mt_available s,
     sn_ResourceVersion = version E (mt_state s), sn_Clients = map cd_Client (ms_Clients (mt_state s))\<rparr>"

definition Enabled :: "mcp_store \<Rightarrow> bool" where
  "Enabled s = (mt_available s \<and> ms_Enabled (mt_state s))"

definition expected :: "access_env \<Rightarrow> string \<Rightarrow> mcp_store \<Rightarrow> mcp_error option" where
  "expected E v s =
     (if \<not> mt_available s then Some MErrUnavailable
      else if v \<noteq> version E (mt_state s) then Some MErrConflict else None)"

definition find_client :: "gotime \<Rightarrow> string \<Rightarrow> mcp_store \<Rightarrow> mcp_error + principal" where
  "find_client now digest s =
     (if \<not> mt_available s \<or> \<not> ms_Enabled (mt_state s) then Inl MErrUnauthorized
      else case List.find (\<lambda>c. cd_Digest c = digest \<and> now < mc_ExpiresAt (cd_Client c)) (ms_Clients (mt_state s)) of
        None \<Rightarrow> Inl MErrUnauthorized
      | Some c \<Rightarrow> Inr \<lparr>pr_Client = cd_Client c, pr_digest = digest\<rparr>)"

definition Active :: "gotime \<Rightarrow> principal \<Rightarrow> mcp_store \<Rightarrow> bool" where
  "Active now p s = is_ok (find_client now (pr_digest p) s)"

definition LookupClient :: "gotime \<Rightarrow> string \<Rightarrow> mcp_store \<Rightarrow> mcp_error + principal" where
  "LookupClient now i s =
     (case List.find (\<lambda>c. mc_ID (cd_Client c) = i) (ms_Clients (mt_state s)) of
        None \<Rightarrow> Inl MErrUnauthorized | Some c \<Rightarrow> find_client now (cd_Digest c) s)"

section \<open>Changing\<close>

definition save_access :: "access_env \<Rightarrow> save_io \<Rightarrow> mcp_state \<Rightarrow> mcp_store \<Rightarrow> mcp_error option \<times> mcp_store" where
  "save_access E io next s =
     (if (case ax_encode E next of None \<Rightarrow> True | Some b \<Rightarrow> MaxBytes < length b) then (Some MErrLimited, s)
      else case io of
        Saved \<Rightarrow> (None, s\<lparr>mt_state := next, mt_file := AccessFile next\<rparr>)
      | SaveFailed replaced \<Rightarrow>
          (Some MErrUnavailable, s\<lparr>mt_available := False, mt_file := (if replaced then AccessFile next else mt_file s)\<rparr>))"

definition SetEnabled :: "access_env \<Rightarrow> save_io \<Rightarrow> bool \<Rightarrow> string \<Rightarrow> mcp_store \<Rightarrow> snapshot access" where
  "SetEnabled E io enabled v s =
     (case expected E v s of Some e \<Rightarrow> (Inl e, s)
      | None \<Rightarrow> (case save_access E io ((mt_state s)\<lparr>ms_Enabled := enabled\<rparr>) s of
          (Some e, s') \<Rightarrow> (Inl e, s') | (None, s') \<Rightarrow> (Inr (Snapshot E s'), s')))"

text \<open>\<open>rid\<close> and \<open>rsecret\<close> are the 16 and 32 random bytes of the identifier and of the secret.\<close>

definition token_of :: "string \<Rightarrow> string" where "token_of secret = ''kpm_'' @ hex_encode secret"

definition token_digest :: "access_env \<Rightarrow> string \<Rightarrow> string" where
  "token_digest E token = hex_encode (sha256 (ax_G E) token)"

definition CreateWithPolicy ::
    "access_env \<Rightarrow> gotime \<Rightarrow> string option \<Rightarrow> string option \<Rightarrow> save_io \<Rightarrow> string \<Rightarrow> host_grant list \<Rightarrow> policy option \<Rightarrow>
     duration \<Rightarrow> string \<Rightarrow> mcp_store \<Rightarrow> (mcp_client \<times> string) access" where
  "CreateWithPolicy E now rid rsecret io name hosts pol lifetime v s =
     (case expected E v s of Some e \<Rightarrow> (Inl e, s)
      | None \<Rightarrow>
          if \<not> ms_Enabled (mt_state s) \<or> \<not> validName name \<or> \<not> validHosts hosts \<or> \<not> Valid pol \<or> lifetime < Hour \<or>
             90 * 24 * Hour < lifetime \<or> MaxClients \<le> length (ms_Clients (mt_state s)) then (Inl MErrInvalid, s)
          else case rid of None \<Rightarrow> (Inl MErrRandom, s)
          | Some i \<Rightarrow> (case rsecret of None \<Rightarrow> (Inl MErrRandom, s)
            | Some secret \<Rightarrow>
                let token = token_of secret;
                    c = \<lparr>mc_ID = hex_encode i, mc_Name = name, mc_Hosts = hosts, mc_CreatedAt = now,
                         mc_ExpiresAt = now + lifetime, mc_Policy = pol\<rparr>;
                    next = (mt_state s)\<lparr>ms_Clients := ms_Clients (mt_state s) @ [\<lparr>cd_Client = c, cd_Digest = token_digest E token\<rparr>]\<rparr> in
                case save_access E io next s of
                  (Some e, s') \<Rightarrow> (Inl e, s') | (None, s') \<Rightarrow> (Inr (c, token), s')))"

definition revokeLocked :: "access_env \<Rightarrow> save_io \<Rightarrow> string \<Rightarrow> mcp_store \<Rightarrow> snapshot access" where
  "revokeLocked E io i s =
     (if \<not> list_ex (\<lambda>c. mc_ID (cd_Client c) = i) (ms_Clients (mt_state s)) then (Inl MErrInvalid, s)
      else case save_access E io ((mt_state s)\<lparr>ms_Clients := filter (\<lambda>c. mc_ID (cd_Client c) \<noteq> i) (ms_Clients (mt_state s))\<rparr>) s of
        (Some e, s') \<Rightarrow> (Inl e, s')
      | (None, s') \<Rightarrow> let s2 = s'\<lparr>mt_usage := alist_del i (mt_usage s')\<rparr> in (Inr (Snapshot E s2), s2))"

definition Revoke :: "access_env \<Rightarrow> save_io \<Rightarrow> string \<Rightarrow> string \<Rightarrow> mcp_store \<Rightarrow> snapshot access" where
  "Revoke E io i v s = (case expected E v s of Some e \<Rightarrow> (Inl e, s) | None \<Rightarrow> revokeLocked E io i s)"

definition revokeOAuthGrant :: "access_env \<Rightarrow> save_io \<Rightarrow> string \<Rightarrow> mcp_store \<Rightarrow> mcp_error option \<times> mcp_store" where
  "revokeOAuthGrant E io i s =
     (if \<not> mt_available s then (Some MErrUnavailable, s)
      else case revokeLocked E io i s of
        (Inr _, s') \<Rightarrow> (None, s')
      | (Inl e, s') \<Rightarrow> (if e = MErrInvalid then None else Some e, s'))"

definition Reset_access :: "access_env \<Rightarrow> save_io \<Rightarrow> mcp_store \<Rightarrow> mcp_error option \<times> mcp_store" where
  "Reset_access E io s = (case save_access E io zero_mcp_state s of
     (Some e, s') \<Rightarrow> (Some e, s') | (None, s') \<Rightarrow> (None, s'\<lparr>mt_available := True, mt_usage := []\<rparr>))"

section \<open>Using a token\<close>

definition usage_now :: "gotime \<Rightarrow> string \<Rightarrow> mcp_store \<Rightarrow> mcp_usage" where
  "usage_now now i s =
     (let u = lookup_or \<lparr>us_minute = 0, us_count = 0, us_active = 0, us_ref = mt_next s\<rparr> (mt_usage s) i;
          minute = quot (unix now) 60 in
      if minute \<noteq> us_minute u then u\<lparr>us_minute := minute, us_count := 0\<rparr> else u)"

text \<open>The result carries the ticket of the release function.\<close>

definition beginLocked :: "gotime \<Rightarrow> principal \<Rightarrow> mcp_store \<Rightarrow> (principal \<times> nat) access" where
  "beginLocked now p s =
     (let i = mc_ID (pr_Client p); u = usage_now now i s; n = mt_next s;
          s1 = s\<lparr>mt_usage := alist_put i u (mt_usage s), mt_next := Suc n\<rparr> in
      if 120 \<le> us_count u \<or> 2 \<le> us_active u then (Inl MErrLimited, s1)
      else (Inr (p, n), s1\<lparr>mt_usage := alist_put i (u\<lparr>us_count := us_count u + 1, us_active := us_active u + 1\<rparr>) (mt_usage s1),
              mt_open := (n, us_ref u) # mt_open s1\<rparr>))"

definition Begin :: "access_env \<Rightarrow> gotime \<Rightarrow> string \<Rightarrow> mcp_store \<Rightarrow> (principal \<times> nat) access" where
  "Begin E now token s =
     (if length token \<noteq> 68 \<or> \<not> has_prefix token ''kpm_'' \<or> \<not> validHex (drop 4 token) 64 then (Inl MErrUnauthorized, s)
      else case find_client now (token_digest E token) s of
        Inl e \<Rightarrow> (Inl e, s) | Inr p \<Rightarrow> beginLocked now p s)"

definition beginOAuthGrant :: "gotime \<Rightarrow> string \<Rightarrow> mcp_store \<Rightarrow> (principal \<times> nat) access" where
  "beginOAuthGrant now i s =
     (case LookupClient now i s of Inl e \<Rightarrow> (Inl e, s) | Inr p \<Rightarrow> beginLocked now p s)"

text \<open>The release function of a ticket works once; it decrements its own object, also when the
  table no longer holds it.\<close>

definition dec_ref :: "nat \<Rightarrow> mcp_usage \<Rightarrow> mcp_usage" where
  "dec_ref r u = (if us_ref u = r then u\<lparr>us_active := us_active u - 1\<rparr> else u)"

definition release :: "nat \<Rightarrow> mcp_store \<Rightarrow> mcp_store" where
  "release n s =
     (case map_of (mt_open s) n of None \<Rightarrow> s
      | Some r \<Rightarrow> s\<lparr>mt_open := alist_del n (mt_open s), mt_usage := map (\<lambda>p. (fst p, dec_ref r (snd p))) (mt_usage s)\<rparr>)"

end
