(* ===== verification/McpOAuth.thy ===== *)
theory McpOAuth
  imports McpAccess Netip
begin

text \<open>
  \<open>internal/mcpaccess/oauth.go\<close>: the authorization server of the MCP endpoint. Clients register,
  an administrator consents to an authorization request, the code is exchanged (with PKCE) for a
  family of tokens, and refresh tokens rotate within their family. A grant of the client store
  (\<open>mcp_store\<close>) stands behind every code and family. The write of \<open>oauth.json\<close> has the outcomes of
  \<open>save_io\<close>. \<open>now\<close> gives the successive clock readings of an operation; random bytes are arguments,
  \<open>None\<close> where the random source fails and the request panics.
\<close>

section \<open>State\<close>

record oauth_registration =
  og_ID :: string
  og_Name :: string
  og_RedirectURIs :: "string list"
  og_Method :: string
  og_SecretDigest :: string
  og_CreatedAt :: gotime

record oauth_authorization =
  oz_ID :: string
  oz_ClientID :: string
  oz_ClientName :: string
  oz_RedirectURI :: string
  oz_State :: string
  oz_Challenge :: string
  oz_Resource :: string
  oz_ExpiresAt :: gotime

record oauth_code =
  oc_Digest :: string
  oc_ClientID :: string
  oc_RedirectURI :: string
  oc_Challenge :: string
  oc_Resource :: string
  oc_GrantID :: string
  oc_FamilyID :: string
  oc_ExpiresAt :: gotime
  oc_Used :: bool

record oauth_family =
  of_ID :: string
  of_ClientID :: string
  of_GrantID :: string
  of_Resource :: string
  of_AccessDigest :: string
  of_RefreshDigest :: string
  of_UsedRefresh :: "string list"
  of_AccessExpiresAt :: gotime
  of_ExpiresAt :: gotime
  of_Revoked :: bool

record oauth_state =
  ot_Version :: int
  ot_Clients :: "oauth_registration list"
  ot_Authorizations :: "oauth_authorization list"
  ot_Codes :: "oauth_code list"
  ot_Families :: "oauth_family list"

record oauth_tokens =
  tk_AccessToken :: string
  tk_RefreshToken :: string
  tk_TokenType :: string
  tk_ExpiresIn :: int
  tk_Scope :: string

datatype oauth_file = NoOAuth | BadOAuth | OAuthFile oauth_state

record oauth =
  oa_state :: oauth_state
  oa_available :: bool
  oa_file :: oauth_file

text \<open>
  \<open>net/url\<close> as the code uses it: \<open>oe_url\<close> is \<open>url.Parse\<close>, \<open>oe_query\<close> is \<open>url.ParseQuery\<close>, and
  \<open>oe_redirect\<close> sets the given parameters in the query of a URL.
\<close>

record go_url =
  gu_Scheme :: string
  gu_Hostname :: string
  gu_has_User :: bool
  gu_Fragment :: string
  gu_RawPath :: string
  gu_Opaque :: string
  gu_RawQuery :: string

record oauth_env =
  oe_ax :: access_env
  oe_url :: "string \<Rightarrow> go_url option"
  oe_query :: "string \<Rightarrow> (string \<times> string list) list option"
  oe_redirect :: "string \<Rightarrow> (string \<times> string) list \<Rightarrow> string"

definition zero_oauth_state :: oauth_state where
  "zero_oauth_state = \<lparr>ot_Version = 1, ot_Clients = [], ot_Authorizations = [], ot_Codes = [], ot_Families = []\<rparr>"

section \<open>Tokens and redirects\<close>

definition oauthRandom :: "string \<Rightarrow> string \<Rightarrow> string" where
  "oauthRandom pre data = pre @ b64_encode data"

definition oauthDigest :: "oauth_env \<Rightarrow> string \<Rightarrow> string" where
  "oauthDigest E value = hex_encode (sha256 (ax_G (oe_ax E)) value)"

definition oauthOpaque :: "string \<Rightarrow> string \<Rightarrow> bool" where
  "oauthOpaque value pre =
     (if \<not> has_prefix value pre \<or> length value \<noteq> length pre + 43 then False
      else case b64_decode (drop (length pre) value) of None \<Rightarrow> False | Some b \<Rightarrow> length b = 32)"

text \<open>\<open>net.ParseIP(h)\<close> is an address whose \<open>IsLoopback\<close> holds.\<close>

definition loopback_ip :: "string \<Rightarrow> bool" where
  "loopback_ip h = (parse_ip_ok h \<and> (case parse_addr h of None \<Rightarrow> False | Some a \<Rightarrow> is_loopback (unmap a)))"

definition ValidOAuthRedirect :: "oauth_env \<Rightarrow> string \<Rightarrow> bool" where
  "ValidOAuthRedirect E raw =
     (if length raw = 0 \<or> 2048 < length raw \<or> contains_any raw [CHR 0x0D, CHR 0x0A, CHR 0x5C] then False
      else case oe_url E raw of None \<Rightarrow> False
      | Some u \<Rightarrow>
          if gu_Hostname u = [] \<or> CHR ''*'' \<in> set (gu_Hostname u) \<or> gu_has_User u \<or> gu_Fragment u \<noteq> [] \<or>
             gu_RawPath u \<noteq> [] \<or> gu_Opaque u \<noteq> [] then False
          else if gu_Scheme u \<noteq> ''https'' \<and>
             (gu_Scheme u \<noteq> ''http'' \<or> (gu_Hostname u \<noteq> ''localhost'' \<and> \<not> loopback_ip (gu_Hostname u))) then False
          else case oe_query E (gu_RawQuery u) of None \<Rightarrow> False
          | Some q \<Rightarrow> list_all (\<lambda>k. k \<notin> set (map fst q)) [''code'', ''state'', ''error'', ''iss''])"

definition oauth_methods :: "string list" where
  "oauth_methods = [''none'', ''client_secret_post'', ''client_secret_basic'']"

section \<open>Opening and saving\<close>

definition oauth_client_ok :: "oauth_env \<Rightarrow> oauth_registration \<Rightarrow> bool" where
  "oauth_client_ok E c =
     (validHex (og_ID c) 32 \<and> validName (og_Name c) \<and> og_RedirectURIs c \<noteq> [] \<and> length (og_RedirectURIs c) \<le> 8 \<and>
      og_Method c \<in> set oauth_methods \<and> list_all (ValidOAuthRedirect E) (og_RedirectURIs c))"

definition oauth_family_ok :: "oauth_family \<Rightarrow> bool" where
  "oauth_family_ok f =
     (validHex (of_ID f) 32 \<and> validHex (of_GrantID f) 32 \<and> validHex (of_AccessDigest f) 64 \<and>
      validHex (of_RefreshDigest f) 64 \<and> length (of_UsedRefresh f) \<le> 4096)"

definition OpenOAuth :: "oauth_env \<Rightarrow> oauth_file \<Rightarrow> oauth" where
  "OpenOAuth E f =
     (case f of
        NoOAuth \<Rightarrow> \<lparr>oa_state = zero_oauth_state, oa_available = True, oa_file = f\<rparr>
      | BadOAuth \<Rightarrow> \<lparr>oa_state = zero_oauth_state, oa_available = False, oa_file = f\<rparr>
      | OAuthFile st \<Rightarrow>
          \<lparr>oa_state = st,
           oa_available = (ot_Version st = 1 \<and> length (ot_Clients st) \<le> 128 \<and> length (ot_Authorizations st) \<le> 64 \<and>
             length (ot_Codes st) \<le> 64 \<and> length (ot_Families st) \<le> MaxClients \<and>
             list_all (oauth_client_ok E) (ot_Clients st) \<and> list_all oauth_family_ok (ot_Families st)),
           oa_file = f\<rparr>)"

definition copy_registration :: "oauth_registration \<Rightarrow> oauth_registration" where
  "copy_registration c = \<lparr>og_ID = json_text (og_ID c), og_Name = json_text (og_Name c),
     og_RedirectURIs = map json_text (og_RedirectURIs c), og_Method = json_text (og_Method c),
     og_SecretDigest = json_text (og_SecretDigest c), og_CreatedAt = og_CreatedAt c\<rparr>"

definition copy_authorization :: "oauth_authorization \<Rightarrow> oauth_authorization" where
  "copy_authorization a = \<lparr>oz_ID = json_text (oz_ID a), oz_ClientID = json_text (oz_ClientID a),
     oz_ClientName = json_text (oz_ClientName a), oz_RedirectURI = json_text (oz_RedirectURI a),
     oz_State = json_text (oz_State a), oz_Challenge = json_text (oz_Challenge a),
     oz_Resource = json_text (oz_Resource a), oz_ExpiresAt = oz_ExpiresAt a\<rparr>"

definition copy_code :: "oauth_code \<Rightarrow> oauth_code" where
  "copy_code c = \<lparr>oc_Digest = json_text (oc_Digest c), oc_ClientID = json_text (oc_ClientID c),
     oc_RedirectURI = json_text (oc_RedirectURI c), oc_Challenge = json_text (oc_Challenge c),
     oc_Resource = json_text (oc_Resource c), oc_GrantID = json_text (oc_GrantID c),
     oc_FamilyID = json_text (oc_FamilyID c), oc_ExpiresAt = oc_ExpiresAt c, oc_Used = oc_Used c\<rparr>"

definition copy_family :: "oauth_family \<Rightarrow> oauth_family" where
  "copy_family f = \<lparr>of_ID = json_text (of_ID f), of_ClientID = json_text (of_ClientID f),
     of_GrantID = json_text (of_GrantID f), of_Resource = json_text (of_Resource f),
     of_AccessDigest = json_text (of_AccessDigest f), of_RefreshDigest = json_text (of_RefreshDigest f),
     of_UsedRefresh = map json_text (of_UsedRefresh f), of_AccessExpiresAt = of_AccessExpiresAt f,
     of_ExpiresAt = of_ExpiresAt f, of_Revoked = of_Revoked f\<rparr>"

definition next_state :: "gotime \<Rightarrow> oauth_state \<Rightarrow> oauth_state" where
  "next_state now st =
     (let A = filter (\<lambda>a. now < oz_ExpiresAt a) (map copy_authorization (ot_Authorizations st));
          C = filter (\<lambda>c. now < oc_ExpiresAt c) (map copy_code (ot_Codes st));
          F = filter (\<lambda>f. \<not> of_Revoked f \<and> now < of_ExpiresAt f) (map copy_family (ot_Families st));
          needed = (\<lambda>c. now - og_CreatedAt c < 24 * Hour \<or> list_ex (\<lambda>f. of_ClientID f = og_ID c) F \<or>
            list_ex (\<lambda>a. oz_ClientID a = og_ID c) A \<or> list_ex (\<lambda>k. oc_ClientID k = og_ID c) C) in
      \<lparr>ot_Version = ot_Version st, ot_Clients = filter needed (map copy_registration (ot_Clients st)),
       ot_Authorizations = A, ot_Codes = C, ot_Families = F\<rparr>)"

definition save_oauth :: "save_io \<Rightarrow> oauth_state \<Rightarrow> oauth \<Rightarrow> mcp_error option \<times> oauth" where
  "save_oauth io st s =
     (case io of
        Saved \<Rightarrow> (None, s\<lparr>oa_state := st, oa_file := OAuthFile st\<rparr>)
      | SaveFailed replaced \<Rightarrow>
          (Some MErrUnavailable, s\<lparr>oa_available := False, oa_file := (if replaced then OAuthFile st else oa_file s)\<rparr>))"

section \<open>Clients and authorization requests\<close>

definition Register ::
    "oauth_env \<Rightarrow> (nat \<Rightarrow> gotime) \<Rightarrow> string option \<Rightarrow> string option \<Rightarrow> save_io \<Rightarrow> string \<Rightarrow> string list \<Rightarrow> string \<Rightarrow>
     oauth \<Rightarrow> (mcp_error + oauth_registration \<times> string) \<times> oauth" where
  "Register E now rid rsecret io name0 redirects method0 s =
     (if \<not> oa_available s then (Inl MErrUnavailable, s)
      else
        let name = (if name0 = [] then ''MCP client'' else name0);
            method = (if method0 = [] then ''client_secret_basic'' else method0) in
        if \<not> validName name \<or> length redirects = 0 \<or> 8 < length redirects \<or> method \<notin> set oauth_methods then (Inl MErrInvalid, s)
        else if \<not> list_all (ValidOAuthRedirect E) redirects then (Inl MErrInvalid, s)
        else
          let st = next_state (now 0) (oa_state s) in
          if 128 \<le> length (ot_Clients st) then (Inl MErrLimited, s)
          else case (rid, if method = ''none'' then Some [] else map_option (oauthRandom ''kps_'') rsecret) of
            (Some i, Some secret) \<Rightarrow>
              let c = \<lparr>og_ID = hex_encode i, og_Name = name, og_RedirectURIs = redirects, og_Method = method,
                    og_SecretDigest = (if method = ''none'' then [] else oauthDigest E secret), og_CreatedAt = now 1\<rparr> in
              (case save_oauth io (st\<lparr>ot_Clients := ot_Clients st @ [c]\<rparr>) s of
                 (Some e, s') \<Rightarrow> (Inl e, s') | (None, s') \<Rightarrow> (Inr (c\<lparr>og_SecretDigest := []\<rparr>, secret), s'))
          | _ \<Rightarrow> (Inl MErrRandom, s))"

definition oauth_client :: "string \<Rightarrow> oauth \<Rightarrow> oauth_registration option" where
  "oauth_client i s = List.find (\<lambda>c. og_ID c = i) (ot_Clients (oa_state s))"

definition clientAuth :: "oauth_env \<Rightarrow> string \<Rightarrow> string \<Rightarrow> string \<Rightarrow> oauth \<Rightarrow> bool" where
  "clientAuth E i secret method s =
     (case oauth_client i s of None \<Rightarrow> False
      | Some c \<Rightarrow>
          if og_Method c \<noteq> method then False
          else if method = ''none'' then secret = []
          else secret \<noteq> [] \<and> og_SecretDigest c = oauthDigest E secret)"

definition Authorize ::
    "(nat \<Rightarrow> gotime) \<Rightarrow> string option \<Rightarrow> save_io \<Rightarrow> string \<Rightarrow> string \<Rightarrow> string \<Rightarrow> string \<Rightarrow> string \<Rightarrow> oauth \<Rightarrow>
     (mcp_error + oauth_authorization) \<times> oauth" where
  "Authorize now rid io clientID redirect challenge resource stateValue s =
     (if \<not> oa_available s then (Inl MErrUnavailable, s)
      else case oauth_client clientID s of None \<Rightarrow> (Inl MErrInvalid, s)
      | Some c \<Rightarrow>
          if redirect \<notin> set (og_RedirectURIs c) \<or> \<not> oauthOpaque challenge [] \<or> 1024 < length stateValue \<or>
             contains_any stateValue [CHR 0x0D, CHR 0x0A] \<or> resource = [] \<or> 2048 < length resource then (Inl MErrInvalid, s)
          else
            let st = next_state (now 0) (oa_state s) in
            if 64 \<le> length (ot_Authorizations st) then (Inl MErrLimited, s)
            else
              let st1 = (if list_ex (\<lambda>d. og_ID d = og_ID c) (ot_Clients st) then st
                    else st\<lparr>ot_Clients := ot_Clients st @ [c\<lparr>og_CreatedAt := now 1\<rparr>]\<rparr>) in
              case rid of None \<Rightarrow> (Inl MErrRandom, s)
              | Some i \<Rightarrow>
                  let a = \<lparr>oz_ID = oauthRandom [] i, oz_ClientID = og_ID c, oz_ClientName = og_Name c, oz_RedirectURI = redirect,
                        oz_State = stateValue, oz_Challenge = challenge, oz_Resource = resource,
                        oz_ExpiresAt = now 2 + 10 * Minute\<rparr> in
                  (case save_oauth io (st1\<lparr>ot_Authorizations := ot_Authorizations st1 @ [a]\<rparr>) s of
                     (Some e, s') \<Rightarrow> (Inl e, s') | (None, s') \<Rightarrow> (Inr a, s')))"

definition Authorization :: "gotime \<Rightarrow> string \<Rightarrow> oauth \<Rightarrow> mcp_error + oauth_authorization" where
  "Authorization now i s =
     (if \<not> oa_available s then Inl MErrUnavailable
      else case List.find (\<lambda>a. oz_ID a = i \<and> now < oz_ExpiresAt a) (ot_Authorizations (oa_state s)) of
        None \<Rightarrow> Inl MErrOAuth | Some a \<Rightarrow> Inr a)"

text \<open>
  \<open>create\<close> is the callback of the panel that creates the grant in the client store; it is called with
  the copied authorization request.
\<close>

type_synonym create_grant = "oauth_authorization \<Rightarrow> mcp_store \<Rightarrow> (mcp_error + mcp_client) \<times> mcp_store"

definition new_code :: "oauth_env \<Rightarrow> gotime \<Rightarrow> oauth_authorization \<Rightarrow> string \<Rightarrow> string \<Rightarrow> oauth_code" where
  "new_code E now a grant code = \<lparr>oc_Digest = oauthDigest E code, oc_ClientID = oz_ClientID a, oc_RedirectURI = oz_RedirectURI a,
     oc_Challenge = oz_Challenge a, oc_Resource = oz_Resource a, oc_GrantID = grant, oc_FamilyID = [],
     oc_ExpiresAt = now + 5 * Minute, oc_Used = False\<rparr>"

definition Consent ::
    "oauth_env \<Rightarrow> (nat \<Rightarrow> gotime) \<Rightarrow> string option \<Rightarrow> save_io \<Rightarrow> create_grant \<Rightarrow> string \<Rightarrow> bool \<Rightarrow> mcp_store \<Rightarrow> oauth \<Rightarrow>
     (mcp_error + string) \<times> oauth \<times> mcp_store" where
  "Consent E now rcode io create i approve base s =
     (if \<not> oa_available s then (Inl MErrUnavailable, s, base)
      else
        let st = next_state (now 0) (oa_state s) in
        case index_of (\<lambda>a. oz_ID a = i) (ot_Authorizations st) of None \<Rightarrow> (Inl MErrOAuth, s, base)
        | Some k \<Rightarrow>
            let a = ot_Authorizations st ! k;
                q = (if oz_State a = [] then [] else [(''state'', oz_State a)]);
                rest = remove_nth k (ot_Authorizations st) in
            if \<not> approve then
              (case save_oauth io (st\<lparr>ot_Authorizations := rest\<rparr>) s of
                 (Some e, s') \<Rightarrow> (Inl e, s', base)
               | (None, s') \<Rightarrow> (Inr (oe_redirect E (oz_RedirectURI a) (q @ [(''error'', ''access_denied'')])), s', base))
            else if 64 \<le> length (ot_Codes st) then (Inl MErrLimited, s, base)
            else case create a base of
              (Inl e, base') \<Rightarrow> (Inl e, s, base')
            | (Inr grant, base') \<Rightarrow>
                (case rcode of None \<Rightarrow> (Inl MErrRandom, s, base')
                 | Some r \<Rightarrow>
                     let code = oauthRandom ''kpc_'' r in
                     (case save_oauth io (st\<lparr>ot_Codes := ot_Codes st @ [new_code E (now 1) a (mc_ID grant) code],
                          ot_Authorizations := rest\<rparr>) s of
                        (Some e, s') \<Rightarrow> (Inl e, s', base')
                      | (None, s') \<Rightarrow> (Inr (oe_redirect E (oz_RedirectURI a) (q @ [(''code'', code)])), s', base'))))"

section \<open>Tokens\<close>

text \<open>\<open>issue\<close> reads the clock twice and draws an access and a refresh token.\<close>

definition issue :: "oauth_env \<Rightarrow> gotime \<Rightarrow> gotime \<Rightarrow> string \<Rightarrow> string \<Rightarrow> oauth_family \<Rightarrow> oauth_family \<times> oauth_tokens" where
  "issue E now1 now2 ra rr f =
     (let access = oauthRandom ''kpo_'' ra; refresh = oauthRandom ''kpr_'' rr;
          until = (if of_ExpiresAt f < now1 + Hour then of_ExpiresAt f else now1 + Hour) in
      (f\<lparr>of_AccessDigest := oauthDigest E access, of_RefreshDigest := oauthDigest E refresh, of_AccessExpiresAt := until\<rparr>,
       \<lparr>tk_AccessToken = access, tk_RefreshToken = refresh, tk_TokenType = ''Bearer'',
        tk_ExpiresIn = quot (until - now2) Second, tk_Scope = ''mcp''\<rparr>))"

definition verifier_char :: "char \<Rightarrow> bool" where
  "verifier_char c = (is_lower c \<or> is_upper c \<or> is_digit c \<or> c \<in> set ''-._~'')"

definition pkce :: "oauth_env \<Rightarrow> string \<Rightarrow> string" where
  "pkce E verifier = b64_encode (sha256 (ax_G (oe_ax E)) verifier)"

text \<open>\<open>DeleteFunc\<close> over the families, with one reading of the client store's clock per family.\<close>

fun live_families :: "(nat \<Rightarrow> gotime) \<Rightarrow> nat \<Rightarrow> mcp_store \<Rightarrow> oauth_family list \<Rightarrow> oauth_family list" where
  "live_families bnow n base [] = []"
| "live_families bnow n base (f # fs) =
     (if is_ok (LookupClient (bnow n) (of_GrantID f) base) then f # live_families bnow (Suc n) base fs
      else live_families bnow (Suc n) base fs)"

definition new_family :: "string \<Rightarrow> string \<Rightarrow> string \<Rightarrow> mcp_client \<Rightarrow> oauth_family" where
  "new_family i clientID resource grant = \<lparr>of_ID = i, of_ClientID = clientID, of_GrantID = mc_ID grant, of_Resource = resource,
     of_AccessDigest = [], of_RefreshDigest = [], of_UsedRefresh = [], of_AccessExpiresAt = zero_time,
     of_ExpiresAt = mc_ExpiresAt grant, of_Revoked = False\<rparr>"

type_synonym 'a oauth_result = "(mcp_error + 'a) \<times> oauth \<times> mcp_store"

definition Exchange ::
    "oauth_env \<Rightarrow> (nat \<Rightarrow> gotime) \<Rightarrow> (nat \<Rightarrow> gotime) \<Rightarrow> string option \<Rightarrow> string option \<Rightarrow> string option \<Rightarrow> save_io \<Rightarrow> save_io \<Rightarrow>
     string \<Rightarrow> string \<Rightarrow> string \<Rightarrow> string \<Rightarrow> string \<Rightarrow> string \<Rightarrow> string \<Rightarrow> mcp_store \<Rightarrow> oauth \<Rightarrow> oauth_tokens oauth_result" where
  "Exchange E now bnow rid ra rr io bio clientID secret method code redirect verifier resource base s =
     (if \<not> oa_available s then (Inl MErrUnavailable, s, base)
      else if \<not> clientAuth E clientID secret method s \<or> \<not> oauthOpaque code ''kpc_'' \<or> length verifier < 43 \<or> 128 < length verifier
      then (Inl MErrOAuth, s, base)
      else if \<not> list_all verifier_char verifier then (Inl MErrOAuth, s, base)
      else
        let st = next_state (now 0) (oa_state s) in
        case index_of (\<lambda>c. oc_Digest c = oauthDigest E code) (ot_Codes st) of None \<Rightarrow> (Inl MErrOAuth, s, base)
        | Some k \<Rightarrow>
            let c = ot_Codes st ! k in
            if oc_ClientID c \<noteq> clientID \<or> oc_RedirectURI c \<noteq> redirect \<or> oc_Resource c \<noteq> resource \<or> oc_Challenge c \<noteq> pkce E verifier
            then (Inl MErrOAuth, s, base)
            else if oc_Used c then (Inl MErrOAuth, s, snd (revokeOAuthGrant (oe_ax E) bio (oc_GrantID c) base))
            else case LookupClient (bnow 0) (oc_GrantID c) base of Inl _ \<Rightarrow> (Inl MErrOAuth, s, base)
            | Inr grant \<Rightarrow>
                let F = live_families bnow 1 base (ot_Families st) in
                if MaxClients \<le> length F then (Inl MErrLimited, s, base)
                else case (rid, ra, rr) of
                  (Some i, Some a, Some r) \<Rightarrow>
                    (case issue E (now 1) (now 2) a r (new_family (hex_encode i) clientID resource (pr_Client grant)) of
                       (f, tokens) \<Rightarrow>
                         (case save_oauth io (st\<lparr>ot_Codes := (ot_Codes st)[k := c\<lparr>oc_Used := True, oc_FamilyID := of_ID f\<rparr>],
                              ot_Families := F @ [f]\<rparr>) s of
                            (Some e, s') \<Rightarrow> (Inl e, s', base) | (None, s') \<Rightarrow> (Inr tokens, s', base)))
                | _ \<Rightarrow> (Inl MErrRandom, s, base))"

text \<open>The loop of \<open>Refresh\<close> stops at the first family that has seen the token.\<close>

definition refreshes :: "string \<Rightarrow> string \<Rightarrow> string \<Rightarrow> oauth_family \<Rightarrow> bool" where
  "refreshes clientID resource digest f =
     (of_ClientID f = clientID \<and> of_Resource f = resource \<and>
      (digest \<in> set (of_UsedRefresh f) \<or> (of_RefreshDigest f = digest \<and> \<not> of_Revoked f)))"

definition Refresh ::
    "oauth_env \<Rightarrow> (nat \<Rightarrow> gotime) \<Rightarrow> gotime \<Rightarrow> string option \<Rightarrow> string option \<Rightarrow> save_io \<Rightarrow> save_io \<Rightarrow>
     string \<Rightarrow> string \<Rightarrow> string \<Rightarrow> string \<Rightarrow> string \<Rightarrow> mcp_store \<Rightarrow> oauth \<Rightarrow> oauth_tokens oauth_result" where
  "Refresh E now bnow ra rr io bio clientID secret method token resource base s =
     (if \<not> oa_available s then (Inl MErrUnavailable, s, base)
      else if \<not> clientAuth E clientID secret method s \<or> \<not> oauthOpaque token ''kpr_'' then (Inl MErrOAuth, s, base)
      else
        let st = next_state (now 0) (oa_state s); digest = oauthDigest E token in
        case index_of (refreshes clientID resource digest) (ot_Families st) of None \<Rightarrow> (Inl MErrOAuth, s, base)
        | Some k \<Rightarrow>
            let f = ot_Families st ! k in
            if digest \<in> set (of_UsedRefresh f) then
              (let base' = snd (revokeOAuthGrant (oe_ax E) bio (of_GrantID f) base) in
               case save_oauth io (st\<lparr>ot_Families := (ot_Families st)[k := f\<lparr>of_Revoked := True\<rparr>]\<rparr>) s of
                 (Some e, s') \<Rightarrow> (Inl e, s', base') | (None, s') \<Rightarrow> (Inl MErrOAuth, s', base'))
            else case LookupClient bnow (of_GrantID f) base of Inl _ \<Rightarrow> (Inl MErrOAuth, s, base)
            | Inr _ \<Rightarrow>
                if 4096 \<le> length (of_UsedRefresh f) then (Inl MErrLimited, s, base)
                else case (ra, rr) of
                  (Some a, Some r) \<Rightarrow>
                    (case issue E (now 1) (now 2) a r (f\<lparr>of_UsedRefresh := of_UsedRefresh f @ [digest]\<rparr>) of
                       (f', tokens) \<Rightarrow>
                         (case save_oauth io (st\<lparr>ot_Families := (ot_Families st)[k := f']\<rparr>) s of
                            (Some e, s') \<Rightarrow> (Inl e, s', base) | (None, s') \<Rightarrow> (Inr tokens, s', base)))
                | _ \<Rightarrow> (Inl MErrRandom, s, base))"

definition access :: "oauth_env \<Rightarrow> gotime \<Rightarrow> string \<Rightarrow> string \<Rightarrow> oauth \<Rightarrow> oauth_family option" where
  "access E now token resource s =
     (if \<not> oa_available s \<or> \<not> oauthOpaque token ''kpo_'' then None
      else List.find (\<lambda>f. \<not> of_Revoked f \<and> of_Resource f = resource \<and> of_AccessDigest f = oauthDigest E token \<and>
             now < of_AccessExpiresAt f \<and> now < of_ExpiresAt f) (ot_Families (oa_state s)))"

definition OAuth_Begin ::
    "oauth_env \<Rightarrow> gotime \<Rightarrow> gotime \<Rightarrow> string \<Rightarrow> string \<Rightarrow> mcp_store \<Rightarrow> oauth \<Rightarrow> (mcp_error + principal \<times> nat) \<times> mcp_store" where
  "OAuth_Begin E now bnow token resource base s =
     (case access E now token resource s of None \<Rightarrow> (Inl MErrUnauthorized, base)
      | Some f \<Rightarrow> beginOAuthGrant bnow (of_GrantID f) base)"

definition OAuth_Active :: "oauth_env \<Rightarrow> gotime \<Rightarrow> gotime \<Rightarrow> string \<Rightarrow> string \<Rightarrow> principal \<Rightarrow> mcp_store \<Rightarrow> oauth \<Rightarrow> bool" where
  "OAuth_Active E now bnow token resource p base s =
     (case access E now token resource s of None \<Rightarrow> False
      | Some f \<Rightarrow> of_GrantID f = mc_ID (pr_Client p) \<and> Active bnow p base)"

text \<open>\<open>Revoke\<close> returns the identifier of the revoked grant beside its error.\<close>

definition owns_token :: "string \<Rightarrow> string \<Rightarrow> oauth_family \<Rightarrow> bool" where
  "owns_token clientID digest f =
     (of_ClientID f = clientID \<and> (of_AccessDigest f = digest \<or> of_RefreshDigest f = digest \<or> digest \<in> set (of_UsedRefresh f)))"

definition OAuth_Revoke ::
    "oauth_env \<Rightarrow> gotime \<Rightarrow> save_io \<Rightarrow> save_io \<Rightarrow> string \<Rightarrow> string \<Rightarrow> string \<Rightarrow> string \<Rightarrow> mcp_store \<Rightarrow> oauth \<Rightarrow>
     (string \<times> mcp_error option) \<times> oauth \<times> mcp_store" where
  "OAuth_Revoke E now io bio clientID secret method token base s =
     (if \<not> oa_available s then (([], Some MErrUnavailable), s, base)
      else if \<not> clientAuth E clientID secret method s then (([], Some MErrOAuth), s, base)
      else if \<not> oauthOpaque token ''kpo_'' \<and> \<not> oauthOpaque token ''kpr_'' then (([], None), s, base)
      else
        let st = next_state now (oa_state s) in
        case index_of (owns_token clientID (oauthDigest E token)) (ot_Families st) of None \<Rightarrow> (([], None), s, base)
        | Some k \<Rightarrow>
            let f = ot_Families st ! k in
            case revokeOAuthGrant (oe_ax E) bio (of_GrantID f) base of
              (Some e, base') \<Rightarrow> (([], Some e), s, base')
            | (None, base') \<Rightarrow>
                (case save_oauth io (st\<lparr>ot_Families := (ot_Families st)[k := f\<lparr>of_Revoked := True\<rparr>]\<rparr>) s of
                   (r, s') \<Rightarrow> ((of_GrantID f, r), s', base')))"

definition Reset_oauth :: "save_io \<Rightarrow> oauth \<Rightarrow> mcp_error option \<times> oauth" where
  "Reset_oauth io s = save_oauth io zero_oauth_state s"

end
