(* ===== verification/McpQueue.thy ===== *)
theory McpQueue
  imports McpOperations
begin

text \<open>
  The life of a planned operation as a transition relation, the invariants of the queue under any
  sequence of calls, failed writes and restarts, and the theorems that rest on them.
\<close>

section \<open>Transitions of one operation\<close>

inductive op_change :: "mcp_env \<Rightarrow> operation \<Rightarrow> operation \<Rightarrow> bool" for M where
  decided: "o_State o1 = ''pending'' \<Longrightarrow> st = ''approved'' \<or> st = ''rejected'' \<Longrightarrow> actor \<noteq> [] \<Longrightarrow>
    op_change M o1 (o1\<lparr>o_State := st, o_ApprovedBy := actor, o_UpdatedAt := t\<rparr>)"
| claimed: "o_State o1 = ''approved'' \<Longrightarrow> op_change M o1 (o1\<lparr>o_State := ''executing'', o_UpdatedAt := t\<rparr>)"
| finished: "o_State o1 = ''executing'' \<Longrightarrow> finish_state st o1 \<Longrightarrow> length res \<le> MaxOperationResult \<Longrightarrow>
    op_change M o1 (o1\<lparr>o_State := st, o_Result := res, o_Error := err, o_UpdatedAt := t\<rparr>)"
| observed: "o_State o1 = ''submitted'' \<or> o_State o1 = ''unknown'' \<Longrightarrow> finish_state st o1 \<Longrightarrow>
    length res \<le> MaxOperationResult \<Longrightarrow>
    op_change M o1 (o1\<lparr>o_State := st, o_Result := res, o_Error := [], o_UpdatedAt := t\<rparr>)"
| revoked: "o_State o1 = ''pending'' \<or> o_State o1 = ''approved'' \<Longrightarrow>
    op_change M o1 (o1\<lparr>o_State := ''rejected'', o_Error := ''authorization_revoked'', o_UpdatedAt := t\<rparr>)"
| lost: "o_State o1 = ''executing'' \<Longrightarrow> op_change M o1 (interrupted t o1)"

inductive_cases op_changeE: "op_change M o1 o2"

definition op_kept :: "mcp_env \<Rightarrow> operation \<Rightarrow> operation \<Rightarrow> bool" where
  "op_kept M o1 o2 = (o2 = o1 \<or> op_change M o1 o2)"

lemma op_kept_refl [simp]: "op_kept M o1 o1" by (simp add: op_kept_def)

lemma op_change_identity:
  "op_change M o1 o2 \<Longrightarrow> o_ID o2 = o_ID o1 \<and> o_ClientID o2 = o_ClientID o1 \<and> o_Key o2 = o_Key o1 \<and>
     o_HostID o2 = o_HostID o1 \<and> o_HostIdentity o2 = o_HostIdentity o1 \<and> o_Tool o2 = o_Tool o1 \<and>
     o_Arguments o2 = o_Arguments o1 \<and> o_Digest o2 = o_Digest o1 \<and> o_ExpiresAt o2 = o_ExpiresAt o1"
  by (erule op_changeE) (auto simp: interrupted_def)

lemmas op_kept_identity = op_change_identity [THEN conjunct1]

lemma list_all2_upd: "k < length xs \<Longrightarrow> op_kept M (xs ! k) y \<Longrightarrow> list_all2 (op_kept M) xs (xs[k := y])"
  by (auto simp: list_all2_conv_all_nth nth_list_update)

lemma check_items_kept:
  "check_items M now i seen xs = (ok, ys, changed) \<Longrightarrow> list_all2 (op_kept M) xs ys"
proof (induction xs arbitrary: i seen ok ys changed)
  case Nil
  then show ?case by simp
next
  case (Cons x xs)
  show ?case
  proof (cases "bad_operation M seen x")
    case True
    with Cons.prems show ?thesis by (auto simp: list_all2_conv_all_nth)
  next
    case False
    obtain ok' ys' ch where r: "check_items M now (Suc i) (o_ID x # seen) xs = (ok', ys', ch)" by (metis prod_cases3)
    have "op_kept M x (interrupted (now i) x)"
      using lost [of x M "now i"] by (cases "o_State x = ''executing''") (auto simp: op_kept_def, auto simp: interrupted_def)
    with Cons.IH [OF r] False r Cons.prems show ?thesis by auto
  qed
qed

lemma invalidate_kept: "list_all2 (op_kept M) xs (map (invalidate_op c now) (enumerate n xs))"
proof (induction xs arbitrary: n)
  case Nil
  then show ?case by simp
next
  case (Cons x xs)
  have "op_kept M x (invalidate_op c now (n, x))"
    by (auto simp: op_kept_def invalidate_op_def McpOperations.revoked_def intro: revoked)
  with Cons show ?case by simp
qed

section \<open>Calls\<close>

datatype op_call =
    SPlan gotime "string option" save_io string string string string string string bool
  | SDecide gotime gotime save_io string string string bool
  | SClaim gotime gotime save_io string string string string
  | SFinish gotime save_io string string string string
  | SObserve gotime save_io string string string
  | SInvalidate "nat \<Rightarrow> gotime" save_io string
  | SReset save_io
  | SRestart "nat \<Rightarrow> gotime" save_io

fun op_exec :: "mcp_env \<Rightarrow> op_call \<Rightarrow> operations \<Rightarrow> operations" where
  "op_exec M (SPlan now rnd io c k h i tool as auto) s = snd (Plan M now rnd io c k h i tool as auto s)"
| "op_exec M (SDecide n1 n2 io i d a b) s = snd (Decide n1 n2 io i d a b s)"
| "op_exec M (SClaim n1 n2 io i c d h) s = snd (Claim n1 n2 io i c d h s)"
| "op_exec M (SFinish now io i st r e) s = snd (Finish M now io i st r e s)"
| "op_exec M (SObserve now io i st r) s = snd (Observe M now io i st r s)"
| "op_exec M (SInvalidate now io c) s = snd (Invalidate now io c s)"
| "op_exec M (SReset io) s = snd (Reset_ops io s)"
| "op_exec M (SRestart now io) s = OpenOperations M now io (os_file s)"

definition op_run :: "mcp_env \<Rightarrow> op_call list \<Rightarrow> operations \<Rightarrow> operations" where
  "op_run M cs s = fold (op_exec M) cs s"

text \<open>What the new operation of a plan is known to satisfy.\<close>

definition planned :: "mcp_env \<Rightarrow> operation \<Rightarrow> bool" where
  "planned M o1 = (validHex (o_ClientID o1) 32 \<and> o_Digest o1 = operationDigest M o1 \<and>
     (o_State o1 = ''pending'' \<or> o_State o1 = ''approved'') \<and> length (o_Arguments o1) \<le> MaxOperationArguments \<and>
     (\<exists>raw. js_canonical M raw = Some (o_Arguments o1)) \<and> o_Result o1 = [])"

section \<open>Invariants of the queue\<close>

text \<open>
  \<open>Q\<close> is a property of the list of operations, \<open>A\<close> what is asked of the random identifier of a
  plan, given the list it is added to.
\<close>

locale queue_invariant =
  fixes M :: mcp_env and Q :: "operation list \<Rightarrow> bool" and A :: "operation list \<Rightarrow> string \<Rightarrow> bool"
  assumes empty: "Q []"
    and planned: "Q xs \<Longrightarrow> length (filter (retained now) xs) < MaxOperations \<Longrightarrow> planned M o1 \<Longrightarrow> A xs (o_ID o1) \<Longrightarrow>
      Q (filter (retained now) xs @ [o1])"
    and kept: "Q xs \<Longrightarrow> list_all2 (op_kept M) xs ys \<Longrightarrow> Q ys"
begin

definition holds :: "operations \<Rightarrow> bool" where
  "holds s = (Q (os_items s) \<and> (\<forall>xs. os_file s = OpFile xs \<longrightarrow> Q xs))"

fun admitted :: "op_call \<Rightarrow> operations \<Rightarrow> bool" where
  "admitted (SPlan _ (Some v) _ _ _ _ _ _ _ _) s = A (os_items s) (hex_encode v)"
| "admitted _ s = True"

fun run_admitted :: "op_call list \<Rightarrow> operations \<Rightarrow> bool" where
  "run_admitted [] s = True"
| "run_admitted (c # cs) s = (admitted c s \<and> run_admitted cs (op_exec M c s))"

lemma holds_save: "Q ys \<Longrightarrow> holds s \<Longrightarrow> holds (snd (save_ops io ys s))"
  by (auto simp: holds_def save_ops_def split: save_io.split)

lemma holds_save_eq: "save_ops io ys s = (b, s') \<Longrightarrow> Q ys \<Longrightarrow> holds s \<Longrightarrow> holds s'"
  using holds_save [of ys s io] by simp

lemma holds_change:
  assumes "holds s" and "\<And>o1 o2. update o1 = Inr o2 \<Longrightarrow> op_change M o1 (o2\<lparr>o_UpdatedAt := now\<rparr>)"
  shows "holds (snd (change now io i update s))"
proof -
  have "Q ((os_items s)[k := o2\<lparr>o_UpdatedAt := now\<rparr>])"
    if "index_of (\<lambda>o1. o_ID o1 = i) (os_items s) = Some k" "update (os_items s ! k) = Inr o2" for k o2
  proof (rule kept)
    show "Q (os_items s)" using assms(1) by (simp add: holds_def)
    show "list_all2 (op_kept M) (os_items s) ((os_items s)[k := o2\<lparr>o_UpdatedAt := now\<rparr>])"
      using index_of_SomeD [OF that(1)] assms(2) [OF that(2)] by (intro list_all2_upd) (auto simp: op_kept_def)
  qed
  with assms(1) show ?thesis
    by (auto simp: change_def Let_def holds_save_eq split: option.split sum.split prod.split bool.split)
qed

lemma holds_Plan:
  assumes "holds s" and "\<And>v. rnd = Some v \<Longrightarrow> A (os_items s) (hex_encode v)"
  shows "holds (snd (Plan M now rnd io c k h i tool as auto s))"
proof (cases "os_available s \<and> \<not> bad_plan c k h i tool as")
  case True
  have new: "holds s'"
    if "js_canonical M as = Some canon" "length canon \<le> MaxOperationArguments" "rnd = Some v"
      "length (filter (retained now) (os_items s)) < MaxOperations"
      "o3 = (if auto then (new_operation M c k h i tool canon now)\<lparr>o_ID := hex_encode v, o_State := ''approved'', o_ApprovedBy := ''client_policy''\<rparr>
         else (new_operation M c k h i tool canon now)\<lparr>o_ID := hex_encode v\<rparr>)"
      "save_ops io (filter (retained now) (os_items s) @ [o3]) s = (b, s')" for canon v o3 b s'
  proof (rule holds_save_eq [OF that(6)])
    have "planned M o3"
      using True that(1,2,5) by (auto simp: planned_def new_operation_def Let_def operationDigest_def bad_plan_def)
    moreover have "A (os_items s) (o_ID o3)" using assms(2) [OF that(3)] that(5) by auto
    ultimately show "Q (filter (retained now) (os_items s) @ [o3])"
      using planned that(4) assms(1) by (simp add: holds_def)
  qed (rule assms(1))
  show ?thesis
    using True assms(1) unfolding Plan_def Let_def
    by (auto split: option.split prod.split bool.split intro: new)
next
  case False
  with assms(1) show ?thesis by (auto simp: Plan_def)
qed

lemma holds_Open: "holds s \<Longrightarrow> holds (OpenOperations M now io (os_file s))"
proof (cases "os_file s")
  case (OpFile xs)
  assume h: "holds s"
  then have xs: "Q xs" using OpFile by (simp add: holds_def)
  obtain ok ys ch where c: "check_items M now 0 [] xs = (ok, ys, ch)" by (metis prod_cases3)
  have ys: "Q ys" by (rule kept [OF xs check_items_kept [OF c]])
  have h': "holds \<lparr>os_items = ys, os_available = b, os_file = OpFile xs\<rparr>" for b
    using xs ys by (simp add: holds_def)
  have h2: "holds \<lparr>os_items = xs, os_available = b, os_file = OpFile xs\<rparr>" for b
    using xs by (simp add: holds_def)
  from ys h' h2 show ?thesis
    by (auto simp: OpenOperations_def OpFile c intro!: holds_save)
qed (auto simp: OpenOperations_def holds_def empty)

theorem exec_holds: "holds s \<Longrightarrow> admitted c s \<Longrightarrow> holds (op_exec M c s)"
proof (cases c)
  case (SPlan now rnd io c' k h i tool as auto)
  assume "holds s" "admitted c s"
  with SPlan show ?thesis by (cases rnd) (auto intro!: holds_Plan)
next
  case (SFinish now io i st r e)
  assume h: "holds s"
  have "op_change M o1 (o2\<lparr>o_UpdatedAt := now\<rparr>)" if "finish_update M st res e o1 = Inr o2" for o1 o2 res
    using that by (auto simp: finish_update_def intro: finished split: if_splits)
  with h SFinish show ?thesis by (auto simp: Finish_def holds_change split: option.split)
next
  case (SObserve now io i st r)
  assume "holds s"
  with SObserve show ?thesis
    by (auto simp: Observe_def split: option.split if_splits intro!: holds_change observed)
next
  case (SInvalidate now io c')
  assume h: "holds s"
  then have "Q (map (invalidate_op c' now) (enumerate 0 (os_items s)))"
    by (intro kept [OF _ invalidate_kept]) (simp add: holds_def)
  with h SInvalidate show ?thesis
    by (auto simp: Invalidate_def holds_save_eq split: prod.split bool.split)
next
  case (SReset io)
  assume "holds s"
  with SReset empty show ?thesis
    by (auto simp: Reset_ops_def holds_save_eq split: prod.split bool.split)
qed (auto simp: Decide_def Claim_def holds_Open split: if_splits intro!: holds_change decided claimed)

theorem run_holds: "holds s \<Longrightarrow> run_admitted cs s \<Longrightarrow> holds (op_run M cs s)"
  by (induction cs arbitrary: s) (simp_all add: op_run_def exec_holds)

end


section \<open>A claimed local operation is spent\<close>

definition spent_op :: "operation \<Rightarrow> bool" where
  "spent_op o1 = (o_HostID o1 = ''local'' \<and> o_State o1 \<noteq> ''pending'' \<and> o_State o1 \<noteq> ''approved'')"

definition spent_items :: "string \<Rightarrow> operation list \<Rightarrow> bool" where
  "spent_items i xs = (\<forall>o1\<in>set xs. o_ID o1 = i \<longrightarrow> spent_op o1)"

lemma spent_change: "op_change M o1 o2 \<Longrightarrow> spent_op o1 \<Longrightarrow> spent_op o2"
  by (erule op_changeE) (auto simp: spent_op_def finish_state_def interrupted_def)

interpretation spent: queue_invariant M "spent_items i" "\<lambda>xs j. j \<noteq> i" for M and i
proof
  fix xs ys
  assume xs: "spent_items i xs" and k: "list_all2 (op_kept M) xs ys"
  show "spent_items i ys"
    unfolding spent_items_def
  proof (intro ballI impI)
    fix y
    assume "y \<in> set ys" "o_ID y = i"
    then obtain n where n: "n < length ys" "y = ys ! n" by (auto simp: in_set_conv_nth)
    with k have "op_kept M (xs ! n) y" "xs ! n \<in> set xs" by (auto simp: list_all2_conv_all_nth)
    with xs \<open>o_ID y = i\<close> show "spent_op y"
      by (auto simp: op_kept_def spent_items_def op_change_identity intro: spent_change)
  qed
qed (auto simp: spent_items_def)

text \<open>The identifier a call draws for a new operation.\<close>

fun draws :: "op_call \<Rightarrow> string option" where
  "draws (SPlan _ rnd _ _ _ _ _ _ _ _) = map_option hex_encode rnd"
| "draws _ = None"

lemma spent_admitted: "(\<And>c. c \<in> set cs \<Longrightarrow> draws c \<noteq> Some i) \<Longrightarrow> spent.run_admitted M i cs s"
proof (induction cs arbitrary: s)
  case Nil
  then show ?case by simp
next
  case (Cons c cs)
  have "spent.admitted i c s" for s
  proof (cases c)
    case (SPlan now rnd io c' k h j tool as auto)
    with Cons.prems [of c] show ?thesis by (cases rnd) auto
  qed simp_all
  with Cons show ?case by simp
qed

lemma change_Inr:
  assumes "change now io i update s = (Inr o2, s')"
  obtains k o1 where "os_available s" "index_of (\<lambda>o1. o_ID o1 = i) (os_items s) = Some k" "update (os_items s ! k) = Inr o1"
    "o2 = o1\<lparr>o_UpdatedAt := now\<rparr>" "io = Saved" "s' = s\<lparr>os_items := (os_items s)[k := o2], os_file := OpFile ((os_items s)[k := o2])\<rparr>"
  using assms by (auto simp: change_def Let_def save_ops_def split: if_splits option.splits sum.splits save_io.splits)

lemma distinct_key_upd:
  assumes "distinct (map f xs)" "k < length xs" "y \<in> set (xs[k := x])" "f y = f (xs ! k)"
  shows "y = x"
proof -
  from assms(3) obtain n where n: "n < length xs" "y = (xs[k := x]) ! n" by (auto simp: in_set_conv_nth)
  show ?thesis
  proof (cases "n = k")
    case True
    with n assms(2) show ?thesis by simp
  next
    case False
    with n have "y = xs ! n" by simp
    with assms(1,2,4) n(1) False show ?thesis by (auto simp: distinct_conv_nth)
  qed
qed

text \<open>
  C15: An operation on the local host that was claimed is never claimed again, whatever calls
  and restarts follow: a host mutation is not repeated.
\<close>

theorem local_operation_claimed_once:
  assumes claim: "Claim n1 n2 io i c d h s = (Inr o1, s1)" and loc: "o_HostID o1 = ''local''"
    and ids: "distinct (map o_ID (os_items s))" and fresh: "\<And>c. c \<in> set cs \<Longrightarrow> draws c \<noteq> Some i"
  shows "\<exists>e. fst (Claim n1' n2' io' i c' d' h' (op_run M cs s1)) = Inl e"
proof -
  from claim obtain k o2 where k: "index_of (\<lambda>o1. o_ID o1 = i) (os_items s) = Some k"
    and o1: "o1 = (os_items s ! k)\<lparr>o_State := ''executing'', o_UpdatedAt := n2\<rparr>"
    and s1: "s1 = s\<lparr>os_items := (os_items s)[k := o1], os_file := OpFile ((os_items s)[k := o1])\<rparr>"
    unfolding Claim_def by (rule change_Inr) (auto split: if_splits)
  have "spent_op o1" using loc by (simp add: spent_op_def o1)
  then have "spent_items i ((os_items s)[k := o1])"
    using distinct_key_upd [OF ids] index_of_SomeD [OF k] by (auto simp: spent_items_def)
  then have "spent.holds i s1" by (simp add: spent.holds_def s1)
  then have "spent.holds i (op_run M cs s1)" by (rule spent.run_holds) (rule spent_admitted [OF fresh])
  then have sp: "spent_items i (os_items (op_run M cs s1))" by (simp add: spent.holds_def)
  show ?thesis
  proof (cases "fst (Claim n1' n2' io' i c' d' h' (op_run M cs s1))")
    case (Inr o3)
    then obtain s3 where "Claim n1' n2' io' i c' d' h' (op_run M cs s1) = (Inr o3, s3)" by (metis prod.collapse)
    then obtain j where "index_of (\<lambda>o1. o_ID o1 = i) (os_items (op_run M cs s1)) = Some j"
        "o_State (os_items (op_run M cs s1) ! j) = ''approved''"
      unfolding Claim_def by (rule change_Inr) (auto split: if_splits)
    with sp have False using index_of_SomeD by (fastforce simp: spent_items_def spent_op_def)
    then show ?thesis ..
  qed simp
qed

section \<open>Planning again\<close>

lemma new_operation_digest:
  "o_Digest (new_operation M c k h i tool canon now) = hex_encode (sha256 (mx_G M) (js_array M c h i tool canon))"
  by (simp add: new_operation_def operationDigest_def Let_def)

lemma find_filter_None: "List.find P xs = None \<Longrightarrow> List.find P (filter Q xs @ [y]) = List.find P [y]"
  by (induction xs) (auto split: if_splits)

text \<open>
  Planning the same operation again under the same key returns the stored operation and
  changes nothing.
\<close>

theorem plan_idempotent:
  assumes "Plan M now rnd io c k h i tool as auto s = (Inr o1, s1)" and "\<not> bad_plan c k h' i' tool' as'"
    and "js_canonical M as' = Some canon" and "length canon \<le> MaxOperationArguments"
  shows "Plan M now' rnd' io' c k h' i' tool' as' auto' s1 =
    (if hex_encode (sha256 (mx_G M) (js_array M c h' i' tool' canon)) = o_Digest o1 then Inr o1 else Inl MErrConflict, s1)"
proof -
  let ?P = "\<lambda>prior. o_ClientID prior = c \<and> o_Key prior = k"
  from assms(1) obtain canon0 where first: "os_available s" "List.find ?P (os_items s) = Some o1 \<and> s1 = s \<or>
      List.find ?P (os_items s) = None \<and> ?P o1 \<and> os_available s1 \<and> os_items s1 = filter (retained now) (os_items s) @ [o1]"
    by (auto simp: Plan_def Let_def save_ops_def new_operation_def
        split: if_splits option.splits prod.splits bool.splits save_io.splits)
  then have "os_available s1" "List.find ?P (os_items s1) = Some o1"
    by (auto simp: find_filter_None)
  with assms(2-4) show ?thesis
    by (auto simp: Plan_def Let_def new_operation_digest split: option.split)
qed


section \<open>What is on disk can be opened\<close>

text \<open>SHA-256 yields 32 bytes, and what \<open>json.Marshal\<close> produced is valid JSON.\<close>

definition json_ok :: "mcp_env \<Rightarrow> bool" where
  "json_ok M = ((\<forall>v. length (sha256 (mx_G M) v) = 32) \<and> (\<forall>raw c. js_canonical M raw = Some c \<longrightarrow> js_valid M c))"

definition ops_ok :: "mcp_env \<Rightarrow> operation list \<Rightarrow> bool" where
  "ops_ok M xs = (length xs \<le> MaxOperations \<and> distinct (map o_ID xs) \<and> (\<forall>o1\<in>set xs. \<not> bad_operation M [] o1))"

lemma validHex_encode: "validHex (hex_encode v) (2 * length v)"
  by (simp add: validHex_def)

lemma digest_kept: "op_change M o1 o2 \<Longrightarrow> operationDigest M o2 = operationDigest M o1"
  by (simp add: operationDigest_def op_change_identity)

lemma good_change: "op_change M o1 o2 \<Longrightarrow> \<not> bad_operation M [] o1 \<Longrightarrow> \<not> bad_operation M [] o2"
proof -
  assume c: "op_change M o1 o2" and good: "\<not> bad_operation M [] o1"
  have "validOperationState (o_State o2)" "length (o_Result o2) \<le> MaxOperationResult"
    using c good by (auto elim!: op_changeE simp: validOperationState_def finish_state_def interrupted_def bad_operation_def)
  with good c show ?thesis by (simp add: bad_operation_def op_change_identity digest_kept)
qed

lemma ops_ok_kept:
  assumes "ops_ok M xs" and k: "list_all2 (op_kept M) xs ys" shows "ops_ok M ys"
proof -
  have "map o_ID ys = map o_ID xs"
    using k by (induction rule: list_all2_induct) (auto simp: op_kept_def op_change_identity)
  moreover have "\<forall>y\<in>set ys. \<not> bad_operation M [] y"
    using k assms(1)[unfolded ops_ok_def, THEN conjunct2, THEN conjunct2]
    by (induction rule: list_all2_induct) (auto simp: op_kept_def good_change)
  ultimately show ?thesis using assms(1) list_all2_lengthD [OF k] by (auto simp: ops_ok_def)
qed

definition fresh_id :: "operation list \<Rightarrow> string \<Rightarrow> bool" where
  "fresh_id xs j = (validHex j 32 \<and> j \<notin> o_ID ` set xs)"

lemma ops_ok_planned:
  assumes "json_ok M" "ops_ok M xs" "length (filter (retained now) xs) < MaxOperations" "planned M o1" "fresh_id xs (o_ID o1)"
  shows "ops_ok M (filter (retained now) xs @ [o1])"
proof -
  have "validHex (o_Digest o1) 64"
    using assms(1,4) validHex_encode [of "sha256 (mx_G M) (js_array M (o_ClientID o1) (o_HostID o1) (o_HostIdentity o1) (o_Tool o1) (o_Arguments o1))"]
    by (simp add: planned_def operationDigest_def json_ok_def)
  with assms show ?thesis
    by (auto simp: ops_ok_def bad_operation_def planned_def fresh_id_def validOperationState_def json_ok_def distinct_map_filter)
qed

interpretation wf: queue_invariant M "\<lambda>xs. json_ok M \<longrightarrow> ops_ok M xs" fresh_id for M
  by unfold_locales (auto simp: ops_ok_planned intro: ops_ok_kept, simp add: ops_ok_def)

text \<open>The draws of a run: sixteen random bytes, not the identifier of an operation in the queue.\<close>

fun fresh_run :: "mcp_env \<Rightarrow> op_call list \<Rightarrow> operations \<Rightarrow> bool" where
  "fresh_run M [] s = True"
| "fresh_run M (c # cs) s =
     ((case draws c of None \<Rightarrow> True | Some j \<Rightarrow> fresh_id (os_items s) j) \<and> fresh_run M cs (op_exec M c s))"

lemma fresh_admitted: "fresh_run M cs s \<Longrightarrow> wf.run_admitted M cs s"
proof (induction cs arbitrary: s)
  case Nil
  then show ?case by simp
next
  case (Cons c cs)
  have "wf.admitted c s"
  proof (cases c)
    case (SPlan now rnd io c' k h j tool as auto)
    with Cons.prems show ?thesis by (cases rnd) auto
  qed simp_all
  with Cons show ?case by simp
qed

text \<open>While the queue is available, memory is what is on disk.\<close>

definition synced_ops :: "operations \<Rightarrow> bool" where
  "synced_ops s = (os_available s \<longrightarrow> os_file s = OpFile (os_items s) \<or> os_file s = NoFile \<and> os_items s = [])"

lemma synced_save [simp]: "synced_ops (snd (save_ops io xs s))"
  by (auto simp: synced_ops_def save_ops_def split: save_io.split)

lemma synced_save_eq: "save_ops io xs s = (b, s') \<Longrightarrow> synced_ops s'"
  using synced_save [of io xs s] by simp

lemma check_items_same: "check_items M now i seen xs = (ok, ys, False) \<Longrightarrow> ys = xs"
proof (induction xs arbitrary: i seen ok ys)
  case Nil
  then show ?case by simp
next
  case (Cons x xs)
  then show ?case by (auto simp: interrupted_def split: if_splits prod.splits)
qed

lemma synced_change: "synced_ops s \<Longrightarrow> synced_ops (snd (change now io i u s))"
  by (auto simp: change_def Let_def synced_save_eq split: option.split sum.split prod.split bool.split)

lemma synced_exec: "synced_ops s \<Longrightarrow> synced_ops (op_exec M c s)"
proof (cases c)
  case (SRestart now io)
  assume "synced_ops s"
  with SRestart show ?thesis
    by (auto simp: OpenOperations_def synced_ops_def save_ops_def dest: check_items_same
        split: op_file.split prod.split save_io.split)
qed (auto simp: Plan_def Decide_def Claim_def Finish_def Observe_def Invalidate_def Reset_ops_def Let_def synced_save_eq
    synced_change split: option.split prod.split bool.split)

lemma synced_run: "synced_ops s \<Longrightarrow> synced_ops (op_run M cs s)"
  by (induction cs arbitrary: s) (simp_all add: op_run_def synced_exec)

lemma bad_operation_seen: "bad_operation M seen o1 = (bad_operation M [] o1 \<or> o_ID o1 \<in> set seen)"
  by (auto simp: bad_operation_def)

text \<open>An interrupted execution becomes unknown, everything else is as it was.\<close>

definition recovered :: "operation \<Rightarrow> operation \<Rightarrow> bool" where
  "recovered a b = (if o_State a = ''executing'' then o_State b = ''unknown'' \<and> o_ID b = o_ID a else b = a)"

lemma check_items_ok:
  assumes "\<forall>o1\<in>set xs. \<not> bad_operation M [] o1" "distinct (map o_ID xs)" "set (map o_ID xs) \<inter> set seen = {}"
  shows "\<exists>ys ch. check_items M now i seen xs = (True, ys, ch) \<and>
    list_all2 recovered xs ys"
  using assms
proof (induction xs arbitrary: i seen)
  case Nil
  then show ?case by (auto intro: exI [of Not False])
next
  case (Cons x xs)
  from Cons.prems bad_operation_seen [of M seen x] have "\<not> bad_operation M seen x" by auto
  moreover have "set (map o_ID xs) \<inter> set (o_ID x # seen) = {}" using Cons.prems(2,3) by auto
  with Cons.IH [of "o_ID x # seen" "Suc i"] Cons.prems obtain ys ch where
    "check_items M now (Suc i) (o_ID x # seen) xs = (True, ys, ch)"
    "list_all2 recovered xs ys" by fastforce
  ultimately have "check_items M now i seen (x # xs) = (True, interrupted (now i) x # ys, ch \<or> o_State x = ''executing'')"
    and "list_all2 recovered
      (x # xs) (interrupted (now i) x # ys)" by (simp_all add: interrupted_def recovered_def)
  then show ?case by blast
qed

text \<open>
  After any calls on a well-formed queue, opening its file gives the same operations,
  except that operations that were being executed are marked as unknown.
\<close>

theorem queue_reopens:
  assumes "json_ok M" and "ops_ok M (os_items s)" and "synced_ops s" and "os_available s" and "fresh_run M cs s"
    and "os_available (op_run M cs s)"
  shows "os_available (OpenOperations M now Saved (os_file (op_run M cs s))) \<and>
    list_all2 recovered
      (os_items (op_run M cs s)) (os_items (OpenOperations M now Saved (os_file (op_run M cs s))))"
proof -
  let ?s = "op_run M cs s"
  have "wf.holds M s" using assms(2-4) by (auto simp: wf.holds_def synced_ops_def)
  then have "wf.holds M ?s" by (rule wf.run_holds) (rule fresh_admitted [OF assms(5)])
  then have "json_ok M \<longrightarrow> ops_ok M (os_items ?s)" unfolding wf.holds_def by blast
  with assms(1) have ok: "ops_ok M (os_items ?s)" by blast
  then obtain ys ch where c: "check_items M now 0 [] (os_items ?s) = (True, ys, ch)"
      "list_all2 recovered (os_items ?s) ys"
    using check_items_ok [of "os_items ?s" M "[]" now 0] by (auto simp: ops_ok_def)
  from synced_run [OF assms(3), of M cs] assms(6) consider "os_file ?s = OpFile (os_items ?s)" | "os_file ?s = NoFile" "os_items ?s = []"
    by (auto simp: synced_ops_def)
  then show ?thesis
  proof cases
    case 1
    with ok c show ?thesis by (auto simp: OpenOperations_def save_ops_def ops_ok_def not_less)
  next
    case 2
    then show ?thesis by (simp add: OpenOperations_def)
  qed
qed

section \<open>Revocation\<close>

definition revoked_to :: "string \<Rightarrow> operation \<Rightarrow> operation \<Rightarrow> bool" where
  "revoked_to c a b = (if revoked c a then o_State b = ''rejected'' \<and> o_ID b = o_ID a else b = a)"

lemma invalidate_rejects:
  "list_all2 (revoked_to c) xs (map (invalidate_op c now) (enumerate n xs))"
  by (induction xs arbitrary: n) (auto simp: invalidate_op_def revoked_to_def)

lemma index_of_ID: "index_of (\<lambda>o1. o_ID o1 = i) xs = index_of (\<lambda>j. j = i) (map o_ID xs)"
  by (induction xs) auto

lemma Invalidate_None:
  assumes "Invalidate now io c s = (None, s')"
  shows "os_available s' \<and> list_all2 (revoked_to c) (os_items s) (os_items s')"
proof (cases "list_ex (revoked c) (os_items s)")
  case True
  with assms invalidate_rejects [of c "os_items s" now 0] show ?thesis
    by (auto simp: Invalidate_def save_ops_def split: if_splits save_io.splits)
next
  case False
  then have "list_all2 (revoked_to c) (os_items s) (os_items s)"
    by (auto simp: list_ex_iff list_all2_conv_all_nth revoked_to_def)
  with assms False show ?thesis by (auto simp: Invalidate_def split: if_splits)
qed

text \<open>
  C16: Revoking a client leaves its claimed operation for a remote host alone; when the worker
  hands it back as approved, it can be claimed again although the client is revoked.
\<close>

theorem revocation_misses_claimed:
  assumes claim: "Claim n1 n2 Saved i c d h s = (Inr o1, s1)" and remote: "o_HostID o1 \<noteq> ''local''"
    and inval: "Invalidate now Saved c s1 = (None, s2)" and time: "n3 < o_ExpiresAt o1"
  shows "\<exists>o2 s3 o3 s4. Finish M t Saved i ''approved'' [] [] s2 = (Inr o2, s3) \<and>
    Claim n3 n4 Saved i c d h s3 = (Inr o3, s4)"
proof -
  let ?P = "\<lambda>o1. o_ID o1 = i"
  from claim obtain k where k: "index_of ?P (os_items s) = Some k"
    and o1: "o1 = (os_items s ! k)\<lparr>o_State := ''executing'', o_UpdatedAt := n2\<rparr>"
    and ok: "o_ClientID o1 = c" "o_Digest o1 = d" "o_HostIdentity o1 = h"
    and s1: "s1 = s\<lparr>os_items := (os_items s)[k := o1], os_file := OpFile ((os_items s)[k := o1])\<rparr>"
    unfolding Claim_def by (rule change_Inr) (auto split: if_splits)
  have k1: "index_of ?P (os_items s1) = Some k" "os_items s1 ! k = o1" "k < length (os_items s1)"
    using index_of_update [OF k, of o1] index_of_SomeD [OF k] by (simp_all add: s1 o1)
  from Invalidate_None [OF inval] have av: "os_available s2"
    and all: "list_all2 (revoked_to c) (os_items s1) (os_items s2)" by simp_all
  have "\<not> revoked c o1" by (simp add: revoked_def o1)
  then have same: "os_items s2 ! k = o1" and len: "k < length (os_items s2)"
    using all k1(2,3) by (auto simp: list_all2_conv_all_nth revoked_to_def)
  have "map o_ID (os_items s2) = map o_ID (os_items s1)"
    using all by (induction rule: list_all2_induct) (auto simp: revoked_to_def split: if_splits)
  with k1(1) have k2: "index_of ?P (os_items s2) = Some k"
    by (metis index_of_ID)
  define o2 where "o2 = o1\<lparr>o_State := ''approved'', o_Result := [], o_Error := [], o_UpdatedAt := t\<rparr>"
  define s3 where "s3 = s2\<lparr>os_items := (os_items s2)[k := o2], os_file := OpFile ((os_items s2)[k := o2])\<rparr>"
  have "finish_update M ''approved'' [] [] o1 = Inr (o1\<lparr>o_State := ''approved'', o_Result := [], o_Error := []\<rparr>)"
    using remote by (simp add: finish_update_def finish_state_def o1)
  then have f: "Finish M t Saved i ''approved'' [] [] s2 = (Inr o2, s3)"
    using av k2 same by (simp add: Finish_def change_def Let_def save_ops_def o2_def s3_def)
  have "index_of ?P (os_items s3) = Some k" "os_items s3 ! k = o2" "os_available s3"
    using index_of_update [OF k2, of o2] index_of_SomeD [OF k1(1)] k1(2) len av by (simp_all add: s3_def o2_def)
  then have "\<exists>o3 s4. Claim n3 n4 Saved i c d h s3 = (Inr o3, s4)"
    using ok time by (simp add: Claim_def change_def Let_def save_ops_def o2_def)
  with f show ?thesis by blast
qed


section \<open>Instances\<close>

definition sample_mcp :: mcp_env where
  "sample_mcp = \<lparr>mx_G = demo_env\<lparr>sha256 := (\<lambda>_. replicate 32 (CHR ''x''))\<rparr>, js_canonical = Some,
     js_valid = (\<lambda>_. True), js_compact = Some, js_array = (\<lambda>a b c d e. a @ b @ c @ d @ e)\<rparr>"

definition sample_op :: "string \<Rightarrow> operation" where
  "sample_op host = \<lparr>o_ID = ''op1'', o_ClientID = ''c1'', o_Key = ''key-0001'', o_HostID = host, o_HostIdentity = ''h1'',
     o_Tool = ''host_app_install'', o_Arguments = ''{}'', o_Digest = ''d1'', o_State = ''approved'', o_CreatedAt = 0,
     o_ExpiresAt = 900, o_UpdatedAt = 0, o_ApprovedBy = ''admin'', o_Result = [], o_Error = []\<rparr>"

definition sample_queue :: "string \<Rightarrow> operations" where
  "sample_queue host = \<lparr>os_items = [sample_op host], os_available = True, os_file = OpFile [sample_op host]\<rparr>"

definition claimed_queue :: "string \<Rightarrow> operations" where
  "claimed_queue host = (let o1 = (sample_op host)\<lparr>o_State := ''executing'', o_UpdatedAt := 11\<rparr> in
     \<lparr>os_items = [o1], os_available = True, os_file = OpFile [o1]\<rparr>)"

lemma sample_claim:
  "Claim 10 11 Saved ''op1'' ''c1'' ''d1'' ''h1'' (sample_queue host) =
    (Inr ((sample_op host)\<lparr>o_State := ''executing'', o_UpdatedAt := 11\<rparr>), claimed_queue host)"
  by (simp add: Claim_def change_def sample_queue_def sample_op_def claimed_queue_def save_ops_def Let_def)

lemma local_operation_claimed_once_witness:
  "\<exists>e. fst (Claim 12 13 Saved ''op1'' ''c1'' ''d1'' ''h1'' (op_run sample_mcp
     [SFinish 12 Saved ''op1'' ''failed'' [] [], SRestart (\<lambda>_. 13) Saved] (claimed_queue ''local''))) = Inl e"
  by (rule local_operation_claimed_once [OF sample_claim]) (auto simp: sample_op_def sample_queue_def)

definition sample_client :: string where "sample_client = hex_encode (replicate 16 (CHR ''a''))"

definition sample_identity :: string where "sample_identity = hex_encode (replicate 32 (CHR ''b''))"

definition sample_plan :: "operations \<Rightarrow> (mcp_error + operation) \<times> operations" where
  "sample_plan = Plan sample_mcp 5 (Some (replicate 16 (CHR ''i''))) Saved sample_client ''key-0001'' ''local''
     sample_identity ''host_app_install'' ''{}'' False"

lemma sample_plan_ok: "\<not> bad_plan sample_client ''key-0001'' ''local'' sample_identity ''host_app_install'' ''{}''"
  by (simp add: bad_plan_def validHex_def sample_client_def sample_identity_def MaxOperationArguments_def)

lemma js_canonical_sample: "js_canonical sample_mcp raw = Some raw" by (simp add: sample_mcp_def)

lemma sample_plan_done:
  "\<exists>o1 s1. sample_plan \<lparr>os_items = [], os_available = True, os_file = NoFile\<rparr> = (Inr o1, s1) \<and> os_available s1 \<and> os_items s1 = [o1] \<and>
     o_Digest o1 = hex_encode (sha256 (mx_G sample_mcp) (js_array sample_mcp sample_client ''local'' sample_identity ''host_app_install'' ''{}''))"
  using sample_plan_ok new_operation_digest [of sample_mcp]
  by (simp add: sample_plan_def Plan_def Let_def save_ops_def MaxOperations_def MaxOperationArguments_def js_canonical_sample)

lemma plan_idempotent_witness:
  "\<exists>o1 s1. sample_plan \<lparr>os_items = [], os_available = True, os_file = NoFile\<rparr> = (Inr o1, s1) \<and> sample_plan s1 = (Inr o1, s1)"
proof -
  obtain o1 s1 where p: "sample_plan \<lparr>os_items = [], os_available = True, os_file = NoFile\<rparr> = (Inr o1, s1)"
    and d: "o_Digest o1 = hex_encode (sha256 (mx_G sample_mcp) (js_array sample_mcp sample_client ''local'' sample_identity ''host_app_install'' ''{}''))"
    using sample_plan_done by blast
  have c: "js_canonical sample_mcp ''{}'' = Some ''{}''" by (simp add: sample_mcp_def)
  have l: "length ''{}'' \<le> MaxOperationArguments" by (simp add: MaxOperationArguments_def)
  from plan_idempotent [OF p [unfolded sample_plan_def] sample_plan_ok c l] d p show ?thesis
    unfolding sample_plan_def by auto
qed

lemma queue_reopens_witness:
  "os_available (OpenOperations sample_mcp (\<lambda>_. 99) Saved (os_file (op_run sample_mcp
     [SPlan 5 (Some (replicate 16 (CHR ''i''))) Saved sample_client ''key-0001'' ''local'' sample_identity
       ''host_app_install'' ''{}'' False] \<lparr>os_items = [], os_available = True, os_file = NoFile\<rparr>)))"
proof -
  let ?s = "\<lparr>os_items = [], os_available = True, os_file = NoFile\<rparr>"
  let ?c = "SPlan 5 (Some (replicate 16 (CHR ''i''))) Saved sample_client ''key-0001'' ''local'' sample_identity
       ''host_app_install'' ''{}'' False"
  have "json_ok sample_mcp" by (simp add: json_ok_def sample_mcp_def)
  moreover have "os_available (op_run sample_mcp [?c] ?s)"
    using sample_plan_done by (auto simp: op_run_def sample_plan_def)
  moreover have "fresh_run sample_mcp [?c] ?s" using validHex_encode [of "replicate 16 (CHR ''i'')"] by (simp add: fresh_id_def)
  ultimately show ?thesis
    using queue_reopens [of sample_mcp ?s "[?c]" "\<lambda>_. 99"] by (simp add: ops_ok_def synced_ops_def)
qed

lemma revocation_misses_claimed_witness:
  "\<exists>o2 s3 o3 s4. Finish sample_mcp 20 Saved ''op1'' ''approved'' [] [] (snd (Invalidate (\<lambda>_. 15) Saved ''c1'' (claimed_queue ''node-2''))) = (Inr o2, s3) \<and>
     Claim 30 31 Saved ''op1'' ''c1'' ''d1'' ''h1'' s3 = (Inr o3, s4)"
proof -
  have i: "Invalidate (\<lambda>_. 15) Saved ''c1'' (claimed_queue ''node-2'') = (None, claimed_queue ''node-2'')"
    by (simp add: Invalidate_def claimed_queue_def revoked_def Let_def)
  show ?thesis
    using revocation_misses_claimed [OF sample_claim _ i, of 30 sample_mcp 20 31] i by (simp add: sample_op_def)
qed

end
