(* ===== verification/McpAccessProps.thy ===== *)
theory McpAccessProps
  imports McpAccess McpQueue
begin

text \<open>
  The theorems about delegated MCP credentials: what a token is good for from its creation to its
  revocation, the bounds on its use, and the state on disk.
\<close>

section \<open>Calls\<close>

datatype access_call =
    KSet save_io bool string
  | KCreate gotime "string option" "string option" save_io string "host_grant list" "policy option" duration string
  | KRevoke save_io string string
  | KRevokeGrant save_io string
  | KReset save_io
  | KBegin gotime string
  | KBeginGrant gotime string
  | KRelease nat

fun access_exec :: "access_env \<Rightarrow> access_call \<Rightarrow> mcp_store \<Rightarrow> mcp_store" where
  "access_exec E (KSet io b v) s = snd (SetEnabled E io b v s)"
| "access_exec E (KCreate now rid rs io n hs p lt v) s = snd (CreateWithPolicy E now rid rs io n hs p lt v s)"
| "access_exec E (KRevoke io i v) s = snd (Revoke E io i v s)"
| "access_exec E (KRevokeGrant io i) s = snd (revokeOAuthGrant E io i s)"
| "access_exec E (KReset io) s = snd (Reset_access E io s)"
| "access_exec E (KBegin now t) s = snd (Begin E now t s)"
| "access_exec E (KBeginGrant now i) s = snd (beginOAuthGrant now i s)"
| "access_exec E (KRelease n) s = release n s"

definition access_run :: "access_env \<Rightarrow> access_call list \<Rightarrow> mcp_store \<Rightarrow> mcp_store" where
  "access_run E cs s = fold (access_exec E) cs s"

section \<open>The counters of the clients\<close>

definition refs :: "(string \<times> mcp_usage) list \<Rightarrow> nat list" where
  "refs m = map (\<lambda>p. us_ref (snd p)) m"

definition usage_ok :: "mcp_store \<Rightarrow> bool" where
  "usage_ok s =
     (distinct (map fst (mt_usage s)) \<and> distinct (refs (mt_usage s)) \<and> distinct (map fst (mt_open s)) \<and>
      (\<forall>p\<in>set (mt_open s). fst p < mt_next s \<and> snd p < mt_next s) \<and>
      (\<forall>p\<in>set (mt_usage s). us_ref (snd p) < mt_next s \<and> us_count (snd p) \<le> 120 \<and> us_active (snd p) \<le> 2 \<and>
         us_active (snd p) = count_if (\<lambda>q. snd q = us_ref (snd p)) (mt_open s)))"

lemma usage_ok_same:
  assumes ok: "usage_ok s" and same: "mt_usage s' = mt_usage s" "mt_open s' = mt_open s" "mt_next s' = mt_next s"
  shows "usage_ok s'"
  using ok unfolding usage_ok_def same .

lemma set_alist_put_distinct:
  "distinct (map fst m) \<Longrightarrow> set (alist_put k v m) = insert (k, v) {p \<in> set m. fst p \<noteq> k}"
  by (induction k v m rule: alist_put.induct) (auto simp: image_iff)

lemma refs_put:
  assumes "distinct (refs m)"
    and "case map_of m k of Some u \<Rightarrow> us_ref v = us_ref u | None \<Rightarrow> us_ref v \<notin> set (refs m)"
  shows "distinct (refs (alist_put k v m))"
  using assms
proof (induction k v m rule: alist_put.induct)
  case (1 k v)
  then show ?case by (simp add: refs_def)
next
  case (2 k v k' v' m)
  show ?case
  proof (cases "k = k'")
    case True
    with 2 show ?thesis by (simp add: refs_def)
  next
    case False
    with 2 have "distinct (refs (alist_put k v m))" by (auto simp: refs_def split: option.splits)
    moreover have "us_ref v' \<notin> set (refs (alist_put k v m))"
    proof
      assume "us_ref v' \<in> set (refs (alist_put k v m))"
      then consider "us_ref v' = us_ref v" | "us_ref v' \<in> set (refs m)"
        by (fastforce simp: refs_def dest: set_alist_put [THEN subsetD])
      then show False
        using 2(2,3) False by cases (force simp: refs_def dest: map_of_SomeD split: option.splits)+
    qed
    ultimately show ?thesis using False by (simp add: refs_def)
  qed
qed

lemma usage_ok_frame:
  "usage_ok s \<Longrightarrow> mt_usage s' = mt_usage s \<Longrightarrow> mt_open s' = mt_open s \<Longrightarrow> mt_next s' = mt_next s \<Longrightarrow> usage_ok s'"
  unfolding usage_ok_def by (erule ssubst)+

lemma save_access_usage: "save_access E io next s = (r, s') \<Longrightarrow>
    mt_usage s' = mt_usage s \<and> mt_open s' = mt_open s \<and> mt_next s' = mt_next s"
  by (auto simp: save_access_def split: if_splits save_io.splits)

lemma usage_ok_save: "usage_ok s \<Longrightarrow> save_access E io next s = (r, s') \<Longrightarrow> usage_ok s'"
  using save_access_usage by (metis usage_ok_frame)

lemma usage_ok_del: "usage_ok s \<Longrightarrow> usage_ok (s\<lparr>mt_usage := alist_del i (mt_usage s)\<rparr>)"
  by (auto simp: usage_ok_def alist_del_def refs_def distinct_map_filter)

lemma usage_ok_revoke: "usage_ok s \<Longrightarrow> revokeLocked E io i s = (r, s') \<Longrightarrow> usage_ok s'"
  by (auto simp: revokeLocked_def Let_def dest: usage_ok_save intro!: usage_ok_del split: if_splits prod.splits option.splits)

lemma usage_ok_begin:
  assumes ok: "usage_ok s" and b: "beginLocked now p s = (r, s')"
  shows "usage_ok s'"
proof -
  let ?i = "mc_ID (pr_Client p)" and ?m = "mt_usage s" and ?n = "mt_next s"
  define u where "u = usage_now now ?i s"
  have u: "(case map_of ?m ?i of Some v \<Rightarrow> us_ref u = us_ref v \<and> us_active u = us_active v \<and> us_count u \<le> 120
      | None \<Rightarrow> us_ref u = ?n \<and> us_active u = 0 \<and> us_count u = 0)"
    using ok by (auto simp: u_def usage_now_def lookup_or_def Let_def usage_ok_def dest!: map_of_SomeD split: option.split)
  have act: "us_active u = count_if (\<lambda>q. snd q = us_ref u) (mt_open s)" and cnt: "us_count u \<le> 120" "us_active u \<le> 2"
    and ref: "us_ref u < Suc ?n"
  proof -
    have "count_if (\<lambda>q. snd q = ?n) (mt_open s) = 0" using ok by (intro count_if_zero) (auto simp: usage_ok_def)
    with u ok show "us_active u = count_if (\<lambda>q. snd q = us_ref u) (mt_open s)" "us_count u \<le> 120" "us_active u \<le> 2" "us_ref u < Suc ?n"
      by (auto simp: usage_ok_def dest!: map_of_SomeD split: option.splits)
  qed
  have refs_ok: "case map_of ?m ?i of Some v \<Rightarrow> us_ref w = us_ref v | None \<Rightarrow> us_ref w \<notin> set (refs ?m)" if "us_ref w = us_ref u" for w
  proof (cases "map_of ?m ?i")
    case None
    with u ok that show ?thesis by (auto simp: usage_ok_def refs_def)
  next
    case (Some v)
    with u that show ?thesis by simp
  qed
  have other: "us_ref (snd q) \<noteq> us_ref u" if "q \<in> set ?m" "fst q \<noteq> ?i" for q
  proof (cases "map_of ?m ?i")
    case None
    with u ok that show ?thesis by (auto simp: usage_ok_def)
  next
    case (Some v)
    then have "(?i, v) \<in> set ?m" by (rule map_of_SomeD)
    with Some u ok that show ?thesis
      by (fastforce simp: usage_ok_def refs_def distinct_map inj_on_def)
  qed
  have put: "usage_ok (s\<lparr>mt_usage := alist_put ?i w ?m, mt_open := op, mt_next := Suc ?n\<rparr>)"
    if "us_ref w = us_ref u" "us_count w \<le> 120" "us_active w \<le> 2" "us_active w = count_if (\<lambda>q. snd q = us_ref u) op"
      "op = mt_open s \<or> op = (?n, us_ref u) # mt_open s" for w op
  proof -
    have d: "distinct (map fst op)" using ok that(5) by (fastforce simp: usage_ok_def)
    have o: "\<forall>p\<in>set op. fst p < Suc ?n \<and> snd p < Suc ?n" using ok that(5) ref by (fastforce simp: usage_ok_def)
    have "us_ref (snd q) < Suc ?n \<and> us_count (snd q) \<le> 120 \<and> us_active (snd q) \<le> 2 \<and>
         us_active (snd q) = count_if (\<lambda>r. snd r = us_ref (snd q)) op" if "q \<in> set (alist_put ?i w ?m)" for q
    proof (cases "fst q = ?i")
      case True
      with that have "q = (?i, w)" using ok by (auto simp: usage_ok_def set_alist_put_distinct)
      with \<open>us_ref w = us_ref u\<close> \<open>us_count w \<le> 120\<close> \<open>us_active w \<le> 2\<close> \<open>us_active w = _\<close> ref show ?thesis by simp
    next
      case False
      with that have q: "q \<in> set ?m" using ok by (auto simp: usage_ok_def set_alist_put_distinct)
      have "count_if (\<lambda>r. snd r = us_ref (snd q)) op = count_if (\<lambda>r. snd r = us_ref (snd q)) (mt_open s)"
        using \<open>op = mt_open s \<or> _\<close> other [OF q False] by (auto simp: count_if_def)
      with q ok show ?thesis by (auto simp: usage_ok_def)
    qed
    then have "\<forall>q\<in>set (alist_put ?i w ?m). us_ref (snd q) < Suc ?n \<and> us_count (snd q) \<le> 120 \<and> us_active (snd q) \<le> 2 \<and>
         us_active (snd q) = count_if (\<lambda>r. snd r = us_ref (snd q)) op" by (rule ballI)
    moreover have "distinct (map fst (alist_put ?i w ?m))" "distinct (refs (alist_put ?i w ?m))"
      using ok refs_put [OF _ refs_ok [OF that(1)]] by (simp_all add: usage_ok_def distinct_alist_put)
    moreover have "mt_usage (s\<lparr>mt_usage := m, mt_open := op, mt_next := n\<rparr>) = m"
        "mt_open (s\<lparr>mt_usage := m, mt_open := op, mt_next := n\<rparr>) = op"
        "mt_next (s\<lparr>mt_usage := m, mt_open := op, mt_next := n\<rparr>) = n" for m n by simp_all
    ultimately show ?thesis using d o unfolding usage_ok_def by metis
  qed
  have put1: "usage_ok (s\<lparr>mt_usage := alist_put ?i u ?m, mt_next := Suc ?n\<rparr>)"
    using put [of u "mt_open s"] act cnt by simp
  have twice: "alist_put k v (alist_put k w m) = alist_put k v m" for k v w and m :: "(string \<times> mcp_usage) list"
    by (induction k w m rule: alist_put.induct) auto
  show ?thesis
  proof (cases "120 \<le> us_count u \<or> 2 \<le> us_active u")
    case True
    with b put1 show ?thesis by (auto simp: beginLocked_def Let_def simp flip: u_def)
  next
    case False
    with put [of "u\<lparr>us_count := us_count u + 1, us_active := us_active u + 1\<rparr>" "(?n, us_ref u) # mt_open s"] act
    have "usage_ok (s\<lparr>mt_usage := alist_put ?i (u\<lparr>us_count := us_count u + 1, us_active := us_active u + 1\<rparr>) ?m,
        mt_open := (?n, us_ref u) # mt_open s, mt_next := Suc ?n\<rparr>)" by (simp add: count_if_def)
    with False b show ?thesis
      by (auto simp: beginLocked_def Let_def twice simp flip: u_def elim!: usage_ok_same)
  qed
qed

lemma count_if_del:
  "distinct (map fst m) \<Longrightarrow> map_of m n = Some r \<Longrightarrow>
    count_if P m = count_if P (alist_del n m) + (if P (n, r) then 1 else 0)"
proof (induction m)
  case Nil
  then show ?case by simp
next
  case (Cons q m)
  show ?case
  proof (cases "fst q = n")
    case True
    with Cons.prems have "q = (n, r)" "alist_del n m = m"
      by (auto simp: alist_del_def filter_id_conv image_iff)
    with True show ?thesis by (simp add: count_if_def alist_del_def)
  next
    case False
    with Cons have "count_if P m = count_if P (alist_del n m) + (if P (n, r) then 1 else 0)" by (cases q) auto
    with False show ?thesis by (simp add: count_if_def alist_del_def)
  qed
qed

lemma usage_ok_release: assumes ok: "usage_ok s" shows "usage_ok (release n s)"
proof (cases "map_of (mt_open s) n")
  case None
  with ok show ?thesis by (simp add: release_def)
next
  case (Some r)
  let ?f = "\<lambda>p. (fst p, dec_ref r (snd p))"
  have ref [simp]: "us_ref (dec_ref r u) = us_ref u" "us_count (dec_ref r u) = us_count u" for u by (simp_all add: dec_ref_def)
  have keys: "map (fst \<circ> ?f) m = map fst m" "refs (map ?f m) = refs m" for m by (induction m) (simp_all add: refs_def)
  have d: "distinct (map fst (mt_open s))" using ok by (simp only: usage_ok_def)
  have cnt: "us_active (dec_ref r (snd p)) = count_if (\<lambda>q. snd q = us_ref (snd p)) (alist_del n (mt_open s))"
    "us_active (dec_ref r (snd p)) \<le> 2" if "p \<in> set (mt_usage s)" for p
    using count_if_del [OF d Some, of "\<lambda>q. snd q = us_ref (snd p)"] ok that
    by (auto simp: usage_ok_def dec_ref_def)
  have "\<forall>q\<in>set (alist_del n (mt_open s)). fst q < mt_next s \<and> snd q < mt_next s"
    using ok by (auto simp: usage_ok_def set_alist_del)
  with cnt d ok show ?thesis
    unfolding usage_ok_def release_def Some by (simp add: keys distinct_alist_del)
qed

lemma usage_ok_snd:
  "usage_ok s \<Longrightarrow> usage_ok (snd (beginLocked now p s))" "usage_ok s \<Longrightarrow> usage_ok (snd (revokeLocked E io i s))"
  by (metis usage_ok_begin prod.collapse, metis usage_ok_revoke prod.collapse)

lemma usage_ok_exec: "usage_ok s \<Longrightarrow> usage_ok (access_exec E c s)"
proof (cases c)
  case (KReset io)
  assume "usage_ok s"
  then have "usage_ok s'" if "save_access E io zero_mcp_state s = (r, s')" for r s' using that by (rule usage_ok_save)
  then have "usage_ok (s'\<lparr>mt_available := True, mt_usage := []\<rparr>)" if "save_access E io zero_mcp_state s = (r, s')" for r s'
    using that by (fastforce simp: usage_ok_def refs_def)
  with KReset \<open>usage_ok s\<close> show ?thesis
    by (auto simp: Reset_access_def split: prod.split option.split dest: usage_ok_save)
qed (auto simp: SetEnabled_def CreateWithPolicy_def Let_def Revoke_def revokeOAuthGrant_def Begin_def beginOAuthGrant_def
    usage_ok_release usage_ok_snd dest: usage_ok_save usage_ok_revoke usage_ok_begin split: option.split prod.split sum.split)



section \<open>From creation to revocation\<close>

lemma save_access_None: "save_access E io next s = (None, s') \<Longrightarrow>
    io = Saved \<and> s' = s\<lparr>mt_state := next, mt_file := AccessFile next\<rparr>"
  by (auto simp: save_access_def split: if_splits save_io.splits)

lemma Create_Inr:
  assumes "CreateWithPolicy E now rid rs io name hosts pol lt v s = (Inr (c, token), s')"
  obtains i secret where "rid = Some i" "rs = Some secret" "token = token_of secret" "mc_ID c = hex_encode i"
    "mc_ExpiresAt c = now + lt" "mc_CreatedAt c = now" "mc_Policy c = pol" "mc_Hosts c = hosts" "mc_Name c = name"
    "mt_available s" "ms_Enabled (mt_state s)" "validName name" "validHosts hosts" "Valid pol" "Hour \<le> lt" "lt \<le> 90 * 24 * Hour"
    "length (ms_Clients (mt_state s)) < MaxClients"
    "s' = s\<lparr>mt_state := (mt_state s)\<lparr>ms_Clients := ms_Clients (mt_state s) @ [\<lparr>cd_Client = c, cd_Digest = token_digest E token\<rparr>]\<rparr>,
       mt_file := AccessFile ((mt_state s)\<lparr>ms_Clients := ms_Clients (mt_state s) @ [\<lparr>cd_Client = c, cd_Digest = token_digest E token\<rparr>]\<rparr>)\<rparr>"
  using assms
  by (auto simp: CreateWithPolicy_def Let_def expected_def not_less not_le dest!: save_access_None
      split: option.splits if_splits prod.splits)

lemma find_append: "List.find P (xs @ ys) = (case List.find P xs of None \<Rightarrow> List.find P ys | Some x \<Rightarrow> Some x)"
  by (induction xs) auto



section \<open>The state on disk\<close>

definition client_ids :: "mcp_credential list \<Rightarrow> string list" where
  "client_ids cs = map (\<lambda>c. mc_ID (cd_Client c)) cs"

lemma clients_ok_iff:
  "clients_ok seen cs = ((\<forall>c\<in>set cs. client_ok c) \<and> distinct (client_ids cs) \<and> set (client_ids cs) \<inter> set seen = {})"
  by (induction seen cs rule: clients_ok.induct) (auto simp: client_ids_def)

lemma validState_iff:
  "validState v = (ms_Version v = 1 \<and> length (ms_Clients v) \<le> MaxClients \<and> (\<forall>c\<in>set (ms_Clients v). client_ok c) \<and>
     distinct (client_ids (ms_Clients v)))"
  by (auto simp: validState_def clients_ok_iff not_less)

definition synced_access :: "mcp_store \<Rightarrow> bool" where
  "synced_access s = (validState (mt_state s) \<and>
     (mt_available s \<longrightarrow> mt_file s = AccessFile (mt_state s) \<or> (mt_file s = NoAccess \<and> mt_state s = zero_mcp_state)))"

text \<open>The draws and clock readings of a run: identifiers not in use, and no reading of the zero time.\<close>

fun good_create :: "access_call \<Rightarrow> mcp_store \<Rightarrow> bool" where
  "good_create (KCreate now (Some i) rs io n hs p lt v) s =
     (length i = 16 \<and> now \<noteq> zero_time \<and> hex_encode i \<notin> set (client_ids (ms_Clients (mt_state s))))"
| "good_create _ s = True"

fun good_creates :: "access_env \<Rightarrow> access_call list \<Rightarrow> mcp_store \<Rightarrow> bool" where
  "good_creates E [] s = True"
| "good_creates E (c # cs) s = (good_create c s \<and> good_creates E cs (access_exec E c s))"

lemma validState_zero [simp]: "validState zero_mcp_state"
  by (simp add: validState_iff zero_mcp_state_def client_ids_def)

lemma validState_enabled: "validState v \<Longrightarrow> validState (v\<lparr>ms_Enabled := b\<rparr>)"
  by (simp add: validState_iff)

lemma validState_filter: "validState v \<Longrightarrow> validState (v\<lparr>ms_Clients := filter P (ms_Clients v)\<rparr>)"
  by (auto simp: validState_iff client_ids_def distinct_map_filter intro: order_trans [OF length_filter_le])

lemma access_synced_save:
  "synced_access s \<Longrightarrow> validState next \<Longrightarrow> save_access E io next s = (r, s') \<Longrightarrow> synced_access s'"
  by (auto simp: save_access_def synced_access_def split: if_splits save_io.splits)

lemma client_ok_created:
  assumes "length i = 16" "\<And>v. length (sha256 (ax_G E) v) = 32" "validName name" "validHosts hosts" "Valid pol" "now \<noteq> zero_time"
    "Hour \<le> lt" "lt \<le> 90 * 24 * Hour"
  shows "client_ok \<lparr>cd_Client = \<lparr>mc_ID = hex_encode i, mc_Name = name, mc_Hosts = hosts, mc_CreatedAt = now,
    mc_ExpiresAt = now + lt, mc_Policy = pol\<rparr>, cd_Digest = token_digest E t\<rparr>"
  using assms validHex_encode [of i] validHex_encode [of "sha256 (ax_G E) t"]
  by (simp add: client_ok_def token_digest_def Hour_def Minute_def Second_def)

lemma validState_create:
  assumes sha: "\<And>v. length (sha256 (ax_G E) v) = 32" and v: "validState st"
    and i: "length i = 16" "hex_encode i \<notin> set (client_ids (ms_Clients st))" and room: "length (ms_Clients st) < MaxClients"
    and args: "validName name" "validHosts hosts" "Valid pol" "now \<noteq> zero_time" "Hour \<le> lt" "lt \<le> 90 * 24 * Hour"
  shows "validState (st\<lparr>ms_Clients := ms_Clients st @ [\<lparr>cd_Client = \<lparr>mc_ID = hex_encode i, mc_Name = name, mc_Hosts = hosts,
    mc_CreatedAt = now, mc_ExpiresAt = now + lt, mc_Policy = pol\<rparr>, cd_Digest = token_digest E t\<rparr>]\<rparr>)"
  using v i(2) room client_ok_created [OF i(1) sha args]
  by (simp add: validState_iff client_ids_def)

lemma synced_frame:
  "synced_access s \<Longrightarrow> mt_state s' = mt_state s \<Longrightarrow> mt_available s' = mt_available s \<Longrightarrow> mt_file s' = mt_file s \<Longrightarrow> synced_access s'"
  by (simp add: synced_access_def)

lemma begin_frame:
  "beginLocked now p s = (r, s') \<Longrightarrow> mt_state s' = mt_state s \<and> mt_available s' = mt_available s \<and> mt_file s' = mt_file s"
  by (auto simp: beginLocked_def Let_def split: if_splits)

lemma synced_begin: "synced_access s \<Longrightarrow> beginLocked now p s = (r, s') \<Longrightarrow> synced_access s'"
  using begin_frame synced_frame by metis

lemma synced_revoke: "synced_access s \<Longrightarrow> revokeLocked E io i s = (r, s') \<Longrightarrow> synced_access s'"
proof -
  assume a: "synced_access s" "revokeLocked E io i s = (r, s')"
  then have "synced_access s2" if "save_access E io ((mt_state s)\<lparr>ms_Clients := filter (\<lambda>c. mc_ID (cd_Client c) \<noteq> i) (ms_Clients (mt_state s))\<rparr>) s
      = (r2, s2)" for r2 s2
    using that validState_filter access_synced_save by (metis synced_access_def)
  with a show ?thesis
    by (fastforce simp: revokeLocked_def Let_def elim: synced_frame split: if_splits prod.splits option.splits)
qed

lemma synced_create:
  assumes sha: "\<And>v. length (sha256 (ax_G E) v) = 32" and s: "synced_access s" and g: "good_create (KCreate now rid rs io n hs p lt v) s"
  shows "synced_access (snd (CreateWithPolicy E now rid rs io n hs p lt v s))"
proof -
  have v: "validState (mt_state s)" using s by (simp add: synced_access_def)
  show ?thesis
  proof (cases rid)
    case (Some i)
    with g have i: "length i = 16" "now \<noteq> zero_time" "hex_encode i \<notin> set (client_ids (ms_Clients (mt_state s)))" by simp_all
    note new = validState_create [OF sha v i(1,3) _ _ _ _ i(2)]
    show ?thesis
      by (auto simp: CreateWithPolicy_def Some Let_def not_le not_less s intro: access_synced_save [OF s new]
          split: option.split prod.split)
  qed (simp add: CreateWithPolicy_def s split: option.split)
qed

lemma access_synced_exec:
  assumes sha: "\<And>v. length (sha256 (ax_G E) v) = 32" and s: "synced_access s" and g: "good_create c s"
  shows "synced_access (access_exec E c s)"
proof -
  have v: "validState (mt_state s)" using s by (simp add: synced_access_def)
  have snds: "synced_access (snd (beginLocked now p s))" "synced_access (snd (revokeLocked E io i s))"
    "revokeLocked E io i s = (r, s') \<Longrightarrow> synced_access s'" for now p io i r s'
    using s synced_begin synced_revoke by (metis prod.collapse)+
  show ?thesis
  proof (cases c)
    case (KCreate now rid rs io n hs p lt v)
    with g have "good_create (KCreate now rid rs io n hs p lt v) s" by simp
    from synced_create [OF sha s this] KCreate show ?thesis by simp
  next
    case (KReset io)
    have "synced_access (s'\<lparr>mt_available := True, mt_usage := []\<rparr>)" if "save_access E io zero_mcp_state s = (None, s')" for s'
      using that by (auto simp: synced_access_def dest!: save_access_None)
    with KReset s show ?thesis
      by (auto simp: Reset_access_def intro: access_synced_save [OF s validState_zero] split: prod.split option.split)
  next
    case (KRelease n)
    with s show ?thesis by (auto simp: release_def elim: synced_frame split: option.split)
  qed (insert s v, auto simp: SetEnabled_def Revoke_def revokeOAuthGrant_def Begin_def beginOAuthGrant_def
      intro: snds access_synced_save [OF s validState_enabled] split: option.split prod.split sum.split)
qed

text \<open>
  Every call keeps the client state valid, and opening the file on disk restores the state
  in memory.
\<close>

theorem access_reopens:
  assumes sha: "\<And>v. length (sha256 (ax_G E) v) = 32" and s: "synced_access s" and g: "good_creates E cs s"
    and av: "mt_available (access_run E cs s)"
  shows "validState (mt_state (access_run E cs s)) \<and> mt_available (Open_access (mt_file (access_run E cs s))) \<and>
    mt_state (Open_access (mt_file (access_run E cs s))) = mt_state (access_run E cs s)"
proof -
  have "synced_access (access_run E cs s)"
    using s g by (induction cs arbitrary: s) (simp_all add: access_run_def access_synced_exec [OF sha])
  with av show ?thesis by (auto simp: synced_access_def Open_access_def)
qed

text \<open>
  Once a write has failed, no call but a reset changes the clients or the file, and no
  token is accepted.
\<close>

theorem closed_until_reset:
  assumes closed: "\<not> mt_available s" and no_reset: "\<And>io. KReset io \<notin> set cs"
  shows "mt_state (access_run E cs s) = mt_state s \<and> mt_file (access_run E cs s) = mt_file s \<and>
    fst (Begin E now token (access_run E cs s)) = Inl MErrUnauthorized"
proof -
  have step: "\<not> mt_available (access_exec E c s) \<and> mt_state (access_exec E c s) = mt_state s \<and> mt_file (access_exec E c s) = mt_file s"
    if "\<not> mt_available s" "\<And>io. c \<noteq> KReset io" for c s
    using that by (cases c) (auto simp: SetEnabled_def CreateWithPolicy_def expected_def Revoke_def revokeOAuthGrant_def Begin_def
        beginOAuthGrant_def LookupClient_def find_client_def release_def split: option.split)
  have "\<not> mt_available (access_run E cs s) \<and> mt_state (access_run E cs s) = mt_state s \<and> mt_file (access_run E cs s) = mt_file s"
    using closed no_reset
  proof (induction cs arbitrary: s)
    case (Cons c cs)
    have "\<And>io. c \<noteq> KReset io" using Cons.prems(2) by (metis list.set_intros(1))
    from step [OF Cons.prems(1) this] Cons show ?case by (simp add: access_run_def)
  qed (simp add: access_run_def)
  then show ?thesis by (simp add: Begin_def find_client_def)
qed

section \<open>Instances\<close>

definition sample_access :: access_env where
  "sample_access = \<lparr>ax_G = demo_env\<lparr>sha256 := (\<lambda>_. replicate 32 (CHR ''x''))\<rparr>, ax_encode = (\<lambda>_. Some [])\<rparr>"

definition bare_store :: mcp_store where
  "bare_store = (Open_access NoAccess)\<lparr>mt_state := zero_mcp_state\<lparr>ms_Enabled := True\<rparr>,
     mt_file := AccessFile (zero_mcp_state\<lparr>ms_Enabled := True\<rparr>)\<rparr>"

definition sample_hosts :: "host_grant list" where
  "sample_hosts = [\<lparr>hg_ID = ''local'', hg_Identity = sample_identity\<rparr>]"

definition sample_secret :: string where "sample_secret = replicate 32 (CHR ''s'')"

definition sample_rid :: string where "sample_rid = replicate 16 (CHR ''i'')"

definition sample_version :: string where "sample_version = version sample_access zero_mcp_state"

definition sample_bot :: mcp_client where
  "sample_bot = \<lparr>mc_ID = hex_encode sample_rid, mc_Name = ''bot'', mc_Hosts = sample_hosts, mc_CreatedAt = 100,
     mc_ExpiresAt = 100 + Hour, mc_Policy = None\<rparr>"

definition sample_bot_store :: mcp_store where
  "sample_bot_store = (let st = zero_mcp_state\<lparr>ms_Enabled := True,
       ms_Clients := [\<lparr>cd_Client = sample_bot, cd_Digest = token_digest sample_access (token_of sample_secret)\<rparr>]\<rparr> in
     bare_store\<lparr>mt_state := st, mt_file := AccessFile st\<rparr>)"

definition sample_create :: access_call where
  "sample_create = KCreate 100 (Some sample_rid) (Some sample_secret) Saved ''bot'' sample_hosts None Hour sample_version"

lemma sample_version_any: "version sample_access v = sample_version"
  by (simp add: sample_version_def version_def sample_access_def)

lemma sample_encode: "ax_encode sample_access v = Some []"
  by (simp add: sample_access_def)

lemma bot_name: "validName ''bot''"
proof -
  have "runes ''bot'' = Some [98, 111, 116]" using runes_ascii [of "''bot''"] by (simp add: is_ascii_def byte_def)
  moreover have "trim_space ''bot'' = ''bot''" by code_simp
  ultimately show ?thesis by (simp add: validName_def is_control_def)
qed

lemma sample_hosts_ok: "validHosts sample_hosts"
  by (simp add: validHosts_def sample_hosts_def MaxHosts_def validHex_def sample_identity_def)

lemma sample_created:
  "CreateWithPolicy sample_access 100 (Some sample_rid) (Some sample_secret) Saved ''bot'' sample_hosts None
      Hour sample_version bare_store = (Inr (sample_bot, token_of sample_secret), sample_bot_store)"
  using bot_name sample_hosts_ok sample_version_any
  by (simp add: CreateWithPolicy_def bare_store_def Open_access_def zero_mcp_state_def expected_def Valid_def MaxClients_def
      save_access_def sample_encode MaxBytes_def Let_def Hour_def Minute_def Second_def sample_bot_def sample_bot_store_def)

lemma sample_revoked:
  "\<exists>sn s2. Revoke sample_access Saved (mc_ID sample_bot) sample_version sample_bot_store = (Inr sn, s2)"
  using sample_version_any
  by (simp add: Revoke_def expected_def revokeLocked_def save_access_def sample_encode MaxBytes_def Let_def
      sample_bot_store_def bare_store_def Open_access_def)

definition sample_busy :: mcp_store where
  "sample_busy = sample_bot_store\<lparr>mt_usage := [(''c1'', \<lparr>us_minute = 3, us_count = 7, us_active = 2, us_ref = 0\<rparr>)],
     mt_open := [(2, 0), (1, 0)], mt_next := 3\<rparr>"



lemma access_reopens_witness:
  "mt_available (Open_access (mt_file (access_run sample_access [sample_create] bare_store)))"
proof -
  have "synced_access bare_store"
    by (simp add: synced_access_def bare_store_def Open_access_def validState_enabled)
  moreover have "good_creates sample_access [sample_create] bare_store"
    by (simp add: sample_create_def sample_rid_def zero_time_def Second_def bare_store_def zero_mcp_state_def client_ids_def)
  moreover have "mt_available (access_run sample_access [sample_create] bare_store)"
    by (simp add: access_run_def sample_create_def sample_created)
      (simp add: sample_bot_store_def bare_store_def Open_access_def Let_def)
  ultimately show ?thesis
    using access_reopens [of sample_access bare_store "[sample_create]"] by (simp add: sample_access_def)
qed

lemma closed_until_reset_witness:
  "fst (Begin sample_access 200 (token_of sample_secret)
     (access_run sample_access [KSet Saved True sample_version] (sample_bot_store\<lparr>mt_available := False\<rparr>))) = Inl MErrUnauthorized"
  using closed_until_reset [of "sample_bot_store\<lparr>mt_available := False\<rparr>" "[KSet Saved True sample_version]"] by simp

end
