(* ===== verification/McpOAuthProps.thy ===== *)
theory McpOAuthProps
  imports McpOAuth McpAccessProps
begin

text \<open>
  The theorems about the authorization server: the step relation of its state, codes and refresh
  tokens that work once, what reuse of one revokes, and the flow from consent to an admitted call.
\<close>

section \<open>The copy of the state\<close>

lemma decode_rune_local: "decode_rune s = Some (n, r) \<Longrightarrow> \<exists>w. s = w @ r \<and> (\<forall>t. decode_rune (w @ t) = Some (n, t))"
proof -
  assume d: "decode_rune s = Some (n, r)"
  then obtain a s' where s: "s = a # s'" by (cases s) (auto simp: decode_rune_def)
  consider "byte a < 128" | "194 \<le> byte a \<and> byte a \<le> 223" | "224 \<le> byte a \<and> byte a \<le> 239" | "240 \<le> byte a \<and> byte a \<le> 244"
    using d by (fastforce simp: decode_rune_def s split: if_splits)
  then show ?thesis
  proof cases
    case 1
    with d have "s = [a] @ r \<and> (\<forall>t. decode_rune ([a] @ t) = Some (n, t))" by (simp add: decode_rune_def s)
    then show ?thesis by blast
  next
    case 2
    then have "\<not> byte a < 128" by simp
    with d 2 obtain b where "s = [a, b] @ r" "cont b" "n = (byte a - 192) * 64 + (byte b - 128)"
      by (auto simp: decode_rune_def s split: list.splits if_splits)
    with 2 \<open>\<not> byte a < 128\<close> have "s = [a, b] @ r \<and> (\<forall>t. decode_rune ([a, b] @ t) = Some (n, t))" by (simp add: decode_rune_def)
    then show ?thesis by blast
  next
    case 3
    then have *: "\<not> byte a < 128" "\<not> (194 \<le> byte a \<and> byte a \<le> 223)" by simp_all
    with d 3 obtain b c where "s = [a, b, c] @ r"
        "cont b \<and> cont c \<and> (byte a = 224 \<longrightarrow> 160 \<le> byte b) \<and> (byte a = 237 \<longrightarrow> byte b \<le> 159)"
        "n = (byte a - 224) * 4096 + (byte b - 128) * 64 + (byte c - 128)"
      unfolding decode_rune_def s by (simp only: list.case if_False if_True simp_thms split: list.splits if_splits) auto
    with 3 * have "s = [a, b, c] @ r \<and> (\<forall>t. decode_rune ([a, b, c] @ t) = Some (n, t))" by (simp add: decode_rune_def)
    then show ?thesis by blast
  next
    case 4
    then have *: "\<not> byte a < 128" "\<not> (194 \<le> byte a \<and> byte a \<le> 223)" "\<not> (224 \<le> byte a \<and> byte a \<le> 239)" by simp_all
    with d 4 obtain b c e where "s = [a, b, c, e] @ r"
        "cont b \<and> cont c \<and> cont e \<and> (byte a = 240 \<longrightarrow> 144 \<le> byte b) \<and> (byte a = 244 \<longrightarrow> byte b \<le> 143)"
        "n = (byte a - 240) * 262144 + (byte b - 128) * 4096 + (byte c - 128) * 64 + (byte e - 128)"
      unfolding decode_rune_def s by (simp only: list.case if_False if_True simp_thms split: list.splits if_splits) auto
    with 4 * have "s = [a, b, c, e] @ r \<and> (\<forall>t. decode_rune ([a, b, c, e] @ t) = Some (n, t))" by (simp add: decode_rune_def)
    then show ?thesis by blast
  qed
qed

lemma json_text_idem [simp]: "json_text (json_text s) = json_text s"
proof (induction s rule: json_text.induct)
  case (1 s)
  show ?case
  proof (cases "decode_rune s")
    case None
    have bad: "decode_rune ([CHR 0xEF, CHR 0xBF, CHR 0xBD] @ t) = Some (65533, t)" for t
      by (simp add: decode_rune_def cont_def byte_def)
    show ?thesis
    proof (cases "s = []")
      case False
      then have "json_text s = [CHR 0xEF, CHR 0xBF, CHR 0xBD] @ json_text (tl s)"
        using None by (subst json_text.simps) simp
      moreover have "json_text ([CHR 0xEF, CHR 0xBF, CHR 0xBD] @ t) = [CHR 0xEF, CHR 0xBF, CHR 0xBD] @ json_text t" for t
        using bad [of t] by (subst json_text.simps) simp
      ultimately show ?thesis using 1(1) [OF False None] by metis
    qed simp
  next
    case (Some p)
    obtain n r where p: "p = (n, r)" by (cases p)
    have ne: "s \<noteq> []" using Some by (auto simp: decode_rune_def)
    obtain w where w: "s = w @ r" and d: "decode_rune (w @ t) = Some (n, t)" for t
      using decode_rune_local Some p by blast
    have "w \<noteq> []" using decode_rune_shorter [of s n r] Some p w by auto
    then have step: "json_text (w @ t) = w @ json_text t" for t using d [of t] by (subst json_text.simps) simp
    then have s: "json_text s = w @ json_text r" by (simp add: w)
    with 1(2) [OF ne Some p [symmetric]] s step show ?thesis by metis
  qed
qed

lemma json_text_hex [simp]: "json_text (hex_encode s) = hex_encode s"
proof (rule json_text_ascii)
  have "list_all is_lower_hex (hex_encode s)" by (rule hex_encode_lower)
  then show "is_ascii (hex_encode s)"
    by (auto simp: is_ascii_def list_all_iff is_lower_hex_def is_digit_def)
qed

lemma json_text_digest [simp]: "json_text (oauthDigest E v) = oauthDigest E v"
  by (simp add: oauthDigest_def)

section \<open>The step relation\<close>

text \<open>\<open>D\<close> holds the digests of the codes and tokens that a step draws.\<close>

inductive oauth_step :: "string set \<Rightarrow> oauth_state \<Rightarrow> oauth_state \<Rightarrow> bool" where
  reset: "oauth_step D st zero_oauth_state"
| quiet: "oauth_step D st ((next_state now st)\<lparr>ot_Clients := cs, ot_Authorizations := as\<rparr>)"
| consent: "oc_Digest c \<in> D \<Longrightarrow> \<not> oc_Used c \<Longrightarrow>
    oauth_step D st ((next_state now st)\<lparr>ot_Codes := ot_Codes (next_state now st) @ [c], ot_Authorizations := as\<rparr>)"
| redeem: "k < length (ot_Codes (next_state now st)) \<Longrightarrow> c = ot_Codes (next_state now st) ! k \<Longrightarrow> \<not> oc_Used c \<Longrightarrow>
    subseq F (ot_Families (next_state now st)) \<Longrightarrow> of_AccessDigest f \<in> D \<Longrightarrow> of_RefreshDigest f \<in> D \<Longrightarrow>
    of_UsedRefresh f = [] \<Longrightarrow>
    oauth_step D st ((next_state now st)\<lparr>ot_Codes := (ot_Codes (next_state now st))[k := c\<lparr>oc_Used := True, oc_FamilyID := i\<rparr>],
      ot_Families := F @ [f]\<rparr>)"
| rotate: "k < length (ot_Families (next_state now st)) \<Longrightarrow> f = ot_Families (next_state now st) ! k \<Longrightarrow>
    of_RefreshDigest f = d \<Longrightarrow> of_AccessDigest f' \<in> D \<Longrightarrow> of_RefreshDigest f' \<in> D \<Longrightarrow>
    of_UsedRefresh f' = of_UsedRefresh f @ [d] \<Longrightarrow>
    oauth_step D st ((next_state now st)\<lparr>ot_Families := (ot_Families (next_state now st))[k := f']\<rparr>)"
| revoke: "k < length (ot_Families (next_state now st)) \<Longrightarrow> f = ot_Families (next_state now st) ! k \<Longrightarrow>
    oauth_step D st ((next_state now st)\<lparr>ot_Families := (ot_Families (next_state now st))[k := f\<lparr>of_Revoked := True\<rparr>]\<rparr>)"

inductive_cases oauth_stepE: "oauth_step D st st'"

text \<open>An operation leaves the state alone or writes one step of it.\<close>

definition oauth_writes :: "string set \<Rightarrow> oauth \<Rightarrow> oauth \<Rightarrow> bool" where
  "oauth_writes D s s' = (s' = s \<or> (\<exists>io st r. oauth_step D (oa_state s) st \<and> save_oauth io st s = (r, s')))"

lemma oauth_writes_refl [simp]: "oauth_writes D s s"
  by (simp add: oauth_writes_def)

lemma oauth_writes_save: "save_oauth io st s = (r, s') \<Longrightarrow> oauth_step D (oa_state s) st \<Longrightarrow> oauth_writes D s s'"
  by (auto simp: oauth_writes_def)

lemma quiet_clients: "oauth_step D st ((next_state now st)\<lparr>ot_Clients := cs\<rparr>)"
  using quiet [of D st "ot_Authorizations (next_state now st)" cs now] by simp

lemma quiet_requests: "oauth_step D st ((next_state now st)\<lparr>ot_Authorizations := as\<rparr>)"
  using quiet [of D st as "ot_Clients (next_state now st)" now] by simp

lemma oauth_writes_snd: "oauth_step D (oa_state s) st \<Longrightarrow> oauth_writes D s (snd (save_oauth io st s))"
  by (metis oauth_writes_save prod.collapse)

lemma oauth_writes_result:
  "oauth_step D (oa_state s) st \<Longrightarrow>
    oauth_writes D s (snd (case save_oauth io st s of (None, s') \<Rightarrow> (v s', s') | (Some e, s') \<Rightarrow> (w e, s')))"
  by (cases "save_oauth io st s") (auto simp: oauth_writes_def split: option.split)

lemma Register_writes: "oauth_writes D s (snd (Register E now rid rs io n us m s))"
  unfolding Register_def Let_def
  by (simp add: oauth_writes_result quiet_clients split: option.split)

lemma Authorize_writes: "oauth_writes D s (snd (Authorize now rid io c u ch res v s))"
  unfolding Authorize_def Let_def
  by (simp add: oauth_writes_result quiet_requests quiet split: option.split)

definition code_draw :: "oauth_env \<Rightarrow> string option \<Rightarrow> string set" where
  "code_draw E r = oauthDigest E ` oauthRandom ''kpc_'' ` set_option r"

definition token_draws :: "oauth_env \<Rightarrow> string option \<Rightarrow> string option \<Rightarrow> string set" where
  "token_draws E ra rr = oauthDigest E ` (oauthRandom ''kpo_'' ` set_option ra \<union> oauthRandom ''kpr_'' ` set_option rr)"

lemma Consent_writes: "oauth_writes (code_draw E rc) s (fst (snd (Consent E now rc io create i ok b s)))"
  unfolding Consent_def Let_def
  by (auto intro!: oauth_writes_snd quiet_requests consent simp: code_draw_def new_code_def case_prod_unfold
      split: option.split sum.split)

lemma live_families_subseq: "subseq (live_families bnow n b fs) fs"
  by (induction bnow n b fs rule: live_families.induct) auto

lemma issue_draws:
  "of_AccessDigest (fst (issue E n1 n2 a r f)) \<in> token_draws E (Some a) (Some r)"
  "of_RefreshDigest (fst (issue E n1 n2 a r f)) \<in> token_draws E (Some a) (Some r)"
  "of_UsedRefresh (fst (issue E n1 n2 a r f)) = of_UsedRefresh f"
  by (simp_all add: issue_def Let_def token_draws_def)

lemma redeem_step:
  assumes "index_of (\<lambda>c. oc_Digest c = d) (ot_Codes (next_state now st)) = Some k" "\<not> oc_Used (ot_Codes (next_state now st) ! k)"
  shows "oauth_step (token_draws E (Some a) (Some r)) st ((next_state now st)\<lparr>
      ot_Codes := (ot_Codes (next_state now st))[k := (ot_Codes (next_state now st) ! k)\<lparr>oc_Used := True, oc_FamilyID := i\<rparr>],
      ot_Families := live_families bnow n b (ot_Families (next_state now st)) @ [fst (issue E n1 n2 a r (new_family j c res g))]\<rparr>)"
  using assms live_families_subseq
  by (intro redeem) (auto simp: issue_draws new_family_def dest: index_of_lt)

lemma rotate_step:
  assumes "index_of (refreshes i res d) (ot_Families (next_state now st)) = Some k"
    "d \<notin> set (of_UsedRefresh (ot_Families (next_state now st) ! k))"
  shows "oauth_step (token_draws E (Some a) (Some r)) st ((next_state now st)\<lparr>ot_Families := (ot_Families (next_state now st))
      [k := fst (issue E n1 n2 a r ((ot_Families (next_state now st) ! k)\<lparr>of_UsedRefresh :=
         of_UsedRefresh (ot_Families (next_state now st) ! k) @ [d]\<rparr>))]\<rparr>)"
  using assms index_of_SomeD [OF assms(1)]
  by (intro rotate) (auto simp: issue_draws refreshes_def)

lemma revoke_step:
  "index_of P (ot_Families (next_state now st)) = Some k \<Longrightarrow> oauth_step D st ((next_state now st)\<lparr>ot_Families :=
     (ot_Families (next_state now st))[k := (ot_Families (next_state now st) ! k)\<lparr>of_Revoked := True\<rparr>]\<rparr>)"
  by (intro revoke) (auto dest: index_of_lt)

lemma Exchange_writes:
  "oauth_writes (token_draws E ra rr) s (fst (snd (Exchange E now bnow rid ra rr io bio i sec m code u v res b s)))"
  unfolding Exchange_def Let_def
  by (auto intro!: oauth_writes_snd redeem_step simp: case_prod_unfold split: option.split sum.split)

lemma Refresh_writes:
  "oauth_writes (token_draws E ra rr) s (fst (snd (Refresh E now bnow ra rr io bio i sec m t res b s)))"
  unfolding Refresh_def Let_def
  by (auto intro!: oauth_writes_snd rotate_step revoke_step simp: case_prod_unfold split: option.split sum.split)

lemma OAuth_Revoke_writes: "oauth_writes D s (fst (snd (OAuth_Revoke E now io bio i sec m t b s)))"
  unfolding OAuth_Revoke_def Let_def
  by (auto intro!: oauth_writes_save [OF _ revoke_step] split: option.split prod.split)

lemma Reset_oauth_writes: "oauth_writes D s (snd (Reset_oauth io s))"
  unfolding Reset_oauth_def by (metis oauth_writes_save prod.collapse reset)


section \<open>Calls\<close>

datatype oauth_call =
    ORegister "nat \<Rightarrow> gotime" "string option" "string option" save_io string "string list" string
  | OAuthorize "nat \<Rightarrow> gotime" "string option" save_io string string string string string
  | OConsent "nat \<Rightarrow> gotime" "string option" save_io create_grant string bool
  | OExchange "nat \<Rightarrow> gotime" "nat \<Rightarrow> gotime" "string option" "string option" "string option" save_io save_io
      string string string string string string string
  | ORefresh "nat \<Rightarrow> gotime" gotime "string option" "string option" save_io save_io string string string string string
  | ORevoke gotime save_io save_io string string string string
  | OReset save_io
  | OStore access_call
  | ORestart

fun oauth_exec :: "oauth_env \<Rightarrow> oauth_call \<Rightarrow> oauth \<times> mcp_store \<Rightarrow> oauth \<times> mcp_store" where
  "oauth_exec E (ORegister now rid rs io n us m) (s, b) = (snd (Register E now rid rs io n us m s), b)"
| "oauth_exec E (OAuthorize now rid io c u ch res v) (s, b) = (snd (Authorize now rid io c u ch res v s), b)"
| "oauth_exec E (OConsent now rc io create i ok) (s, b) = snd (Consent E now rc io create i ok b s)"
| "oauth_exec E (OExchange now bnow rid ra rr io bio i sec m code u v res) (s, b) =
     snd (Exchange E now bnow rid ra rr io bio i sec m code u v res b s)"
| "oauth_exec E (ORefresh now bnow ra rr io bio i sec m t res) (s, b) = snd (Refresh E now bnow ra rr io bio i sec m t res b s)"
| "oauth_exec E (ORevoke now io bio i sec m t) (s, b) = snd (OAuth_Revoke E now io bio i sec m t b s)"
| "oauth_exec E (OReset io) (s, b) = (snd (Reset_oauth io s), b)"
| "oauth_exec E (OStore c) (s, b) = (s, access_exec (oe_ax E) c b)"
| "oauth_exec E ORestart (s, b) = (OpenOAuth E (oa_file s), Open_access (mt_file b))"

definition oauth_run :: "oauth_env \<Rightarrow> oauth_call list \<Rightarrow> oauth \<times> mcp_store \<Rightarrow> oauth \<times> mcp_store" where
  "oauth_run E cs p = fold (oauth_exec E) cs p"

text \<open>The digests of the codes and tokens that a call draws.\<close>

fun oauth_draws :: "oauth_env \<Rightarrow> oauth_call \<Rightarrow> string set" where
  "oauth_draws E (OConsent now rc io create i ok) = code_draw E rc"
| "oauth_draws E (OExchange now bnow rid ra rr io bio i sec m code u v res) = token_draws E ra rr"
| "oauth_draws E (ORefresh now bnow ra rr io bio i sec m t res) = token_draws E ra rr"
| "oauth_draws E _ = {}"

lemma oauth_exec_writes:
  "c \<noteq> ORestart \<Longrightarrow> oauth_writes (oauth_draws E c) s (fst (oauth_exec E c (s, b)))"
  by (cases c) (simp_all add: Register_writes Authorize_writes Consent_writes Exchange_writes Refresh_writes
      OAuth_Revoke_writes Reset_oauth_writes)

lemma save_oauth_cases:
  "save_oauth io st s = (r, s') \<Longrightarrow>
    (oa_state s' = oa_state s \<or> oa_state s' = st) \<and> (oa_file s' = oa_file s \<or> oa_file s' = OAuthFile st)"
  by (cases io) (auto simp: save_oauth_def)

text \<open>
  A predicate on the state that holds initially and is kept by every step whose draws are admitted
  holds in memory and on disk after every run with admitted draws.
\<close>

locale oauth_invariant =
  fixes Q :: "oauth_state \<Rightarrow> bool" and admitted :: "string set \<Rightarrow> oauth_state \<Rightarrow> bool"
  assumes zero: "Q zero_oauth_state"
    and step: "oauth_step D st st' \<Longrightarrow> admitted D st \<Longrightarrow> Q st \<Longrightarrow> Q st'"
begin

definition holds :: "oauth \<Rightarrow> bool" where
  "holds s = (Q (oa_state s) \<and> (case oa_file s of OAuthFile st \<Rightarrow> Q st | _ \<Rightarrow> True))"

fun run_admitted :: "oauth_env \<Rightarrow> oauth_call list \<Rightarrow> oauth \<times> mcp_store \<Rightarrow> bool" where
  "run_admitted E [] p = True"
| "run_admitted E (c # cs) p = (admitted (oauth_draws E c) (oa_state (fst p)) \<and> run_admitted E cs (oauth_exec E c p))"

lemma holds_writes: "holds s \<Longrightarrow> admitted D (oa_state s) \<Longrightarrow> oauth_writes D s s' \<Longrightarrow> holds s'"
  unfolding oauth_writes_def
proof (elim disjE exE conjE)
  fix io st r
  assume "holds s" "admitted D (oa_state s)" "oauth_step D (oa_state s) st" and w: "save_oauth io st s = (r, s')"
  then have "Q st" by (auto simp: holds_def dest: step)
  with \<open>holds s\<close> save_oauth_cases [OF w] show "holds s'" by (auto simp: holds_def)
qed simp

lemma holds_open: "holds s \<Longrightarrow> holds (OpenOAuth E (oa_file s))"
  by (auto simp: holds_def OpenOAuth_def zero split: oauth_file.splits)

lemma holds_exec: "holds (fst p) \<Longrightarrow> admitted (oauth_draws E c) (oa_state (fst p)) \<Longrightarrow> holds (fst (oauth_exec E c p))"
proof (cases "c = ORestart")
  case True
  then show "holds (fst p) \<Longrightarrow> ?thesis" by (cases p) (simp add: holds_open)
next
  case False
  then show "holds (fst p) \<Longrightarrow> admitted (oauth_draws E c) (oa_state (fst p)) \<Longrightarrow> ?thesis"
    by (cases p) (metis fst_conv holds_writes oauth_exec_writes)
qed

lemma holds_run: "holds (fst p) \<Longrightarrow> run_admitted E cs p \<Longrightarrow> holds (fst (oauth_run E cs p))"
  by (induction cs arbitrary: p) (simp_all add: oauth_run_def holds_exec)

end

definition code_keys :: "oauth_state \<Rightarrow> string list" where
  "code_keys st = map (\<lambda>c. json_text (oc_Digest c)) (ot_Codes st)"

definition refresh_keys :: "oauth_state \<Rightarrow> string list" where
  "refresh_keys st = map (\<lambda>f. json_text (of_RefreshDigest f)) (ot_Families st)"

definition spent_code :: "string \<Rightarrow> oauth_state \<Rightarrow> bool" where
  "spent_code d st = (\<forall>c\<in>set (ot_Codes st). json_text (oc_Digest c) = d \<longrightarrow> oc_Used c)"

definition spent_refresh :: "string \<Rightarrow> oauth_state \<Rightarrow> bool" where
  "spent_refresh d st = (d \<notin> set (refresh_keys st))"

definition keys_distinct :: "oauth_state \<Rightarrow> bool" where
  "keys_distinct st = (distinct (code_keys st) \<and> distinct (refresh_keys st))"

definition fresh_keys :: "string set \<Rightarrow> oauth_state \<Rightarrow> bool" where
  "fresh_keys D st = (\<forall>d\<in>D. json_text d = d \<and> d \<notin> set (code_keys st) \<and> d \<notin> set (refresh_keys st))"

lemma copied [simp]:
  "json_text (oc_Digest (copy_code c)) = json_text (oc_Digest c)" "oc_Used (copy_code c) = oc_Used c"
  "json_text (of_RefreshDigest (copy_family f)) = json_text (of_RefreshDigest f)"
  by (simp_all add: copy_code_def copy_family_def)

lemma next_codes: "ot_Codes (next_state now st) = filter (\<lambda>c. now < oc_ExpiresAt c) (map copy_code (ot_Codes st))"
  and next_families: "ot_Families (next_state now st) =
    filter (\<lambda>f. \<not> of_Revoked f \<and> now < of_ExpiresAt f) (map copy_family (ot_Families st))"
  by (simp_all add: next_state_def Let_def)

lemma subseq_distinct: "subseq xs ys \<Longrightarrow> distinct ys \<Longrightarrow> distinct xs"
  by (induction rule: list_emb.induct) (auto dest: list_emb_set)

lemma subseq_set: "subseq xs ys \<Longrightarrow> x \<in> set xs \<Longrightarrow> x \<in> set ys"
  by (auto dest: list_emb_set)

lemma subseq_code_keys: "subseq (code_keys (next_state now st)) (code_keys st)"
  by (auto simp: code_keys_def next_codes filter_map o_def intro!: subseq_map)

lemma subseq_refresh_keys: "subseq (refresh_keys (next_state now st)) (refresh_keys st)"
  by (auto simp: refresh_keys_def next_families filter_map o_def intro!: subseq_map)


lemma spent_code_next: "spent_code d st \<Longrightarrow> spent_code d (next_state now st)"
  by (auto simp: spent_code_def next_codes)

lemma spent_refresh_next: "spent_refresh d st \<Longrightarrow> spent_refresh d (next_state now st)"
  using subseq_set [OF subseq_refresh_keys] by (auto simp: spent_refresh_def)

lemma spent_code_step:
  assumes "oauth_step D st st'" "d \<notin> json_text ` D" "spent_code d st"
  shows "spent_code d st'"
proof -
  have n: "json_text (oc_Digest c) = d \<Longrightarrow> oc_Used c" if "c \<in> set (ot_Codes (next_state now st))" for c now
    using spent_code_next [OF assms(3), of now] that by (auto simp: spent_code_def)
  from assms(1) show ?thesis
  proof cases
    case (redeem k now c F f i)
    then show ?thesis by (auto simp: spent_code_def dest!: set_update_subset_insert [THEN subsetD] intro: n)
  next
    case (consent c as now)
    with assms(2) show ?thesis by (auto simp: spent_code_def intro: n)
  qed (auto simp: spent_code_def zero_oauth_state_def intro: n)
qed

lemma spent_refresh_step:
  assumes "oauth_step D st st'" "d \<notin> json_text ` D" "spent_refresh d st"
  shows "spent_refresh d st'"
proof -
  have n: "json_text (of_RefreshDigest f) \<noteq> d" if "f \<in> set (ot_Families (next_state now st))" for f now
    using spent_refresh_next [OF assms(3), of now] that by (auto simp: spent_refresh_def refresh_keys_def)
  from assms(1) have "\<forall>f\<in>set (ot_Families st'). json_text (of_RefreshDigest f) \<noteq> d"
  proof cases
    case (redeem k now c F f i)
    with assms(2) n show ?thesis by (fastforce dest: subseq_set)
  next
    case (rotate k now f d' f')
    with assms(2) n show ?thesis by (auto dest!: set_update_subset_insert [THEN subsetD])
  next
    case (revoke k now f)
    with n [OF nth_mem [OF revoke(2)]] n show ?thesis by (auto dest!: set_update_subset_insert [THEN subsetD])
  qed (use n in \<open>auto simp: zero_oauth_state_def\<close>)
  then show ?thesis by (auto simp: spent_refresh_def refresh_keys_def)
qed

lemma keys_distinct_next: "keys_distinct st \<Longrightarrow> keys_distinct (next_state now st)"
  using subseq_distinct [OF subseq_code_keys] subseq_distinct [OF subseq_refresh_keys] by (auto simp: keys_distinct_def)

lemma fresh_keys_next: "fresh_keys D st \<Longrightarrow> fresh_keys D (next_state now st)"
  using subseq_set [OF subseq_code_keys] subseq_set [OF subseq_refresh_keys] by (fastforce simp: fresh_keys_def)

lemma distinct_list_update_in:
  "distinct xs \<Longrightarrow> k < length xs \<Longrightarrow> xs ! k \<noteq> y \<Longrightarrow> xs ! k \<notin> set (xs[k := y])"
  by (auto simp: in_set_conv_nth nth_list_update nth_eq_iff_index_eq split: if_splits)

lemma map_update_same: "k < length xs \<Longrightarrow> f y = f (xs ! k) \<Longrightarrow> map f (xs[k := y]) = map f xs"
  by (simp add: map_update list_update_same_conv)

lemma keys_distinct_step:
  assumes "oauth_step D st st'" "fresh_keys D st" "keys_distinct st"
  shows "keys_distinct st'"
  using assms(1)
proof cases
  case (redeem k now c F f i)
  have n: "keys_distinct (next_state now st)" "fresh_keys D (next_state now st)"
    using assms keys_distinct_next fresh_keys_next by blast+
  have s: "subseq (map (\<lambda>f. json_text (of_RefreshDigest f)) F) (refresh_keys (next_state now st))"
    using subseq_map [OF redeem(5)] by (simp add: refresh_keys_def)
  have "code_keys st' = code_keys (next_state now st)"
    using redeem by (simp add: code_keys_def map_update_same)
  moreover have "json_text (of_RefreshDigest f) \<notin> set (refresh_keys (next_state now st))"
    using n(2) redeem by (auto simp: fresh_keys_def)
  then have "json_text (of_RefreshDigest f) \<notin> set (map (\<lambda>f. json_text (of_RefreshDigest f)) F)"
    using subseq_set [OF s] by blast
  then have "distinct (refresh_keys st')"
    using n(1) redeem subseq_distinct [OF s] by (simp add: keys_distinct_def refresh_keys_def)
  ultimately show ?thesis using n by (simp add: keys_distinct_def)
next
  case (rotate k now f d f')
  have n: "keys_distinct (next_state now st)" "fresh_keys D (next_state now st)"
    using assms keys_distinct_next fresh_keys_next by blast+
  have "code_keys st' = code_keys (next_state now st)" using rotate by (simp add: code_keys_def)
  moreover have "refresh_keys st' = (refresh_keys (next_state now st))[k := of_RefreshDigest f']"
    using rotate n by (simp add: refresh_keys_def map_update fresh_keys_def)
  ultimately show ?thesis
    using n rotate by (auto simp: keys_distinct_def fresh_keys_def intro: distinct_list_update)
next
  case (consent c as now)
  have n: "keys_distinct (next_state now st)" "fresh_keys D (next_state now st)"
    using assms keys_distinct_next fresh_keys_next by blast+
  with consent show ?thesis by (auto simp: keys_distinct_def fresh_keys_def code_keys_def refresh_keys_def)
next
  case (revoke k now f)
  with keys_distinct_next [OF assms(3), of now] show ?thesis
    by (simp add: keys_distinct_def code_keys_def refresh_keys_def map_update_same)
next
  case (quiet as cs now)
  with keys_distinct_next [OF assms(3), of now] show ?thesis
    by (simp add: keys_distinct_def code_keys_def refresh_keys_def)
next
  case reset
  then show ?thesis by (simp add: keys_distinct_def code_keys_def refresh_keys_def zero_oauth_state_def)
qed

interpretation code_spent: oauth_invariant "spent_code d" "\<lambda>D st. d \<notin> json_text ` D" for d
  by unfold_locales (simp add: spent_code_def zero_oauth_state_def, rule spent_code_step)

interpretation refresh_spent: oauth_invariant "spent_refresh d" "\<lambda>D st. d \<notin> json_text ` D" for d
  by unfold_locales (simp add: spent_refresh_def refresh_keys_def zero_oauth_state_def, rule spent_refresh_step)

interpretation keys: oauth_invariant keys_distinct fresh_keys
  by unfold_locales (simp add: keys_distinct_def code_keys_def refresh_keys_def zero_oauth_state_def, rule keys_distinct_step)


section \<open>Codes and refresh tokens work once\<close>

text \<open>The draws of a run: codes and tokens whose digests are not those of codes and refresh tokens in use.\<close>

fun oauth_fresh :: "oauth_env \<Rightarrow> oauth_call list \<Rightarrow> oauth \<times> mcp_store \<Rightarrow> bool" where
  "oauth_fresh E [] p = True"
| "oauth_fresh E (c # cs) p = (fresh_keys (oauth_draws E c) (oa_state (fst p)) \<and> oauth_fresh E cs (oauth_exec E c p))"

lemma oauth_fresh_admitted: "oauth_fresh E cs p \<Longrightarrow> keys.run_admitted E cs p"
  by (induction cs arbitrary: p) simp_all

lemma draws_fixed: "json_text ` oauth_draws E c = oauth_draws E c"
  by (cases c) (auto simp: code_draw_def token_draws_def image_iff)

lemma avoids_admitted:
  assumes "\<And>c. c \<in> set cs \<Longrightarrow> d \<notin> oauth_draws E c"
  shows "code_spent.run_admitted d E cs p" "refresh_spent.run_admitted d E cs p"
  using assms by (induction cs arbitrary: p) (simp_all add: draws_fixed)

lemma Exchange_Inr:
  assumes "Exchange E now bnow rid ra rr io bio i sec m code u v res b s = (Inr tk, s', b')"
  obtains k c grant j a r where "oa_available s" "clientAuth E i sec m s"
    "index_of (\<lambda>c. oc_Digest c = oauthDigest E code) (ot_Codes (next_state (now 0) (oa_state s))) = Some k"
    "c = ot_Codes (next_state (now 0) (oa_state s)) ! k"
    "oc_ClientID c = i" "oc_RedirectURI c = u" "oc_Resource c = res" "oc_Challenge c = pkce E v" "\<not> oc_Used c"
    "LookupClient (bnow 0) (oc_GrantID c) b = Inr grant" "b' = b" "rid = Some j" "ra = Some a" "rr = Some r"
    "fst (save_oauth io ((next_state (now 0) (oa_state s))\<lparr>ot_Codes := (ot_Codes (next_state (now 0) (oa_state s)))[k :=
         c\<lparr>oc_Used := True, oc_FamilyID := hex_encode j\<rparr>],
       ot_Families := live_families bnow 1 b (ot_Families (next_state (now 0) (oa_state s))) @
         [fst (issue E (now 1) (now 2) a r (new_family (hex_encode j) i res (pr_Client grant)))]\<rparr>) s) = None"
    "s' = snd (save_oauth io ((next_state (now 0) (oa_state s))\<lparr>ot_Codes := (ot_Codes (next_state (now 0) (oa_state s)))[k :=
         c\<lparr>oc_Used := True, oc_FamilyID := hex_encode j\<rparr>],
       ot_Families := live_families bnow 1 b (ot_Families (next_state (now 0) (oa_state s))) @
         [fst (issue E (now 1) (now 2) a r (new_family (hex_encode j) i res (pr_Client grant)))]\<rparr>) s)"
    "tk = snd (issue E (now 1) (now 2) a r (new_family (hex_encode j) i res (pr_Client grant)))"
proof -
  let ?st = "next_state (now 0) (oa_state s)"
  note e = assms [unfolded Exchange_def Let_def case_prod_unfold]
  have g1: "oa_available s" using e by (rule contrapos_pp) simp
  have g2: "clientAuth E i sec m s \<and> oauthOpaque code ''kpc_'' \<and> \<not> length v < 43 \<and> \<not> 128 < length v"
    using e g1 by (rule_tac ccontr) (simp del: not_less)
  have g3: "list_all verifier_char v" using e g1 g2 by (rule_tac ccontr) simp
  note e = e [simplified g1 g2 g3 simp_thms if_True if_False]
  obtain k where k: "index_of (\<lambda>c. oc_Digest c = oauthDigest E code) (ot_Codes ?st) = Some k"
    using e by (cases "index_of (\<lambda>c. oc_Digest c = oauthDigest E code) (ot_Codes ?st)") simp_all
  note e = e [unfolded k option.case]
  define c where "c = ot_Codes ?st ! k"
  have g4: "oc_ClientID c = i" "oc_RedirectURI c = u" "oc_Resource c = res" "oc_Challenge c = pkce E v" "\<not> oc_Used c"
    using e unfolding c_def by (auto split: if_splits)
  note e = e [folded c_def, simplified g4 simp_thms if_True if_False]
  obtain grant where g: "LookupClient (bnow 0) (oc_GrantID c) b = Inr grant"
    using e by (cases "LookupClient (bnow 0) (oc_GrantID c) b") (simp_all add: g4)
  note e = e [unfolded g4 g sum.case]
  obtain j a r where dr: "rid = Some j" "ra = Some a" "rr = Some r"
    using e by (auto simp: g4 g split: if_splits option.splits)
  show thesis
    by (rule that [OF g1 _ k c_def g4 g _ dr])
      (use e g2 in \<open>auto simp: g4 g dr new_family_def issue_def Let_def split: if_splits option.splits\<close>)
qed

lemma save_oauth_None: "fst (save_oauth io st s) = None \<Longrightarrow>
    io = Saved \<and> snd (save_oauth io st s) = s\<lparr>oa_state := st, oa_file := OAuthFile st\<rparr>"
  by (auto simp: save_oauth_def split: save_io.splits)

lemma spent_after_exchange:
  assumes "Exchange E now bnow rid ra rr io bio i sec m code u v res b s = (Inr tk, s', b')" and "keys_distinct (oa_state s)"
  shows "code_spent.holds (oauthDigest E code) s'"
proof -
  let ?st = "next_state (now 0) (oa_state s)" and ?d = "oauthDigest E code"
  obtain k c fam F where k: "index_of (\<lambda>c. oc_Digest c = ?d) (ot_Codes ?st) = Some k"
    and s': "s' = s\<lparr>oa_state := ?st\<lparr>ot_Codes := (ot_Codes ?st)[k := c\<lparr>oc_Used := True, oc_FamilyID := fam\<rparr>], ot_Families := F\<rparr>,
        oa_file := OAuthFile (?st\<lparr>ot_Codes := (ot_Codes ?st)[k := c\<lparr>oc_Used := True, oc_FamilyID := fam\<rparr>], ot_Families := F\<rparr>)\<rparr>"
    by (rule Exchange_Inr [OF assms(1)]) (use save_oauth_None in blast)
  have d: "distinct (code_keys ?st)" using keys_distinct_next [OF assms(2)] by (simp add: keys_distinct_def)
  have "oc_Used x" if "x \<in> set ((ot_Codes ?st)[k := c\<lparr>oc_Used := True, oc_FamilyID := fam\<rparr>])" "json_text (oc_Digest x) = ?d" for x
  proof -
    from that(1) obtain n where n: "n < length (ot_Codes ?st)" "x = (ot_Codes ?st)[k := c\<lparr>oc_Used := True, oc_FamilyID := fam\<rparr>] ! n"
      by (auto simp: in_set_conv_nth)
    show ?thesis
    proof (cases "n = k")
      case False
      with n that(2) have "code_keys ?st ! n = ?d" by (simp add: code_keys_def)
      moreover have "code_keys ?st ! k = ?d" "k < length (code_keys ?st)"
        using index_of_SomeD [OF k] by (auto simp: code_keys_def)
      moreover have "length (code_keys ?st) = length (ot_Codes ?st)" by (simp add: code_keys_def)
      ultimately show ?thesis using d n(1) False by (metis nth_eq_iff_index_eq)
    qed (use n in simp)
  qed
  then show ?thesis by (simp add: s' code_spent.holds_def spent_code_def)
qed

lemma Exchange_spent:
  assumes "spent_code (oauthDigest E code) (oa_state s)"
  shows "\<exists>e. fst (Exchange E now bnow rid ra rr io bio i sec m code u v res b s) = Inl e"
proof (cases "fst (Exchange E now bnow rid ra rr io bio i sec m code u v res b s)")
  case (Inr tk)
  then obtain s' b' where "Exchange E now bnow rid ra rr io bio i sec m code u v res b s = (Inr tk, s', b')"
    by (metis prod.collapse)
  then show ?thesis
  proof (rule Exchange_Inr)
    fix k c
    assume "index_of (\<lambda>c. oc_Digest c = oauthDigest E code) (ot_Codes (next_state (now 0) (oa_state s))) = Some k"
      "c = ot_Codes (next_state (now 0) (oa_state s)) ! k" "\<not> oc_Used c"
    with spent_code_next [OF assms, of "now 0"] show ?thesis
      using index_of_SomeD by (fastforce simp: spent_code_def)
  qed
qed simp

text \<open>
  C19: An authorization code that was exchanged is never exchanged again, whatever calls and
  restarts follow, as long as no later draw has its digest.
\<close>

theorem code_redeemed_once:
  assumes start: "keys_distinct (oa_state s0)" "oa_file s0 = NoOAuth"
    and before: "oauth_fresh E cs (s0, b0)" "oauth_run E cs (s0, b0) = (s, b)"
    and first: "Exchange E now bnow rid ra rr io bio i sec m code u v res b s = (Inr tk, s1, b1)"
    and after: "\<And>c. c \<in> set cs' \<Longrightarrow> oauthDigest E code \<notin> oauth_draws E c" "oauth_run E cs' (s1, b1) = (s2, b2)"
  shows "\<exists>e. fst (Exchange E now' bnow' rid' ra' rr' io' bio' i' sec' m' code u' v' res' b2 s2) = Inl e"
proof -
  have "keys.holds (fst (s0, b0))" using start by (simp add: keys.holds_def)
  from keys.holds_run [OF this oauth_fresh_admitted [OF before(1)]] before(2)
  have "keys_distinct (oa_state s)" by (simp add: keys.holds_def)
  then have "code_spent.holds (oauthDigest E code) (fst (s1, b1))" using spent_after_exchange [OF first] by simp
  moreover have "code_spent.run_admitted (oauthDigest E code) E cs' (s1, b1)"
    by (rule avoids_admitted(1)) (rule after(1))
  ultimately have "code_spent.holds (oauthDigest E code) (fst (oauth_run E cs' (s1, b1)))"
    by (rule code_spent.holds_run)
  with after(2)
  have "spent_code (oauthDigest E code) (oa_state s2)" by (simp add: code_spent.holds_def)
  then show ?thesis by (rule Exchange_spent)
qed

lemma Refresh_Inr:
  assumes "Refresh E now bnow ra rr io bio i sec m t res b s = (Inr tk, s', b')"
  obtains k f a r where "oa_available s" "clientAuth E i sec m s" "oauthOpaque t ''kpr_''"
    "index_of (refreshes i res (oauthDigest E t)) (ot_Families (next_state (now 0) (oa_state s))) = Some k"
    "f = ot_Families (next_state (now 0) (oa_state s)) ! k" "oauthDigest E t \<notin> set (of_UsedRefresh f)"
    "length (of_UsedRefresh f) < 4096" "b' = b" "ra = Some a" "rr = Some r" "io = Saved"
    "s' = s\<lparr>oa_state := (next_state (now 0) (oa_state s))\<lparr>ot_Families := (ot_Families (next_state (now 0) (oa_state s)))[k :=
         fst (issue E (now 1) (now 2) a r (f\<lparr>of_UsedRefresh := of_UsedRefresh f @ [oauthDigest E t]\<rparr>))]\<rparr>,
       oa_file := OAuthFile ((next_state (now 0) (oa_state s))\<lparr>ot_Families := (ot_Families (next_state (now 0) (oa_state s)))[k :=
         fst (issue E (now 1) (now 2) a r (f\<lparr>of_UsedRefresh := of_UsedRefresh f @ [oauthDigest E t]\<rparr>))]\<rparr>)\<rparr>"
    "tk = snd (issue E (now 1) (now 2) a r (f\<lparr>of_UsedRefresh := of_UsedRefresh f @ [oauthDigest E t]\<rparr>))"
proof -
  let ?st = "next_state (now 0) (oa_state s)" and ?d = "oauthDigest E t"
  note e = assms [unfolded Refresh_def Let_def case_prod_unfold]
  have g1: "oa_available s" using e by (rule contrapos_pp) simp
  have g2: "clientAuth E i sec m s \<and> oauthOpaque t ''kpr_''" using e g1 by (rule_tac ccontr) simp
  note e = e [simplified g1 g2 simp_thms if_True if_False]
  obtain k where k: "index_of (refreshes i res ?d) (ot_Families ?st) = Some k"
    using e by (cases "index_of (refreshes i res ?d) (ot_Families ?st)") simp_all
  note e = e [unfolded k option.case]
  define f where "f = ot_Families ?st ! k"
  have g4: "?d \<notin> set (of_UsedRefresh f)"
    using e unfolding f_def [symmetric] by (auto split: if_splits option.splits)
  note e = e [folded f_def, simplified g4 simp_thms if_True if_False]
  obtain a r where dr: "ra = Some a" "rr = Some r"
    using e by (auto simp: g4 split: if_splits option.splits sum.splits)
  have "io = Saved" by (rule ccontr) (use e in \<open>auto simp: g4 dr save_oauth_def split: if_splits sum.splits save_io.splits\<close>)
  then show thesis
    by (intro that [OF g1 _ _ k f_def g4 _ _ dr])
      (use e g2 in \<open>auto simp: g4 dr save_oauth_def split: if_splits sum.splits\<close>)
qed

lemma Refresh_found:
  assumes "fst (Refresh E now bnow ra rr io bio i sec m t res b s) = Inr tk"
  obtains f where "f \<in> set (ot_Families (next_state (now 0) (oa_state s)))" "of_RefreshDigest f = oauthDigest E t"
proof -
  obtain s' b' where "Refresh E now bnow ra rr io bio i sec m t res b s = (Inr tk, s', b')"
    using assms by (metis prod.collapse)
  then show thesis
  proof (rule Refresh_Inr)
    fix k f
    assume k: "index_of (refreshes i res (oauthDigest E t)) (ot_Families (next_state (now 0) (oa_state s))) = Some k"
      and f: "f = ot_Families (next_state (now 0) (oa_state s)) ! k" "oauthDigest E t \<notin> set (of_UsedRefresh f)"
    with index_of_SomeD [OF k] show thesis by (intro that [of f]) (auto simp: refreshes_def)
  qed
qed

lemma spent_after_refresh:
  assumes "Refresh E now bnow ra rr io bio i sec m t res b s = (Inr tk, s', b')" and "keys_distinct (oa_state s)"
    and "fresh_keys (token_draws E ra rr) (oa_state s)"
  shows "refresh_spent.holds (oauthDigest E t) s'"
proof -
  let ?st = "next_state (now 0) (oa_state s)" and ?d = "oauthDigest E t"
  obtain k f' where k: "index_of (refreshes i res ?d) (ot_Families ?st) = Some k" "?d \<notin> set (of_UsedRefresh (ot_Families ?st ! k))"
    and s': "s' = s\<lparr>oa_state := ?st\<lparr>ot_Families := (ot_Families ?st)[k := f']\<rparr>, oa_file := OAuthFile (?st\<lparr>ot_Families := (ot_Families ?st)[k := f']\<rparr>)\<rparr>"
    and f': "of_RefreshDigest f' \<in> token_draws E ra rr"
    by (rule Refresh_Inr [OF assms(1)]) (use issue_draws(2) in metis)
  have d: "distinct (refresh_keys ?st)" using keys_distinct_next [OF assms(2)] by (simp add: keys_distinct_def)
  have "k < length (ot_Families ?st)" "of_RefreshDigest (ot_Families ?st ! k) = ?d"
    using index_of_SomeD [OF k(1)] k(2) by (auto simp: refreshes_def)
  then have kd: "k < length (refresh_keys ?st)" "refresh_keys ?st ! k = ?d" by (simp_all add: refresh_keys_def)
  have "json_text (of_RefreshDigest f') = of_RefreshDigest f'" "of_RefreshDigest f' \<notin> set (refresh_keys ?st)"
    using fresh_keys_next [OF assms(3)] f' by (simp_all add: fresh_keys_def)
  then have "?d \<notin> set ((refresh_keys ?st)[k := json_text (of_RefreshDigest f')])"
    using d kd by (metis distinct_list_update_in nth_mem)
  then show ?thesis by (simp add: s' refresh_spent.holds_def spent_refresh_def refresh_keys_def map_update)
qed

lemma Refresh_spent:
  assumes "spent_refresh (oauthDigest E t) (oa_state s)"
  shows "\<exists>e. fst (Refresh E now bnow ra rr io bio i sec m t res b s) = Inl e"
proof (cases "fst (Refresh E now bnow ra rr io bio i sec m t res b s)")
  case (Inr tk)
  then obtain f where "f \<in> set (ot_Families (next_state (now 0) (oa_state s)))" "of_RefreshDigest f = oauthDigest E t"
    by (rule Refresh_found)
  with spent_refresh_next [OF assms, of "now 0"] show ?thesis by (force simp: spent_refresh_def refresh_keys_def)
qed simp

text \<open>
  C20: A refresh token that was rotated is never accepted again, whatever calls and restarts
  follow.
\<close>

theorem refresh_used_once:
  assumes start: "keys_distinct (oa_state s0)" "oa_file s0 = NoOAuth"
    and before: "oauth_fresh E cs (s0, b0)" "oauth_run E cs (s0, b0) = (s, b)"
    and first: "Refresh E now bnow ra rr io bio i sec m t res b s = (Inr tk, s1, b1)" "fresh_keys (token_draws E ra rr) (oa_state s)"
    and after: "\<And>c. c \<in> set cs' \<Longrightarrow> oauthDigest E t \<notin> oauth_draws E c" "oauth_run E cs' (s1, b1) = (s2, b2)"
  shows "\<exists>e. fst (Refresh E now' bnow' ra' rr' io' bio' i' sec' m' t res' b2 s2) = Inl e"
proof -
  have "keys.holds (fst (s0, b0))" using start by (simp add: keys.holds_def)
  from keys.holds_run [OF this oauth_fresh_admitted [OF before(1)]] before(2)
  have "keys_distinct (oa_state s)" by (simp add: keys.holds_def)
  then have "refresh_spent.holds (oauthDigest E t) (fst (s1, b1))" using spent_after_refresh first by simp
  moreover have "refresh_spent.run_admitted (oauthDigest E t) E cs' (s1, b1)"
    by (rule avoids_admitted(2)) (rule after(1))
  ultimately have "refresh_spent.holds (oauthDigest E t) (fst (oauth_run E cs' (s1, b1)))"
    by (rule refresh_spent.holds_run)
  with after(2) have "spent_refresh (oauthDigest E t) (oa_state s2)" by (simp add: refresh_spent.holds_def)
  then show ?thesis by (rule Refresh_spent)
qed

section \<open>Reuse of a refresh token\<close>

lemma copy_family_idem [simp]: "copy_family (copy_family f) = copy_family f"
  by (simp add: copy_family_def)

lemma next_families_copied: "f \<in> set (ot_Families (next_state now st)) \<Longrightarrow> copy_family f = f \<and> \<not> of_Revoked f"
  by (auto simp: next_families)

lemma copy_issued:
  assumes "copy_family f = f" "json_text d = d"
  shows "copy_family (fst (issue E n1 n2 a r (f\<lparr>of_UsedRefresh := of_UsedRefresh f @ [d]\<rparr>))) =
    fst (issue E n1 n2 a r (f\<lparr>of_UsedRefresh := of_UsedRefresh f @ [d]\<rparr>))"
  using assms by (cases f) (simp add: issue_def Let_def copy_family_def)

lemma next_families_live:
  assumes "\<And>f. f \<in> set (ot_Families st) \<Longrightarrow> copy_family f = f \<and> \<not> of_Revoked f \<and> now < of_ExpiresAt f"
  shows "ot_Families (next_state now st) = ot_Families st"
proof -
  have "map copy_family (ot_Families st) = ot_Families st" using assms by (simp add: map_idI)
  with assms show ?thesis by (simp add: next_families)
qed

lemma index_of_put: "index_of P xs = Some k \<Longrightarrow> P y \<Longrightarrow> index_of P (xs[k := y]) = Some k"
  by (induction xs arbitrary: k) (auto split: if_splits)

lemma revoke_grant_gone:
  "revokeOAuthGrant E io i b = (None, b') \<Longrightarrow> c \<in> set (ms_Clients (mt_state b')) \<Longrightarrow> mc_ID (cd_Client c) \<noteq> i"
  by (auto simp: revokeOAuthGrant_def revokeLocked_def Let_def list_ex_iff save_access_def
      split: if_splits prod.splits sum.splits option.splits save_io.splits)

lemma access_in: "access E now tk res s = Some f \<Longrightarrow> f \<in> set (ot_Families (oa_state s)) \<and> \<not> of_Revoked f \<and> of_AccessDigest f = oauthDigest E tk"
  by (auto simp: access_def find_Some_iff split: if_splits)

text \<open>
  C21: Presenting a rotated refresh token again is refused, removes the grant behind the family
  from the client store, and makes the access and refresh token that the rotation issued
  useless.
\<close>

theorem refresh_reuse_revokes:
  assumes first: "Refresh E now bnow ra rr io bio i sec m t res b s = (Inr tk, s1, b1)"
    and distinct: "keys_distinct (oa_state s)" "fresh_keys (token_draws E ra rr) (oa_state s)"
    and access_fresh: "\<And>f. f \<in> set (ot_Families (oa_state s)) \<Longrightarrow> json_text (of_AccessDigest f) \<noteq> oauthDigest E (tk_AccessToken tk)"
    and replay: "Refresh E now' bnow' ra' rr' Saved Saved i sec' m' t res b1 s1 = (r, s2, b2)" "clientAuth E i sec' m' s1"
    and live: "\<And>f. f \<in> set (ot_Families (oa_state s1)) \<Longrightarrow> now' 0 < of_ExpiresAt f"
    and revocable: "\<And>g. fst (revokeOAuthGrant (oe_ax E) Saved g b1) = None"
  shows "r = Inl MErrOAuth \<and> (\<forall>u. access E u (tk_AccessToken tk) res s2 = None) \<and>
    (\<exists>e. fst (Refresh E now'' bnow'' ra'' rr'' io'' bio'' i sec' m' (tk_RefreshToken tk) res b2 s2) = Inl e) \<and>
    (\<exists>f\<in>set (ot_Families (oa_state s1)). of_AccessDigest f = oauthDigest E (tk_AccessToken tk) \<and>
       (\<forall>c\<in>set (ms_Clients (mt_state b2)). mc_ID (cd_Client c) \<noteq> of_GrantID f))"
proof -
  let ?F = "ot_Families (next_state (now 0) (oa_state s))" and ?d = "oauthDigest E t"
  obtain k f' f a r0 where k: "index_of (refreshes i res ?d) ?F = Some k" and dr: "ra = Some a" "rr = Some r0" and f: "f = ?F ! k"
    and f': "f' = fst (issue E (now 1) (now 2) a r0 (f\<lparr>of_UsedRefresh := of_UsedRefresh f @ [?d]\<rparr>))"
    and av: "oa_available s1" and t: "oauthOpaque t ''kpr_''"
    and s1: "oa_state s1 = (next_state (now 0) (oa_state s))\<lparr>ot_Families := ?F[k := f']\<rparr>"
    and tk: "tk_AccessToken tk = oauthRandom ''kpo_'' a" "tk_RefreshToken tk = oauthRandom ''kpr_'' r0"
    by (rule Refresh_Inr [OF first]) (auto simp: issue_def Let_def)
  have kl: "k < length ?F" "refreshes i res ?d f" using index_of_SomeD [OF k] by (simp_all add: f)
  have ok: "copy_family g = g \<and> \<not> of_Revoked g" if "g \<in> set ?F" for g using that by (rule next_families_copied)
  have f'_ok: "copy_family f' = f'" "\<not> of_Revoked f'" "refreshes i res ?d f'" "of_AccessDigest f' = oauthDigest E (tk_AccessToken tk)"
      "?d \<in> set (of_UsedRefresh f')" "of_GrantID f' = of_GrantID f" "of_RefreshDigest f' = oauthDigest E (tk_RefreshToken tk)"
    using ok [of f] kl copy_issued [of f ?d] by (auto simp: f' f issue_def Let_def refreshes_def tk)
  have F1: "ot_Families (next_state (now' 0) (oa_state s1)) = ?F[k := f']"
    using next_families_live [of "oa_state s1" "now' 0"] live ok f'_ok kl
    by (auto simp: s1 dest!: set_update_subset_insert [THEN subsetD])
  have idx: "index_of (refreshes i res ?d) (?F[k := f']) = Some k" using k f'_ok(3) by (rule index_of_put)
  obtain b' where rev: "revokeOAuthGrant (oe_ax E) Saved (of_GrantID f) b1 = (None, b')"
    using revocable [of "of_GrantID f"] by (metis prod.collapse)
  have rp: "r = Inl MErrOAuth" "b2 = b'" "ot_Families (oa_state s2) = ?F[k := f'\<lparr>of_Revoked := True\<rparr>]"
    using replay av t kl f'_ok by (auto simp: Refresh_def Let_def F1 idx rev save_oauth_def)
  have other: "json_text (of_AccessDigest g) \<noteq> oauthDigest E (tk_AccessToken tk)" if "g \<in> set ?F" for g
    using that access_fresh by (auto simp: next_families copy_family_def)
  have acc: "access E u (tk_AccessToken tk) res s2 = None" for u
  proof (rule ccontr)
    assume "access E u (tk_AccessToken tk) res s2 \<noteq> None"
    then obtain g where "g \<in> set (?F[k := f'\<lparr>of_Revoked := True\<rparr>])" "\<not> of_Revoked g" "of_AccessDigest g = oauthDigest E (tk_AccessToken tk)"
      using access_in rp(3) by fastforce
    then show False using other by (auto dest!: set_update_subset_insert [THEN subsetD]) (metis json_text_digest)
  qed
  have "\<exists>e. fst (Refresh E now'' bnow'' ra'' rr'' io'' bio'' i sec' m' (tk_RefreshToken tk) res b2 s2) = Inl e"
  proof (cases "fst (Refresh E now'' bnow'' ra'' rr'' io'' bio'' i sec' m' (tk_RefreshToken tk) res b2 s2)")
    case (Inr tk2)
    then obtain g where g: "g \<in> set (ot_Families (next_state (now'' 0) (oa_state s2)))" "of_RefreshDigest g = oauthDigest E (tk_RefreshToken tk)"
      by (rule Refresh_found)
    then obtain h where "h \<in> set (?F[k := f'\<lparr>of_Revoked := True\<rparr>])" "g = copy_family h" "\<not> of_Revoked h"
      by (auto simp: next_families rp(3) copy_family_def)
    then have "h \<in> set ?F" "json_text (of_RefreshDigest h) = oauthDigest E (tk_RefreshToken tk)"
      using g(2) by (auto dest!: set_update_subset_insert [THEN subsetD] simp: copy_family_def)
    then have "oauthDigest E (tk_RefreshToken tk) \<in> set (refresh_keys (next_state (now 0) (oa_state s)))"
      by (force simp: refresh_keys_def)
    with fresh_keys_next [OF distinct(2)] show ?thesis by (auto simp: fresh_keys_def token_draws_def dr tk)
  qed simp
  with rp acc revoke_grant_gone [OF rev] f'_ok kl show ?thesis
    by (auto simp: s1 intro!: bexI [of _ f'] set_update_memI)
qed

section \<open>From consent to an admitted call\<close>

lemma oauthOpaque_random: "length r = 32 \<Longrightarrow> oauthOpaque (oauthRandom p r) p"
  by (simp add: oauthOpaque_def oauthRandom_def length_b64_encode)

lemma index_of_last: "\<forall>x\<in>set xs. \<not> P x \<Longrightarrow> P y \<Longrightarrow> index_of P (xs @ [y]) = Some (length xs)"
  by (induction xs) auto

lemma find_last: "\<forall>x\<in>set xs. \<not> P x \<Longrightarrow> P y \<Longrightarrow> List.find P (xs @ [y]) = Some y"
  by (induction xs) auto

lemma next_requests_copied: "a \<in> set (ot_Authorizations (next_state now st)) \<Longrightarrow> copy_authorization a = a"
  by (auto simp: next_state_def Let_def copy_authorization_def)

lemma new_code_copied:
  "copy_authorization a = a \<Longrightarrow> json_text g = g \<Longrightarrow> copy_code (new_code E now a g code) = new_code E now a g code"
  by (cases a) (simp add: new_code_def copy_code_def copy_authorization_def)

lemma new_code_found:
  assumes c: "copy_code c = c" "now' < oc_ExpiresAt c" and st: "ot_Codes st1 = ot_Codes (next_state now st) @ [c]"
    and fresh: "oc_Digest c \<notin> set (code_keys st)"
  obtains k where "index_of (\<lambda>x. oc_Digest x = oc_Digest c) (ot_Codes (next_state now' st1)) = Some k"
    "ot_Codes (next_state now' st1) ! k = c"
proof -
  let ?old = "filter (\<lambda>c. now' < oc_ExpiresAt c) (map copy_code (ot_Codes (next_state now st)))"
  have "ot_Codes (next_state now' st1) = ?old @ [c]" using c by (simp add: next_codes [of now'] st)
  moreover have "oc_Digest x \<noteq> oc_Digest c" if "x \<in> set ?old" for x
  proof -
    from that obtain y where "y \<in> set (ot_Codes st)" "oc_Digest x = json_text (oc_Digest y)"
      by (auto simp: next_codes copy_code_def)
    with fresh show ?thesis by (force simp: code_keys_def)
  qed
  ultimately show thesis
    by (intro that [of "length ?old"]) (auto simp: index_of_last nth_append)
qed

lemma access_last:
  assumes "oa_available s" "oauthOpaque tk ''kpo_''" "ot_Families (oa_state s) = F @ [f]"
    and "\<And>g. g \<in> set F \<Longrightarrow> of_AccessDigest g \<noteq> oauthDigest E tk"
    and "\<not> of_Revoked f" "of_AccessDigest f = oauthDigest E tk" "u < of_AccessExpiresAt f" "u < of_ExpiresAt f"
  shows "access E u tk (of_Resource f) s = Some f"
  using assms by (auto simp: access_def intro!: find_last)


section \<open>Instances\<close>

lemma json_text_b64 [simp]: "json_text (b64_encode s) = b64_encode s"
proof (rule json_text_ascii)
  have "byte (b64_char n) < 128" if "n < 64" for n
    using that by (auto simp: b64_char_def byte_def)
  then show "is_ascii (b64_encode s)"
    by (auto simp: is_ascii_def list_all_iff b64_encode_sextets b64_sextets_lt)
qed

definition demo_oauth_env :: oauth_env where
  "demo_oauth_env = \<lparr>oe_ax = \<lparr>ax_G = demo_env, ax_encode = (\<lambda>_. Some [])\<rparr>, oe_url = (\<lambda>_. None), oe_query = (\<lambda>_. None),
     oe_redirect = (\<lambda>u q. u)\<rparr>"

lemma demo_digest: "oauthDigest demo_oauth_env x = oauthDigest demo_oauth_env y \<longleftrightarrow> x = y"
  by (metis (no_types, lifting) demo_env_def demo_oauth_env_def access_env.select_convs(1) genv.select_convs(1) hex_decode_encode
      oauthDigest_def oauth_env.select_convs(1) option.inject)

definition demo_bytes :: "char \<Rightarrow> string" where "demo_bytes c = replicate 32 c"

lemma demo_bytes_length [simp]: "length (demo_bytes c) = 32" by (simp add: demo_bytes_def)

lemma demo_bytes_eq [simp]: "demo_bytes c = demo_bytes d \<longleftrightarrow> c = d" by (simp add: demo_bytes_def)

lemma oauthRandom_eq: "oauthRandom p r = oauthRandom p r' \<longleftrightarrow> r = r'"
  by (simp add: oauthRandom_def b64_encode_inject)

definition demo_text :: "char \<Rightarrow> string" where "demo_text c = hex_encode [c]"

definition demo_verifier :: string where "demo_verifier = replicate 43 (CHR ''v'')"

definition demo_code :: string where "demo_code = oauthRandom ''kpc_'' (demo_bytes (CHR ''c''))"

definition demo_refresh :: string where "demo_refresh = oauthRandom ''kpr_'' (demo_bytes (CHR ''o''))"

definition demo_request :: oauth_authorization where
  "demo_request = \<lparr>oz_ID = oauthRandom [] (demo_bytes (CHR ''q'')), oz_ClientID = demo_text (CHR ''c''), oz_ClientName = demo_text (CHR ''n''),
     oz_RedirectURI = demo_text (CHR ''u''), oz_State = [], oz_Challenge = pkce demo_oauth_env demo_verifier,
     oz_Resource = demo_text (CHR ''r''), oz_ExpiresAt = 1000\<rparr>"

definition demo_family :: oauth_family where
  "demo_family = \<lparr>of_ID = demo_text (CHR ''f''), of_ClientID = demo_text (CHR ''c''), of_GrantID = mc_ID sample_bot,
     of_Resource = demo_text (CHR ''r''), of_AccessDigest = oauthDigest demo_oauth_env (oauthRandom ''kpo_'' (demo_bytes (CHR ''o''))),
     of_RefreshDigest = oauthDigest demo_oauth_env demo_refresh, of_UsedRefresh = [], of_AccessExpiresAt = 900,
     of_ExpiresAt = 2000, of_Revoked = False\<rparr>"

definition demo_oauth :: oauth where
  "demo_oauth = \<lparr>oa_state = \<lparr>ot_Version = 1,
       ot_Clients = [\<lparr>og_ID = demo_text (CHR ''c''), og_Name = demo_text (CHR ''n''), og_RedirectURIs = [demo_text (CHR ''u'')],
         og_Method = ''none'', og_SecretDigest = [], og_CreatedAt = 0\<rparr>],
       ot_Authorizations = [demo_request],
       ot_Codes = [new_code demo_oauth_env 100 demo_request (mc_ID sample_bot) demo_code],
       ot_Families = [demo_family]\<rparr>,
     oa_available = True, oa_file = NoOAuth\<rparr>"

lemma demo_copied: "copy_family demo_family = demo_family" "copy_authorization demo_request = demo_request"
  "copy_code (new_code demo_oauth_env 100 demo_request (mc_ID sample_bot) demo_code) =
     new_code demo_oauth_env 100 demo_request (mc_ID sample_bot) demo_code"
  by (simp_all add: copy_family_def demo_family_def copy_authorization_def demo_request_def copy_code_def new_code_def demo_text_def
      sample_bot_def pkce_def oauthRandom_def demo_refresh_def)

lemma demo_auth: "clientAuth demo_oauth_env (demo_text (CHR ''c'')) [] ''none'' demo_oauth"
  by (simp add: clientAuth_def oauth_client_def demo_oauth_def)

lemma demo_next:
  "ot_Codes (next_state 200 (oa_state demo_oauth)) = [new_code demo_oauth_env 100 demo_request (mc_ID sample_bot) demo_code]"
  "ot_Families (next_state 200 (oa_state demo_oauth)) = [demo_family]"
  "ot_Authorizations (next_state 200 (oa_state demo_oauth)) = [demo_request]"
  by (simp_all add: next_state_def Let_def demo_oauth_def demo_copied)
    (simp_all add: new_code_def demo_family_def demo_request_def Minute_def Second_def)

lemma demo_lookup: "LookupClient 200 (mc_ID sample_bot) sample_bot_store =
    Inr \<lparr>pr_Client = sample_bot, pr_digest = token_digest sample_access (token_of sample_secret)\<rparr>"
  by (simp add: LookupClient_def find_client_def sample_bot_store_def bare_store_def Open_access_def Let_def zero_mcp_state_def)
    (simp add: sample_bot_def Hour_def Minute_def Second_def)

lemma demo_exchange:
  "\<exists>tk s1. Exchange demo_oauth_env (\<lambda>_. 200) (\<lambda>_. 200) (Some (demo_bytes (CHR ''i''))) (Some (demo_bytes (CHR ''a''))) (Some (demo_bytes (CHR ''b'')))
     Saved Saved (demo_text (CHR ''c'')) [] ''none'' demo_code (demo_text (CHR ''u'')) demo_verifier (demo_text (CHR ''r'')) sample_bot_store demo_oauth
     = (Inr tk, s1, sample_bot_store)"
proof -
  have "list_all verifier_char demo_verifier" by (simp add: demo_verifier_def verifier_char_def byte_class_defs list_all_iff)
  moreover have "length demo_verifier = 43" by (simp add: demo_verifier_def)
  moreover have "oauthOpaque demo_code ''kpc_''" by (simp add: demo_code_def oauthOpaque_random)
  moreover have "oa_available demo_oauth" by (simp add: demo_oauth_def)
  ultimately show ?thesis
    using demo_auth by (simp add: Exchange_def Let_def demo_next new_code_def demo_request_def demo_lookup demo_family_def MaxClients_def
        save_oauth_def case_prod_unfold)
qed

lemma code_redeemed_once_witness:
  "\<exists>tk s1. Exchange demo_oauth_env (\<lambda>_. 200) (\<lambda>_. 200) (Some (demo_bytes (CHR ''i''))) (Some (demo_bytes (CHR ''a''))) (Some (demo_bytes (CHR ''b'')))
     Saved Saved (demo_text (CHR ''c'')) [] ''none'' demo_code (demo_text (CHR ''u'')) demo_verifier (demo_text (CHR ''r'')) sample_bot_store demo_oauth
     = (Inr tk, s1, sample_bot_store) \<and>
   (\<exists>e. fst (Exchange demo_oauth_env (\<lambda>_. 300) (\<lambda>_. 300) (Some []) (Some []) (Some [])
     Saved Saved (demo_text (CHR ''c'')) [] ''none'' demo_code (demo_text (CHR ''u'')) demo_verifier (demo_text (CHR ''r''))
     (snd (oauth_run demo_oauth_env [ORestart] (s1, sample_bot_store))) (fst (oauth_run demo_oauth_env [ORestart] (s1, sample_bot_store)))) = Inl e)"
proof -
  obtain tk s1 where x: "Exchange demo_oauth_env (\<lambda>_. 200) (\<lambda>_. 200) (Some (demo_bytes (CHR ''i''))) (Some (demo_bytes (CHR ''a''))) (Some (demo_bytes (CHR ''b'')))
     Saved Saved (demo_text (CHR ''c'')) [] ''none'' demo_code (demo_text (CHR ''u'')) demo_verifier (demo_text (CHR ''r'')) sample_bot_store demo_oauth
     = (Inr tk, s1, sample_bot_store)" using demo_exchange by blast
  have "keys_distinct (oa_state demo_oauth)" "oa_file demo_oauth = NoOAuth"
    by (simp_all add: keys_distinct_def code_keys_def refresh_keys_def demo_oauth_def)
  from code_redeemed_once [OF this, where cs = "[]", OF _ _ x, where cs' = "[ORestart]", OF _ _ _ prod.collapse [symmetric]] x
  show ?thesis by (auto simp: oauth_run_def)
qed

lemma demo_draws_fresh: "fresh_keys (token_draws demo_oauth_env (Some (demo_bytes (CHR ''a''))) (Some (demo_bytes (CHR ''b'')))) (oa_state demo_oauth)"
proof -
  have k: "code_keys (oa_state demo_oauth) = [oauthDigest demo_oauth_env demo_code]"
    "refresh_keys (oa_state demo_oauth) = [oauthDigest demo_oauth_env demo_refresh]"
    by (simp_all add: code_keys_def refresh_keys_def demo_oauth_def new_code_def demo_family_def)
  have "oauthRandom ''kpo_'' (demo_bytes c) \<noteq> demo_code" "oauthRandom ''kpr_'' (demo_bytes c) \<noteq> demo_code"
    "oauthRandom ''kpo_'' (demo_bytes c) \<noteq> demo_refresh" for c
    by (simp_all add: demo_code_def demo_refresh_def oauthRandom_def)
  moreover have "oauthRandom ''kpr_'' (demo_bytes (CHR ''b'')) \<noteq> demo_refresh"
    by (simp add: demo_refresh_def oauthRandom_eq)
  ultimately show ?thesis by (auto simp: fresh_keys_def token_draws_def k demo_digest)
qed

lemma demo_refreshed:
  "\<exists>tk s1. Refresh demo_oauth_env (\<lambda>_. 200) 200 (Some (demo_bytes (CHR ''a''))) (Some (demo_bytes (CHR ''b'')))
     Saved Saved (demo_text (CHR ''c'')) [] ''none'' demo_refresh (demo_text (CHR ''r'')) sample_bot_store demo_oauth
     = (Inr tk, s1, sample_bot_store) \<and> tk_AccessToken tk = oauthRandom ''kpo_'' (demo_bytes (CHR ''a'')) \<and>
     clientAuth demo_oauth_env (demo_text (CHR ''c'')) [] ''none'' s1 \<and>
     (\<forall>f\<in>set (ot_Families (oa_state s1)). of_ExpiresAt f = 2000)"
proof -
  have "oauthOpaque demo_refresh ''kpr_''" by (simp add: demo_refresh_def oauthOpaque_random)
  moreover have "oa_available demo_oauth" by (simp add: demo_oauth_def)
  moreover have "ot_Clients (next_state 200 (oa_state demo_oauth)) = ot_Clients (oa_state demo_oauth)"
    by (simp add: next_state_def Let_def demo_oauth_def copy_registration_def demo_text_def json_text_ascii is_ascii_def byte_def)
      (simp add: Hour_def Minute_def Second_def)
  moreover have "refreshes (demo_text (CHR ''c'')) (demo_text (CHR ''r'')) (oauthDigest demo_oauth_env demo_refresh) demo_family"
    "of_UsedRefresh demo_family = []" "of_GrantID demo_family = mc_ID sample_bot" "of_ExpiresAt demo_family = 2000"
    by (simp_all add: refreshes_def demo_family_def)
  ultimately show ?thesis
    using demo_auth by (simp add: Refresh_def Let_def demo_next demo_lookup save_oauth_def case_prod_unfold issue_def
        clientAuth_def oauth_client_def)
qed

lemma refresh_used_once_witness:
  "\<exists>tk s1. Refresh demo_oauth_env (\<lambda>_. 200) 200 (Some (demo_bytes (CHR ''a''))) (Some (demo_bytes (CHR ''b'')))
     Saved Saved (demo_text (CHR ''c'')) [] ''none'' demo_refresh (demo_text (CHR ''r'')) sample_bot_store demo_oauth
     = (Inr tk, s1, sample_bot_store) \<and>
   (\<exists>e. fst (Refresh demo_oauth_env (\<lambda>_. 300) 300 (Some []) (Some []) Saved Saved (demo_text (CHR ''c'')) [] ''none'' demo_refresh
     (demo_text (CHR ''r'')) (snd (oauth_run demo_oauth_env [ORestart] (s1, sample_bot_store)))
     (fst (oauth_run demo_oauth_env [ORestart] (s1, sample_bot_store)))) = Inl e)"
proof -
  obtain tk s1 where x: "Refresh demo_oauth_env (\<lambda>_. 200) 200 (Some (demo_bytes (CHR ''a''))) (Some (demo_bytes (CHR ''b'')))
     Saved Saved (demo_text (CHR ''c'')) [] ''none'' demo_refresh (demo_text (CHR ''r'')) sample_bot_store demo_oauth
     = (Inr tk, s1, sample_bot_store)" using demo_refreshed by blast
  have "keys_distinct (oa_state demo_oauth)" "oa_file demo_oauth = NoOAuth"
    by (simp_all add: keys_distinct_def code_keys_def refresh_keys_def demo_oauth_def)
  from refresh_used_once [OF this, where cs = "[]", OF _ _ x demo_draws_fresh, where cs' = "[ORestart]", OF _ _ _ prod.collapse [symmetric]] x
  show ?thesis by (auto simp: oauth_run_def)
qed

lemma refresh_reuse_revokes_witness:
  "\<exists>tk s1 r s2 b2. Refresh demo_oauth_env (\<lambda>_. 200) 200 (Some (demo_bytes (CHR ''a''))) (Some (demo_bytes (CHR ''b'')))
     Saved Saved (demo_text (CHR ''c'')) [] ''none'' demo_refresh (demo_text (CHR ''r'')) sample_bot_store demo_oauth
     = (Inr tk, s1, sample_bot_store) \<and>
   Refresh demo_oauth_env (\<lambda>_. 300) 300 None None Saved Saved (demo_text (CHR ''c'')) [] ''none'' demo_refresh
     (demo_text (CHR ''r'')) sample_bot_store s1 = (r, s2, b2) \<and>
   access demo_oauth_env 301 (tk_AccessToken tk) (demo_text (CHR ''r'')) s2 = None"
proof -
  obtain tk s1 where x: "Refresh demo_oauth_env (\<lambda>_. 200) 200 (Some (demo_bytes (CHR ''a''))) (Some (demo_bytes (CHR ''b'')))
     Saved Saved (demo_text (CHR ''c'')) [] ''none'' demo_refresh (demo_text (CHR ''r'')) sample_bot_store demo_oauth
     = (Inr tk, s1, sample_bot_store)" and tk: "tk_AccessToken tk = oauthRandom ''kpo_'' (demo_bytes (CHR ''a''))"
    and au: "clientAuth demo_oauth_env (demo_text (CHR ''c'')) [] ''none'' s1"
    and ex: "\<And>f. f \<in> set (ot_Families (oa_state s1)) \<Longrightarrow> 300 < of_ExpiresAt f" using demo_refreshed by fastforce
  have "keys_distinct (oa_state demo_oauth)"
    by (simp add: keys_distinct_def code_keys_def refresh_keys_def demo_oauth_def)
  moreover have "json_text (of_AccessDigest f) \<noteq> oauthDigest demo_oauth_env (tk_AccessToken tk)" if "f \<in> set (ot_Families (oa_state demo_oauth))" for f
    using that by (simp add: demo_oauth_def demo_family_def tk demo_digest oauthRandom_eq)
  moreover have "fst (revokeOAuthGrant (oe_ax demo_oauth_env) Saved g sample_bot_store) = None" for g
    by (auto simp: revokeOAuthGrant_def revokeLocked_def save_access_def demo_oauth_env_def MaxBytes_def Let_def sample_bot_store_def
        bare_store_def Open_access_def split: prod.split sum.split)
  moreover obtain r s2 b2 where y: "Refresh demo_oauth_env (\<lambda>_. 300) 300 None None Saved Saved (demo_text (CHR ''c'')) [] ''none'' demo_refresh
     (demo_text (CHR ''r'')) sample_bot_store s1 = (r, s2, b2)" by (metis prod.collapse)
  ultimately have "access demo_oauth_env 301 (tk_AccessToken tk) (demo_text (CHR ''r'')) s2 = None"
    using refresh_reuse_revokes [OF x _ demo_draws_fresh _ y au ex] by blast
  with x y show ?thesis by blast
qed

definition demo_create :: create_grant where
  "demo_create a b = (Inr sample_bot, sample_bot_store)"

definition demo_fresh_code :: string where "demo_fresh_code = oauthRandom ''kpc_'' (demo_bytes (CHR ''z''))"


end
