(* ===== verification/TerminalBuffer.thy ===== *)
theory TerminalBuffer
  imports GoStrings GoTime
begin

text \<open>
  \<open>internal/terminal/buffer.go\<close>: the mirror of a remote terminal's output. Records carry the offset
  of their first byte in the output stream; the buffer keeps the newest bytes, and readers follow
  the offsets it returns. \<open>bf_wakes\<close> counts the closings of the \<open>notify\<close> channel.
\<close>

section \<open>State\<close>

definition DefaultBufferBytes :: int where "DefaultBufferBytes = 1048576"
definition MaxOutputBytes :: nat where "MaxOutputBytes = 65536"

datatype terminal_error = TErrNotFound | TErrLimit | TErrClosed | TErrOffset | TErrCleanupPending | TErrInputSequence |
  TErrInputUncertain | TErrInputNotWritten | TErrContext | TErrRequest | TErrShortWrite | TErrProcess string

record terminal_output =
  to_Data :: string
  to_Offset :: int
  to_NextOffset :: int
  to_Truncated :: bool
  to_ExitedAt :: "gotime option"
  to_ExitError :: string
  to_Closed :: bool

record tbuffer =
  bf_limit :: int
  bf_buffer :: string
  bf_base :: int
  bf_next :: int
  bf_wakes :: nat
  bf_exitedAt :: "gotime option"
  bf_exitError :: string
  bf_closed :: bool
  bf_failed :: "terminal_error option"

text \<open>The sum of two \<open>int64\<close> values.\<close>

definition int64 :: "int \<Rightarrow> int" where
  "int64 n = (n + 2 ^ 63) mod 2 ^ 64 - 2 ^ 63"

section \<open>Operations\<close>

definition NewBuffer :: "int \<Rightarrow> int \<Rightarrow> tbuffer" where
  "NewBuffer limit offset =
     (let limit = (if limit \<le> 0 then DefaultBufferBytes else limit); offset = (if offset < 0 then 0 else offset) in
      \<lparr>bf_limit = limit, bf_buffer = [], bf_base = offset, bf_next = offset, bf_wakes = 0, bf_exitedAt = None, bf_exitError = [],
       bf_closed = False, bf_failed = None\<rparr>)"

definition wake :: "tbuffer \<Rightarrow> tbuffer" where "wake b = b\<lparr>bf_wakes := bf_wakes b + 1\<rparr>"

text \<open>Keep the newest \<open>limit\<close> bytes; the second component is the number of bytes dropped.\<close>

definition ring_keep :: "int \<Rightarrow> string \<Rightarrow> string \<times> int" where
  "ring_keep limit s =
     (if limit < int (length s) then (drop (length s - nat limit) s, int (length s) - limit) else (s, 0))"

definition Append :: "int \<Rightarrow> string \<Rightarrow> tbuffer \<Rightarrow> bool \<times> tbuffer" where
  "Append offset data b =
     (if offset < 0 \<or> length data = 0 then (0 \<le> offset, b)
      else if int64 (offset + int (length data)) \<le> bf_next b then (True, b)
      else
        let b1 = (if bf_next b < offset then b\<lparr>bf_buffer := [], bf_base := offset, bf_next := offset\<rparr> else b);
            data1 = (if offset < bf_next b1 then drop (nat (bf_next b1 - offset)) data else data) in
        case ring_keep (bf_limit b1) (bf_buffer b1 @ data1) of
          (kept, dropped) \<Rightarrow>
            (True, wake (b1\<lparr>bf_buffer := kept, bf_next := bf_next b1 + int (length data1), bf_base := bf_base b1 + dropped\<rparr>)))"

definition SetState :: "gotime option \<Rightarrow> string \<Rightarrow> bool \<Rightarrow> tbuffer \<Rightarrow> tbuffer" where
  "SetState exitedAt exitError closed b =
     (let exits = exitedAt \<noteq> None \<and> bf_exitedAt b = None; closes = closed \<and> \<not> bf_closed b;
          b1 = (if exits then b\<lparr>bf_exitedAt := exitedAt, bf_exitError := exitError\<rparr> else b);
          b2 = (if closes then b1\<lparr>bf_closed := True\<rparr> else b1) in
      if exits \<or> closes then wake b2 else b2)"

definition Fail :: "terminal_error option \<Rightarrow> tbuffer \<Rightarrow> tbuffer" where
  "Fail e b = (if bf_failed b = None \<and> e \<noteq> None then wake (b\<lparr>bf_failed := e\<rparr>) else b)"

definition Recover :: "tbuffer \<Rightarrow> tbuffer" where
  "Recover b = (if bf_failed b \<noteq> None then wake (b\<lparr>bf_failed := None\<rparr>) else b)"

definition Finished :: "tbuffer \<Rightarrow> bool" where
  "Finished b = (bf_closed b \<or> bf_exitedAt b \<noteq> None)"

text \<open>The result of \<open>read\<close>: the output and whether it is ready to be returned.\<close>

definition buffer_read :: "int \<Rightarrow> tbuffer \<Rightarrow> terminal_error + terminal_output \<times> bool" where
  "buffer_read offset b =
     (if offset < 0 \<or> bf_next b < offset then Inl TErrOffset
      else
        let truncated = offset < bf_base b;
            from = (if truncated then bf_base b else offset);
            data = take MaxOutputBytes (drop (nat (from - bf_base b)) (bf_buffer b)) in
        case (if data = [] \<and> \<not> bf_closed b \<and> bf_exitedAt b = None then bf_failed b else None) of
          Some e \<Rightarrow> Inl e
        | None \<Rightarrow>
            Inr (\<lparr>to_Data = data, to_Offset = from, to_NextOffset = from + int (length data), to_Truncated = truncated,
                to_ExitedAt = bf_exitedAt b, to_ExitError = bf_exitError b, to_Closed = bf_closed b\<rparr>,
              data \<noteq> [] \<or> truncated \<or> bf_closed b \<or> bf_exitedAt b \<noteq> None))"

text \<open>
  \<open>Output\<close> waits on the channel, a timer and the context. \<open>evs\<close> are the events its \<open>select\<close> received,
  each with the buffer as the next read finds it; \<open>None\<close> while it is still waiting.
\<close>

datatype wait_event = Woken | TimedOut | Cancelled

fun output_loop :: "int \<Rightarrow> bool \<Rightarrow> tbuffer \<Rightarrow> (wait_event \<times> tbuffer) list \<Rightarrow> (terminal_error + terminal_output) option" where
  "output_loop offset waits b evs =
     (case buffer_read offset b of
        Inl e \<Rightarrow> Some (Inl e)
      | Inr (out, ready) \<Rightarrow>
          if ready \<or> \<not> waits then Some (Inr out)
          else (case evs of
              [] \<Rightarrow> None
            | (Cancelled, b') # _ \<Rightarrow> Some (Inl TErrContext)
            | (TimedOut, b') # _ \<Rightarrow> Some (map_sum id fst (buffer_read offset b'))
            | (Woken, b') # evs' \<Rightarrow> output_loop offset waits b' evs'))"

declare output_loop.simps [simp del]

definition buffer_output :: "int \<Rightarrow> duration \<Rightarrow> tbuffer \<Rightarrow> (wait_event \<times> tbuffer) list \<Rightarrow> (terminal_error + terminal_output) option" where
  "buffer_output offset wait b evs =
     (if wait < 0 \<or> 1500 * Millisecond < wait then Some (Inl TErrOffset) else output_loop offset (wait \<noteq> 0) b evs)"


section \<open>The buffer holds a window of the stream\<close>

definition slice :: "(int \<Rightarrow> char) \<Rightarrow> int \<Rightarrow> nat \<Rightarrow> string" where
  "slice s from n = map (\<lambda>i. s (from + int i)) [0..<n]"

lemma length_slice [simp]: "length (slice s from n) = n" by (simp add: slice_def)

lemma nth_slice [simp]: "i < n \<Longrightarrow> slice s from n ! i = s (from + int i)" by (simp add: slice_def)

lemma slice_append: "slice s from m @ slice s (from + int m) n = slice s from (m + n)"
  by (rule nth_equalityI) (auto simp: nth_append)

lemma take_slice: "take k (slice s from n) = slice s from (min k n)"
  by (rule nth_equalityI) auto

lemma drop_slice: "drop k (slice s from n) = slice s (from + int k) (n - k)"
  by (rule nth_equalityI) (auto simp: algebra_simps)

text \<open>The buffer is the window of the stream \<open>s\<close> from \<open>bf_base\<close> to \<open>bf_next\<close>.\<close>

definition follows :: "(int \<Rightarrow> char) \<Rightarrow> tbuffer \<Rightarrow> bool" where
  "follows s b = (0 < bf_limit b \<and> 0 \<le> bf_base b \<and> bf_base b + int (length (bf_buffer b)) = bf_next b \<and>
     int (length (bf_buffer b)) \<le> bf_limit b \<and> bf_buffer b = slice s (bf_base b) (length (bf_buffer b)))"

lemma follows_frame:
  "follows s b \<Longrightarrow> bf_limit b' = bf_limit b \<Longrightarrow> bf_base b' = bf_base b \<Longrightarrow> bf_next b' = bf_next b \<Longrightarrow> bf_buffer b' = bf_buffer b \<Longrightarrow>
    follows s b'"
  by (simp add: follows_def)

lemma follows_new: "follows s (NewBuffer limit offset)"
  by (simp add: follows_def NewBuffer_def Let_def DefaultBufferBytes_def slice_def)

lemma follows_keep:
  assumes "0 < bf_limit b" "0 \<le> bf_base b" "bf_buffer b = slice s (bf_base b) (length (bf_buffer b))"
    "bf_base b + int (length (bf_buffer b)) = bf_next b" and keep: "ring_keep (bf_limit b) (bf_buffer b) = (kept, dropped)"
  shows "follows s (b\<lparr>bf_buffer := kept, bf_base := bf_base b + dropped\<rparr>)"
proof (cases "bf_limit b < int (length (bf_buffer b))")
  case True
  define k where "k = length (bf_buffer b) - nat (bf_limit b)"
  have kd: "kept = drop k (bf_buffer b)" "dropped = int k" using keep True assms(1) by (auto simp: ring_keep_def k_def)
  have "kept = slice s (bf_base b + int k) (length (bf_buffer b) - k)"
    unfolding kd by (subst assms(3)) (simp add: drop_slice)
  moreover have "int (length kept) = bf_limit b" using True assms(1) by (simp add: kd k_def)
  ultimately show ?thesis using assms kd True by (auto simp: follows_def k_def)
next
  case False
  with keep have "kept = bf_buffer b" "dropped = 0" by (auto simp: ring_keep_def)
  with assms False show ?thesis by (simp add: follows_def)
qed

text \<open>A record agrees with the stream when it holds the bytes from its offset on; offsets stay in \<open>int64\<close>.\<close>

definition record_of :: "(int \<Rightarrow> char) \<Rightarrow> int \<Rightarrow> string \<Rightarrow> bool" where
  "record_of s offset data = (data = slice s offset (length data) \<and> offset + int (length data) < 2 ^ 63)"

lemma int64_id: "0 \<le> n \<Longrightarrow> n < 2 ^ 63 \<Longrightarrow> int64 n = n"
  by (simp add: int64_def)

lemma follows_append:
  assumes f: "follows s b" and r: "record_of s offset data"
  shows "follows s (snd (Append offset data b))"
proof (cases "offset < 0 \<or> length data = 0 \<or> offset + int (length data) \<le> bf_next b")
  case True
  with f r show ?thesis by (auto simp: Append_def record_of_def int64_id Let_def)
next
  case False
  then have o: "0 \<le> offset" "data \<noteq> []" "bf_next b < offset + int (length data)" by auto
  define b1 where "b1 = (if bf_next b < offset then b\<lparr>bf_buffer := [], bf_base := offset, bf_next := offset\<rparr> else b)"
  define data1 where "data1 = (if offset < bf_next b1 then drop (nat (bf_next b1 - offset)) data else data)"
  have f1: "follows s b1" using f o by (auto simp: b1_def follows_def slice_def)
  have n: "offset \<le> bf_next b1" "bf_next b1 < offset + int (length data)" using o by (auto simp: b1_def)
  have "data1 = slice s (bf_next b1) (length data1)"
  proof (cases "offset < bf_next b1")
    case True
    have "data = slice s offset (length data)" using r by (simp add: record_of_def)
    then have "drop (nat (bf_next b1 - offset)) data = slice s (offset + int (nat (bf_next b1 - offset))) (length data - nat (bf_next b1 - offset))"
      by (metis drop_slice)
    with True n show ?thesis by (simp add: data1_def)
  next
    case False
    with r n show ?thesis by (simp add: data1_def record_of_def)
  qed
  then have all: "bf_buffer b1 @ data1 = slice s (bf_base b1) (length (bf_buffer b1 @ data1))"
    using f1 slice_append [of s "bf_base b1" "length (bf_buffer b1)" "length data1"] by (simp add: follows_def)
  obtain kept dropped where k: "ring_keep (bf_limit b1) (bf_buffer b1 @ data1) = (kept, dropped)" by fastforce
  let ?b = "b1\<lparr>bf_buffer := bf_buffer b1 @ data1, bf_next := bf_next b1 + int (length data1)\<rparr>"
  have "follows s (?b\<lparr>bf_buffer := kept, bf_base := bf_base ?b + dropped\<rparr>)"
    by (rule follows_keep) (use all f1 k in \<open>auto simp: follows_def\<close>)
  moreover have "snd (Append offset data b) =
      wake (b1\<lparr>bf_buffer := kept, bf_next := bf_next b1 + int (length data1), bf_base := bf_base b1 + dropped\<rparr>)"
    using o r k by (simp add: Append_def Let_def int64_id record_of_def flip: b1_def data1_def)
  ultimately show ?thesis by (auto simp: wake_def elim!: follows_frame)
qed

section \<open>Readers\<close>

datatype buffer_event = BAppend int string | BState "gotime option" string bool | BFail "terminal_error option" | BRecover

fun buffer_step :: "buffer_event \<Rightarrow> tbuffer \<Rightarrow> tbuffer" where
  "buffer_step (BAppend offset data) b = snd (Append offset data b)"
| "buffer_step (BState t e c) b = SetState t e c b"
| "buffer_step (BFail e) b = Fail e b"
| "buffer_step BRecover b = Recover b"

fun event_of :: "(int \<Rightarrow> char) \<Rightarrow> buffer_event \<Rightarrow> bool" where
  "event_of s (BAppend offset data) = record_of s offset data"
| "event_of s _ = True"

lemma follows_step: "follows s b \<Longrightarrow> event_of s e \<Longrightarrow> follows s (buffer_step e b)"
  by (cases e) (auto simp: follows_append SetState_def Fail_def Recover_def wake_def Let_def elim!: follows_frame)

lemma follows_run: "follows s b \<Longrightarrow> list_all (event_of s) es \<Longrightarrow> follows s (fold buffer_step es b)"
  by (induction es arbitrary: b) (simp_all add: follows_step)

lemma read_follows:
  assumes f: "follows s b" and r: "buffer_read offset b = Inr (out, ready)"
  shows "to_Data out = slice s (to_Offset out) (length (to_Data out)) \<and> to_NextOffset out = to_Offset out + int (length (to_Data out)) \<and>
    to_Offset out = max offset (bf_base b) \<and> to_Truncated out = (offset < bf_base b) \<and> to_NextOffset out \<le> bf_next b \<and>
    (to_NextOffset out < bf_next b \<longrightarrow> length (to_Data out) = MaxOutputBytes)"
proof -
  let ?from = "max offset (bf_base b)" let ?d = "take MaxOutputBytes (drop (nat (?from - bf_base b)) (bf_buffer b))"
  have o: "0 \<le> offset" "offset \<le> bf_next b" using r by (auto simp: buffer_read_def split: if_splits)
  have out: "to_Data out = ?d" "to_Offset out = ?from" "to_NextOffset out = ?from + int (length ?d)" "to_Truncated out = (offset < bf_base b)"
    using r by (auto simp: buffer_read_def Let_def max_def split: if_splits option.splits)
  have w: "bf_buffer b = slice s (bf_base b) (length (bf_buffer b))" "bf_base b + int (length (bf_buffer b)) = bf_next b"
    using f by (simp_all add: follows_def)
  have "?d = slice s (bf_base b + int (nat (?from - bf_base b))) (min MaxOutputBytes (length (bf_buffer b) - nat (?from - bf_base b)))"
    by (subst w(1)) (simp add: drop_slice take_slice)
  then have "?d = slice s ?from (length ?d)" by simp
  moreover have "?from + int (length ?d) \<le> bf_next b" "?from + int (length ?d) < bf_next b \<Longrightarrow> length ?d = MaxOutputBytes"
    using w(2) o by auto
  ultimately show ?thesis unfolding out by auto
qed

text \<open>A reader that follows the offsets until it has caught up.\<close>

fun drain :: "nat \<Rightarrow> int \<Rightarrow> tbuffer \<Rightarrow> string option" where
  "drain 0 offset b = None"
| "drain (Suc n) offset b =
     (case buffer_read offset b of Inl e \<Rightarrow> None
      | Inr (out, ready) \<Rightarrow>
          if to_NextOffset out = bf_next b then Some (to_Data out)
          else map_option ((@) (to_Data out)) (drain n (to_NextOffset out) b))"

lemma read_ok:
  assumes "follows s b" "0 \<le> offset" "offset < bf_next b" "bf_base b < bf_next b"
  obtains out ready where "buffer_read offset b = Inr (out, ready)"
proof -
  let ?from = "if offset < bf_base b then bf_base b else offset"
  have "bf_base b + int (length (bf_buffer b)) = bf_next b" using assms(1) by (simp add: follows_def)
  with assms(3,4) have "?from - bf_base b < int (length (bf_buffer b))" "0 \<le> ?from - bf_base b" by auto
  then have "nat (?from - bf_base b) < length (bf_buffer b)" by linarith
  then have "take MaxOutputBytes (drop (nat (?from - bf_base b)) (bf_buffer b)) \<noteq> []" by (simp add: MaxOutputBytes_def)
  then have "\<exists>out ready. buffer_read offset b = Inr (out, ready)"
    using assms(2,3) unfolding buffer_read_def Let_def by simp (rule exI [of _ True], simp)
  then show thesis using that by blast
qed

lemma drain_slice:
  assumes f: "follows s b" and ne: "bf_base b < bf_next b"
  shows "\<lbrakk>0 \<le> offset; offset < bf_next b; nat (bf_next b - max offset (bf_base b)) \<le> n * MaxOutputBytes\<rbrakk> \<Longrightarrow>
    drain (Suc n) offset b = Some (slice s (max offset (bf_base b)) (nat (bf_next b - max offset (bf_base b))))"
proof (induction n arbitrary: offset)
  case 0
  from 0(1,2) obtain out ready where r: "buffer_read offset b = Inr (out, ready)" by (rule read_ok [OF f _ _ ne])
  note rf = read_follows [OF f r]
  have "bf_base b \<le> bf_next b" using f by (auto simp: follows_def)
  with rf 0 have "to_NextOffset out = bf_next b" "length (to_Data out) = nat (bf_next b - max offset (bf_base b))" by linarith+
  with rf show ?case by (simp add: r)
next
  case (Suc n)
  from Suc.prems(1,2) obtain out ready where r: "buffer_read offset b = Inr (out, ready)" by (rule read_ok [OF f _ _ ne])
  note rf = read_follows [OF f r]
  show ?case
  proof (cases "to_NextOffset out = bf_next b")
    case True
    with rf have "length (to_Data out) = nat (bf_next b - max offset (bf_base b))" by linarith
    with rf show ?thesis by (simp add: r True)
  next
    case False
    let ?o = "to_NextOffset out" and ?from = "max offset (bf_base b)"
    have o: "?o = ?from + int MaxOutputBytes" "?o < bf_next b" "length (to_Data out) = MaxOutputBytes" using rf False by auto
    moreover have "bf_base b \<le> ?o" using o(1) by simp
    ultimately have "drain (Suc n) ?o b = Some (slice s ?o (nat (bf_next b - ?o)))"
      using Suc.IH [of ?o] Suc.prems by (simp add: max_def)
    moreover have "to_Data out = slice s ?from MaxOutputBytes" using rf o(3) by auto
    moreover have "slice s ?from MaxOutputBytes @ slice s ?o (nat (bf_next b - ?o)) = slice s ?from (nat (bf_next b - ?from))"
    proof -
      have "MaxOutputBytes + nat (bf_next b - ?o) = nat (bf_next b - ?from)" using o by linarith
      with slice_append [of s ?from MaxOutputBytes "nat (bf_next b - ?o)"] show ?thesis by (simp add: o(1))
    qed
    ultimately show ?thesis by (subst drain.simps(2)) (simp add: r False del: drain.simps(2))
  qed
qed



end
