(* ===== verification/TerminalInput.thy ===== *)
theory TerminalInput
  imports TerminalBuffer GoEncodings StoreTypes
begin

text \<open>
  Numbered terminal input: \<open>internal/terminal/input.go\<close> (terminal sessions) and \<open>sequencer.go\<close> (task
  terminals). A writer sends frames under its own stream name and sends a frame again until it is
  acknowledged; the bytes of every frame have to reach the terminal once. The third component of
  a result holds the bytes that the call put into the terminal.
\<close>

section \<open>Frames and state\<close>

definition InputWindow :: nat where "InputWindow = 32"
definition InputFrameBytes :: nat where "InputFrameBytes = 2048"
definition maxRetainedWriters :: nat where "maxRetainedWriters = 1024"

record input_frame =
  if_Stream :: string
  if_Seq :: nat
  if_Data :: string

record input_state =
  ri_stream :: string
  ri_acked :: nat
  ri_failed :: bool
  ri_retired :: "string list"
  ri_hashes :: "string list"

definition zero_hash :: string where "zero_hash = replicate 32 (CHR 0x00)"

definition new_input :: "string \<Rightarrow> input_state" where
  "new_input stream = \<lparr>ri_stream = stream, ri_acked = 0, ri_failed = False, ri_retired = [], ri_hashes = replicate InputWindow zero_hash\<rparr>"

definition valid_frame :: "input_frame \<Rightarrow> bool" where
  "valid_frame f =
     ((case hex_decode (if_Stream f) of None \<Rightarrow> False | Some b \<Rightarrow> length b = 16) \<and>
      ((if_Seq f = 0 \<and> length (if_Data f) = 0) \<or>
       (0 < if_Seq f \<and> if_Seq f \<le> 2 ^ 53 - 1 \<and> 0 < length (if_Data f) \<and> length (if_Data f) \<le> InputFrameBytes)))"

definition replayed :: "genv \<Rightarrow> input_frame \<Rightarrow> input_state \<Rightarrow> bool" where
  "replayed G f st =
     (ri_acked st - if_Seq f < InputWindow \<and> ri_hashes st ! (if_Seq f mod InputWindow) = sha256 G (if_Data f))"

definition acknowledge :: "genv \<Rightarrow> input_frame \<Rightarrow> input_state \<Rightarrow> input_state" where
  "acknowledge G f st = st\<lparr>ri_hashes := (ri_hashes st)[if_Seq f mod InputWindow := sha256 G (if_Data f)], ri_acked := if_Seq f\<rparr>"

type_synonym input_result = "terminal_error option \<times> input_state \<times> string"

section \<open>Task terminals\<close>

text \<open>
  What the write callback does: everything is written, nothing was written, the task is gone
  (\<open>ErrClosed\<close> or \<open>ErrNotFound\<close>, nothing was written), or an unknown part of \<open>k\<close> bytes.
\<close>

datatype sink_write = WroteAll | NotWritten | TaskGone terminal_error | WrotePart nat

definition NewInputSequencer :: "string option \<Rightarrow> (string \<times> input_state) option" where
  "NewInputSequencer rnd = map_option (\<lambda>r. (hex_encode r, new_input [])) rnd"

definition Claimed :: "input_state \<Rightarrow> bool" where "Claimed st = (ri_stream st \<noteq> [])"

text \<open>\<open>gate\<close>: the gate was acquired and the context was not done.\<close>

definition Admit :: "genv \<Rightarrow> bool \<Rightarrow> input_frame \<Rightarrow> sink_write \<Rightarrow> input_state \<Rightarrow> input_result" where
  "Admit G gate f w st =
     (if \<not> valid_frame f then (Some TErrInputSequence, st, [])
      else if \<not> gate then (Some TErrContext, st, [])
      else if if_Seq f = 0 then
        (let st' = (if ri_stream st \<noteq> if_Stream f then new_input (if_Stream f) else st) in
         (if ri_failed st' then Some TErrInputUncertain else None, st', []))
      else if ri_stream st \<noteq> if_Stream f then (Some TErrInputSequence, st, [])
      else if ri_failed st then (Some TErrInputUncertain, st, [])
      else if if_Seq f \<le> ri_acked st then (if replayed G f st then None else Some TErrInputSequence, st, [])
      else if if_Seq f \<noteq> ri_acked st + 1 then (Some TErrInputSequence, st, [])
      else case w of
          WroteAll \<Rightarrow> (None, acknowledge G f st, if_Data f)
        | NotWritten \<Rightarrow> (Some TErrInputNotWritten, st, [])
        | TaskGone e \<Rightarrow> (Some e, st, [])
        | WrotePart k \<Rightarrow> (Some TErrInputUncertain, st\<lparr>ri_failed := True\<rparr>, take k (if_Data f)))"

section \<open>Terminal sessions\<close>

text \<open>
  The part of \<open>InputSequencedContext\<close> behind the checks of the session. The process accepted \<open>n\<close>
  bytes; \<open>err\<close>: its \<open>Write\<close> returned an error.
\<close>

definition fence :: "input_frame \<Rightarrow> input_state \<Rightarrow> input_state" where
  "fence f st = st\<lparr>ri_retired := ri_stream st # ri_retired st, ri_acked := 0, ri_hashes := replicate InputWindow zero_hash\<rparr>"

definition sequenced_new :: "genv \<Rightarrow> input_frame \<Rightarrow> nat \<Rightarrow> bool \<Rightarrow> input_state \<Rightarrow> input_result" where
  "sequenced_new G f n err st =
     (if if_Seq f = 0 then (None, st\<lparr>ri_stream := if_Stream f\<rparr>, [])
      else if if_Seq f \<le> ri_acked st then (if replayed G f st then None else Some TErrInputSequence, st, [])
      else if if_Seq f \<noteq> ri_acked st + 1 then (Some TErrInputSequence, st, [])
      else
        let st' = st\<lparr>ri_stream := if_Stream f\<rparr> in
        if err \<or> n \<noteq> length (if_Data f) then (Some TErrInputUncertain, st'\<lparr>ri_failed := True\<rparr>, take n (if_Data f))
        else (None, acknowledge G f st', if_Data f))"

definition InputSequenced :: "genv \<Rightarrow> bool \<Rightarrow> input_frame \<Rightarrow> nat \<Rightarrow> bool \<Rightarrow> input_state \<Rightarrow> input_result" where
  "InputSequenced G retained f n err st =
     (if \<not> valid_frame f then (Some TErrInputSequence, st, [])
      else if ri_failed st then (Some TErrInputUncertain, st, [])
      else if ri_stream st \<noteq> [] \<and> ri_stream st \<noteq> if_Stream f then
        (if \<not> retained \<or> if_Seq f \<noteq> 0 \<or> maxRetainedWriters \<le> length (ri_retired st) then (Some TErrInputSequence, st, [])
         else if if_Stream f \<in> set (ri_retired st) then (Some TErrInputSequence, st, [])
         else sequenced_new G f n err (fence f st))
      else sequenced_new G f n err st)"

section \<open>The contract of a numbered input\<close>

text \<open>
  What one call may do for a writer that owns the input: nothing, or write the next frame and
  acknowledge it, or write a part of it and freeze the input.
\<close>

definition input_effect :: "string \<Rightarrow> input_frame \<Rightarrow> input_state \<Rightarrow> input_result \<Rightarrow> bool" where
  "input_effect S f st r =
     (case r of (e, st', out) \<Rightarrow>
        ((st' = st \<or> st' = st\<lparr>ri_stream := S\<rparr>) \<and> out = [] \<and> (e = None \<longrightarrow> if_Seq f \<le> ri_acked st)) \<or>
        (\<not> ri_failed st \<and> if_Seq f = Suc (ri_acked st) \<and> ri_stream st' = S \<and>
         ((e = None \<and> out = if_Data f \<and> ri_acked st' = if_Seq f \<and> \<not> ri_failed st') \<or>
          (e \<noteq> None \<and> (\<exists>k. out = take k (if_Data f)) \<and> ri_acked st' = ri_acked st \<and> ri_failed st'))))"

definition owned_by :: "string \<Rightarrow> input_state \<Rightarrow> bool" where
  "owned_by S st = (ri_stream st = S \<or> st = new_input [])"

text \<open>The bytes a writer wants to send: frame \<open>n\<close> carries \<open>d n\<close>.\<close>

definition sent :: "(nat \<Rightarrow> string) \<Rightarrow> nat \<Rightarrow> string" where
  "sent d n = concat (map d [1..<Suc n])"

definition written :: "(nat \<Rightarrow> string) \<Rightarrow> input_state \<Rightarrow> string \<Rightarrow> bool" where
  "written d st out =
     (if ri_failed st then \<exists>k. out = sent d (ri_acked st) @ take k (d (Suc (ri_acked st))) else out = sent d (ri_acked st))"

definition frame_of :: "string \<Rightarrow> (nat \<Rightarrow> string) \<Rightarrow> input_frame \<Rightarrow> bool" where
  "frame_of S d f = (if_Stream f = S \<and> (0 < if_Seq f \<longrightarrow> if_Data f = d (if_Seq f)))"

lemma sent_Suc: "sent d (Suc n) = sent d n @ d (Suc n)"
  by (simp add: sent_def)

lemma sent_0 [simp]: "sent d 0 = []"
  by (simp add: sent_def)

locale numbered_input =
  fixes admit :: "input_frame \<Rightarrow> 'w \<Rightarrow> input_state \<Rightarrow> input_result"
  assumes effect: "if_Stream f = S \<Longrightarrow> owned_by S st \<Longrightarrow> input_effect S f st (admit f w st)"
begin

fun run :: "(input_frame \<times> 'w) list \<Rightarrow> input_state \<Rightarrow> input_state \<times> string" where
  "run [] st = (st, [])"
| "run ((f, w) # cs) st =
     (case admit f w st of (e, st', out) \<Rightarrow> (case run cs st' of (st2, out2) \<Rightarrow> (st2, out @ out2)))"

lemma written_step:
  assumes f: "frame_of S d f" and o: "owned_by S st" and w: "written d st pre" and a: "admit f w st = (e, st', out)"
  shows "owned_by S st' \<and> written d st' (pre @ out) \<and> (e = None \<longrightarrow> if_Seq f \<le> ri_acked st') \<and> ri_acked st \<le> ri_acked st'"
proof -
  have "input_effect S f st (e, st', out)" using effect [of f S st w] f o a by (simp add: frame_of_def)
  then consider
      (kept) "st' = st \<or> st' = st\<lparr>ri_stream := S\<rparr>" "out = []" "e = None \<longrightarrow> if_Seq f \<le> ri_acked st"
    | (full) "\<not> ri_failed st" "if_Seq f = Suc (ri_acked st)" "ri_stream st' = S" "out = if_Data f" "ri_acked st' = if_Seq f" "\<not> ri_failed st'"
    | (part) k where "\<not> ri_failed st" "if_Seq f = Suc (ri_acked st)" "ri_stream st' = S" "e \<noteq> None" "out = take k (if_Data f)"
        "ri_acked st' = ri_acked st" "ri_failed st'"
    by (auto simp: input_effect_def)
  then show ?thesis
  proof cases
    case kept
    with o w show ?thesis by (auto simp: owned_by_def written_def)
  next
    case full
    with f w show ?thesis by (simp add: owned_by_def written_def frame_of_def sent_Suc)
  next
    case part
    with f w show ?thesis by (auto simp: owned_by_def written_def frame_of_def)
  qed
qed

lemma written_run:
  "\<lbrakk>list_all (\<lambda>c. frame_of S d (fst c)) cs; owned_by S st; written d st pre; run cs st = (st', out)\<rbrakk> \<Longrightarrow>
    owned_by S st' \<and> written d st' (pre @ out) \<and> ri_acked st \<le> ri_acked st'"
proof (induction cs arbitrary: st pre out)
  case (Cons c cs)
  obtain f w where c: "c = (f, w)" by (cases c)
  obtain e st1 o1 where a: "admit f w st = (e, st1, o1)" by (metis prod.collapse)
  obtain o2 where r: "run cs st1 = (st', o2)" "out = o1 @ o2" using Cons.prems(4) by (auto simp: c a split: prod.splits)
  have s: "owned_by S st1 \<and> written d st1 (pre @ o1) \<and> ri_acked st \<le> ri_acked st1"
    using written_step [OF _ Cons.prems(2,3) a] Cons.prems(1) by (simp add: c)
  with Cons.IH [of st1 "pre @ o1" o2] Cons.prems(1) r show ?case by (auto simp: c)
qed simp

end

end
