(* ===== verification/TerminalInputProps.thy ===== *)
theory TerminalInputProps
  imports TerminalInput
begin

text \<open>
  The theorems about numbered terminal input: both implementations meet the contract, every byte of
  a writer reaches the terminal once and in order, and what a second claim of a task terminal does.
\<close>

section \<open>Both implementations meet the contract\<close>

lemma new_input_claimed: "(new_input [])\<lparr>ri_stream := S\<rparr> = new_input S"
  by (simp add: new_input_def)

lemma acknowledge_fields [simp]:
  "ri_acked (acknowledge G f st) = if_Seq f" "ri_stream (acknowledge G f st) = ri_stream st" "ri_failed (acknowledge G f st) = ri_failed st"
  "ri_retired (acknowledge G f st) = ri_retired st"
  by (simp_all add: acknowledge_def)

lemma new_input_fields [simp]:
  "ri_acked (new_input S) = 0" "ri_stream (new_input S) = S" "\<not> ri_failed (new_input S)" "ri_retired (new_input S) = []"
  by (simp_all add: new_input_def)

lemma written_new [simp]: "written d (new_input S) out = (out = [])"
  by (simp add: written_def)

interpretation task_input: numbered_input "\<lambda>f w. Admit G (fst w) f (snd w)" for G
proof
  fix f :: input_frame and S st and w :: "bool \<times> sink_write"
  assume S: "if_Stream f = S" "owned_by S st"
  show "input_effect S f st (Admit G (fst w) f (snd w) st)"
    using S new_input_claimed [of S] take_0 [of "if_Data f"]
    by (auto simp: input_effect_def Admit_def Let_def owned_by_def not_le split: sink_write.split)
qed

lemma sequenced_new_effect:
  "if_Stream f = S \<Longrightarrow> \<not> ri_failed st \<Longrightarrow> input_effect S f st (sequenced_new G f n err st)"
  by (auto simp: input_effect_def sequenced_new_def Let_def not_le)

interpretation session_input: numbered_input "\<lambda>f w. InputSequenced G (fst w) f (fst (snd w)) (snd (snd w))" for G
proof
  fix f :: input_frame and S st and w :: "bool \<times> nat \<times> bool"
  assume S: "if_Stream f = S" "owned_by S st"
  show "input_effect S f st (InputSequenced G (fst w) f (fst (snd w)) (snd (snd w)) st)"
    using S sequenced_new_effect [of f S st G "fst (snd w)" "snd (snd w)"]
    by (auto simp: InputSequenced_def owned_by_def input_effect_def)
qed

section \<open>Task terminals\<close>

lemma sent_prefix: "m \<le> n \<Longrightarrow> prefix (sent d m) (sent d n)"
proof (induction n)
  case (Suc n)
  then show ?case by (cases "m = Suc n") (auto simp: sent_Suc le_Suc_eq)
qed simp

lemma written_prefix: "written d st out \<Longrightarrow> m \<le> ri_acked st \<Longrightarrow> prefix (sent d m) out"
  using sent_prefix by (fastforce simp: written_def split: if_splits intro: prefix_prefix)

text \<open>
  C24: While one writer holds a task terminal, the bytes written are its acknowledged frames in
  order, each once, plus at most a part of one last frame after which the input is frozen.
\<close>

theorem task_input_exactly_once:
  assumes frames: "list_all (\<lambda>c. frame_of S d (fst c)) cs" and run: "task_input.run G cs (new_input []) = (st, out)"
    and last: "frame_of S d f" "Admit G gate f w st = (e, st', rest)"
  shows "written d st out \<and> (e = None \<longrightarrow> prefix (sent d (if_Seq f)) (out @ rest))"
proof -
  have "owned_by S (new_input [])" "written d (new_input []) []" by (simp_all add: owned_by_def written_def)
  from task_input.written_run [OF frames this run] have w: "owned_by S st" "written d st out" by simp_all
  with task_input.written_step [OF last(1) w, where w = "(gate, w)" and G = G] last(2) written_prefix [of d st' "out @ rest" "if_Seq f"]
  show ?thesis by auto
qed

text \<open>
  C26: A second writer that claims a task terminal lifts the freeze that a partial write caused;
  when the first writer claims it again, its old frames are accepted as new and written a second
  time.
\<close>

theorem second_claim_repeats_input:
  assumes f: "valid_frame f" "if_Seq f = 1" and claim: "valid_frame h" "if_Seq h = 0" "if_Stream h = if_Stream f"
    and other: "valid_frame g" "if_Seq g = 0" "if_Stream g \<noteq> if_Stream f"
  shows "snd (task_input.run G [(h, True, WroteAll), (f, True, WroteAll), (g, True, WroteAll), (h, True, WroteAll), (f, True, WroteAll)]
      (new_input [])) = if_Data f @ if_Data f \<and>
    snd (task_input.run G [(h, True, WroteAll), (f, True, WrotePart k), (g, True, WroteAll), (h, True, WroteAll), (f, True, WroteAll)]
      (new_input [])) = take k (if_Data f) @ if_Data f"
proof -
  have ne: "if_Stream g \<noteq> []" "if_Stream f \<noteq> []" using f(1) other(1) by (auto simp: valid_frame_def)
  show ?thesis using assms ne by (simp add: Admit_def Let_def)
qed

section \<open>Terminal sessions with several writers\<close>

type_synonym session_call = "input_frame \<times> bool \<times> nat \<times> bool"

text \<open>The log of a run: each frame with its answer and the bytes it put into the terminal.\<close>

fun session_log :: "genv \<Rightarrow> session_call list \<Rightarrow> input_state \<Rightarrow> (input_frame \<times> terminal_error option \<times> string) list" where
  "session_log G [] st = []"
| "session_log G ((f, ret, n, err) # cs) st =
     (case InputSequenced G ret f n err st of (e, st', out) \<Rightarrow> (f, e, out) # session_log G cs st')"

definition bytes_of :: "string \<Rightarrow> (input_frame \<times> terminal_error option \<times> string) list \<Rightarrow> string" where
  "bytes_of S log = concat (map (\<lambda>x. snd (snd x)) (filter (\<lambda>x. if_Stream (fst x) = S) log))"

text \<open>
  What holds of the writer \<open>S\<close> after it has put \<open>pre\<close> into the terminal and frames up to \<open>n\<close> were
  acknowledged to it: it owns the input, it was fenced, or it has not been seen.
\<close>

definition writer_ok :: "string \<Rightarrow> (nat \<Rightarrow> string) \<Rightarrow> nat \<Rightarrow> string \<Rightarrow> input_state \<Rightarrow> bool" where
  "writer_ok S d n pre st =
     ((ri_stream st = [] \<longrightarrow> st = new_input []) \<and> [] \<notin> set (ri_retired st) \<and> S \<noteq> [] \<and>
      (if ri_stream st = S then S \<notin> set (ri_retired st) \<and> written d st pre \<and> n \<le> ri_acked st
       else if S \<in> set (ri_retired st) then \<exists>m\<ge>n. pre = sent d m
       else pre = [] \<and> n = 0))"

lemma fence_fields [simp]:
  "ri_acked (fence f st) = 0" "ri_stream (fence f st) = ri_stream st" "ri_failed (fence f st) = ri_failed st"
  "ri_retired (fence f st) = ri_stream st # ri_retired st"
  by (simp_all add: fence_def)

lemma sequenced_new_frame:
  "sequenced_new G f n err st = (e, st', out) \<Longrightarrow> ri_retired st' = ri_retired st \<and> (st' = st \<or> ri_stream st' = if_Stream f) \<and>
    (if_Seq f = 0 \<longrightarrow> e = None \<and> st' = st\<lparr>ri_stream := if_Stream f\<rparr> \<and> out = [])"
  by (auto simp: sequenced_new_def Let_def split: if_splits)

lemma writer_ok_own:
  assumes w: "writer_ok S d n pre st" and f: "frame_of S d f" "valid_frame f" and a: "InputSequenced G ret f k err st = (e, st', out)"
  shows "writer_ok S d (if e = None then max n (if_Seq f) else n) (pre @ out) st'"
proof (cases "ri_stream st = S \<or> ri_stream st = []")
  case True
  then have o: "owned_by S st" "written d st pre" "n \<le> ri_acked st" "S \<notin> set (ri_retired st)"
    using w by (auto simp: writer_ok_def owned_by_def written_def)
  have eff: "owned_by S st' \<and> written d st' (pre @ out) \<and> (e = None \<longrightarrow> if_Seq f \<le> ri_acked st') \<and> ri_acked st \<le> ri_acked st'"
    using session_input.written_step [OF f(1) o(1,2), where w = "(ret, k, err)" and G = G] a by simp
  have "ri_retired st' = ri_retired st \<and> (st' = st \<or> ri_stream st' = S)"
    using a True f sequenced_new_frame [of G f k err st] by (auto simp: InputSequenced_def frame_of_def split: if_splits)
  with eff o w True show ?thesis by (auto simp: writer_ok_def)
next
  case False
  show ?thesis
  proof (cases "st' = st \<and> out = [] \<and> e \<noteq> None")
    case True
    with w show ?thesis by (auto simp: writer_ok_def)
  next
    case changed: False
    have c: "if_Seq f = 0" "S \<notin> set (ri_retired st)" "\<not> ri_failed st" "sequenced_new G f k err (fence f st) = (e, st', out)"
      using a False changed f by (auto simp: InputSequenced_def frame_of_def split: if_splits)
    from sequenced_new_frame [OF c(4)] c(1) f have st': "e = None" "st' = (fence f st)\<lparr>ri_stream := S\<rparr>" "out = []"
      by (simp_all add: frame_of_def)
    with w False c show ?thesis by (auto simp: writer_ok_def written_def)
  qed
qed

lemma writer_ok_other:
  assumes w: "writer_ok S d n pre st" and f: "if_Stream f \<noteq> S" "valid_frame f" and a: "InputSequenced G ret f k err st = (e, st', out)"
  shows "writer_ok S d n pre st'"
proof (cases "st' = st")
  case True
  with w show ?thesis by simp
next
  case changed: False
  have ne: "if_Stream f \<noteq> []" using f(2) by (auto simp: valid_frame_def)
  show ?thesis
  proof (cases "ri_stream st = [] \<or> ri_stream st = if_Stream f")
    case True
    with a changed f have "sequenced_new G f k err st = (e, st', out)" by (auto simp: InputSequenced_def split: if_splits)
    from sequenced_new_frame [OF this] changed have "ri_retired st' = ri_retired st" "ri_stream st' = if_Stream f" by auto
    with True w f ne show ?thesis by (auto simp: writer_ok_def)
  next
    case False
    then have c: "if_Seq f = 0" "if_Stream f \<notin> set (ri_retired st)" "\<not> ri_failed st" "sequenced_new G f k err (fence f st) = (e, st', out)"
      using a changed f by (auto simp: InputSequenced_def split: if_splits)
    from sequenced_new_frame [OF c(4)] c(1) have "st' = (fence f st)\<lparr>ri_stream := if_Stream f\<rparr>" by simp
    with w False c f ne show ?thesis by (auto simp: writer_ok_def written_def split: if_splits)
  qed
qed

lemma bytes_of_Cons: "bytes_of S (x # log) = (if if_Stream (fst x) = S then snd (snd x) else []) @ bytes_of S log"
  by (simp add: bytes_of_def)

lemma writer_ok_log:
  "\<lbrakk>writer_ok S d n pre st; list_all (\<lambda>c. if_Stream (fst c) = S \<longrightarrow> frame_of S d (fst c)) cs\<rbrakk> \<Longrightarrow>
    \<exists>m st'. writer_ok S d m (pre @ bytes_of S (session_log G cs st)) st' \<and> n \<le> m \<and>
      (\<forall>x\<in>set (session_log G cs st). if_Stream (fst x) = S \<and> fst (snd x) = None \<longrightarrow> if_Seq (fst x) \<le> m)"
proof (induction cs arbitrary: st pre n)
  case Nil
  then show ?case by (auto simp: bytes_of_def)
next
  case (Cons c cs)
  obtain f ret k err where c: "c = (f, ret, k, err)" by (cases c)
  obtain e st1 out where a: "InputSequenced G ret f k err st = (e, st1, out)" by (metis prod.collapse)
  let ?n = "if if_Stream f = S \<and> e = None then max n (if_Seq f) else n"
  let ?pre = "pre @ (if if_Stream f = S then out else [])"
  have "writer_ok S d ?n ?pre st1"
  proof (cases "valid_frame f")
    case True
    then show ?thesis
      using writer_ok_own [OF Cons.prems(1) _ _ a] writer_ok_other [OF Cons.prems(1) _ _ a] Cons.prems(2) by (auto simp: c)
  next
    case False
    with a Cons.prems(1) show ?thesis by (auto simp: InputSequenced_def)
  qed
  from Cons.IH [OF this] Cons.prems(2) obtain m st' where m: "writer_ok S d m (?pre @ bytes_of S (session_log G cs st1)) st'" "?n \<le> m"
      "\<forall>x\<in>set (session_log G cs st1). if_Stream (fst x) = S \<and> fst (snd x) = None \<longrightarrow> if_Seq (fst x) \<le> m" by auto
  then show ?case
    by (intro exI [of _ m] exI [of _ st']) (auto simp: c a bytes_of_Cons split: if_splits)
qed


section \<open>Instances\<close>

definition writer_a :: string where "writer_a = hex_encode (replicate 16 (CHR ''a''))"
definition writer_b :: string where "writer_b = hex_encode (replicate 16 (CHR ''b''))"

definition frame_a :: "nat \<Rightarrow> input_frame" where
  "frame_a n = \<lparr>if_Stream = writer_a, if_Seq = n, if_Data = (if n = 0 then [] else ''ls'')\<rparr>"

definition claim_b :: input_frame where "claim_b = \<lparr>if_Stream = writer_b, if_Seq = 0, if_Data = []\<rparr>"

lemma writers: "valid_frame (frame_a 0)" "valid_frame (frame_a 1)" "valid_frame claim_b" "writer_b \<noteq> writer_a" "writer_a \<noteq> []"
proof -
  have "hex_decode writer_a \<noteq> hex_decode writer_b" by (simp add: writer_a_def writer_b_def)
  then show "writer_b \<noteq> writer_a" by auto
  have "hex_decode writer_a \<noteq> hex_decode []" by (simp add: writer_a_def)
  then show "writer_a \<noteq> []" by auto
qed (simp_all add: valid_frame_def frame_a_def claim_b_def writer_a_def writer_b_def InputFrameBytes_def)

lemma second_claim_repeats_input_witness:
  "snd (task_input.run demo_env [(frame_a 0, True, WroteAll), (frame_a 1, True, WroteAll), (claim_b, True, WroteAll),
     (frame_a 0, True, WroteAll), (frame_a 1, True, WroteAll)] (new_input [])) = ''lsls''"
  using second_claim_repeats_input [of "frame_a 1" "frame_a 0" claim_b demo_env] writers
  by (simp add: frame_a_def claim_b_def)

lemma frame_a_of: "frame_of writer_a (\<lambda>_. ''ls'') (frame_a n)"
  by (simp add: frame_of_def frame_a_def)

lemma task_input_exactly_once_witness:
  "\<exists>st out e st' rest. task_input.run demo_env [(frame_a 0, True, WroteAll)] (new_input []) = (st, out) \<and>
     Admit demo_env True (frame_a 1) WroteAll st = (e, st', rest) \<and> written (\<lambda>_. ''ls'') st out"
proof -
  obtain st out where r: "task_input.run demo_env [(frame_a 0, True, WroteAll)] (new_input []) = (st, out)" by fastforce
  obtain e st' rest where a: "Admit demo_env True (frame_a 1) WroteAll st = (e, st', rest)" by (metis prod.collapse)
  have "list_all (\<lambda>c. frame_of writer_a (\<lambda>_. ''ls'') (fst c)) [(frame_a 0, True, WroteAll)]" by (simp add: frame_a_of)
  from task_input_exactly_once [OF this r frame_a_of a] r a show ?thesis by blast
qed


end
