(* ===== verification/TerminalManager.thy ===== *)
theory TerminalManager
  imports TerminalInput "HOL-Library.Char_ord" "HOL-Library.List_Lexorder" "HOL-Library.Product_Lexorder"
begin

text \<open>
  \<open>internal/terminal/manager.go\<close>: the registry of terminal sessions. Opening and closing a session
  leave the manager's lock while a process is started or stopped, so each is modelled by the
  steps it takes under a lock. The process itself is external: its outcomes are arguments.
\<close>

section \<open>State\<close>

definition DefaultMaxSessions :: int where "DefaultMaxSessions = 16"
definition DefaultMaxOwnerSessions :: int where "DefaultMaxOwnerSessions = 4"
definition DefaultIdleTimeout :: duration where "DefaultIdleTimeout = 30 * Minute"
definition DefaultLifetime :: duration where "DefaultLifetime = 8 * Hour"
definition MaxInputBytes :: nat where "MaxInputBytes = 16384"
definition maxFinishedSessions :: nat where "maxFinishedSessions = 64"
definition maxFinishedBufferBytes :: nat where "maxFinishedBufferBytes = 16777216"
definition finishedRetention :: duration where "finishedRetention = 5 * Minute"

record term_config =
  tc_BufferBytes :: int
  tc_MaxSessions :: int
  tc_MaxOwnerSessions :: int
  tc_IdleTimeout :: duration
  tc_Lifetime :: duration

record term_session =
  ts_id :: string
  ts_owner :: string
  ts_retained :: bool
  ts_input :: input_state
  ts_buffer :: string
  ts_cap :: nat
  ts_base :: int
  ts_next :: int
  ts_wakes :: nat
  ts_createdAt :: gotime
  ts_updatedAt :: gotime
  ts_finishedAt :: gotime
  ts_exitedAt :: "gotime option"
  ts_exitError :: string
  ts_closed :: bool
  ts_terminated :: bool
  ts_closeFailed :: bool

record owner_admission =
  oa_pending :: int
  oa_epoch :: nat

record term_manager =
  tm_config :: term_config
  tm_sessions :: "(string \<times> term_session) list"
  tm_closed :: bool
  tm_opening :: int
  tm_owners :: "(string \<times> owner_admission) list"

record term_snapshot =
  tn_Retained :: bool
  tn_ID :: string
  tn_Offset :: int
  tn_CreatedAt :: gotime
  tn_UpdatedAt :: gotime
  tn_ExitedAt :: "gotime option"
  tn_ExitError :: string
  tn_Closed :: bool

definition NewManager :: "term_config \<Rightarrow> term_manager" where
  "NewManager c = \<lparr>tm_config =
       \<lparr>tc_BufferBytes = (if tc_BufferBytes c \<le> 0 then DefaultBufferBytes else tc_BufferBytes c),
        tc_MaxSessions = (if tc_MaxSessions c \<le> 0 then DefaultMaxSessions else tc_MaxSessions c),
        tc_MaxOwnerSessions = (if tc_MaxOwnerSessions c \<le> 0 then DefaultMaxOwnerSessions else tc_MaxOwnerSessions c),
        tc_IdleTimeout = (if tc_IdleTimeout c \<le> 0 then DefaultIdleTimeout else tc_IdleTimeout c),
        tc_Lifetime = (if tc_Lifetime c \<le> 0 then DefaultLifetime else tc_Lifetime c)\<rparr>,
     tm_sessions = [], tm_closed = False, tm_opening = 0, tm_owners = []\<rparr>"

section \<open>One session\<close>

definition wake_session :: "term_session \<Rightarrow> term_session" where
  "wake_session s = s\<lparr>ts_wakes := ts_wakes s + 1\<rparr>"

definition isActive :: "term_session \<Rightarrow> bool" where "isActive s = (\<not> ts_closed s)"

definition session_snapshot :: "term_session \<Rightarrow> term_snapshot" where
  "session_snapshot s = \<lparr>tn_Retained = ts_retained s, tn_ID = ts_id s, tn_Offset = 0, tn_CreatedAt = ts_createdAt s,
     tn_UpdatedAt = ts_updatedAt s, tn_ExitedAt = ts_exitedAt s, tn_ExitError = ts_exitError s, tn_Closed = ts_closed s\<rparr>"

text \<open>\<open>newcap\<close> is the capacity the runtime chooses when the buffer has to grow.\<close>

definition session_append :: "string \<Rightarrow> int \<Rightarrow> gotime \<Rightarrow> nat \<Rightarrow> term_session \<Rightarrow> term_session" where
  "session_append data limit now newcap s =
     (case ring_keep limit (ts_buffer s @ data) of
        (kept, dropped) \<Rightarrow>
          wake_session (s\<lparr>ts_buffer := kept, ts_cap := (if length (ts_buffer s @ data) \<le> ts_cap s then ts_cap s else newcap),
            ts_next := ts_next s + int (length data), ts_base := ts_base s + dropped, ts_updatedAt := now\<rparr>))"

definition setExit :: "string option \<Rightarrow> gotime \<Rightarrow> term_session \<Rightarrow> term_session" where
  "setExit err now s =
     (if ts_exitedAt s \<noteq> None then s
      else wake_session (s\<lparr>ts_exitedAt := Some now, ts_finishedAt := (if ts_finishedAt s = zero_time then now else ts_finishedAt s),
        ts_updatedAt := now, ts_exitError := (case err of None \<Rightarrow> ts_exitError s | Some e \<Rightarrow> e)\<rparr>))"

definition session_output :: "int \<Rightarrow> nat \<Rightarrow> gotime \<Rightarrow> term_session \<Rightarrow> (terminal_error + terminal_output \<times> bool) \<times> term_session" where
  "session_output offset limit now s =
     (if offset < 0 \<or> ts_next s < offset then (Inl TErrOffset, s)
      else
        let truncated = offset < ts_base s;
            from = (if truncated then ts_base s else offset);
            data = take limit (drop (nat (from - ts_base s)) (ts_buffer s)) in
        (Inr (\<lparr>to_Data = data, to_Offset = from, to_NextOffset = from + int (length data), to_Truncated = truncated,
             to_ExitedAt = ts_exitedAt s, to_ExitError = ts_exitError s, to_Closed = ts_closed s\<rparr>,
           data \<noteq> [] \<or> ts_closed s \<or> ts_exitedAt s \<noteq> None),
         s\<lparr>ts_updatedAt := now\<rparr>))"

text \<open>The checks of a session before input and resizing.\<close>

definition session_usable :: "term_session \<Rightarrow> terminal_error option" where
  "session_usable s =
     (if ts_closeFailed s \<and> \<not> ts_closed s then Some TErrCleanupPending
      else if ts_closed s \<or> ts_exitedAt s \<noteq> None then Some TErrClosed
      else None)"

section \<open>The registry\<close>

definition tm_lookup :: "string \<Rightarrow> string \<Rightarrow> term_manager \<Rightarrow> term_session option" where
  "tm_lookup owner i m =
     (case map_of (tm_sessions m) i of None \<Rightarrow> None
      | Some s \<Rightarrow> if ts_owner s = trim_space owner then Some s else None)"

definition IsRetained :: "string \<Rightarrow> string \<Rightarrow> term_manager \<Rightarrow> bool" where
  "IsRetained owner i m = (case tm_lookup owner i m of None \<Rightarrow> False | Some s \<Rightarrow> ts_retained s)"

definition Busy :: "term_manager \<Rightarrow> bool" where
  "Busy m = (tm_opening m \<noteq> 0 \<or> list_ex (\<lambda>p. \<not> ts_closed (snd p)) (tm_sessions m))"

definition tm_put :: "string \<Rightarrow> term_session \<Rightarrow> term_manager \<Rightarrow> term_manager" where
  "tm_put i s m = m\<lparr>tm_sessions := alist_put i s (tm_sessions m)\<rparr>"

text \<open>\<open>trimFinishedLocked\<close>: the finished sessions in the order of their end, the oldest dropped first.\<close>

definition session_done :: "term_session \<Rightarrow> bool" where "session_done s = (ts_closed s \<and> \<not> ts_closeFailed s)"

definition retention_over :: "gotime \<Rightarrow> term_session \<Rightarrow> bool" where
  "retention_over now s = (session_done s \<and> ts_finishedAt s \<noteq> zero_time \<and> finishedRetention \<le> now - ts_finishedAt s)"

fun drop_oldest :: "(string \<times> term_session) list \<Rightarrow> nat \<Rightarrow> string list" where
  "drop_oldest [] bytes = []"
| "drop_oldest (p # ps) bytes =
     (if maxFinishedSessions < length (p # ps) \<or> maxFinishedBufferBytes < bytes
      then fst p # drop_oldest ps (bytes - ts_cap (snd p)) else [])"

definition trimFinished :: "gotime \<Rightarrow> term_manager \<Rightarrow> term_manager" where
  "trimFinished now m =
     (let kept = filter (\<lambda>p. \<not> retention_over now (snd p)) (tm_sessions m);
          finished = sort_key (\<lambda>p. (ts_finishedAt (snd p), fst p)) (filter (\<lambda>p. session_done (snd p)) kept);
          old = drop_oldest finished (sum_list (map (\<lambda>p. ts_cap (snd p)) finished)) in
      m\<lparr>tm_sessions := filter (\<lambda>p. fst p \<notin> set old) kept\<rparr>)"

section \<open>Opening\<close>

definition active_sessions :: "term_manager \<Rightarrow> nat" where
  "active_sessions m = length (filter (\<lambda>p. isActive (snd p)) (tm_sessions m))"

definition owned_sessions :: "string \<Rightarrow> term_manager \<Rightarrow> nat" where
  "owned_sessions owner m = length (filter (\<lambda>p. isActive (snd p) \<and> ts_owner (snd p) = owner) (tm_sessions m))"

definition pending_opens :: "string \<Rightarrow> term_manager \<Rightarrow> int" where
  "pending_opens owner m = (case map_of (tm_owners m) owner of None \<Rightarrow> 0 | Some a \<Rightarrow> oa_pending a)"

definition owner_epoch :: "string \<Rightarrow> term_manager \<Rightarrow> nat" where
  "owner_epoch owner m = (case map_of (tm_owners m) owner of None \<Rightarrow> 0 | Some a \<Rightarrow> oa_epoch a)"

text \<open>The result of a reservation is the epoch of the owner's admission.\<close>

definition reserveOpen :: "gotime \<Rightarrow> string \<Rightarrow> term_manager \<Rightarrow> (terminal_error + nat) \<times> term_manager" where
  "reserveOpen now owner m0 =
     (if tm_closed m0 then (Inl TErrClosed, m0)
      else
        let m = trimFinished now m0 in
        if tc_MaxSessions (tm_config m) \<le> int (active_sessions m) + tm_opening m \<or>
           tc_MaxOwnerSessions (tm_config m) \<le> int (owned_sessions owner m) + pending_opens owner m
        then (Inl TErrLimit, m)
        else (Inr (owner_epoch owner m),
          m\<lparr>tm_owners := alist_put owner \<lparr>oa_pending = pending_opens owner m + 1, oa_epoch = owner_epoch owner m\<rparr> (tm_owners m),
            tm_opening := tm_opening m + 1\<rparr>))"

definition releaseOpen :: "string \<Rightarrow> term_manager \<Rightarrow> term_manager" where
  "releaseOpen owner m =
     (let pending = pending_opens owner m - 1 in
      m\<lparr>tm_opening := tm_opening m - 1,
        tm_owners := (if pending = 0 then alist_del owner (tm_owners m)
          else alist_put owner \<lparr>oa_pending = pending, oa_epoch = owner_epoch owner m\<rparr> (tm_owners m))\<rparr>)"

text \<open>\<open>open\<close> up to the reservation.\<close>

definition open_reserve ::
    "bool \<Rightarrow> string \<Rightarrow> nat \<Rightarrow> nat \<Rightarrow> gotime \<Rightarrow> term_manager \<Rightarrow> (terminal_error + string \<times> nat) \<times> term_manager" where
  "open_reserve done owner0 rows columns now m =
     (let owner = trim_space owner0 in
      if done then (Inl TErrContext, m)
      else if owner = [] \<or> rows = 0 \<or> columns = 0 \<or> 500 < rows \<or> 1000 < columns then (Inl TErrRequest, m)
      else case reserveOpen now owner m of (Inl e, m') \<Rightarrow> (Inl e, m') | (Inr ep, m') \<Rightarrow> (Inr (owner, ep), m'))"

text \<open>The check before the process is started.\<close>

definition open_revoked :: "string \<Rightarrow> nat \<Rightarrow> term_manager \<Rightarrow> bool" where
  "open_revoked owner epoch m = (tm_closed m \<or> owner_epoch owner m \<noteq> epoch)"

definition new_session :: "string \<Rightarrow> string \<Rightarrow> bool \<Rightarrow> gotime \<Rightarrow> term_session" where
  "new_session i owner retained now = \<lparr>ts_id = i, ts_owner = owner, ts_retained = retained, ts_input = new_input [], ts_buffer = [],
     ts_cap = 0, ts_base = 0, ts_next = 0, ts_wakes = 0, ts_createdAt = now, ts_updatedAt = now, ts_finishedAt = zero_time,
     ts_exitedAt = None, ts_exitError = [], ts_closed = False, ts_terminated = False, ts_closeFailed = False\<rparr>"

text \<open>
  After the start: whether there is a process, the error of the starter, whether the context is
  done. Where a process was registered with an error, the code goes on to close it.
\<close>

definition open_register ::
    "string \<Rightarrow> string \<Rightarrow> nat \<Rightarrow> bool \<Rightarrow> gotime \<Rightarrow> bool \<Rightarrow> terminal_error option \<Rightarrow> bool \<Rightarrow> term_manager \<Rightarrow>
     (terminal_error + term_session) \<times> term_manager" where
  "open_register i owner epoch retained now process err done m =
     (let err1 = (case err of Some e \<Rightarrow> Some e
            | None \<Rightarrow> if done then Some TErrContext else if open_revoked owner epoch m then Some TErrClosed else None);
          m1 = releaseOpen owner m; item = new_session i owner retained now in
      if \<not> process then (Inl (case err1 of None \<Rightarrow> TErrRequest | Some e \<Rightarrow> e), m1)
      else (case err1 of None \<Rightarrow> Inr item | Some e \<Rightarrow> Inl e, tm_put i item m1))"

section \<open>Closing\<close>

text \<open>The step that claims the cleanup; \<open>None\<close>: there is nothing to do.\<close>

definition close_mark :: "string \<Rightarrow> string \<Rightarrow> term_manager \<Rightarrow> terminal_error option \<times> bool \<times> term_manager" where
  "close_mark owner i m =
     (case tm_lookup owner i m of None \<Rightarrow> (Some TErrNotFound, False, m)
      | Some s \<Rightarrow> if ts_closed s then (None, False, m) else (None, True, tm_put i (s\<lparr>ts_closeFailed := True\<rparr>) m))"

text \<open>Stopping the process: \<open>kill\<close> and \<open>release\<close> are the errors of \<open>Kill\<close> (only when it has not succeeded before) and \<open>Close\<close>.\<close>

definition close_finish ::
    "string \<Rightarrow> gotime \<Rightarrow> gotime \<Rightarrow> terminal_error option \<Rightarrow> terminal_error option \<Rightarrow> term_manager \<Rightarrow> terminal_error option \<times> term_manager" where
  "close_finish i now now2 kill release m =
     (case map_of (tm_sessions m) i of None \<Rightarrow> (None, m)
      | Some s \<Rightarrow>
          if \<not> ts_terminated s \<and> kill \<noteq> None then (kill, m)
          else
            let s1 = s\<lparr>ts_terminated := True\<rparr> in
            case release of Some e \<Rightarrow> (Some e, tm_put i s1 m)
            | None \<Rightarrow>
                let s2 = wake_session (s1\<lparr>ts_closeFailed := False, ts_closed := True, ts_updatedAt := now,
                      ts_finishedAt := (if ts_finishedAt s1 = zero_time then now else ts_finishedAt s1)\<rparr>) in
                (None, trimFinished now2 (tm_put i s2 m)))"

definition CloseSession ::
    "string \<Rightarrow> string \<Rightarrow> gotime \<Rightarrow> gotime \<Rightarrow> terminal_error option \<Rightarrow> terminal_error option \<Rightarrow> term_manager \<Rightarrow>
     terminal_error option \<times> term_manager" where
  "CloseSession owner i now now2 kill release m =
     (case close_mark owner i m of
        (e, False, m1) \<Rightarrow> (e, m1)
      | (_, True, m1) \<Rightarrow> close_finish i now now2 kill release m1)"

text \<open>The locked part of \<open>CloseOwner\<close> and of \<open>CloseAll\<close>; both go on to close the sessions they return.\<close>

definition close_owner_mark :: "string \<Rightarrow> term_manager \<Rightarrow> string list \<times> term_manager" where
  "close_owner_mark owner0 m =
     (let owner = trim_space owner0 in
      (map fst (filter (\<lambda>p. ts_owner (snd p) = owner) (tm_sessions m)),
       case map_of (tm_owners m) owner of None \<Rightarrow> m
       | Some a \<Rightarrow> m\<lparr>tm_owners := alist_put owner (a\<lparr>oa_epoch := oa_epoch a + 1\<rparr>) (tm_owners m)\<rparr>))"

definition close_all_mark :: "term_manager \<Rightarrow> (string \<times> string) list \<times> term_manager" where
  "close_all_mark m = (map (\<lambda>p. (ts_owner (snd p), fst p)) (tm_sessions m), m\<lparr>tm_closed := True\<rparr>)"

text \<open>The locked part of \<open>reap\<close>: the sessions to be closed.\<close>

definition stale_session :: "term_config \<Rightarrow> gotime \<Rightarrow> term_session \<Rightarrow> bool" where
  "stale_session c now s =
     (\<not> ts_closed s \<and>
      (((\<not> ts_retained s \<and> tc_IdleTimeout c \<le> now - ts_updatedAt s) \<or> tc_Lifetime c \<le> now - ts_createdAt s) \<or>
       ts_closeFailed s \<or> ts_exitedAt s \<noteq> None))"

definition reap_mark :: "gotime \<Rightarrow> term_manager \<Rightarrow> (string \<times> string) list \<times> term_manager" where
  "reap_mark now m0 =
     (let m = trimFinished now m0 in
      (map (\<lambda>p. (ts_owner (snd p), fst p)) (filter (\<lambda>p. stale_session (tm_config m) now (snd p)) (tm_sessions m)), m))"

text \<open>Closing a list of sessions, each with the outcomes of its process.\<close>

fun close_each ::
    "(string \<Rightarrow> gotime \<times> gotime \<times> terminal_error option \<times> terminal_error option) \<Rightarrow> (string \<times> string) list \<Rightarrow> term_manager \<Rightarrow> term_manager" where
  "close_each io [] m = m"
| "close_each io ((owner, i) # ps) m =
     (case io i of (now, now2, kill, release) \<Rightarrow> close_each io ps (snd (CloseSession owner i now now2 kill release m)))"

definition reap ::
    "gotime \<Rightarrow> (string \<Rightarrow> gotime \<times> gotime \<times> terminal_error option \<times> terminal_error option) \<Rightarrow> term_manager \<Rightarrow> term_manager" where
  "reap now io m = (case reap_mark now m of (stale, m1) \<Rightarrow> close_each io stale m1)"

definition CloseOwner ::
    "string \<Rightarrow> (string \<Rightarrow> gotime \<times> gotime \<times> terminal_error option \<times> terminal_error option) \<Rightarrow> term_manager \<Rightarrow> term_manager" where
  "CloseOwner owner io m = (case close_owner_mark owner m of (ids, m1) \<Rightarrow> close_each io (map (Pair (trim_space owner)) ids) m1)"

definition CloseAll ::
    "(string \<Rightarrow> gotime \<times> gotime \<times> terminal_error option \<times> terminal_error option) \<Rightarrow> term_manager \<Rightarrow> term_manager" where
  "CloseAll io m = (case close_all_mark m of (ps, m1) \<Rightarrow> close_each io ps m1)"

section \<open>Using a session\<close>

text \<open>A step of the output capture and of its end; a failed cleanup is reported in the output.\<close>

definition cleanup_message :: string where
  "cleanup_message = [CHR 0x0D, CHR 0x0A] @ ''Terminal disconnected; process cleanup will be retried.'' @ [CHR 0x0D, CHR 0x0A]"

definition update_session :: "string \<Rightarrow> (term_session \<Rightarrow> term_session) \<Rightarrow> term_manager \<Rightarrow> term_manager" where
  "update_session i f m = (case map_of (tm_sessions m) i of None \<Rightarrow> m | Some s \<Rightarrow> tm_put i (f s) m)"

definition capture_data :: "string \<Rightarrow> string \<Rightarrow> gotime \<Rightarrow> nat \<Rightarrow> term_manager \<Rightarrow> term_manager" where
  "capture_data i data now newcap m = update_session i (session_append data (tc_BufferBytes (tm_config m)) now newcap) m"

definition capture_pending :: "string \<Rightarrow> gotime \<Rightarrow> nat \<Rightarrow> term_manager \<Rightarrow> term_manager" where
  "capture_pending i now newcap m = update_session i (\<lambda>s.
     if ts_closed s then s
     else session_append cleanup_message (tc_BufferBytes (tm_config m)) now newcap (s\<lparr>ts_closeFailed := True\<rparr>)) m"

definition capture_exit :: "string \<Rightarrow> string option \<Rightarrow> gotime \<Rightarrow> term_manager \<Rightarrow> term_manager" where
  "capture_exit i err now m = update_session i (setExit err now) m"

definition tm_read :: "string \<Rightarrow> string \<Rightarrow> int \<Rightarrow> gotime \<Rightarrow> term_manager \<Rightarrow> (terminal_error + terminal_output \<times> bool) \<times> term_manager" where
  "tm_read owner i offset now m =
     (case tm_lookup owner i m of None \<Rightarrow> (Inl TErrNotFound, m)
      | Some s \<Rightarrow> (case session_output offset MaxOutputBytes now s of (r, s') \<Rightarrow> (r, tm_put i s' m)))"

text \<open>\<open>gate\<close>: the input gate was acquired; the process accepted \<open>n\<close> bytes, or \<open>err\<close>.\<close>

definition InputContext ::
    "string \<Rightarrow> string \<Rightarrow> string \<Rightarrow> bool \<Rightarrow> nat \<Rightarrow> terminal_error option \<Rightarrow> gotime \<Rightarrow> term_manager \<Rightarrow> terminal_error option \<times> term_manager \<times> string" where
  "InputContext owner i data gate n err now m =
     (if length data = 0 \<or> MaxInputBytes < length data then (Some TErrRequest, m, [])
      else case tm_lookup owner i m of None \<Rightarrow> (Some TErrNotFound, m, [])
      | Some s \<Rightarrow>
          if \<not> gate then (Some TErrContext, m, [])
          else case session_usable s of Some e \<Rightarrow> (Some e, m, [])
          | None \<Rightarrow>
              if ri_stream (ts_input s) \<noteq> [] then (Some TErrInputSequence, m, [])
              else case (case err of Some e \<Rightarrow> Some e | None \<Rightarrow> if n \<noteq> length data then Some TErrShortWrite else None) of
                Some e \<Rightarrow> (Some e, m, take n data)
              | None \<Rightarrow> (None, tm_put i (s\<lparr>ts_updatedAt := now\<rparr>) m, data))"

definition InputSequencedContext ::
    "genv \<Rightarrow> string \<Rightarrow> string \<Rightarrow> input_frame \<Rightarrow> bool \<Rightarrow> nat \<Rightarrow> bool \<Rightarrow> gotime \<Rightarrow> term_manager \<Rightarrow> terminal_error option \<times> term_manager \<times> string" where
  "InputSequencedContext G owner i f gate n err now m =
     (if \<not> valid_frame f then (Some TErrInputSequence, m, [])
      else case tm_lookup owner i m of None \<Rightarrow> (Some TErrNotFound, m, [])
      | Some s \<Rightarrow>
          if \<not> gate then (Some TErrContext, m, [])
          else case session_usable s of Some e \<Rightarrow> (Some e, m, [])
          | None \<Rightarrow>
              (case InputSequenced G (ts_retained s) f n err (ts_input s) of
                 (r, st, out) \<Rightarrow>
                   (r, tm_put i (s\<lparr>ts_input := st, ts_updatedAt := (if ri_acked (ts_input s) < ri_acked st then now else ts_updatedAt s)\<rparr>) m, out)))"

definition Resize :: "string \<Rightarrow> string \<Rightarrow> nat \<Rightarrow> nat \<Rightarrow> terminal_error option \<Rightarrow> gotime \<Rightarrow> term_manager \<Rightarrow> terminal_error option \<times> term_manager" where
  "Resize owner i rows columns err now m =
     (if rows = 0 \<or> columns = 0 \<or> 500 < rows \<or> 1000 < columns then (Some TErrRequest, m)
      else case tm_lookup owner i m of None \<Rightarrow> (Some TErrNotFound, m)
      | Some s \<Rightarrow> (case session_usable s of Some e \<Rightarrow> (Some e, m)
          | None \<Rightarrow> (case err of Some e \<Rightarrow> (Some e, m) | None \<Rightarrow> (None, tm_put i (s\<lparr>ts_updatedAt := now\<rparr>) m))))"

end
