(* ===== verification/TerminalManagerProps.thy ===== *)
theory TerminalManagerProps
  imports TerminalManager
begin

text \<open>
  The theorems about the terminal registry: the quotas hold under every interleaving of opens,
  closes and the reaper, an open that was under way when its owner was revoked cannot succeed, the
  finished sessions are a bounded cache, and the reaper closes what is stale.
\<close>

section \<open>Interleaved steps\<close>

text \<open>
  A state is the registry, the opens under way - a ticket, the owner and the epoch each reserved
  under - and the next ticket. Every other operation is one step.
\<close>

type_synonym opens = "(nat \<times> string \<times> nat) list"
type_synonym tm_state = "term_manager \<times> opens \<times> nat"

inductive tm_step :: "tm_state \<Rightarrow> tm_state \<Rightarrow> bool" where
  reserve: "open_reserve False owner0 rows cols now m = (Inr (owner, ep), m') \<Longrightarrow>
    tm_step (m, fl, t) (m', (t, owner, ep) # fl, Suc t)"
| refuse: "open_reserve ctx owner0 rows cols now m = (Inl e, m') \<Longrightarrow> tm_step (m, fl, t) (m', fl, t)"
| abort: "f \<in> set fl \<Longrightarrow> tm_step (m, fl, t) (releaseOpen (fst (snd f)) m, remove1 f fl, t)"
| register: "f \<in> set fl \<Longrightarrow> i \<notin> fst ` set (tm_sessions m) \<Longrightarrow>
    open_register i (fst (snd f)) (snd (snd f)) retained now process err ctx m = (r, m') \<Longrightarrow>
    tm_step (m, fl, t) (m', remove1 f fl, t)"
| mark: "close_mark owner i m = (e, b, m') \<Longrightarrow> tm_step (m, fl, t) (m', fl, t)"
| finish: "close_finish i now now2 kill release m = (e, m') \<Longrightarrow> tm_step (m, fl, t) (m', fl, t)"
| revoke: "close_owner_mark owner m = (ids, m') \<Longrightarrow> tm_step (m, fl, t) (m', fl, t)"
| shutdown: "close_all_mark m = (ids, m') \<Longrightarrow> tm_step (m, fl, t) (m', fl, t)"
| reap: "reap_mark now m = (ids, m') \<Longrightarrow> tm_step (m, fl, t) (m', fl, t)"
| capture: "tm_step (m, fl, t) (capture_data i data now newcap m, fl, t)"
| stuck: "tm_step (m, fl, t) (capture_pending i now newcap m, fl, t)"
| exited: "tm_step (m, fl, t) (capture_exit i exit now m, fl, t)"
| read: "tm_read owner i offset now m = (out, m') \<Longrightarrow> tm_step (m, fl, t) (m', fl, t)"
| input: "InputContext owner i data gate n err now m = (e, m', out) \<Longrightarrow> tm_step (m, fl, t) (m', fl, t)"
| frame: "InputSequencedContext G owner i f gate n bad now m = (e, m', out) \<Longrightarrow> tm_step (m, fl, t) (m', fl, t)"
| resize: "Resize owner i rows cols err now m = (e, m') \<Longrightarrow> tm_step (m, fl, t) (m', fl, t)"

section \<open>Steps that open nothing\<close>

lemma filter_put_le:
  assumes "distinct (map fst xs)" "map_of xs i = Some s" "P (i, s') \<Longrightarrow> P (i, s)"
  shows "length (filter P (alist_put i s' xs)) \<le> length (filter P xs)"
  using assms
proof (induction xs)
  case (Cons q xs)
  then show ?case by (cases q) (auto split: if_splits)
qed simp

text \<open>What such a step keeps: quotas can only get looser, admissions keep their count and only grow old.\<close>

definition session_owners :: "term_manager \<Rightarrow> string set" where
  "session_owners m = (\<lambda>p. ts_owner (snd p)) ` set (tm_sessions m)"

lemma owners_put: "map_of xs i = Some s \<Longrightarrow> ts_owner s' = ts_owner s \<Longrightarrow>
    (\<lambda>p. ts_owner (snd p)) ` set (alist_put i s' xs) \<subseteq> (\<lambda>p. ts_owner (snd p)) ` set xs"
  by (induction i s' xs rule: alist_put.induct) (auto split: if_splits)

definition quiet :: "term_manager \<Rightarrow> term_manager \<Rightarrow> bool" where
  "quiet m m' = (tm_config m' = tm_config m \<and> tm_opening m' = tm_opening m \<and>
     map (\<lambda>p. (fst p, oa_pending (snd p))) (tm_owners m') = map (\<lambda>p. (fst p, oa_pending (snd p))) (tm_owners m) \<and>
     (\<forall>o1. owner_epoch o1 m \<le> owner_epoch o1 m') \<and> (tm_closed m \<longrightarrow> tm_closed m') \<and>
     (distinct (map fst (tm_sessions m)) \<longrightarrow> distinct (map fst (tm_sessions m'))) \<and>
     session_owners m' \<subseteq> session_owners m \<and>
     (distinct (map fst (tm_sessions m)) \<longrightarrow> active_sessions m' \<le> active_sessions m \<and> (\<forall>o1. owned_sessions o1 m' \<le> owned_sessions o1 m)))"

lemma quiet_refl [simp]: "quiet m m" by (simp add: quiet_def)

lemma quiet_trans: "quiet m1 m2 \<Longrightarrow> quiet m2 m3 \<Longrightarrow> quiet m1 m3"
  unfolding quiet_def by (metis order_trans subset_trans)

lemma quiet_put:
  assumes "map_of (tm_sessions m) i = Some s" "ts_owner s' = ts_owner s" "isActive s' \<Longrightarrow> isActive s"
  shows "quiet m (tm_put i s' m)"
  using filter_put_le [of "tm_sessions m" i s "\<lambda>p. isActive (snd p)" s']
    filter_put_le [of "tm_sessions m" i s "\<lambda>p. isActive (snd p) \<and> ts_owner (snd p) = o1" s' for o1] assms
    owners_put [of "tm_sessions m" i s s']
  by (auto simp: quiet_def tm_put_def active_sessions_def owned_sessions_def owner_epoch_def distinct_alist_put session_owners_def)

lemma quiet_filter: "quiet m (m\<lparr>tm_sessions := filter P (tm_sessions m)\<rparr>)"
proof -
  have "length (filter Q (filter P xs)) \<le> length (filter Q xs)" for Q and xs :: "(string \<times> term_session) list"
    by (induction xs) auto
  then show ?thesis
    by (auto simp: quiet_def active_sessions_def owned_sessions_def owner_epoch_def distinct_map_filter session_owners_def)
qed

lemma quiet_trim [simp]: "quiet m (trimFinished now m)"
proof -
  have "quiet m (m\<lparr>tm_sessions := filter P (filter Q (tm_sessions m))\<rparr>)" for P Q
    using quiet_filter [of m "\<lambda>p. Q p \<and> P p"] by simp
  then show ?thesis by (simp add: trimFinished_def Let_def)
qed

lemma session_fields [simp]:
  "ts_owner (wake_session s) = ts_owner s" "isActive (wake_session s) = isActive s"
  "ts_owner (session_append d l now c s) = ts_owner s" "isActive (session_append d l now c s) = isActive s"
  "ts_owner (setExit e now s) = ts_owner s" "isActive (setExit e now s) = isActive s"
  by (simp_all add: wake_session_def session_append_def setExit_def isActive_def split: prod.split)

lemma quiet_update: "(\<And>s. ts_owner (f s) = ts_owner s) \<Longrightarrow> (\<And>s. isActive (f s) \<Longrightarrow> isActive s) \<Longrightarrow> quiet m (update_session i f m)"
  by (auto simp: update_session_def intro: quiet_put split: option.split)

lemma lookup_Some: "tm_lookup owner i m = Some s \<Longrightarrow> map_of (tm_sessions m) i = Some s \<and> ts_owner s = trim_space owner"
  by (auto simp: tm_lookup_def split: option.splits if_splits)

lemma quiet_mark: "close_mark owner i m = (e, b, m') \<Longrightarrow> quiet m m'"
  by (auto simp: close_mark_def isActive_def dest!: lookup_Some intro!: quiet_put split: option.splits if_splits)

lemma quiet_finish: "close_finish i now now2 kill release m = (e, m') \<Longrightarrow> quiet m m'"
  by (auto simp: close_finish_def Let_def isActive_def wake_session_def intro!: quiet_put quiet_trans [OF quiet_put quiet_trim]
      split: option.splits if_splits)

lemma quiet_capture: "quiet m (capture_data i data now newcap m)" "quiet m (capture_pending i now newcap m)" "quiet m (capture_exit i x now m)"
  by (auto simp: capture_data_def capture_pending_def capture_exit_def isActive_def intro!: quiet_update)
    (simp_all flip: isActive_def, simp_all add: isActive_def)

lemma quiet_use:
  "tm_read owner i offset now m = (out, m') \<Longrightarrow> quiet m m'"
  "InputContext owner i data gate n err now m = (e, m', bytes) \<Longrightarrow> quiet m m'"
  "InputSequencedContext G owner i f gate n bad now m = (e, m', bytes) \<Longrightarrow> quiet m m'"
  "Resize owner i rows cols err now m = (e, m') \<Longrightarrow> quiet m m'"
  by (auto simp: tm_read_def InputContext_def InputSequencedContext_def Resize_def session_output_def Let_def isActive_def
      dest!: lookup_Some intro!: quiet_put split: option.splits if_splits prod.splits)

lemma alist_put_keys: "map_of xs k = Some v \<Longrightarrow> g w = g v \<Longrightarrow>
    map (\<lambda>p. (fst p, g (snd p))) (alist_put k w xs) = map (\<lambda>p. (fst p, g (snd p))) xs"
  by (induction k w xs rule: alist_put.induct) (auto split: if_splits)

lemma quiet_revoke: "close_owner_mark owner m = (ids, m') \<Longrightarrow> quiet m m'"
proof (cases "map_of (tm_owners m) (trim_space owner)")
  case (Some a)
  assume "close_owner_mark owner m = (ids, m')"
  with Some have "m' = m\<lparr>tm_owners := alist_put (trim_space owner) (a\<lparr>oa_epoch := oa_epoch a + 1\<rparr>) (tm_owners m)\<rparr>"
    by (simp add: close_owner_mark_def Let_def)
  with Some alist_put_keys [OF Some, of oa_pending] show ?thesis
    by (simp add: quiet_def owner_epoch_def active_sessions_def owned_sessions_def session_owners_def)
qed (auto simp: close_owner_mark_def Let_def)

lemma quiet_shutdown: "close_all_mark m = (ids, m') \<Longrightarrow> quiet m m'"
  by (auto simp: close_all_mark_def quiet_def owner_epoch_def active_sessions_def owned_sessions_def session_owners_def)

lemma quiet_reap: "reap_mark now m = (ids, m') \<Longrightarrow> quiet m m'"
  by (auto simp: reap_mark_def Let_def)

lemma quiet_refuse: "open_reserve ctx owner rows cols now m = (Inl e, m') \<Longrightarrow> quiet m m'"
  by (auto simp: open_reserve_def reserveOpen_def Let_def split: if_splits prod.splits sum.splits)

section \<open>The quotas\<close>

definition pending_of :: "string \<Rightarrow> opens \<Rightarrow> nat" where
  "pending_of o1 fl = length (filter (\<lambda>f. fst (snd f) = o1) fl)"

fun tm_ok :: "tm_state \<Rightarrow> bool" where
  "tm_ok (m, fl, t) =
     (distinct (map fst (tm_sessions m)) \<and> distinct (map fst (tm_owners m)) \<and> distinct (map fst fl) \<and>
      (\<forall>f\<in>set fl. fst f < t \<and> trim_space (fst (snd f)) = fst (snd f)) \<and>
      (\<forall>o1\<in>session_owners m. trim_space o1 = o1) \<and> tm_opening m = int (length fl) \<and>
      (\<forall>o1. map_of (tm_owners m) o1 \<noteq> None \<longleftrightarrow> 0 < pending_of o1 fl) \<and>
      (\<forall>o1. pending_opens o1 m = int (pending_of o1 fl)) \<and>
      (\<forall>f\<in>set fl. snd (snd f) \<le> owner_epoch (fst (snd f)) m) \<and>
      int (active_sessions m) + int (length fl) \<le> tc_MaxSessions (tm_config m) \<and>
      (\<forall>o1. int (owned_sessions o1 m) + int (pending_of o1 fl) \<le> tc_MaxOwnerSessions (tm_config m)))"

lemma pending_map: "map (\<lambda>p. (fst p, oa_pending (snd p))) xs = map (\<lambda>p. (fst p, oa_pending (snd p))) ys \<Longrightarrow>
    map_option oa_pending (map_of xs o1) = map_option oa_pending (map_of ys o1) \<and> map fst xs = map fst ys"
proof (induction xs arbitrary: ys)
  case (Cons x xs)
  then obtain y ys' where "ys = y # ys'" by (cases ys) auto
  with Cons show ?case by (cases x; cases y) auto
qed simp

lemma tm_ok_quiet:
  assumes ok: "tm_ok (m, fl, t)" and q: "quiet m m'"
  shows "tm_ok (m', fl, t)"
proof -
  have p: "map_option oa_pending (map_of (tm_owners m') o1) = map_option oa_pending (map_of (tm_owners m) o1)"
    "map fst (tm_owners m') = map fst (tm_owners m)" for o1
    using q pending_map [of "tm_owners m'" "tm_owners m" o1] by (simp_all add: quiet_def)
  have pend: "pending_opens o1 m' = pending_opens o1 m" "(map_of (tm_owners m') o1 \<noteq> None) = (map_of (tm_owners m) o1 \<noteq> None)" for o1
    using p(1) [of o1] by (cases "map_of (tm_owners m') o1"; cases "map_of (tm_owners m) o1"; simp add: pending_opens_def)+
  have s: "distinct (map fst (tm_sessions m'))" "active_sessions m' \<le> active_sessions m" "\<And>o1. owned_sessions o1 m' \<le> owned_sessions o1 m"
    "tm_config m' = tm_config m" "tm_opening m' = tm_opening m" "\<And>o1. owner_epoch o1 m \<le> owner_epoch o1 m'"
    using q ok by (simp_all add: quiet_def)
  note f = ok [unfolded tm_ok.simps]
  have own: "int (owned_sessions o1 m') + int (pending_of o1 fl) \<le> tc_MaxOwnerSessions (tm_config m)" for o1
  proof -
    have "int (owned_sessions o1 m) + int (pending_of o1 fl) \<le> tc_MaxOwnerSessions (tm_config m)" using f by blast
    with s(3) [of o1] show ?thesis by linarith
  qed
  have act: "int (active_sessions m') + int (length fl) \<le> tc_MaxSessions (tm_config m)"
  proof -
    have "int (active_sessions m) + int (length fl) \<le> tc_MaxSessions (tm_config m)" using f by blast
    with s(2) show ?thesis by linarith
  qed
  have ep: "\<forall>g\<in>set fl. snd (snd g) \<le> owner_epoch (fst (snd g)) m'"
  proof
    fix g assume "g \<in> set fl"
    then have "snd (snd g) \<le> owner_epoch (fst (snd g)) m" using f by blast
    from this s(6) show "snd (snd g) \<le> owner_epoch (fst (snd g)) m'" by (rule order_trans)
  qed
  have tr: "\<forall>o1\<in>session_owners m'. trim_space o1 = o1" using f q by (auto simp: quiet_def)
  show ?thesis
    unfolding tm_ok.simps s(4) s(5) p(2) pend using f s(1) own act ep tr by blast
qed

lemma pending_of_Cons: "pending_of o1 (f # fl) = (if fst (snd f) = o1 then Suc (pending_of o1 fl) else pending_of o1 fl)"
  by (simp add: pending_of_def)

lemma pending_of_remove: "f \<in> set fl \<Longrightarrow> pending_of o1 fl = (if fst (snd f) = o1 then Suc (pending_of o1 (remove1 f fl)) else pending_of o1 (remove1 f fl))"
  by (induction fl) (auto simp: pending_of_def)

lemma tm_ok_reserve:
  assumes ok: "tm_ok (m, fl, t)" and r: "open_reserve False owner0 rows cols now m = (Inr (owner, ep), m')"
  shows "tm_ok (m', (t, owner, ep) # fl, Suc t)"
proof -
  let ?m = "trimFinished now m"
  have ok1: "tm_ok (?m, fl, t)" using ok quiet_trim by (rule tm_ok_quiet)
  have m': "m' = ?m\<lparr>tm_owners := alist_put owner \<lparr>oa_pending = pending_opens owner ?m + 1, oa_epoch = owner_epoch owner ?m\<rparr> (tm_owners ?m),
      tm_opening := tm_opening ?m + 1\<rparr>" and ep: "ep = owner_epoch owner ?m"
    and tr: "trim_space owner = owner" and room: "int (active_sessions ?m) + tm_opening ?m < tc_MaxSessions (tm_config ?m)"
      "int (owned_sessions owner ?m) + pending_opens owner ?m < tc_MaxOwnerSessions (tm_config ?m)"
    using r by (auto simp: open_reserve_def reserveOpen_def Let_def not_le split: if_splits prod.splits sum.splits)
  have e: "owner_epoch o1 m' = owner_epoch o1 ?m" "pending_opens o1 m' = (if o1 = owner then pending_opens o1 ?m + 1 else pending_opens o1 ?m)"
    "active_sessions m' = active_sessions ?m" "owned_sessions o1 m' = owned_sessions o1 ?m"
    "(map_of (tm_owners m') o1 \<noteq> None) = (o1 = owner \<or> map_of (tm_owners ?m) o1 \<noteq> None)" for o1
    by (simp_all add: m' owner_epoch_def pending_opens_def active_sessions_def owned_sessions_def)
  have d: "distinct (map fst (tm_owners m'))" "tm_sessions m' = tm_sessions ?m" "tm_config m' = tm_config ?m" "tm_opening m' = tm_opening ?m + 1"
    using ok1 by (simp_all add: m' distinct_alist_put)
  from ok1 room d show ?thesis
    unfolding tm_ok.simps e by (auto simp: pending_of_Cons ep tr session_owners_def)
qed

lemma tm_ok_release:
  assumes ok: "tm_ok (m, fl, t)" and f: "f \<in> set fl"
  shows "tm_ok (releaseOpen (fst (snd f)) m, remove1 f fl, t) \<and>
    (\<forall>g\<in>set (remove1 f fl). owner_epoch (fst (snd g)) (releaseOpen (fst (snd f)) m) = owner_epoch (fst (snd g)) m)"
proof -
  let ?o = "fst (snd f)" and ?m = "releaseOpen (fst (snd f)) m" and ?fl = "remove1 f fl"
  have pend: "pending_opens ?o m = int (Suc (pending_of ?o ?fl))"
    using ok f pending_of_remove [OF f, of ?o] by simp
  have other: "pending_of o1 ?fl = (if o1 = ?o then pending_of o1 fl - 1 else pending_of o1 fl)" for o1
    using pending_of_remove [OF f, of o1] by auto
  have e: "pending_opens o1 ?m = int (pending_of o1 ?fl)" "(map_of (tm_owners ?m) o1 \<noteq> None) = (0 < pending_of o1 ?fl)"
    "0 < pending_of o1 ?fl \<Longrightarrow> owner_epoch o1 ?m = owner_epoch o1 m"
    "active_sessions ?m = active_sessions m" "owned_sessions o1 ?m = owned_sessions o1 m" for o1
    using ok pend other [of o1]
    by (auto simp: releaseOpen_def Let_def pending_opens_def owner_epoch_def active_sessions_def owned_sessions_def)
  have len: "length fl = Suc (length ?fl)" using f by (simp add: length_remove1) (metis Suc_pred length_pos_if_in_set)
  have d: "distinct (map fst ?fl)" "set ?fl \<subseteq> set fl"
    using ok f by (auto simp: distinct_map distinct_remove1 dest: inj_on_subset [OF _ set_remove1_subset] in_set_remove1)
  have pos: "0 < pending_of (fst (snd g)) ?fl" if "g \<in> set ?fl" for g
    using that by (auto simp: pending_of_def filter_empty_conv)
  have ep: "owner_epoch (fst (snd g)) ?m = owner_epoch (fst (snd g)) m" if "g \<in> set ?fl" for g
    using e(3) pos that by blast
  have "int (owned_sessions o1 m) + int (pending_of o1 ?fl) \<le> tc_MaxOwnerSessions (tm_config m)" for o1
  proof -
    have "int (owned_sessions o1 m) + int (pending_of o1 fl) \<le> tc_MaxOwnerSessions (tm_config m)" using ok by simp
    moreover have "pending_of o1 ?fl \<le> pending_of o1 fl" using other [of o1] by auto
    ultimately show ?thesis by linarith
  qed
  moreover have "distinct (map fst (tm_owners ?m))" "tm_sessions ?m = tm_sessions m" "tm_config ?m = tm_config m" "tm_opening ?m = tm_opening m - 1"
    using ok by (simp_all add: releaseOpen_def Let_def distinct_alist_put distinct_alist_del)
  ultimately have "tm_ok (?m, ?fl, t)"
    using ok d ep len unfolding tm_ok.simps e by (auto simp: session_owners_def)
  with ep show ?thesis by blast
qed

lemma alist_put_fresh: "i \<notin> fst ` set xs \<Longrightarrow> alist_put i v xs = xs @ [(i, v)]"
  by (induction i v xs rule: alist_put.induct) auto

lemma tm_ok_register:
  assumes ok: "tm_ok (m, fl, t)" and f: "f \<in> set fl" and i: "i \<notin> fst ` set (tm_sessions m)"
    and r: "open_register i (fst (snd f)) (snd (snd f)) retained now process err ctx m = (r, m')"
  shows "tm_ok (m', remove1 f fl, t)"
proof -
  let ?m = "releaseOpen (fst (snd f)) m"
  have rel: "tm_ok (?m, remove1 f fl, t)" using tm_ok_release [OF ok f] by blast
  show ?thesis
  proof (cases process)
    case False
    with r rel show ?thesis by (auto simp: open_register_def Let_def)
  next
    case True
    let ?s = "new_session i (fst (snd f)) retained now"
    have m': "m' = tm_put i ?s ?m" using r True by (auto simp: open_register_def Let_def)
    have same: "tm_sessions ?m = tm_sessions m" by (simp add: releaseOpen_def Let_def)
    have app: "alist_put i ?s (tm_sessions m) = tm_sessions m @ [(i, ?s)]" using i by (rule alist_put_fresh)
    have st: "isActive ?s" "ts_owner ?s = fst (snd f)" by (simp_all add: isActive_def new_session_def)
    have e: "active_sessions m' = Suc (active_sessions m)" "owned_sessions o1 m' = (if o1 = fst (snd f) then Suc (owned_sessions o1 m) else owned_sessions o1 m)"
      "pending_opens o1 m' = pending_opens o1 ?m" "owner_epoch o1 m' = owner_epoch o1 ?m" for o1
      by (simp_all add: m' tm_put_def same app st active_sessions_def owned_sessions_def pending_opens_def owner_epoch_def)
    have len: "length fl = Suc (length (remove1 f fl))" using f by (simp add: length_remove1) (metis Suc_pred length_pos_if_in_set)
    have own: "int (owned_sessions o1 m') + int (pending_of o1 (remove1 f fl)) \<le> tc_MaxOwnerSessions (tm_config m)" for o1
    proof -
      have "int (owned_sessions o1 m) + int (pending_of o1 fl) \<le> tc_MaxOwnerSessions (tm_config m)" using ok by simp
      then show ?thesis using pending_of_remove [OF f, of o1] by (auto simp: e split: if_splits)
    qed
    have k: "distinct (map fst (tm_sessions m'))" "tm_owners m' = tm_owners ?m" "tm_config m' = tm_config m" "tm_opening m' = tm_opening ?m"
      using ok by (simp_all add: m' tm_put_def same distinct_alist_put) (simp_all add: releaseOpen_def Let_def)
    have act: "int (active_sessions m') + int (length (remove1 f fl)) \<le> tc_MaxSessions (tm_config m)"
      using ok len by (simp add: e)
    have tr: "\<forall>o1\<in>session_owners m'. trim_space o1 = o1"
      using ok f by (auto simp: m' session_owners_def tm_put_def same app st)
    from rel own k act tr show ?thesis unfolding tm_ok.simps e by auto
  qed
qed

lemma tm_ok_step: "tm_step p q \<Longrightarrow> tm_ok p \<Longrightarrow> tm_ok q"
  by (induction rule: tm_step.induct)
    (blast intro: tm_ok_reserve tm_ok_register tm_ok_quiet quiet_refuse quiet_mark quiet_finish quiet_revoke quiet_shutdown quiet_reap
      quiet_capture quiet_use dest: tm_ok_release)+

lemma tm_ok_steps: "tm_step\<^sup>*\<^sup>* p q \<Longrightarrow> tm_ok p \<Longrightarrow> tm_ok q"
  by (induction rule: rtranclp_induct) (auto intro: tm_ok_step)


lemma tm_ok_new: "0 \<le> tc_MaxSessions (tm_config (NewManager c)) \<and> 0 \<le> tc_MaxOwnerSessions (tm_config (NewManager c)) \<and>
    tm_ok (NewManager c, [], 0)"
  by (simp add: NewManager_def active_sessions_def owned_sessions_def pending_opens_def pending_of_def session_owners_def
      DefaultMaxSessions_def DefaultMaxOwnerSessions_def)

lemma config_release [simp]: "tm_config (releaseOpen o1 m) = tm_config m"
  by (simp add: releaseOpen_def Let_def)

lemma config_register: "open_register i o1 ep retained now process err ctx m = (r, m') \<Longrightarrow> tm_config m' = tm_config m"
  by (auto simp: open_register_def Let_def tm_put_def split: if_splits)

lemma config_reserve: "open_reserve ctx owner0 rows cols now m = (r, m') \<Longrightarrow> tm_config m' = tm_config m"
  by (auto simp: open_reserve_def reserveOpen_def trimFinished_def Let_def split: if_splits prod.splits sum.splits)

lemma quiet_config: "quiet m m' \<Longrightarrow> tm_config m' = tm_config m"
  by (simp add: quiet_def)

lemma tm_step_config: "tm_step p q \<Longrightarrow> tm_config (fst q) = tm_config (fst p)"
  by (induction rule: tm_step.induct)
    (auto dest: config_register config_reserve quiet_refuse [THEN quiet_config] quiet_mark [THEN quiet_config]
      quiet_finish [THEN quiet_config] quiet_revoke [THEN quiet_config] quiet_shutdown [THEN quiet_config]
      quiet_reap [THEN quiet_config] quiet_use [THEN quiet_config] simp: quiet_capture [THEN quiet_config])

lemma tm_steps_config: "tm_step\<^sup>*\<^sup>* p q \<Longrightarrow> tm_config (fst q) = tm_config (fst p)"
  by (induction rule: rtranclp_induct) (simp_all add: tm_step_config)

text \<open>
  C27: Under every interleaving of opens, closes, revocations, captures and reapers the sessions
  that hold a process and the opens under way stay within the global and the per-owner limit.
\<close>

theorem terminal_quota:
  assumes "tm_step\<^sup>*\<^sup>* (NewManager c, [], 0) (m, fl, t)"
  shows "int (active_sessions m) + int (length fl) \<le> tc_MaxSessions (tm_config (NewManager c)) \<and>
    int (owned_sessions owner m) + int (pending_of owner fl) \<le> tc_MaxOwnerSessions (tm_config (NewManager c)) \<and>
    tm_opening m = int (length fl) \<and> pending_opens owner m = int (pending_of owner fl)"
proof -
  have "tm_ok (m, fl, t)" using tm_ok_steps [OF assms] tm_ok_new by blast
  moreover have "tm_config m = tm_config (NewManager c)" using tm_steps_config [OF assms] by simp
  ultimately show ?thesis by simp
qed

definition sample_config :: term_config where
  "sample_config = \<lparr>tc_BufferBytes = 0, tc_MaxSessions = 1, tc_MaxOwnerSessions = 1, tc_IdleTimeout = 0, tc_Lifetime = 0\<rparr>"

definition sample_opened :: term_manager where
  "sample_opened = snd (open_reserve False ''ann'' 24 80 5 (NewManager sample_config))"

lemma sample_reserve: "open_reserve False ''ann'' 24 80 5 (NewManager sample_config) = (Inr (''ann'', 0), sample_opened)"
  by (simp add: sample_opened_def) code_simp

lemma sample_step: "tm_step\<^sup>*\<^sup>* (NewManager sample_config, [], 0) (sample_opened, [(0, ''ann'', 0)], Suc 0)"
  using tm_step.reserve [OF sample_reserve] by blast

lemma terminal_quota_witness:
  "int (active_sessions sample_opened) + 1 \<le> 1 \<and> pending_opens ''ann'' sample_opened = 1"
proof -
  have c: "tc_MaxSessions (tm_config (NewManager sample_config)) = 1" by (simp add: NewManager_def sample_config_def)
  from terminal_quota [OF sample_step, of "''ann''"] show ?thesis by (simp add: c pending_of_def)
qed

section \<open>Revoking an owner\<close>

definition fenced :: "nat \<times> string \<times> nat \<Rightarrow> tm_state \<Rightarrow> bool" where
  "fenced f p = (case p of (m, fl, t) \<Rightarrow> fst f < t \<and> (f \<in> set fl \<longrightarrow> snd (snd f) < owner_epoch (fst (snd f)) m))"

lemma fenced_quiet: "fenced f (m, fl, t) \<Longrightarrow> quiet m m' \<Longrightarrow> fenced f (m', fl, t)"
  by (auto simp: fenced_def quiet_def intro: less_le_trans)

lemma epoch_reserve: "open_reserve False owner0 rows cols now m = (Inr (owner, ep), m') \<Longrightarrow> owner_epoch o1 m' = owner_epoch o1 m"
proof -
  assume "open_reserve False owner0 rows cols now m = (Inr (owner, ep), m')"
  then show ?thesis
    by (auto simp: open_reserve_def reserveOpen_def trimFinished_def Let_def owner_epoch_def split: if_splits prod.splits sum.splits)
qed

lemma fenced_release:
  assumes "fenced f (m, fl, t)" "tm_ok (m, fl, t)" "g \<in> set fl"
  shows "fenced f (releaseOpen (fst (snd g)) m, remove1 g fl, t)"
  using assms(1) tm_ok_release [OF assms(2,3)] set_remove1_subset [of g fl] by (auto simp: fenced_def)

lemma fenced_register:
  assumes "fenced f (m, fl, t)" "tm_ok (m, fl, t)" "g \<in> set fl"
    and "open_register i (fst (snd g)) (snd (snd g)) retained now process err ctx m = (r, m')"
  shows "fenced f (m', remove1 g fl, t)"
proof -
  have "tm_owners m' = tm_owners (releaseOpen (fst (snd g)) m)"
    using assms(4) by (auto simp: open_register_def Let_def tm_put_def split: if_splits)
  with fenced_release [OF assms(1-3)] show ?thesis by (simp add: fenced_def owner_epoch_def)
qed

lemma fenced_step: "tm_step p q \<Longrightarrow> tm_ok p \<Longrightarrow> fenced f p \<Longrightarrow> fenced f q"
proof (induction rule: tm_step.induct)
  case (reserve owner0 rows cols now m owner ep m' fl t)
  then show ?case by (auto simp: fenced_def epoch_reserve)
qed (blast intro: fenced_release fenced_register fenced_quiet quiet_refuse quiet_mark quiet_finish quiet_revoke quiet_shutdown quiet_reap
      quiet_capture quiet_use)+

lemma fenced_steps: "tm_step\<^sup>*\<^sup>* p q \<Longrightarrow> tm_ok p \<Longrightarrow> fenced f p \<Longrightarrow> tm_ok q \<and> fenced f q"
  by (induction rule: rtranclp_induct) (auto intro: tm_ok_step fenced_step)

lemma revoke_fences:
  assumes ok: "tm_ok (m, fl, t)" and f: "f \<in> set fl" "fst (snd f) = trim_space owner"
    and r: "close_owner_mark owner m = (ids, m1)"
  shows "fenced f (m1, fl, t)"
proof -
  note k = ok [unfolded tm_ok.simps]
  have "0 < pending_of (trim_space owner) fl" using f by (auto simp: pending_of_def filter_empty_conv)
  with k obtain a where a: "map_of (tm_owners m) (trim_space owner) = Some a" by blast
  then have "m1 = m\<lparr>tm_owners := alist_put (trim_space owner) (a\<lparr>oa_epoch := oa_epoch a + 1\<rparr>) (tm_owners m)\<rparr>"
    using r by (simp add: close_owner_mark_def Let_def)
  with a have "owner_epoch (trim_space owner) m1 = Suc (owner_epoch (trim_space owner) m)"
    by (simp add: owner_epoch_def)
  moreover have "snd (snd f) \<le> owner_epoch (fst (snd f)) m" using k f by blast
  moreover have "fst f < t" using k f by blast
  ultimately show ?thesis using f by (simp add: fenced_def)
qed

text \<open>
  C28: An open that was under way when its owner was revoked never succeeds, whatever happens in
  between, and every session of the owner that was registered is handed to the revocation for
  closing.
\<close>

theorem close_owner_fences_opens:
  assumes "tm_step\<^sup>*\<^sup>* (NewManager c, [], 0) (m, fl, t)"
    and "f \<in> set fl" "fst (snd f) = trim_space owner"
    and "close_owner_mark owner m = (ids, m1)"
    and "tm_step\<^sup>*\<^sup>* (m1, fl, t) (m2, fl2, t2)" "f \<in> set fl2"
  shows "open_revoked (fst (snd f)) (snd (snd f)) m2 \<and>
    isl (fst (open_register i (fst (snd f)) (snd (snd f)) retained now process err ctx m2)) \<and>
    (map_of (tm_sessions m) j = Some s \<longrightarrow> ts_owner s = trim_space owner \<longrightarrow> j \<in> set ids)"
proof -
  have ok: "tm_ok (m, fl, t)" using tm_ok_steps [OF assms(1)] tm_ok_new by blast
  then have "tm_ok (m1, fl, t)" using quiet_revoke [OF assms(4)] by (rule tm_ok_quiet)
  with assms(5) revoke_fences [OF ok assms(2-4)] have "fenced f (m2, fl2, t2)" using fenced_steps by blast
  with assms(6) have rev: "open_revoked (fst (snd f)) (snd (snd f)) m2" by (simp add: fenced_def open_revoked_def)
  moreover have "isl (fst (open_register i (fst (snd f)) (snd (snd f)) retained now process err ctx m2))"
    using rev by (auto simp: open_register_def Let_def isl_def split: option.splits)
  moreover have "map_of (tm_sessions m) j = Some s \<longrightarrow> ts_owner s = trim_space owner \<longrightarrow> j \<in> set ids"
    using assms(4) by (force simp: close_owner_mark_def Let_def dest: map_of_SomeD)
  ultimately show ?thesis by blast
qed

lemma close_owner_fences_opens_witness:
  "isl (fst (open_register ''t1'' ''ann'' 0 False 9 True None False (snd (close_owner_mark ''ann'' sample_opened)))) \<and>
   \<not> isl (fst (open_register ''t1'' ''ann'' 0 False 9 True None False sample_opened))"
proof -
  have live: "\<not> isl (fst (open_register ''t1'' ''ann'' 0 False 9 True None False sample_opened))"
    unfolding sample_opened_def by code_simp
  have tr: "trim_space ''ann'' = ''ann''" by code_simp
  obtain ids m1 where r: "close_owner_mark ''ann'' sample_opened = (ids, m1)" by fastforce
  from close_owner_fences_opens [OF sample_step _ _ r rtranclp.rtrancl_refl, of "(0, ''ann'', 0)"] tr live r show ?thesis by simp
qed

end
