(* ===== verification/TerminalRetention.thy ===== *)
theory TerminalRetention
  imports TerminalManagerProps "HOL-Library.Multiset"
begin

text \<open>
  The finished sessions of the terminal registry are a bounded cache that drops its oldest entry
  first, and one run of the reaper whose stops succeed closes every stale session.
\<close>

section \<open>The cache of finished sessions\<close>

abbreviation total_cap :: "(string \<times> term_session) list \<Rightarrow> nat" where
  "total_cap ps \<equiv> sum_list (map (\<lambda>p. ts_cap (snd p)) ps)"

lemma drop_oldest_prefix:
  "\<exists>k. drop_oldest ps (total_cap ps) = map fst (take k ps) \<and>
     length (drop k ps) \<le> maxFinishedSessions \<and> total_cap (drop k ps) \<le> maxFinishedBufferBytes"
proof (induction ps)
  case (Cons p ps)
  then obtain k where k: "drop_oldest ps (total_cap ps) = map fst (take k ps)" "length (drop k ps) \<le> maxFinishedSessions"
    "total_cap (drop k ps) \<le> maxFinishedBufferBytes" by blast
  show ?case
  proof (cases "maxFinishedSessions < length (p # ps) \<or> maxFinishedBufferBytes < total_cap (p # ps)")
    case True
    then have "drop_oldest (p # ps) (total_cap (p # ps)) = map fst (take (Suc k) (p # ps))" using k by simp
    with k show ?thesis by (metis drop_Suc_Cons)
  next
    case False
    then have "drop_oldest (p # ps) (total_cap (p # ps)) = map fst (take 0 (p # ps))" by simp
    with False show ?thesis by (metis drop_0 not_less)
  qed
qed simp

lemma filter_not_take:
  "distinct (map fst ps) \<Longrightarrow> filter (\<lambda>p. fst p \<notin> fst ` set (take k ps)) ps = drop k ps"
proof (induction ps arbitrary: k)
  case (Cons p ps)
  show ?case
  proof (cases k)
    case (Suc n)
    have "filter (\<lambda>q. fst q \<notin> fst ` set (take k (p # ps))) ps = filter (\<lambda>q. fst q \<notin> fst ` set (take n ps)) ps"
      using Cons.prems Suc by (intro filter_cong) (auto simp: image_iff)
    with Suc Cons show ?thesis by simp
  qed simp
qed simp

lemma finished_filter:
  assumes d: "distinct (map fst xs)"
  shows "\<exists>old. drop_oldest (sort_key g (filter (\<lambda>p. session_done (snd p)) xs)) (total_cap (sort_key g (filter (\<lambda>p. session_done (snd p)) xs))) = map fst old \<and>
    set old \<subseteq> set (filter (\<lambda>p. session_done (snd p)) xs) \<and>
    length (filter (\<lambda>p. session_done (snd p) \<and> fst p \<notin> set (map fst old)) xs) \<le> maxFinishedSessions \<and>
    total_cap (filter (\<lambda>p. session_done (snd p) \<and> fst p \<notin> set (map fst old)) xs) \<le> maxFinishedBufferBytes \<and>
    (\<forall>p\<in>set xs. \<forall>q\<in>set old. session_done (snd p) \<longrightarrow> fst p \<notin> set (map fst old) \<longrightarrow> g q \<le> g p)"
proof -
  let ?d = "filter (\<lambda>p. session_done (snd p)) xs"
  let ?f = "sort_key g ?d"
  obtain k where k: "drop_oldest ?f (total_cap ?f) = map fst (take k ?f)" "length (drop k ?f) \<le> maxFinishedSessions"
    "total_cap (drop k ?f) \<le> maxFinishedBufferBytes" using drop_oldest_prefix by blast
  let ?old = "take k ?f"
  have df: "distinct (map fst ?f)"
  proof -
    have "mset (map fst ?f) = mset (map fst ?d)" by simp
    then show ?thesis using distinct_map_filter [OF d] mset_eq_imp_distinct_iff by blast
  qed
  have "mset (filter (\<lambda>p. session_done (snd p) \<and> fst p \<notin> set (map fst ?old)) xs) = mset (filter (\<lambda>p. fst p \<notin> fst ` set ?old) ?f)"
    by (simp flip: filter_filter)
  then have m: "mset (filter (\<lambda>p. session_done (snd p) \<and> fst p \<notin> set (map fst ?old)) xs) = mset (drop k ?f)"
    using filter_not_take [OF df, of k] by simp
  have "length (filter (\<lambda>p. session_done (snd p) \<and> fst p \<notin> set (map fst ?old)) xs) \<le> maxFinishedSessions"
    using k(2) mset_eq_length [OF m] by simp
  moreover have "total_cap (filter (\<lambda>p. session_done (snd p) \<and> fst p \<notin> set (map fst ?old)) xs) \<le> maxFinishedBufferBytes"
    using k(3) m by (metis (no_types, lifting) mset_map sum_mset_sum_list)
  moreover have "g q \<le> g p" if "p \<in> set xs" "q \<in> set ?old" "session_done (snd p)" "fst p \<notin> set (map fst ?old)" for p q
  proof -
    have "p \<in> set ?f" using that by simp
    then have "p \<in> set (take k ?f @ drop k ?f)" by simp
    with that(4) have "p \<in> set (drop k ?f)" by (metis (no_types, lifting) Un_iff image_eqI list.set_map set_append)
    moreover have "sorted (map g (take k ?f) @ map g (drop k ?f))" by (metis append_take_drop_id map_append sorted_sort_key)
    ultimately show ?thesis using that(2) by (simp add: sorted_append)
  qed
  moreover have "set ?old \<subseteq> set ?d" by (metis set_sort set_take_subset)
  ultimately show ?thesis using k(1) by blast
qed

lemma trim_shape:
  assumes "distinct (map fst (tm_sessions m))"
  shows "\<exists>old. tm_sessions (trimFinished now m) =
        filter (\<lambda>p. \<not> retention_over now (snd p) \<and> fst p \<notin> set old) (tm_sessions m) \<and>
      length (filter (\<lambda>p. session_done (snd p)) (tm_sessions (trimFinished now m))) \<le> maxFinishedSessions \<and>
      total_cap (filter (\<lambda>p. session_done (snd p)) (tm_sessions (trimFinished now m))) \<le> maxFinishedBufferBytes \<and>
      filter (\<lambda>p. \<not> session_done (snd p)) (tm_sessions (trimFinished now m)) = filter (\<lambda>p. \<not> session_done (snd p)) (tm_sessions m) \<and>
      (\<forall>p\<in>set (tm_sessions (trimFinished now m)). \<forall>q\<in>set (tm_sessions m).
         session_done (snd p) \<longrightarrow> fst q \<in> set old \<longrightarrow> ts_finishedAt (snd q) \<le> ts_finishedAt (snd p))"
proof -
  let ?kept = "filter (\<lambda>p. \<not> retention_over now (snd p)) (tm_sessions m)"
  let ?g = "\<lambda>p. (ts_finishedAt (snd p), fst p)"
  let ?f = "sort_key ?g (filter (\<lambda>p. session_done (snd p)) ?kept)"
  have d: "distinct (map fst ?kept)" using assms by (rule distinct_map_filter)
  obtain old where o: "drop_oldest ?f (total_cap ?f) = map fst old" "set old \<subseteq> set (filter (\<lambda>p. session_done (snd p)) ?kept)"
    "length (filter (\<lambda>p. session_done (snd p) \<and> fst p \<notin> set (map fst old)) ?kept) \<le> maxFinishedSessions"
    "total_cap (filter (\<lambda>p. session_done (snd p) \<and> fst p \<notin> set (map fst old)) ?kept) \<le> maxFinishedBufferBytes"
    "\<forall>p\<in>set ?kept. \<forall>q\<in>set old. session_done (snd p) \<longrightarrow> fst p \<notin> set (map fst old) \<longrightarrow> ?g q \<le> ?g p"
    using finished_filter [OF d, of ?g] by blast
  have s: "tm_sessions (trimFinished now m) = filter (\<lambda>p. fst p \<notin> set (map fst old)) ?kept"
    using o(1) by (simp add: trimFinished_def Let_def)
  have key: "q \<in> set old" if "q \<in> set (tm_sessions m)" "fst q \<in> set (map fst old)" for q
  proof -
    from that(2) obtain r where r: "r \<in> set old" "fst r = fst q" by auto
    then have "r \<in> set (tm_sessions m)" using o(2) by auto
    with r that(1) assms show ?thesis by (metis eq_key_imp_eq_value prod.collapse)
  qed
  have "tm_sessions (trimFinished now m) = filter (\<lambda>p. \<not> retention_over now (snd p) \<and> fst p \<notin> set (map fst old)) (tm_sessions m)"
    by (simp add: s conj_commute)
  moreover have "filter (\<lambda>p. session_done (snd p)) (tm_sessions (trimFinished now m)) = filter (\<lambda>p. session_done (snd p) \<and> fst p \<notin> set (map fst old)) ?kept"
    unfolding s by (simp add: conj_commute conj_left_commute)
  moreover have "filter (\<lambda>p. \<not> session_done (snd p)) (tm_sessions (trimFinished now m)) = filter (\<lambda>p. \<not> session_done (snd p)) (tm_sessions m)"
  proof -
    have "session_done (snd q)" if "q \<in> set (tm_sessions m)" "fst q \<in> set (map fst old)" for q
      using key [OF that] o(2) by auto
    then show ?thesis unfolding s filter_filter by (intro filter_cong) (auto simp: retention_over_def)
  qed
  moreover have "ts_finishedAt (snd q) \<le> ts_finishedAt (snd p)"
    if "p \<in> set (tm_sessions (trimFinished now m))" "q \<in> set (tm_sessions m)" "session_done (snd p)" "fst q \<in> set (map fst old)" for p q
  proof -
    have "q \<in> set old" using key that by blast
    with that o(5) have "?g q \<le> ?g p" unfolding s by simp
    then show ?thesis by auto
  qed
  ultimately show ?thesis using o(3,4)
    by (intro exI [of _ "map fst old"]) simp
qed

lemma trim_keeps:
  assumes "distinct (map fst (tm_sessions m))" "map_of (tm_sessions m) i = Some s" "\<not> session_done s"
  shows "map_of (tm_sessions (trimFinished now m)) i = Some s"
proof -
  obtain P where s: "tm_sessions (trimFinished now m) = filter P (tm_sessions m)"
      "filter (\<lambda>p. \<not> session_done (snd p)) (tm_sessions (trimFinished now m)) = filter (\<lambda>p. \<not> session_done (snd p)) (tm_sessions m)"
    using trim_shape [OF assms(1), of now] by blast
  have "(i, s) \<in> set (filter (\<lambda>p. \<not> session_done (snd p)) (tm_sessions m))" using assms(2,3) by (simp add: map_of_SomeD)
  then have "(i, s) \<in> set (tm_sessions (trimFinished now m))" unfolding s(2) [symmetric] by simp
  moreover have "distinct (map fst (tm_sessions (trimFinished now m)))" unfolding s(1) by (rule distinct_map_filter [OF assms(1)])
  ultimately show ?thesis by simp
qed

text \<open>
  After trimming at most 64 finished sessions with at most 16 MiB of buffers are kept, none
  beyond its retention, the dropped ones ended no later than the kept ones, and no session that
  still owns a process is dropped.
\<close>

theorem finished_bounded:
  assumes "distinct (map fst (tm_sessions m))"
  shows "\<exists>old. tm_sessions (trimFinished now m) =
        filter (\<lambda>p. \<not> retention_over now (snd p) \<and> fst p \<notin> set old) (tm_sessions m) \<and>
      length (filter (\<lambda>p. session_done (snd p)) (tm_sessions (trimFinished now m))) \<le> 64 \<and>
      total_cap (filter (\<lambda>p. session_done (snd p)) (tm_sessions (trimFinished now m))) \<le> 16777216 \<and>
      filter (\<lambda>p. \<not> session_done (snd p)) (tm_sessions (trimFinished now m)) = filter (\<lambda>p. \<not> session_done (snd p)) (tm_sessions m) \<and>
      (\<forall>p\<in>set (tm_sessions (trimFinished now m)). \<forall>q\<in>set (tm_sessions m).
         session_done (snd p) \<longrightarrow> fst q \<in> set old \<longrightarrow> ts_finishedAt (snd q) \<le> ts_finishedAt (snd p))"
  using trim_shape [OF assms, of now] unfolding maxFinishedSessions_def maxFinishedBufferBytes_def .

definition sample_finished :: "nat \<Rightarrow> string \<times> term_session" where
  "sample_finished i = (replicate i CHR ''a'', (new_session (replicate i CHR ''a'') ''ann'' False 0)
     \<lparr>ts_closed := True, ts_finishedAt := int i + 1, ts_cap := 9000000\<rparr>)"

definition sample_full :: term_manager where
  "sample_full = (NewManager sample_config)\<lparr>tm_sessions := map sample_finished [2, 0, 1]\<rparr>"

lemma finished_bounded_witness:
  "map fst (tm_sessions (trimFinished 5 sample_full)) = [''aa''] \<and>
   total_cap (filter (\<lambda>p. session_done (snd p)) (tm_sessions (trimFinished 5 sample_full))) \<le> 16777216"
proof -
  have "distinct (map fst (tm_sessions sample_full))" by (simp add: sample_full_def sample_finished_def numeral_2_eq_2)
  from finished_bounded [OF this, of 5] have "total_cap (filter (\<lambda>p. session_done (snd p)) (tm_sessions (trimFinished 5 sample_full))) \<le> 16777216"
    by blast
  moreover have "map fst (tm_sessions (trimFinished 5 sample_full)) = [''aa'']"
    by (simp add: sample_full_def sample_finished_def trimFinished_def retention_over_def session_done_def new_session_def
        finishedRetention_def Minute_def Second_def zero_time_def maxFinishedSessions_def maxFinishedBufferBytes_def numeral_2_eq_2)
  ultimately show ?thesis by blast
qed

section \<open>The reaper\<close>

text \<open>What closing sessions keeps: no session appears, none changes its owner, none reopens.\<close>

definition winding_down :: "term_manager \<Rightarrow> term_manager \<Rightarrow> bool" where
  "winding_down m m' = ((\<forall>i s'. map_of (tm_sessions m') i = Some s' \<longrightarrow>
     (\<exists>s. map_of (tm_sessions m) i = Some s \<and> ts_owner s' = ts_owner s \<and> (ts_closed s \<longrightarrow> ts_closed s'))) \<and>
     (distinct (map fst (tm_sessions m)) \<longrightarrow> distinct (map fst (tm_sessions m'))))"

lemma winding_trans: "winding_down m1 m2 \<Longrightarrow> distinct (map fst (tm_sessions m1)) \<Longrightarrow> winding_down m2 m3 \<Longrightarrow> winding_down m1 m3"
  unfolding winding_down_def by metis

lemma winding_refl [simp]: "winding_down m m" by (simp add: winding_down_def)

lemma winding_put:
  "map_of (tm_sessions m) i = Some s \<Longrightarrow> ts_owner s' = ts_owner s \<Longrightarrow> (ts_closed s \<Longrightarrow> ts_closed s') \<Longrightarrow> winding_down m (tm_put i s' m)"
  by (auto simp: winding_down_def tm_put_def distinct_alist_put)

lemma winding_trim:
  assumes "distinct (map fst (tm_sessions m))"
  shows "winding_down m (trimFinished now m)"
proof -
  obtain P where s: "tm_sessions (trimFinished now m) = filter P (tm_sessions m)"
    using trim_shape [OF assms] by blast
  have "map_of (tm_sessions m) i = Some x" if "map_of (filter P (tm_sessions m)) i = Some x" for i x
    using map_of_SomeD [OF that] assms by simp
  then show ?thesis
    unfolding winding_down_def s using assms by (auto simp: distinct_map_filter)
qed

lemma winding_mark: "close_mark owner i m = (e, b, m') \<Longrightarrow> winding_down m m'"
  by (auto simp: close_mark_def dest!: lookup_Some intro!: winding_put split: option.splits if_splits)

lemma winding_finish:
  assumes "close_finish i now now2 kill release m = (e, m')" "distinct (map fst (tm_sessions m))"
  shows "winding_down m m'"
proof -
  have put: "winding_down m (trimFinished now2 (tm_put i s' m))"
    if "map_of (tm_sessions m) i = Some s" "ts_owner s' = ts_owner s" "ts_closed s'" for s s'
    using that assms(2) by (intro winding_trans [OF winding_put _ winding_trim]) (auto simp: tm_put_def distinct_alist_put)
  show ?thesis
    using assms(1) by (auto simp: close_finish_def Let_def wake_session_def intro!: winding_put put split: option.splits if_splits)
qed

lemma winding_close:
  assumes "distinct (map fst (tm_sessions m))"
  shows "winding_down m (snd (CloseSession owner i now now2 kill release m))"
proof (cases "close_mark owner i m")
  case (fields e b m1)
  have w: "winding_down m m1" using fields by (rule winding_mark)
  then have "distinct (map fst (tm_sessions m1))" using assms by (simp add: winding_down_def)
  then have "winding_down m1 (snd (close_finish i now now2 kill release m1))"
    using winding_finish by (metis prod.collapse)
  with w assms fields show ?thesis
    by (cases b) (auto simp: CloseSession_def intro: winding_trans)
qed

definition gone :: "string \<Rightarrow> term_manager \<Rightarrow> bool" where
  "gone i m = (case map_of (tm_sessions m) i of None \<Rightarrow> True | Some s \<Rightarrow> ts_closed s)"

lemma gone_winding: "gone i m \<Longrightarrow> winding_down m m' \<Longrightarrow> gone i m'"
  unfolding gone_def winding_down_def by (force split: option.splits)

lemma close_gone:
  assumes d: "distinct (map fst (tm_sessions m))"
    and s: "\<And>s. map_of (tm_sessions m) i = Some s \<Longrightarrow> ts_owner s = trim_space owner"
  shows "gone i (snd (CloseSession owner i now now2 None None m))"
proof (cases "gone i m")
  case True
  then show ?thesis using winding_close [OF d] by (rule gone_winding)
next
  case False
  then obtain x where x: "map_of (tm_sessions m) i = Some x" "\<not> ts_closed x" by (auto simp: gone_def split: option.splits)
  let ?s1 = "x\<lparr>ts_closeFailed := True\<rparr>"
  let ?m1 = "tm_put i ?s1 m"
  have mark: "close_mark owner i m = (None, True, ?m1)" using x s [OF x(1)] by (simp add: close_mark_def tm_lookup_def)
  have "map_of (tm_sessions ?m1) i = Some ?s1" by (simp add: tm_put_def)
  then have "snd (close_finish i now now2 None None ?m1) = trimFinished now2 (tm_put i (wake_session (?s1\<lparr>ts_terminated := True,
      ts_closeFailed := False, ts_closed := True, ts_updatedAt := now,
      ts_finishedAt := if ts_finishedAt ?s1 = zero_time then now else ts_finishedAt ?s1\<rparr>)) ?m1)"
    by (simp add: close_finish_def Let_def)
  moreover have "ts_closed (wake_session (x1\<lparr>ts_terminated := True, ts_closeFailed := False, ts_closed := True, ts_updatedAt := now,
      ts_finishedAt := at\<rparr>))" for x1 at by (simp add: wake_session_def)
  ultimately obtain y where y: "ts_closed y" "snd (close_finish i now now2 None None ?m1) = trimFinished now2 (tm_put i y ?m1)"
    by blast
  have "gone i (tm_put i y ?m1)" using y(1) by (simp add: gone_def tm_put_def)
  moreover have "winding_down (tm_put i y ?m1) (trimFinished now2 (tm_put i y ?m1))"
    using d by (intro winding_trim) (simp add: tm_put_def distinct_alist_put)
  ultimately have "gone i (trimFinished now2 (tm_put i y ?m1))" by (rule gone_winding)
  with y(2) mark show ?thesis by (simp add: CloseSession_def)
qed

lemma winding_each: "distinct (map fst (tm_sessions m)) \<Longrightarrow> winding_down m (close_each io ps m)"
proof (induction ps arbitrary: m)
  case (Cons p ps)
  obtain owner i where p: "p = (owner, i)" by fastforce
  obtain n1 n2 k r where io: "io i = (n1, n2, k, r)" by (metis prod.exhaust)
  have w: "winding_down m (snd (CloseSession owner i n1 n2 k r m))" using Cons.prems by (rule winding_close)
  moreover have "distinct (map fst (tm_sessions (snd (CloseSession owner i n1 n2 k r m))))"
    using w Cons.prems by (simp add: winding_down_def)
  ultimately show ?case using Cons p io by (auto intro: winding_trans)
qed simp

lemma each_gone:
  assumes "distinct (map fst (tm_sessions m))" "(owner, i) \<in> set ps"
    and "\<And>s. map_of (tm_sessions m) i = Some s \<Longrightarrow> ts_owner s = trim_space owner"
    and "snd (snd (io i)) = (None, None)"
  shows "gone i (close_each io ps m)"
  using assms(1-3)
proof (induction ps arbitrary: m)
  case (Cons p ps)
  obtain o1 j where p: "p = (o1, j)" by fastforce
  obtain n1 n2 k r where io: "io j = (n1, n2, k, r)" by (metis prod.exhaust)
  let ?m = "snd (CloseSession o1 j n1 n2 k r m)"
  have w: "winding_down m ?m" using Cons.prems(1) by (rule winding_close)
  then have d: "distinct (map fst (tm_sessions ?m))" using Cons.prems(1) by (simp add: winding_down_def)
  have own: "ts_owner s = trim_space owner" if "map_of (tm_sessions ?m) i = Some s" for s
    using that w Cons.prems(3) unfolding winding_down_def by metis
  show ?case
  proof (cases "(owner, i) = (o1, j)")
    case True
    then have "gone i ?m" using close_gone [OF Cons.prems(1,3)] assms(4) io by auto
    then have "gone i (close_each io ps ?m)" using winding_each [OF d] by (rule gone_winding)
    with p io show ?thesis by simp
  next
    case False
    then have "(owner, i) \<in> set ps" using Cons.prems(2) p by auto
    with Cons.IH [OF d _ own] p io show ?thesis by simp
  qed
qed simp

lemma put_other [simp]: "i \<noteq> j \<Longrightarrow> map_of (tm_sessions (tm_put i s m)) j = map_of (tm_sessions m) j"
  by (simp add: tm_put_def)

lemma close_other:
  assumes "distinct (map fst (tm_sessions m))" "map_of (tm_sessions m) j = Some s" "\<not> ts_closed s" "i \<noteq> j"
  shows "map_of (tm_sessions (snd (CloseSession owner i now now2 kill release m))) j = Some s"
proof -
  have trim: "map_of (tm_sessions (trimFinished now2 (tm_put i y (tm_put i x m)))) j = Some s" for x y
    using assms by (intro trim_keeps) (simp_all add: tm_put_def distinct_alist_put session_done_def)
  show ?thesis
    using assms trim
    by (auto simp: CloseSession_def close_mark_def close_finish_def Let_def wake_session_def split: option.split prod.split)
qed

lemma each_other:
  "distinct (map fst (tm_sessions m)) \<Longrightarrow> map_of (tm_sessions m) j = Some s \<Longrightarrow> \<not> ts_closed s \<Longrightarrow> j \<notin> snd ` set ps \<Longrightarrow>
    map_of (tm_sessions (close_each io ps m)) j = Some s"
proof (induction ps arbitrary: m)
  case (Cons p ps)
  obtain owner i where p: "p = (owner, i)" by fastforce
  obtain n1 n2 k r where io: "io i = (n1, n2, k, r)" by (metis prod.exhaust)
  let ?m = "snd (CloseSession owner i n1 n2 k r m)"
  have "distinct (map fst (tm_sessions ?m))" using winding_close [OF Cons.prems(1)] Cons.prems(1) by (simp add: winding_down_def)
  moreover have "map_of (tm_sessions ?m) j = Some s" using Cons.prems p by (intro close_other) auto
  ultimately show ?case using Cons p io by simp
qed simp

text \<open>
  A run of the reaper whose stop of a stale session succeeds leaves that session closed,
  and it leaves every running session that is not stale exactly as it was.
\<close>

theorem reaper_closes_stale:
  assumes "tm_step\<^sup>*\<^sup>* (NewManager c, [], 0) (m, fl, t)"
    and "map_of (tm_sessions m) i = Some s" "stale_session (tm_config m) now s" "snd (snd (io i)) = (None, None)"
    and "map_of (tm_sessions m) j = Some s2" "\<not> ts_closed s2" "\<not> stale_session (tm_config m) now s2"
  shows "gone i (reap now io m) \<and> map_of (tm_sessions (reap now io m)) j = Some s2"
proof -
  have ok: "tm_ok (m, fl, t)" using tm_ok_steps [OF assms(1)] tm_ok_new by blast
  then have d: "distinct (map fst (tm_sessions m))" by simp
  let ?m = "trimFinished now m"
  let ?ps = "map (\<lambda>p. (ts_owner (snd p), fst p)) (filter (\<lambda>p. stale_session (tm_config m) now (snd p)) (tm_sessions ?m))"
  have d1: "distinct (map fst (tm_sessions ?m))" using winding_trim [OF d] d by (simp add: winding_down_def)
  have r: "reap now io m = close_each io ?ps ?m" by (simp add: reap_def reap_mark_def Let_def) (simp add: trimFinished_def Let_def)
  have at: "map_of (tm_sessions ?m) i = Some s" "map_of (tm_sessions ?m) j = Some s2"
    using assms(2,3,5,6) by (auto intro!: trim_keeps [OF d] simp: session_done_def stale_session_def)
  have own: "trim_space (ts_owner s) = ts_owner s"
    using ok map_of_SomeD [OF assms(2)] by (force simp: session_owners_def)
  have "(ts_owner s, i) \<in> set ?ps" using assms(3) map_of_SomeD [OF at(1)] by force
  then have "gone i (reap now io m)" unfolding r using at(1) own assms(4) by (intro each_gone [OF d1]) auto
  moreover have "j \<notin> snd ` set ?ps"
    using assms(7) at(2) d1 by (auto dest: eq_key_imp_eq_value)
  then have "map_of (tm_sessions (reap now io m)) j = Some s2" unfolding r using at(2) assms(6) by (intro each_other [OF d1])
  ultimately show ?thesis by blast
qed

definition sample_pair :: term_manager where
  "sample_pair =
     (let m0 = NewManager \<lparr>tc_BufferBytes = 0, tc_MaxSessions = 0, tc_MaxOwnerSessions = 0, tc_IdleTimeout = 0, tc_Lifetime = 0\<rparr>;
          m1 = snd (open_reserve False ''ann'' 24 80 0 m0); m2 = snd (open_register ''a'' ''ann'' 0 False 0 True None False m1);
          m3 = snd (open_reserve False ''ann'' 24 80 Hour m2) in
      snd (open_register ''b'' ''ann'' 0 False Hour True None False m3))"

lemma reaper_closes_stale_witness:
  "gone ''a'' (reap Hour (\<lambda>_. (Hour, Hour, None, None)) sample_pair) \<and>
   map_of (tm_sessions (reap Hour (\<lambda>_. (Hour, Hour, None, None)) sample_pair)) ''b'' = Some (new_session ''b'' ''ann'' False Hour)"
proof -
  let ?c = "\<lparr>tc_BufferBytes = 0, tc_MaxSessions = 0, tc_MaxOwnerSessions = 0, tc_IdleTimeout = 0, tc_Lifetime = 0\<rparr>"
  let ?m1 = "snd (open_reserve False ''ann'' 24 80 0 (NewManager ?c))"
  let ?m2 = "snd (open_register ''a'' ''ann'' 0 False 0 True None False ?m1)"
  let ?m3 = "snd (open_reserve False ''ann'' 24 80 Hour ?m2)"
  have r1: "open_reserve False ''ann'' 24 80 0 (NewManager ?c) = (Inr (''ann'', 0), ?m1)"
    and r2: "open_reserve False ''ann'' 24 80 Hour ?m2 = (Inr (''ann'', 0), ?m3)" by code_simp+
  have k: "''a'' \<notin> fst ` set (tm_sessions ?m1)" "''b'' \<notin> fst ` set (tm_sessions ?m3)" by code_simp+
  have reg: "tm_step (m1, [(n, ''ann'', 0)], t1) (snd (open_register i ''ann'' 0 False now True None False m1), [], t1)"
    if "i \<notin> fst ` set (tm_sessions m1)" for m1 n t1 i now
    using tm_step.register [where f = "(n, ''ann'', 0)" and fl = "[(n, ''ann'', 0)]" and retained = False and now = now and process = True
        and err = None and ctx = False and t = t1, OF _ that prod.collapse [symmetric]] by simp
  have g1: "tm_step (?m1, [(0, ''ann'', 0)], Suc 0) (?m2, [], Suc 0)" using k(1) by (rule reg)
  have g2: "tm_step (?m3, [(1, ''ann'', 0)], Suc 1) (sample_pair, [], Suc 1)"
    using reg [OF k(2), of 1 "Suc 1" Hour] unfolding sample_pair_def Let_def .
  have path: "tm_step\<^sup>*\<^sup>* (NewManager ?c, [], 0) (sample_pair, [], Suc 1)"
    using tm_step.reserve [OF r1, of "[]" 0] g1 tm_step.reserve [OF r2, of "[]" "Suc 0"] g2
    unfolding One_nat_def by (blast intro: converse_rtranclp_into_rtranclp)
  have at: "map_of (tm_sessions sample_pair) ''a'' = Some (new_session ''a'' ''ann'' False 0)"
    "map_of (tm_sessions sample_pair) ''b'' = Some (new_session ''b'' ''ann'' False Hour)" by code_simp+
  have st: "stale_session (tm_config sample_pair) Hour (new_session ''a'' ''ann'' False 0)"
    "\<not> ts_closed (new_session ''b'' ''ann'' False Hour)"
    "\<not> stale_session (tm_config sample_pair) Hour (new_session ''b'' ''ann'' False Hour)" by code_simp+
  show ?thesis using reaper_closes_stale [OF path at(1) st(1) _ at(2) st(2,3)] by simp
qed

end
