(* ===== verification/GoHeap.thy ===== *)
theory GoHeap
  imports KPrelude "HOL-Library.Multiset"
begin

text \<open>
  Go's \<open>container/heap\<close> on a slice, as the replay guard uses it: the order is that of an integer
  key. \<open>heap_push\<close> and \<open>heap_pop\<close> are the library's loops on the array; the theorems are its
  contract: the same elements, and the least key at index 0.
\<close>

section \<open>The loops\<close>

definition swap_nth :: "nat \<Rightarrow> nat \<Rightarrow> 'a list \<Rightarrow> 'a list" where
  "swap_nth i j xs = xs[i := xs ! j, j := xs ! i]"

function heap_up :: "('a \<Rightarrow> int) \<Rightarrow> 'a list \<Rightarrow> nat \<Rightarrow> 'a list" where
  "heap_up f xs j =
     (let i = (j - 1) div 2 in
      if i = j \<or> \<not> f (xs ! j) < f (xs ! i) then xs else heap_up f (swap_nth i j xs) i)"
  by pat_completeness auto
termination by (relation "measure (\<lambda>(f, xs, j). j)") auto

function heap_down :: "('a \<Rightarrow> int) \<Rightarrow> 'a list \<Rightarrow> nat \<Rightarrow> nat \<Rightarrow> 'a list" where
  "heap_down f xs i n =
     (let j1 = 2 * i + 1 in
      if n \<le> j1 then xs
      else
        let j = (if j1 + 1 < n \<and> f (xs ! (j1 + 1)) < f (xs ! j1) then j1 + 1 else j1) in
        if \<not> f (xs ! j) < f (xs ! i) then xs else heap_down f (swap_nth i j xs) j n)"
  by pat_completeness auto
termination by (relation "measure (\<lambda>(f, xs, i, n). n - i)") (auto split: if_splits)

declare heap_up.simps [simp del] heap_down.simps [simp del]

definition heap_push :: "('a \<Rightarrow> int) \<Rightarrow> 'a \<Rightarrow> 'a list \<Rightarrow> 'a list" where
  "heap_push f x xs = heap_up f (xs @ [x]) (length xs)"

definition heap_pop :: "('a \<Rightarrow> int) \<Rightarrow> 'a list \<Rightarrow> 'a \<times> 'a list" where
  "heap_pop f xs =
     (let n = length xs - 1; ys = heap_down f (swap_nth 0 n xs) 0 n in (ys ! n, take n ys))"

section \<open>The elements stay the same\<close>

lemma length_swap_nth [simp]: "length (swap_nth i j xs) = length xs"
  by (simp add: swap_nth_def)

lemma nth_swap_nth: "i < length xs \<Longrightarrow> j < length xs \<Longrightarrow> k < length xs \<Longrightarrow>
    swap_nth i j xs ! k = (if k = j then xs ! i else if k = i then xs ! j else xs ! k)"
  by (simp add: swap_nth_def nth_list_update)

lemma mset_swap_nth: "i < length xs \<Longrightarrow> j < length xs \<Longrightarrow> mset (swap_nth i j xs) = mset xs"
  unfolding swap_nth_def by (metis mset_swap list_update_swap)

lemma length_heap_up [simp]: "length (heap_up f xs j) = length xs"
  by (induction f xs j rule: heap_up.induct) (subst heap_up.simps, simp add: Let_def)

lemma length_heap_down [simp]: "length (heap_down f xs i n) = length xs"
  by (induction f xs i n rule: heap_down.induct) (subst heap_down.simps, simp add: Let_def)

lemma mset_heap_up: "j < length xs \<Longrightarrow> mset (heap_up f xs j) = mset xs"
proof (induction f xs j rule: heap_up.induct)
  case (1 f xs j)
  then show ?case by (subst heap_up.simps) (auto simp: Let_def mset_swap_nth)
qed

lemma heap_down_beyond: "n \<le> k \<Longrightarrow> n \<le> length xs \<Longrightarrow> k < length xs \<Longrightarrow> heap_down f xs i n ! k = xs ! k"
proof (induction f xs i n rule: heap_down.induct)
  case (1 f xs i n)
  then show ?case by (subst heap_down.simps) (auto simp: Let_def nth_swap_nth)
qed

lemma mset_heap_down: "n \<le> length xs \<Longrightarrow> mset (heap_down f xs i n) = mset xs"
proof (induction f xs i n rule: heap_down.induct)
  case (1 f xs i n)
  then show ?case by (subst heap_down.simps) (auto simp: Let_def mset_swap_nth)
qed

lemma mset_heap_push: "mset (heap_push f x xs) = add_mset x (mset xs)"
  by (simp add: heap_push_def mset_heap_up)

lemma length_heap_pop [simp]: "length (snd (heap_pop f xs)) = length xs - 1"
  by (simp add: heap_pop_def Let_def)

lemma heap_pop_length: "(x, h) = heap_pop f xs \<Longrightarrow> length h = length xs - 1"
  by (metis length_heap_pop snd_conv)

lemma heap_pop_first: "xs \<noteq> [] \<Longrightarrow> fst (heap_pop f xs) = xs ! 0"
  by (simp add: heap_pop_def Let_def heap_down_beyond nth_swap_nth)

lemma mset_heap_pop:
  assumes "xs \<noteq> []"
  shows "add_mset (xs ! 0) (mset (snd (heap_pop f xs))) = mset xs"
proof -
  let ?n = "length xs - 1"
  let ?ys = "heap_down f (swap_nth 0 ?n xs) 0 ?n"
  have l: "length ?ys = Suc ?n" using assms by simp
  then have "?ys = take ?n ?ys @ [?ys ! ?n]" by (metis take_Suc_conv_app_nth lessI take_all le_refl)
  then have "mset ?ys = add_mset (?ys ! ?n) (mset (take ?n ?ys))" by (metis mset.simps(1) mset.simps(2) mset_append union_mset_add_mset_right add_mset_add_single add.right_neutral)
  moreover have "mset ?ys = mset xs" using assms by (simp add: mset_heap_down mset_swap_nth)
  moreover have "?ys ! ?n = xs ! 0" using heap_pop_first [OF assms, of f] by (simp add: heap_pop_def Let_def)
  ultimately show ?thesis by (simp add: heap_pop_def Let_def)
qed

section \<open>The order\<close>

definition is_heap :: "('a \<Rightarrow> int) \<Rightarrow> 'a list \<Rightarrow> nat \<Rightarrow> bool" where
  "is_heap f xs n = (\<forall>k. 0 < k \<and> k < n \<longrightarrow> f (xs ! ((k - 1) div 2)) \<le> f (xs ! k))"

definition heap_except_up :: "('a \<Rightarrow> int) \<Rightarrow> 'a list \<Rightarrow> nat \<Rightarrow> nat \<Rightarrow> bool" where
  "heap_except_up f xs n j =
     (\<forall>k. 0 < k \<and> k < n \<longrightarrow>
        (k \<noteq> j \<longrightarrow> f (xs ! ((k - 1) div 2)) \<le> f (xs ! k)) \<and>
        ((k - 1) div 2 = j \<and> 0 < j \<longrightarrow> f (xs ! ((j - 1) div 2)) \<le> f (xs ! k)))"

definition heap_except_down :: "('a \<Rightarrow> int) \<Rightarrow> 'a list \<Rightarrow> nat \<Rightarrow> nat \<Rightarrow> bool" where
  "heap_except_down f xs n i =
     (\<forall>k. 0 < k \<and> k < n \<longrightarrow>
        ((k - 1) div 2 \<noteq> i \<longrightarrow> f (xs ! ((k - 1) div 2)) \<le> f (xs ! k)) \<and>
        ((k - 1) div 2 = i \<and> 0 < i \<longrightarrow> f (xs ! ((i - 1) div 2)) \<le> f (xs ! k)))"

lemma is_heap_least: "is_heap f xs n \<Longrightarrow> k < n \<Longrightarrow> f (xs ! 0) \<le> f (xs ! k)"
proof (induction k rule: less_induct)
  case (less k)
  show ?case
  proof (cases "k = 0")
    case False
    then have "(k - 1) div 2 < k" by simp
    with less have "f (xs ! 0) \<le> f (xs ! ((k - 1) div 2))" by simp
    also have "\<dots> \<le> f (xs ! k)" using less.prems False by (simp add: is_heap_def)
    finally show ?thesis .
  qed simp
qed

lemma child_iff: "0 < k \<Longrightarrow> (k - 1) div 2 = i \<longleftrightarrow> k = 2 * i + 1 \<or> k = 2 * i + (2 :: nat)"
  by presburger

lemma heap_up_restores: "heap_except_up f xs (length xs) j \<Longrightarrow> j < length xs \<Longrightarrow> is_heap f (heap_up f xs j) (length xs)"
proof (induction f xs j rule: heap_up.induct)
  case (1 f xs j)
  let ?i = "(j - 1) div 2"
  show ?case
  proof (cases "?i = j \<or> \<not> f (xs ! j) < f (xs ! ?i)")
    case True
    then have "heap_up f xs j = xs" by (subst heap_up.simps) (simp add: Let_def)
    moreover have "j = 0 \<or> f (xs ! ?i) \<le> f (xs ! j)" using True by auto
    ultimately show ?thesis using "1.prems"(1) by (auto simp: is_heap_def heap_except_up_def)
  next
    case False
    define i where "i = ?i"
    have j: "0 < j" "i < j" "i < length xs" using False "1.prems"(2) unfolding i_def by (cases j; simp)+
    have less: "f (xs ! j) < f (xs ! i)" using False by (simp add: i_def)
    let ?ys = "swap_nth i j xs"
    have u: "heap_up f xs j = heap_up f ?ys i" using False by (subst heap_up.simps) (simp add: Let_def i_def)
    have nth: "?ys ! k = (if k = j then xs ! i else if k = i then xs ! j else xs ! k)" if "k < length xs" for k
      using that j "1.prems"(2) by (simp add: nth_swap_nth)
    have "heap_except_up f ?ys (length ?ys) i"
      unfolding heap_except_up_def
    proof (intro allI impI conjI)
      fix k assume k: "0 < k \<and> k < length ?ys"
      define p where "p = (k - 1) div 2"
      have p: "p < k" "p < length xs" "k < length xs" using k unfolding p_def by auto
      have h: "k \<noteq> j \<Longrightarrow> f (xs ! p) \<le> f (xs ! k)" "p = j \<Longrightarrow> f (xs ! i) \<le> f (xs ! k)"
        using "1.prems"(1) k j unfolding heap_except_up_def p_def i_def by auto
      have pj: "k = j \<Longrightarrow> p = i" by (simp add: p_def i_def)
      { assume "k \<noteq> i"
        then show "f (?ys ! ((k - 1) div 2)) \<le> f (?ys ! k)"
          unfolding p_def [symmetric] nth [OF p(2)] nth [OF p(3)] using h pj less j p by (smt (verit)) }
      { assume c: "(k - 1) div 2 = i \<and> 0 < i"
        define g where "g = (i - 1) div 2"
        have "0 < i" using c by blast
        then have g: "g < i" unfolding g_def by (cases i) auto
        have "f (xs ! g) \<le> f (xs ! i)" using "1.prems"(1) c j unfolding heap_except_up_def g_def by auto
        then show "f (?ys ! ((i - 1) div 2)) \<le> f (?ys ! k)"
          using h(1) c j p g nth [of g] nth [OF p(3)] unfolding g_def [symmetric] p_def [symmetric] by (cases "k = j") auto }
    qed
    then have "is_heap f (heap_up f ?ys i) (length ?ys)"
      using "1.IH" [OF refl False] j by (simp add: i_def)
    then show ?thesis by (simp add: u)
  qed
qed

lemma heap_down_restores: "heap_except_down f xs n i \<Longrightarrow> n \<le> length xs \<Longrightarrow> is_heap f (heap_down f xs i n) n"
proof (induction f xs i n rule: heap_down.induct)
  case (1 f xs i n)
  let ?j = "if 2 * i + 1 + 1 < n \<and> f (xs ! (2 * i + 1 + 1)) < f (xs ! (2 * i + 1)) then 2 * i + 1 + 1 else 2 * i + 1"
  note h = "1.prems"(1) [unfolded heap_except_down_def, rule_format]
  show ?case
  proof (cases "n \<le> 2 * i + 1 \<or> \<not> f (xs ! ?j) < f (xs ! i)")
    case True
    then have "heap_down f xs i n = xs" by (subst heap_down.simps) (auto simp: Let_def)
    moreover have "f (xs ! ((k - 1) div 2)) \<le> f (xs ! k)" if "0 < k" "k < n" for k
    proof (cases "(k - 1) div 2 = i")
      case True
      with that have "k = 2 * i + 1 \<or> k = 2 * i + 2" by (simp only: child_iff)
      then show ?thesis using that True \<open>n \<le> 2 * i + 1 \<or> _\<close> by (elim disjE) (simp_all split: if_splits)
    qed (use h that in blast)
    ultimately show ?thesis by (simp add: is_heap_def)
  next
    case False
    define j where "j = ?j"
    have b: "j < n" "i < j" "f (xs ! j) < f (xs ! i)" "(j - 1) div 2 = i" "j < length xs" "i < length xs"
      using False "1.prems"(2) unfolding j_def by auto
    let ?ys = "swap_nth i j xs"
    have least: "f (xs ! j) \<le> f (xs ! k)" if "0 < k" "k < n" "(k - 1) div 2 = i" for k
    proof -
      from that(1,3) have "k = 2 * i + 1 \<or> k = 2 * i + 2" by (simp only: child_iff)
      then show ?thesis using that(2) unfolding j_def by (elim disjE) (simp_all split: if_splits)
    qed
    have u: "heap_down f xs i n = heap_down f ?ys j n" using False by (subst heap_down.simps) (auto simp: Let_def j_def)
    have nth: "?ys ! k = (if k = j then xs ! i else if k = i then xs ! j else xs ! k)" if "k < n" for k
      using that b "1.prems"(2) by (simp add: nth_swap_nth)
    have "heap_except_down f ?ys n j"
      unfolding heap_except_down_def
    proof (intro allI impI conjI)
      fix k assume k: "0 < k \<and> k < n"
      define p where "p = (k - 1) div 2"
      have p: "p < k" "p < n" "k < n" using k unfolding p_def by auto
      have hk: "p \<noteq> i \<Longrightarrow> f (xs ! p) \<le> f (xs ! k)" "p = i \<Longrightarrow> f (xs ! j) \<le> f (xs ! k)"
        using h [of k] least [of k] k unfolding p_def by auto
      have up: "k = i \<Longrightarrow> f (xs ! p) \<le> f (xs ! j)"
        using h [of j] b k unfolding p_def by auto
      have pj: "k = j \<Longrightarrow> p = i" using b by (simp add: p_def)
      { assume "(k - 1) div 2 \<noteq> j"
        then have "p \<noteq> j" by (simp add: p_def)
        then show "f (?ys ! ((k - 1) div 2)) \<le> f (?ys ! k)"
          unfolding p_def [symmetric] nth [OF p(2)] nth [OF p(3)] using hk up pj b p by (smt (verit)) }
      { assume "(k - 1) div 2 = j \<and> 0 < j"
        then have "p = j" by (simp add: p_def)
        then show "f (?ys ! ((j - 1) div 2)) \<le> f (?ys ! k)"
          unfolding b(4) using hk(1) b p nth [of i] nth [OF p(3)] by simp }
    qed
    then have "is_heap f (heap_down f ?ys j n) n"
      using "1.IH" [OF refl _ refl] False "1.prems"(2) by (simp add: j_def)
    then show ?thesis by (simp add: u)
  qed
qed

abbreviation heap_list :: "('a \<Rightarrow> int) \<Rightarrow> 'a list \<Rightarrow> bool" where
  "heap_list f xs \<equiv> is_heap f xs (length xs)"

lemma heap_list_push: "heap_list f xs \<Longrightarrow> heap_list f (heap_push f x xs)"
proof -
  assume h: "heap_list f xs"
  have "heap_except_up f (xs @ [x]) (length (xs @ [x])) (length xs)"
    unfolding heap_except_up_def
  proof (intro allI impI conjI)
    fix k assume k: "0 < k \<and> k < length (xs @ [x])"
    { assume "k \<noteq> length xs"
      then show "f ((xs @ [x]) ! ((k - 1) div 2)) \<le> f ((xs @ [x]) ! k)"
        using h k by (auto simp: is_heap_def nth_append) }
    { assume "(k - 1) div 2 = length xs \<and> 0 < length xs"
      then have "length xs < k" using k by auto
      then show "f ((xs @ [x]) ! ((length xs - 1) div 2)) \<le> f ((xs @ [x]) ! k)" using k by simp }
  qed
  from heap_up_restores [OF this] show ?thesis by (simp add: heap_push_def)
qed

lemma heap_list_pop: "heap_list f xs \<Longrightarrow> xs \<noteq> [] \<Longrightarrow> heap_list f (snd (heap_pop f xs))"
proof -
  assume h: "heap_list f xs" and ne: "xs \<noteq> []"
  let ?n = "length xs - 1"
  let ?ys = "swap_nth 0 ?n xs"
  have "heap_except_down f ?ys ?n 0"
    unfolding heap_except_down_def
  proof (intro allI impI conjI)
    fix k assume k: "0 < k \<and> k < ?n"
    { assume c: "(k - 1) div 2 \<noteq> 0"
      have "(k - 1) div 2 < ?n" using k by auto
      moreover have "?ys ! q = xs ! q" if "q < ?n" "q \<noteq> 0" for q
        using that ne by (subst nth_swap_nth) auto
      moreover have "f (xs ! ((k - 1) div 2)) \<le> f (xs ! k)" using h k unfolding is_heap_def by auto
      ultimately show "f (?ys ! ((k - 1) div 2)) \<le> f (?ys ! k)" using c k by simp }
  qed auto
  then have "is_heap f (heap_down f ?ys 0 ?n) ?n" by (rule heap_down_restores) simp
  then show ?thesis by (auto simp: is_heap_def heap_pop_def Let_def)
qed

text \<open>The loop that pops while the least key satisfies a downward closed condition removes exactly those elements.\<close>

lemma heap_list_first_least: "heap_list f xs \<Longrightarrow> x \<in> set xs \<Longrightarrow> f (xs ! 0) \<le> f x"
  by (metis in_set_conv_nth is_heap_least)

end
