(* ===== verification/ClusterGuard.thy ===== *)
theory ClusterGuard
  imports GoHeap GoStrings StoreTypes
begin

text \<open>
  \<open>internal/cluster/guard.go\<close>: the replay cache of the federation endpoints and the fixed window
  rate limiter. Both keep Go maps as association lists; the cache also keeps its entries in a
  binary heap by expiry. One call is one step: every method holds the mutex.
\<close>

section \<open>The replay cache\<close>

datatype cluster_error = CErrNotFound | CErrDuplicate | CErrHostLimit | CErrLightBatchInvalid | CErrPlatform | CErrPairingCode |
  CErrAuthentication | CErrReplay | CErrRateLimited | CErrProtocolMismatch | CErrIdentityMismatch | CErrStorage

definition replayGuardTotalEntries :: int where "replayGuardTotalEntries = 65536"
definition replayGuardEntriesPerPrincipal :: int where "replayGuardEntriesPerPrincipal = replayGuardTotalEntries div 8"

record replay_entry =
  re_principal :: string
  re_expiresAt :: gotime

record replay_count =
  rc_identity :: string
  rc_count :: int

record replay_expiry =
  rx_key :: string
  rx_expiresAt :: gotime

record replay_guard =
  rg_entries :: "(string \<times> replay_entry) list"
  rg_principals :: "(string \<times> replay_count) list"
  rg_expiries :: "replay_expiry list"
  rg_capacity :: int
  rg_perPrincipal :: int
  rg_ttl :: duration

definition newReplayGuard :: "int \<Rightarrow> int \<Rightarrow> duration \<Rightarrow> replay_guard" where
  "newReplayGuard capacity0 per0 ttl =
     (let capacity = (if capacity0 < 1 then 1 else capacity0);
          per = (if per0 < 1 \<or> capacity < per0 then capacity else per0) in
      \<lparr>rg_entries = [], rg_principals = [], rg_expiries = [], rg_capacity = capacity, rg_perPrincipal = per, rg_ttl = ttl\<rparr>)"

definition controllerV1Principal :: "string \<Rightarrow> string" where "controllerV1Principal i = ''controller:v1:'' @ i"
definition controllerV2Principal :: "string \<Rightarrow> string" where "controllerV2Principal i = ''controller:v2:'' @ i"
definition lightNodePrincipal :: "string \<Rightarrow> string" where "lightNodePrincipal i = ''light:'' @ i"
definition linkedPeerPrincipal :: "string \<Rightarrow> string" where "linkedPeerPrincipal i = ''linked-peer:'' @ i"

text \<open>\<open>binary.BigEndian.PutUint64\<close> of a length.\<close>

definition be64 :: "nat \<Rightarrow> string" where
  "be64 n = map (\<lambda>k. char_of (n div 256 ^ (7 - k) mod 256)) [0..<8]"

definition replay_input :: "string \<Rightarrow> string \<Rightarrow> string" where
  "replay_input who nonce = be64 (length who) @ who @ be64 (length nonce) @ nonce"

definition replayCacheKey :: "genv \<Rightarrow> string \<Rightarrow> string \<Rightarrow> string" where
  "replayCacheKey G who nonce = sha256 G (replay_input who nonce)"

definition principal_count :: "string \<Rightarrow> replay_guard \<Rightarrow> int" where
  "principal_count p g = (case map_of (rg_principals g) p of None \<Rightarrow> 0 | Some c \<Rightarrow> rc_count c)"

text \<open>One round of the pruning loop, after the heap gave up its least element.\<close>

definition expire :: "replay_expiry \<Rightarrow> replay_guard \<Rightarrow> replay_guard" where
  "expire x g =
     (case map_of (rg_entries g) (rx_key x) of None \<Rightarrow> g
      | Some e \<Rightarrow>
          if re_expiresAt e \<noteq> rx_expiresAt x then g
          else g\<lparr>rg_entries := alist_del (rx_key x) (rg_entries g),
              rg_principals :=
                (if principal_count (re_principal e) g \<le> 1 then alist_del (re_principal e) (rg_principals g)
                 else alist_put (re_principal e)
                   ((the (map_of (rg_principals g) (re_principal e)))\<lparr>rc_count := principal_count (re_principal e) g - 1\<rparr>)
                   (rg_principals g))\<rparr>)"

lemma expire_expiries [simp]: "rg_expiries (expire x g) = rg_expiries g"
  by (simp add: expire_def split: option.split)

function prune_guard :: "gotime \<Rightarrow> replay_guard \<Rightarrow> replay_guard" where
  "prune_guard now g =
     (if rg_expiries g \<noteq> [] \<and> rx_expiresAt (rg_expiries g ! 0) \<le> now then
        (case heap_pop rx_expiresAt (rg_expiries g) of
           (x, h) \<Rightarrow> prune_guard now (expire x (g\<lparr>rg_expiries := h\<rparr>)))
      else g)"
  by pat_completeness auto
termination
  by (relation "measure (\<lambda>(now, g). length (rg_expiries g))") (auto dest!: heap_pop_length)

declare prune_guard.simps [simp del]

definition guard_Check :: "genv \<Rightarrow> string \<Rightarrow> string \<Rightarrow> gotime \<Rightarrow> replay_guard \<Rightarrow> cluster_error option \<times> replay_guard" where
  "guard_Check G who nonce now g0 =
     (let g = prune_guard now g0 in
      (if map_of (rg_entries g) (replayCacheKey G who nonce) \<noteq> None then Some CErrReplay
       else if rg_capacity g \<le> int (length (rg_entries g)) \<or> rg_perPrincipal g \<le> principal_count who g then Some CErrRateLimited
       else None, g))"

definition guard_Accept :: "genv \<Rightarrow> string \<Rightarrow> string \<Rightarrow> gotime \<Rightarrow> replay_guard \<Rightarrow> cluster_error option \<times> replay_guard" where
  "guard_Accept G who0 nonce now g0 =
     (let key = replayCacheKey G who0 nonce; g = prune_guard now g0 in
      if map_of (rg_entries g) key \<noteq> None then (Some CErrReplay, g)
      else
        let who = (case map_of (rg_principals g) who0 of None \<Rightarrow> who0 | Some c \<Rightarrow> rc_identity c);
            count = principal_count who0 g in
        if rg_capacity g \<le> int (length (rg_entries g)) \<or> rg_perPrincipal g \<le> count then (Some CErrRateLimited, g)
        else
          let expiresAt = now + rg_ttl g in
          (None, g\<lparr>rg_entries := alist_put key \<lparr>re_principal = who, re_expiresAt = expiresAt\<rparr> (rg_entries g),
             rg_principals := alist_put who \<lparr>rc_identity = who, rc_count = count + 1\<rparr> (rg_principals g),
             rg_expiries := heap_push rx_expiresAt \<lparr>rx_key = key, rx_expiresAt = expiresAt\<rparr> (rg_expiries g)\<rparr>))"

section \<open>The fixed window limiter\<close>

record window_count =
  wc_start :: gotime
  wc_count :: int

record window_limiter =
  wl_entries :: "(string \<times> window_count) list"
  wl_limit :: int
  wl_window :: duration
  wl_maxSubjects :: int

definition newFixedWindowLimiter :: "int \<Rightarrow> duration \<Rightarrow> int \<Rightarrow> window_limiter" where
  "newFixedWindowLimiter limit window maxSubjects =
     \<lparr>wl_entries = [], wl_limit = limit, wl_window = window, wl_maxSubjects = maxSubjects\<rparr>"

definition prune_limiter :: "gotime \<Rightarrow> window_limiter \<Rightarrow> window_limiter" where
  "prune_limiter now l = l\<lparr>wl_entries := filter (\<lambda>p. now - wc_start (snd p) < wl_window l) (wl_entries l)\<rparr>"

definition limiter_Allow :: "string \<Rightarrow> gotime \<Rightarrow> window_limiter \<Rightarrow> bool \<times> window_limiter" where
  "limiter_Allow subject now l =
     (let fresh = (\<lambda>l. l\<lparr>wl_entries := alist_put subject \<lparr>wc_start = now, wc_count = 1\<rparr> (wl_entries l)\<rparr>) in
      case map_of (wl_entries l) subject of
        None \<Rightarrow>
          if wl_maxSubjects l \<le> int (length (wl_entries l)) then
            (let l' = prune_limiter now l in
             if wl_maxSubjects l' \<le> int (length (wl_entries l')) then (False, l') else (True, fresh l'))
          else (True, fresh l)
      | Some c \<Rightarrow>
          if wl_window l \<le> now - wc_start c then (True, fresh l)
          else if wl_limit l \<le> wc_count c then (False, l)
          else (True, l\<lparr>wl_entries := alist_put subject (c\<lparr>wc_count := wc_count c + 1\<rparr>) (wl_entries l)\<rparr>))"

end
