(* ===== verification/ClusterGuardProps.thy ===== *)
theory ClusterGuardProps
  imports ClusterGuard
begin

text \<open>
  The replay cache and the rate limiter: pruning through the heap removes exactly the expired
  entries, the counts per principal are exact, an accepted nonce is refused until it expires, and
  a principal below its share is not locked out by a few others. The limiter admits at most twice
  its limit in any interval of one window.
\<close>

section \<open>The invariant of the cache\<close>

abbreviation entry_pair :: "string \<times> replay_entry \<Rightarrow> string \<times> gotime" where
  "entry_pair p \<equiv> (fst p, re_expiresAt (snd p))"

abbreviation expiry_pair :: "replay_expiry \<Rightarrow> string \<times> gotime" where
  "expiry_pair x \<equiv> (rx_key x, rx_expiresAt x)"

definition entries_of :: "string \<Rightarrow> replay_guard \<Rightarrow> nat" where
  "entries_of who g = length (filter (\<lambda>p. re_principal (snd p) = who) (rg_entries g))"

definition guard_ok :: "replay_guard \<Rightarrow> bool" where
  "guard_ok g =
     (distinct (map fst (rg_entries g)) \<and> heap_list rx_expiresAt (rg_expiries g) \<and>
      mset (map expiry_pair (rg_expiries g)) = mset (map entry_pair (rg_entries g)) \<and>
      (\<forall>who. principal_count who g = int (entries_of who g)) \<and>
      (\<forall>who c. map_of (rg_principals g) who = Some c \<longrightarrow> rc_identity c = who))"

definition guard_bounded :: "replay_guard \<Rightarrow> bool" where
  "guard_bounded g = (int (length (rg_entries g)) \<le> rg_capacity g \<and> (\<forall>who. int (entries_of who g) \<le> rg_perPrincipal g))"

lemma mset_alist_del:
  "distinct (map fst xs) \<Longrightarrow> map_of xs k = Some e \<Longrightarrow> mset xs = add_mset (k, e) (mset (alist_del k xs))"
proof (induction xs)
  case (Cons p xs)
  show ?case
  proof (cases "fst p = k")
    case True
    with Cons.prems(1) have "k \<notin> fst ` set xs" by auto
    then have "alist_del k xs = xs" by (auto simp: alist_del_def filter_id_conv)
    with True Cons.prems show ?thesis by (cases p) (simp add: alist_del_def)
  next
    case False
    with Cons show ?thesis by (cases p) (simp add: alist_del_def)
  qed
qed simp

lemma guard_ok_new: "guard_ok (newReplayGuard c p d) \<and> guard_bounded (newReplayGuard c p d)"
  by (auto simp: newReplayGuard_def Let_def guard_ok_def guard_bounded_def entries_of_def principal_count_def is_heap_def)

lemma expire_step:
  assumes ok: "guard_ok g" and ne: "rg_expiries g \<noteq> []" and pop: "heap_pop rx_expiresAt (rg_expiries g) = (x, h)"
  shows "guard_ok (expire x (g\<lparr>rg_expiries := h\<rparr>)) \<and>
    rg_entries (expire x (g\<lparr>rg_expiries := h\<rparr>)) = filter (\<lambda>p. fst p \<noteq> rx_key x) (rg_entries g) \<and>
    x = rg_expiries g ! 0 \<and> (\<exists>e. map_of (rg_entries g) (rx_key x) = Some e \<and> re_expiresAt e = rx_expiresAt x)"
proof -
  let ?g = "g\<lparr>rg_expiries := h\<rparr>"
  have x: "x = rg_expiries g ! 0" using heap_pop_first [OF ne, of rx_expiresAt] pop by simp
  have h: "add_mset x (mset h) = mset (rg_expiries g)" "heap_list rx_expiresAt h"
    using mset_heap_pop [OF ne, of rx_expiresAt] heap_list_pop [OF _ ne, of rx_expiresAt] ok pop x by (simp_all add: guard_ok_def)
  have d: "distinct (map fst (rg_entries g))" using ok by (simp add: guard_ok_def)
  have "expiry_pair x \<in> set (map expiry_pair (rg_expiries g))" using x ne by simp
  then have "expiry_pair x \<in> set (map entry_pair (rg_entries g))" using ok unfolding guard_ok_def by (metis set_mset_mset)
  then obtain e where e: "(rx_key x, e) \<in> set (rg_entries g)" "re_expiresAt e = rx_expiresAt x" by auto
  then have at: "map_of (rg_entries g) (rx_key x) = Some e" using d by simp
  have del: "mset (rg_entries g) = add_mset (rx_key x, e) (mset (alist_del (rx_key x) (rg_entries g)))"
    using mset_alist_del [OF d at] .
  let ?w = "re_principal e"
  have cnt: "entries_of who g = (if who = ?w then Suc (length (filter (\<lambda>p. re_principal (snd p) = who) (alist_del (rx_key x) (rg_entries g))))
      else length (filter (\<lambda>p. re_principal (snd p) = who) (alist_del (rx_key x) (rg_entries g))))" for who
  proof -
    have "mset (filter (\<lambda>p. re_principal (snd p) = who) (rg_entries g)) =
        filter_mset (\<lambda>p. re_principal (snd p) = who) (add_mset (rx_key x, e) (mset (alist_del (rx_key x) (rg_entries g))))"
      by (simp flip: del)
    then have "mset (filter (\<lambda>p. re_principal (snd p) = who) (rg_entries g)) =
        (if who = ?w then add_mset (rx_key x, e) (mset (filter (\<lambda>p. re_principal (snd p) = who) (alist_del (rx_key x) (rg_entries g))))
         else mset (filter (\<lambda>p. re_principal (snd p) = who) (alist_del (rx_key x) (rg_entries g))))" by auto
    then show ?thesis unfolding entries_of_def by (metis size_mset size_add_mset)
  qed
  define g' where "g' = expire x ?g"
  have g': "rg_entries g' = alist_del (rx_key x) (rg_entries g)" "rg_expiries g' = h"
    "rg_principals g' = (if principal_count ?w g \<le> 1 then alist_del ?w (rg_principals g)
        else alist_put ?w ((the (map_of (rg_principals g) ?w))\<lparr>rc_count := principal_count ?w g - 1\<rparr>) (rg_principals g))"
    using at e(2) by (simp_all add: g'_def expire_def principal_count_def)
  have old: "principal_count who g = int (entries_of who g)" for who using ok by (simp add: guard_ok_def)
  have pc: "principal_count who g' = int (entries_of who g')" for who
  proof (cases "who = ?w")
    case True
    then have "principal_count who g = int (entries_of who g') + 1" using cnt [of who] old [of who] by (simp add: entries_of_def g')
    then show ?thesis using True by (auto simp: principal_count_def g')
  next
    case False
    then have "principal_count who g' = principal_count who g" by (simp add: principal_count_def g')
    then show ?thesis using cnt [of who] old [of who] False by (simp add: entries_of_def g')
  qed
  have "mset (map expiry_pair h) = mset (map entry_pair (alist_del (rx_key x) (rg_entries g)))"
  proof -
    have "add_mset (expiry_pair x) (mset (map expiry_pair h)) = mset (map expiry_pair (rg_expiries g))"
      using arg_cong [OF h(1), of "image_mset expiry_pair"] by simp
    also have "\<dots> = mset (map entry_pair (rg_entries g))" using ok by (simp add: guard_ok_def)
    also have "\<dots> = add_mset (expiry_pair x) (mset (map entry_pair (alist_del (rx_key x) (rg_entries g))))"
      using arg_cong [OF del, of "image_mset entry_pair"] e(2) by simp
    finally show ?thesis by simp
  qed
  moreover have ids: "rc_identity c = who" if "map_of (rg_principals g') who = Some c" for who c
  proof -
    have id: "\<And>who c. map_of (rg_principals g) who = Some c \<Longrightarrow> rc_identity c = who" using ok by (simp add: guard_ok_def)
    have "\<not> principal_count ?w g \<le> 1 \<Longrightarrow> \<exists>c. map_of (rg_principals g) ?w = Some c"
      by (auto simp: principal_count_def split: option.splits)
    with that id show ?thesis by (auto simp: g' split: if_splits)
  qed
  ultimately have "guard_ok g'"
    using pc h(2) d unfolding guard_ok_def by (simp add: g' distinct_alist_del)
  with g' x at e(2) show ?thesis unfolding g'_def alist_del_def by blast
qed

lemma prune_ok:
  "guard_ok g \<Longrightarrow> guard_ok (prune_guard now g) \<and>
    rg_entries (prune_guard now g) = filter (\<lambda>p. now < re_expiresAt (snd p)) (rg_entries g) \<and>
    rg_capacity (prune_guard now g) = rg_capacity g \<and> rg_perPrincipal (prune_guard now g) = rg_perPrincipal g \<and>
    rg_ttl (prune_guard now g) = rg_ttl g"
proof (induction now g rule: prune_guard.induct)
  case (1 now g)
  show ?case
  proof (cases "rg_expiries g \<noteq> [] \<and> rx_expiresAt (rg_expiries g ! 0) \<le> now")
    case True
    obtain x h where pop: "heap_pop rx_expiresAt (rg_expiries g) = (x, h)" by fastforce
    let ?g = "expire x (g\<lparr>rg_expiries := h\<rparr>)"
    have s: "guard_ok ?g" "rg_entries ?g = filter (\<lambda>p. fst p \<noteq> rx_key x) (rg_entries g)" "x = rg_expiries g ! 0"
      "\<exists>e. map_of (rg_entries g) (rx_key x) = Some e \<and> re_expiresAt e = rx_expiresAt x"
      using expire_step [OF "1.prems" _ pop] True by blast+
    have d: "distinct (map fst (rg_entries g))" using "1.prems" by (simp add: guard_ok_def)
    obtain e where e: "map_of (rg_entries g) (rx_key x) = Some e" "re_expiresAt e = rx_expiresAt x" using s(4) by blast
    have "rx_expiresAt x \<le> now" using True s(3) by simp
    have "fst p \<noteq> rx_key x" if "now < re_expiresAt (snd p)" "p \<in> set (rg_entries g)" for p
    proof
      assume "fst p = rx_key x"
      then have "map_of (rg_entries g) (rx_key x) = Some (snd p)" using that(2) d by (metis map_of_is_SomeI prod.collapse)
      with e \<open>rx_expiresAt x \<le> now\<close> that(1) show False by simp
    qed
    then have "filter (\<lambda>p. now < re_expiresAt (snd p)) (rg_entries ?g) = filter (\<lambda>p. now < re_expiresAt (snd p)) (rg_entries g)"
      unfolding s(2) filter_filter by (intro filter_cong) auto
    moreover have "rg_capacity ?g = rg_capacity g \<and> rg_perPrincipal ?g = rg_perPrincipal g \<and> rg_ttl ?g = rg_ttl g"
      by (simp add: expire_def split: option.split)
    moreover have "prune_guard now g = prune_guard now ?g" using True pop by (subst prune_guard.simps) simp
    ultimately show ?thesis using "1.IH" [OF True pop [symmetric] s(1)] by simp
  next
    case False
    then have p: "prune_guard now g = g" by (subst prune_guard.simps) (rule if_not_P)
    have "now < re_expiresAt (snd q)" if "q \<in> set (rg_entries g)" for q
    proof -
      have "entry_pair q \<in># mset (map entry_pair (rg_entries g))" using that by simp
      then have "entry_pair q \<in># mset (map expiry_pair (rg_expiries g))" using "1.prems" by (simp add: guard_ok_def)
      then obtain x where x: "x \<in> set (rg_expiries g)" "re_expiresAt (snd q) = rx_expiresAt x" by auto
      then have "rx_expiresAt (rg_expiries g ! 0) \<le> rx_expiresAt x"
        using "1.prems" by (intro heap_list_first_least) (simp_all add: guard_ok_def)
      then show ?thesis using False x by (cases "rg_expiries g") auto
    qed
    then show ?thesis using "1.prems" by (simp add: p)
  qed
qed

lemma guard_ok_insert:
  assumes ok: "guard_ok g" and new: "map_of (rg_entries g) key = None"
  shows "guard_ok (g\<lparr>rg_entries := alist_put key \<lparr>re_principal = who, re_expiresAt = at\<rparr> (rg_entries g),
     rg_principals := alist_put who \<lparr>rc_identity = who, rc_count = principal_count who g + 1\<rparr> (rg_principals g),
     rg_expiries := heap_push rx_expiresAt \<lparr>rx_key = key, rx_expiresAt = at\<rparr> (rg_expiries g)\<rparr>)" (is "guard_ok ?g")
proof -
  have put: "alist_put key v xs = xs @ [(key, v)]" if "map_of xs key = None" for v :: replay_entry and xs
    using that by (induction key v xs rule: alist_put.induct) (auto split: if_splits)
  have "entries_of w ?g = entries_of w g + (if w = who then 1 else 0)" for w
    by (simp add: entries_of_def put [OF new])
  moreover have "principal_count w ?g = principal_count w g + (if w = who then 1 else 0)" for w
    by (simp add: principal_count_def)
  ultimately show ?thesis
    using ok new by (auto simp: guard_ok_def put [OF new] mset_heap_push heap_list_push map_of_eq_None_iff)
qed

section \<open>Calls\<close>

datatype guard_call = GCheck string string gotime | GAccept string string gotime

fun guard_exec :: "genv \<Rightarrow> guard_call \<Rightarrow> replay_guard \<Rightarrow> cluster_error option \<times> replay_guard" where
  "guard_exec G (GCheck w n t) g = guard_Check G w n t g"
| "guard_exec G (GAccept w n t) g = guard_Accept G w n t g"

fun call_time :: "guard_call \<Rightarrow> gotime" where
  "call_time (GCheck w n t) = t"
| "call_time (GAccept w n t) = t"

definition guard_run :: "genv \<Rightarrow> guard_call list \<Rightarrow> replay_guard \<Rightarrow> replay_guard" where
  "guard_run G cs g = fold (\<lambda>c g. snd (guard_exec G c g)) cs g"

lemma accept_cases:
  assumes "guard_ok g" "guard_Accept G who nonce now g = (r, g')"
  shows "guard_ok g' \<and> rg_capacity g' = rg_capacity g \<and> rg_perPrincipal g' = rg_perPrincipal g \<and> rg_ttl g' = rg_ttl g \<and>
    (if r = None
     then replayCacheKey G who nonce \<notin> fst ` set (rg_entries (prune_guard now g)) \<and>
       rg_entries g' = rg_entries (prune_guard now g) @ [(replayCacheKey G who nonce, \<lparr>re_principal = who, re_expiresAt = now + rg_ttl g\<rparr>)] \<and>
       int (length (rg_entries (prune_guard now g))) < rg_capacity g \<and> int (entries_of who (prune_guard now g)) < rg_perPrincipal g
     else g' = prune_guard now g)"
proof -
  let ?g = "prune_guard now g" and ?k = "replayCacheKey G who nonce"
  note p = prune_ok [OF assms(1), of now]
  have who: "(case map_of (rg_principals ?g) who of None \<Rightarrow> who | Some c \<Rightarrow> rc_identity c) = who"
    using p by (auto simp: guard_ok_def split: option.split)
  have cnt: "principal_count who ?g = int (entries_of who ?g)" using p by (simp add: guard_ok_def)
  have put: "alist_put ?k v xs = xs @ [(?k, v)]" if "map_of xs ?k = None" for v :: replay_entry and xs
    using that by (induction ?k v xs rule: alist_put.induct) (auto split: if_splits)
  show ?thesis
  proof (cases "map_of (rg_entries ?g) ?k = None \<and> \<not> (rg_capacity ?g \<le> int (length (rg_entries ?g)) \<or> rg_perPrincipal ?g \<le> principal_count who ?g)")
    case True
    then show ?thesis
      using assms(2) p guard_ok_insert [of ?g ?k, where who = who and at = "now + rg_ttl g"] cnt put
      by (auto simp: guard_Accept_def Let_def who map_of_eq_None_iff)
  next
    case False
    then show ?thesis using assms(2) p by (auto simp: guard_Accept_def Let_def split: if_splits)
  qed
qed

lemma check_prunes: "guard_exec G (GCheck who nonce now) g = (r, g') \<Longrightarrow> g' = prune_guard now g"
  by (simp add: guard_Check_def Let_def)

lemma bounded_prune: "guard_ok g \<Longrightarrow> guard_bounded g \<Longrightarrow> guard_bounded (prune_guard now g)"
proof -
  assume ok: "guard_ok g" and b: "guard_bounded g"
  have p: "length (filter P (filter Q xs)) \<le> length (filter P xs)" for P Q and xs :: "(string \<times> replay_entry) list"
    by (induction xs) auto
  have len: "length (rg_entries (prune_guard now g)) \<le> length (rg_entries g)" using prune_ok [OF ok, of now] by simp
  have each: "entries_of w (prune_guard now g) \<le> entries_of w g" for w
    using prune_ok [OF ok, of now] p by (simp add: entries_of_def)
  have "int (entries_of w (prune_guard now g)) \<le> rg_perPrincipal g" for w
    using each [of w] b unfolding guard_bounded_def by (metis of_nat_mono order_trans)
  moreover have "int (length (rg_entries (prune_guard now g))) \<le> rg_capacity g"
    using len b unfolding guard_bounded_def by (metis of_nat_mono order_trans)
  ultimately show ?thesis using prune_ok [OF ok, of now] unfolding guard_bounded_def by metis
qed

lemma exec_ok: "guard_ok g \<Longrightarrow> guard_bounded g \<Longrightarrow> guard_ok (snd (guard_exec G c g)) \<and> guard_bounded (snd (guard_exec G c g)) \<and>
    rg_capacity (snd (guard_exec G c g)) = rg_capacity g \<and> rg_perPrincipal (snd (guard_exec G c g)) = rg_perPrincipal g \<and>
    rg_ttl (snd (guard_exec G c g)) = rg_ttl g"
proof (cases c)
  case (GCheck w n t)
  assume "guard_ok g" "guard_bounded g"
  then show ?thesis using GCheck prune_ok bounded_prune check_prunes by (metis prod.collapse)
next
  case (GAccept w n t)
  assume ok: "guard_ok g" and b: "guard_bounded g"
  obtain r g' where a: "guard_Accept G w n t g = (r, g')" by fastforce
  note c = accept_cases [OF ok a] and bp = bounded_prune [OF ok b, of t] and p = prune_ok [OF ok, of t]
  have "guard_bounded g'"
  proof (cases "r = None")
    case True
    then have "entries_of q g' = entries_of q (prune_guard t g) + (if q = w then 1 else 0)" for q
      using c by (simp add: entries_of_def)
    then show ?thesis using True c bp p by (auto simp: guard_bounded_def)
  next
    case False
    then show ?thesis using c bp by simp
  qed
  then show ?thesis using c GAccept a by simp
qed

lemma run_ok: "guard_ok g \<Longrightarrow> guard_bounded g \<Longrightarrow> guard_ok (guard_run G cs g) \<and> guard_bounded (guard_run G cs g) \<and>
    rg_capacity (guard_run G cs g) = rg_capacity g \<and> rg_perPrincipal (guard_run G cs g) = rg_perPrincipal g \<and>
    rg_ttl (guard_run G cs g) = rg_ttl g"
  by (induction cs arbitrary: g) (simp_all add: guard_run_def exec_ok)

section \<open>What the cache guarantees\<close>

lemma reachable_ok: "guard_ok (guard_run G cs (newReplayGuard c p d)) \<and> guard_bounded (guard_run G cs (newReplayGuard c p d))"
  using run_ok guard_ok_new by blast

text \<open>
  placeholder
\<close>

theorem replay_prune_reference:
  "rg_entries (prune_guard now (guard_run G cs (newReplayGuard c p d))) =
     filter (\<lambda>e. now < re_expiresAt (snd e)) (rg_entries (guard_run G cs (newReplayGuard c p d))) \<and>
   principal_count who (guard_run G cs (newReplayGuard c p d)) = int (entries_of who (guard_run G cs (newReplayGuard c p d))) \<and>
   length (rg_expiries (guard_run G cs (newReplayGuard c p d))) = length (rg_entries (guard_run G cs (newReplayGuard c p d)))"
proof -
  let ?g = "guard_run G cs (newReplayGuard c p d)"
  have ok: "guard_ok ?g" using reachable_ok by blast
  then have "mset (map expiry_pair (rg_expiries ?g)) = mset (map entry_pair (rg_entries ?g))" unfolding guard_ok_def by blast
  from mset_eq_length [OF this] have "length (rg_expiries ?g) = length (rg_entries ?g)" by simp
  moreover have "principal_count who ?g = int (entries_of who ?g)" using ok unfolding guard_ok_def by blast
  ultimately show ?thesis using prune_ok [OF ok, of now] by blast
qed

definition remembers :: "string \<Rightarrow> gotime \<Rightarrow> replay_guard \<Rightarrow> bool" where
  "remembers key at g = (\<exists>e. map_of (rg_entries g) key = Some e \<and> re_expiresAt e = at)"

lemma remembers_prune:
  assumes "guard_ok g" "remembers key at g" "now < at"
  shows "remembers key at (prune_guard now g)"
proof -
  obtain e where e: "map_of (rg_entries g) key = Some e" "re_expiresAt e = at" using assms(2) by (auto simp: remembers_def)
  then have "(key, e) \<in> set (rg_entries (prune_guard now g))"
    using prune_ok [OF assms(1), of now] assms(3) by (simp add: map_of_SomeD)
  moreover have "distinct (map fst (rg_entries (prune_guard now g)))"
    using prune_ok [OF assms(1), of now] unfolding guard_ok_def by blast
  ultimately show ?thesis using e(2) by (auto simp: remembers_def)
qed

lemma remembers_exec:
  assumes "guard_ok g" "remembers key at g" "call_time c < at"
  shows "remembers key at (snd (guard_exec G c g))"
proof (cases c)
  case (GCheck w n t)
  then show ?thesis using remembers_prune [OF assms(1,2)] assms(3) by (simp add: guard_Check_def Let_def)
next
  case (GAccept w n t)
  then have r: "remembers key at (prune_guard t g)" using remembers_prune [OF assms(1,2)] assms(3) by simp
  obtain r g' where a: "guard_Accept G w n t g = (r, g')" by fastforce
  from accept_cases [OF assms(1) a] r a GAccept show ?thesis
    by (cases "r = None") (auto simp: remembers_def map_add_def)
qed

lemma remembers_run:
  "guard_ok g \<Longrightarrow> guard_bounded g \<Longrightarrow> remembers key at g \<Longrightarrow> \<forall>c\<in>set cs. call_time c < at \<Longrightarrow>
    remembers key at (guard_run G cs g)"
  by (induction cs arbitrary: g) (simp_all add: guard_run_def exec_ok remembers_exec)

lemma accepted_then_refused:
  assumes "guard_Accept G who nonce t0 (guard_run G cs0 (newReplayGuard c p d)) = (None, g)"
    and "\<forall>c\<in>set cs. call_time c < t0 + d" "now < t0 + d"
  shows "fst (guard_Accept G who nonce now (guard_run G cs g)) = Some CErrReplay \<and>
    fst (guard_Check G who nonce now (guard_run G cs g)) = Some CErrReplay"
proof -
  let ?g0 = "guard_run G cs0 (newReplayGuard c p d)"
  have ok0: "guard_ok ?g0" "guard_bounded ?g0" using reachable_ok by blast+
  have "rg_ttl ?g0 = d" using run_ok [of "newReplayGuard c p d" G cs0] guard_ok_new by (simp add: newReplayGuard_def Let_def)
  moreover from accept_cases [OF ok0(1) assms(1)]
  have g: "rg_entries g = rg_entries (prune_guard t0 ?g0) @ [(replayCacheKey G who nonce, \<lparr>re_principal = who, re_expiresAt = t0 + rg_ttl ?g0\<rparr>)]"
    "replayCacheKey G who nonce \<notin> fst ` set (rg_entries (prune_guard t0 ?g0))" by simp_all
  ultimately have "remembers (replayCacheKey G who nonce) (t0 + d) g"
    by (simp add: remembers_def map_add_def split: option.split) (metis map_of_SomeD image_eqI fst_conv)
  moreover have "guard_ok g" "guard_bounded g"
    using exec_ok [OF ok0, of G "GAccept who nonce t0"] assms(1) by simp_all
  ultimately have r: "guard_ok (guard_run G cs g)" "remembers (replayCacheKey G who nonce) (t0 + d) (guard_run G cs g)"
    using run_ok remembers_run assms(2) by blast+
  from remembers_prune [OF r assms(3)] show ?thesis
    by (auto simp: remembers_def guard_Accept_def guard_Check_def Let_def)
qed

text \<open>
  C29: A nonce that the replay guard accepted for a principal is refused as a replay, by Accept
  and by Check, until its lifetime has passed, whatever other calls are made and however the
  heap of expiries is pruned in between.
\<close>

theorem nonce_refused_until_expiry:
  assumes "guard_Accept G who nonce t0 (guard_run G cs0 (newReplayGuard c p d)) = (None, g)"
    and "\<forall>c\<in>set cs. call_time c < t0 + d" "now < t0 + d"
  shows "fst (guard_Accept G who nonce now (guard_run G cs g)) = Some CErrReplay \<and>
    fst (guard_Check G who nonce now (guard_run G cs g)) = Some CErrReplay"
  using accepted_then_refused [OF assms] .

lemma nonce_refused_until_expiry_witness:
  "fst (guard_Accept demo_env ''light:a'' ''n'' 5 (newReplayGuard 4 2 10)) = None \<and>
   fst (guard_Accept demo_env ''light:a'' ''n'' 7 (guard_run demo_env [GCheck ''light:a'' ''n'' 6, GAccept ''light:b'' ''n'' 9]
     (snd (guard_Accept demo_env ''light:a'' ''n'' 5 (newReplayGuard 4 2 10))))) = Some CErrReplay"
proof -
  obtain r g where a: "guard_Accept demo_env ''light:a'' ''n'' 5 (newReplayGuard 4 2 10) = (r, g)" by fastforce
  have f: "fst (guard_Accept demo_env ''light:a'' ''n'' 5 (newReplayGuard 4 2 10)) = None"
    by (simp add: guard_Accept_def Let_def newReplayGuard_def prune_guard.simps principal_count_def)
  with a have a': "guard_Accept demo_env ''light:a'' ''n'' 5 (guard_run demo_env [] (newReplayGuard 4 2 10)) = (None, g)"
    by (simp add: guard_run_def)
  from nonce_refused_until_expiry [OF a', of "[GCheck ''light:a'' ''n'' 6, GAccept ''light:b'' ''n'' 9]" 7] a f show ?thesis by simp
qed

text \<open>Two different requests share a key only where the hash collides.\<close>

lemma be64_digits: "be64 n = be64 m \<Longrightarrow> k \<le> 8 \<Longrightarrow> n mod 256 ^ k = m mod 256 ^ k"
proof (induction k)
  case (Suc k)
  then have ih: "n mod 256 ^ k = m mod 256 ^ k" by simp
  have "be64 n ! (7 - k) = be64 m ! (7 - k)" using Suc.prems(1) by simp
  moreover have "7 - (7 - k) = k" "7 - k < 8" using Suc.prems(2) by auto
  ultimately have "(char_of (n div 256 ^ k mod 256) :: char) = char_of (m div 256 ^ k mod 256)" by (simp add: be64_def)
  then have "byte (char_of (n div 256 ^ k mod 256)) = byte (char_of (m div 256 ^ k mod 256))" by simp
  then have "n div 256 ^ k mod 256 = m div 256 ^ k mod 256" by (simp add: byte_def)
  with ih show ?case by (simp add: mod_mult2_eq mult.commute [of 256])
qed simp

lemma be64_inject: "n < 2 ^ 64 \<Longrightarrow> m < 2 ^ 64 \<Longrightarrow> be64 n = be64 m \<longleftrightarrow> n = m"
  using be64_digits [of n m 8] by auto

lemma replay_input_inject:
  assumes "replay_input p n = replay_input q k" "length p < 2 ^ 64" "length q < 2 ^ 64"
  shows "p = q \<and> n = k"
proof -
  have l: "length (be64 i) = 8" for i by (simp add: be64_def)
  from assms(1) have "be64 (length p) = be64 (length q) \<and> p @ be64 (length n) @ n = q @ be64 (length k) @ k"
    by (simp add: replay_input_def l append_eq_append_conv)
  moreover from this have "length p = length q" using assms(2,3) be64_inject by blast
  ultimately show ?thesis using l [of "length n"] l [of "length k"] by (simp add: append_eq_append_conv)
qed

section \<open>A few principals cannot fill the cache\<close>

lemma sum_by_key: "finite A \<Longrightarrow> f ` set xs \<subseteq> A \<Longrightarrow> (\<Sum>w\<in>A. length (filter (\<lambda>x. f x = w) xs)) = length xs"
proof (induction xs)
  case (Cons x xs)
  have "length (filter (\<lambda>y. f y = w) (x # xs)) = (if f x = w then 1 else 0) + length (filter (\<lambda>y. f y = w) xs)" for w by simp
  then have "(\<Sum>w\<in>A. length (filter (\<lambda>y. f y = w) (x # xs))) = (\<Sum>w\<in>A. if f x = w then 1 else 0) + (\<Sum>w\<in>A. length (filter (\<lambda>y. f y = w) xs))"
    by (simp only: sum.distrib)
  with Cons show ?case by simp
qed simp

text \<open>
  C30: A principal that holds less than its share of the replay cache is turned away for lack of
  room only when at least as many other principals hold entries as there are shares (eight, with
  the limits of the service).
\<close>

theorem replay_share_protected:
  assumes "guard_Accept G who nonce now (guard_run G cs (newReplayGuard (int (k * per)) (int per) d)) = (Some CErrRateLimited, g)"
    and "entries_of who g < per" "0 < k"
  shows "k \<le> card {w. w \<noteq> who \<and> 0 < entries_of w g}"
proof -
  let ?g0 = "newReplayGuard (int (k * per)) (int per) d"
  have "0 < per" using assms(2) by simp
  then have "1 \<le> k * per" "per \<le> k * per" using assms(3) by (simp_all add: Suc_leI)
  then have "1 \<le> int (k * per)" "int per \<le> int (k * per)" "1 \<le> int per" using \<open>0 < per\<close> by linarith+
  then have n: "rg_capacity ?g0 = int (k * per)" "rg_perPrincipal ?g0 = int per"
    unfolding newReplayGuard_def Let_def by (simp_all only: replay_guard.simps not_less if_False if_True split: if_split) auto
  have g1: "guard_ok (guard_run G cs ?g0)" "guard_bounded (guard_run G cs ?g0)" using reachable_ok by blast+
  have caps: "rg_capacity g = int (k * per)" "rg_perPrincipal g = int per" and ok: "guard_ok g" and b: "guard_bounded g"
    and gp: "g = prune_guard now (guard_run G cs ?g0)"
    using accept_cases [OF g1(1) assms(1)] run_ok [of ?g0 G cs] guard_ok_new n exec_ok [OF g1, of G "GAccept who nonce now"] assms(1)
    by simp_all
  have full: "k * per \<le> length (rg_entries g)"
  proof -
    have "principal_count who g = int (entries_of who g)" using ok unfolding guard_ok_def by blast
    then have "int (k * per) \<le> int (length (rg_entries g))" using assms caps gp
      by (auto simp: guard_Accept_def Let_def split: if_splits)
    then show ?thesis by linarith
  qed
  define W where "W = (\<lambda>p. re_principal (snd p)) ` set (rg_entries g)"
  have others: "{w. w \<noteq> who \<and> 0 < entries_of w g} = W - {who}"
    by (auto simp: W_def entries_of_def filter_empty_conv)
  have "length (rg_entries g) = (\<Sum>w\<in>insert who W. entries_of w g)"
    unfolding entries_of_def by (subst sum_by_key) (auto simp: W_def)
  also have "\<dots> = entries_of who g + (\<Sum>w\<in>W - {who}. entries_of w g)"
    using sum.insert_remove [of W "\<lambda>w. entries_of w g" who] by (simp add: W_def)
  also have "(\<Sum>w\<in>W - {who}. entries_of w g) \<le> card (W - {who}) * per"
  proof -
    have "entries_of w g \<le> per" for w using b caps unfolding guard_bounded_def by (metis of_nat_le_iff)
    then show ?thesis using sum_bounded_above [of "W - {who}" "\<lambda>w. entries_of w g" per] by simp
  qed
  finally have "k * per \<le> entries_of who g + card (W - {who}) * per" using full by simp
  then have "k * per < (card (W - {who}) + 1) * per" using assms(2) by simp
  then show ?thesis unfolding others by (simp only: mult_less_cancel2) simp
qed

lemma shares_of_the_service: "replayGuardTotalEntries = int (8 * 8192) \<and> replayGuardEntriesPerPrincipal = int 8192"
  by (simp add: replayGuardTotalEntries_def replayGuardEntriesPerPrincipal_def)

lemma replay_share_protected_witness:
  "1 \<le> card {w. w \<noteq> ''a'' \<and> 0 < entries_of w (snd (guard_Accept demo_env ''a'' ''m'' 1 (guard_run demo_env [GAccept ''b'' ''n'' 0] (newReplayGuard 1 1 10))))}"
proof -
  have k: "replayCacheKey demo_env ''a'' ''m'' \<noteq> replayCacheKey demo_env ''b'' ''n''"
    using replay_input_inject [of "''a''" "''m''" "''b''" "''n''"] by (auto simp: replayCacheKey_def demo_env_def)
  have g: "guard_run demo_env [GAccept ''b'' ''n'' 0] (newReplayGuard 1 1 10) =
      \<lparr>rg_entries = [(replayCacheKey demo_env ''b'' ''n'', \<lparr>re_principal = ''b'', re_expiresAt = 10\<rparr>)],
       rg_principals = [(''b'', \<lparr>rc_identity = ''b'', rc_count = 1\<rparr>)],
       rg_expiries = [\<lparr>rx_key = replayCacheKey demo_env ''b'' ''n'', rx_expiresAt = 10\<rparr>], rg_capacity = 1, rg_perPrincipal = 1, rg_ttl = 10\<rparr>"
    by (simp add: guard_run_def guard_Accept_def Let_def newReplayGuard_def prune_guard.simps principal_count_def heap_push_def heap_up.simps)
  have a: "guard_Accept demo_env ''a'' ''m'' 1 (guard_run demo_env [GAccept ''b'' ''n'' 0] (newReplayGuard (int (1 * 1)) (int 1) 10)) =
      (Some CErrRateLimited, guard_run demo_env [GAccept ''b'' ''n'' 0] (newReplayGuard 1 1 10))"
    using k by (simp add: g guard_Accept_def Let_def prune_guard.simps principal_count_def)
  have e: "entries_of ''a'' (guard_run demo_env [GAccept ''b'' ''n'' 0] (newReplayGuard 1 1 10)) < 1" by (simp add: g entries_of_def)
  from replay_share_protected [OF a e] a show ?thesis by simp
qed

section \<open>The limiter\<close>

text \<open>The times at which calls for one subject are admitted.\<close>

fun admitted_at :: "string \<Rightarrow> (string \<times> gotime) list \<Rightarrow> window_limiter \<Rightarrow> gotime list" where
  "admitted_at s [] l = []"
| "admitted_at s ((q, t) # cs) l =
     (case limiter_Allow q t l of (ok, l') \<Rightarrow> (if ok \<and> q = s then [t] else []) @ admitted_at s cs l')"

text \<open>The windows a subject has used so far, the newest first, each with its admitted calls.\<close>

definition windows_ok :: "string \<Rightarrow> window_limiter \<Rightarrow> gotime \<Rightarrow> (gotime \<times> gotime list) list \<Rightarrow> bool" where
  "windows_ok s l now ws =
     (distinct (map fst (wl_entries l)) \<and>
      sorted_wrt (\<lambda>a b. fst b + wl_window l \<le> fst a) ws \<and>
      (\<forall>w\<in>set ws. int (length (snd w)) \<le> wl_limit l \<and> fst w \<le> now \<and> (\<forall>t\<in>set (snd w). fst w \<le> t \<and> t < fst w + wl_window l)) \<and>
      (case map_of (wl_entries l) s of
         None \<Rightarrow> \<forall>w\<in>set ws. fst w + wl_window l \<le> now
       | Some c \<Rightarrow> (\<exists>ts rest. ws = (wc_start c, ts) # rest \<and> int (length ts) = wc_count c)))"

lemma kept_entry:
  assumes "distinct (map fst al)"
  shows "map_of (filter keep al) s = Option.bind (map_of al s) (\<lambda>c. if keep (s, c) then Some c else None)"
  using assms
proof (induction al)
  case (Cons e al)
  then show ?case by (cases e) (auto split: Option.bind_split simp: map_of_eq_None_iff)
qed simp

lemma windows_later:
  assumes "windows_ok s l now ws" "now \<le> now'" shows "windows_ok s l now' ws"
proof -
  have le: "x \<le> now \<Longrightarrow> x \<le> now'" for x using assms(2) by simp
  show ?thesis
    using assms(1) unfolding windows_ok_def by (cases "map_of (wl_entries l) s") (auto intro: le)
qed

lemma windows_prune:
  assumes ok: "windows_ok s l now ws" shows "windows_ok s (prune_limiter now l) now ws"
proof -
  let ?l = "prune_limiter now l"
  have d: "distinct (map fst (wl_entries l))" using ok by (simp add: windows_ok_def)
  have l: "wl_window ?l = wl_window l" "wl_limit ?l = wl_limit l" "distinct (map fst (wl_entries ?l))"
    using d by (simp_all add: prune_limiter_def distinct_map_filter)
  have m: "map_of (wl_entries ?l) s = (case map_of (wl_entries l) s of None \<Rightarrow> None
      | Some c \<Rightarrow> if now - wc_start c < wl_window l then Some c else None)"
    by (simp add: prune_limiter_def kept_entry [OF d] split: option.split Option.bind_split)
  have old: "\<forall>w\<in>set ws. fst w + wl_window l \<le> now" if "map_of (wl_entries l) s = Some c" "\<not> now - wc_start c < wl_window l" for c
  proof -
    from ok that obtain ts rest where ws: "ws = (wc_start c, ts) # rest" by (auto simp: windows_ok_def)
    with ok have "\<forall>w\<in>set rest. fst w + wl_window l \<le> wc_start c" by (simp add: windows_ok_def)
    moreover have "wc_start c \<le> now" using ok ws by (simp add: windows_ok_def)
    ultimately show ?thesis using that(2) ws by fastforce
  qed
  show ?thesis
  proof (cases "map_of (wl_entries l) s")
    case None
    with ok l m show ?thesis by (simp add: windows_ok_def)
  next
    case (Some c)
    with ok l m old [OF Some] show ?thesis by (cases "now - wc_start c < wl_window l") (simp_all add: windows_ok_def)
  qed
qed

lemma alist_put_other_window:
  "q \<noteq> s \<Longrightarrow> windows_ok s l now ws \<Longrightarrow> windows_ok s (l\<lparr>wl_entries := alist_put q c (wl_entries l)\<rparr>) now ws"
  by (cases "map_of (wl_entries l) s") (simp_all add: windows_ok_def distinct_alist_put)

lemma limiter_other:
  assumes ok: "windows_ok s l now ws" and q: "q \<noteq> s" and a: "limiter_Allow q now l = (r, l')"
  shows "windows_ok s l' now ws"
  using a windows_prune [OF ok] ok alist_put_other_window [OF q]
  by (auto simp: limiter_Allow_def Let_def split: option.splits if_splits)

lemma windows_fresh:
  assumes ok: "windows_ok s l now ws" and exp: "\<forall>w\<in>set ws. fst w + wl_window l \<le> now" and l: "1 \<le> wl_limit l" "0 < wl_window l"
  shows "windows_ok s (l\<lparr>wl_entries := alist_put s \<lparr>wc_start = now, wc_count = 1\<rparr> (wl_entries l)\<rparr>) now ((now, [now]) # ws)"
  using assms by (auto simp: windows_ok_def distinct_alist_put split: option.splits)

lemma limiter_same:
  assumes ok: "windows_ok s l now ws" and a: "limiter_Allow s now l = (r, l')" and l: "1 \<le> wl_limit l" "0 < wl_window l"
  shows "\<exists>ws'. windows_ok s l' now ws' \<and> mset (concat (map snd ws')) = mset (concat (map snd ws)) + (if r then {#now#} else {#})"
proof (cases "map_of (wl_entries l) s")
  case None
  then have exp: "\<forall>w\<in>set ws. fst w + wl_window l \<le> now" using ok by (simp add: windows_ok_def)
  have p: "windows_ok s (prune_limiter now l) now ws" using ok by (rule windows_prune)
  have same: "wl_window (prune_limiter now l) = wl_window l" "wl_limit (prune_limiter now l) = wl_limit l" by (simp_all add: prune_limiter_def)
  have f: "windows_ok s (l\<lparr>wl_entries := alist_put s \<lparr>wc_start = now, wc_count = 1\<rparr> (wl_entries l)\<rparr>) now ((now, [now]) # ws)"
    using windows_fresh [OF ok exp l] .
  have f': "windows_ok s (prune_limiter now l\<lparr>wl_entries := alist_put s \<lparr>wc_start = now, wc_count = 1\<rparr> (wl_entries (prune_limiter now l))\<rparr>) now ((now, [now]) # ws)"
    using windows_fresh [OF p] exp l same by simp
  consider "r" "l' = l\<lparr>wl_entries := alist_put s \<lparr>wc_start = now, wc_count = 1\<rparr> (wl_entries l)\<rparr>"
    | "\<not> r" "l' = prune_limiter now l"
    | "r" "l' = prune_limiter now l\<lparr>wl_entries := alist_put s \<lparr>wc_start = now, wc_count = 1\<rparr> (wl_entries (prune_limiter now l))\<rparr>"
    using a None by (auto simp: limiter_Allow_def Let_def split: if_splits)
  then show ?thesis
  proof cases
    case 1 with f show ?thesis by (intro exI [of _ "(now, [now]) # ws"]) simp
  next
    case 2 with p show ?thesis by (intro exI [of _ ws]) simp
  next
    case 3 with f' show ?thesis by (intro exI [of _ "(now, [now]) # ws"]) simp
  qed
next
  case (Some c)
  then obtain ts rest where ws: "ws = (wc_start c, ts) # rest" "int (length ts) = wc_count c" using ok by (auto simp: windows_ok_def)
  consider (new) "wl_window l \<le> now - wc_start c" "r" "l' = l\<lparr>wl_entries := alist_put s \<lparr>wc_start = now, wc_count = 1\<rparr> (wl_entries l)\<rparr>"
    | (full) "\<not> r" "l' = l"
    | (more) "\<not> wl_window l \<le> now - wc_start c" "wc_count c < wl_limit l" "r"
        "l' = l\<lparr>wl_entries := alist_put s (c\<lparr>wc_count := wc_count c + 1\<rparr>) (wl_entries l)\<rparr>"
    using a Some by (auto simp: limiter_Allow_def Let_def split: if_splits)
  then show ?thesis
  proof cases
    case new
    have "\<forall>w\<in>set rest. fst w + wl_window l \<le> wc_start c" using ok ws by (simp add: windows_ok_def)
    then have "\<forall>w\<in>set ws. fst w + wl_window l \<le> now" using new(1) l(2) unfolding ws by fastforce
    from windows_fresh [OF ok this l] new show ?thesis by (intro exI [of _ "(now, [now]) # ws"]) simp
  next
    case full
    with ok show ?thesis by (intro exI [of _ ws]) simp
  next
    case more
    have "windows_ok s l' now ((wc_start c, now # ts) # rest)"
      using ok more ws by (auto simp: windows_ok_def distinct_alist_put)
    with more ws show ?thesis by (intro exI [of _ "(wc_start c, now # ts) # rest"]) simp
  qed
qed

lemma limiter_config: "limiter_Allow q t l = (r, l') \<Longrightarrow> wl_limit l' = wl_limit l \<and> wl_window l' = wl_window l"
  by (auto simp: limiter_Allow_def Let_def prune_limiter_def split: option.splits if_splits)

lemma admitted_windows:
  assumes "windows_ok s l now ws" "1 \<le> wl_limit l" "0 < wl_window l" "sorted (now # map snd cs)"
  shows "\<exists>ws' l' now'. windows_ok s l' now' ws' \<and> wl_limit l' = wl_limit l \<and> wl_window l' = wl_window l \<and>
    mset (concat (map snd ws')) = mset (concat (map snd ws)) + mset (admitted_at s cs l)"
  using assms
proof (induction cs arbitrary: l now ws)
  case Nil
  then show ?case by auto
next
  case (Cons p cs)
  obtain q t where p: "p = (q, t)" by fastforce
  obtain r l1 where a: "limiter_Allow q t l = (r, l1)" by fastforce
  have ok: "windows_ok s l t ws" using Cons.prems(1,4) p by (auto intro: windows_later)
  have c: "wl_limit l1 = wl_limit l" "wl_window l1 = wl_window l" using limiter_config [OF a] by simp_all
  obtain ws1 where w1: "windows_ok s l1 t ws1"
    "mset (concat (map snd ws1)) = mset (concat (map snd ws)) + (if r \<and> q = s then {#t#} else {#})"
  proof (cases "q = s")
    case True
    then show thesis using that limiter_same [OF ok _ Cons.prems(2,3)] a by auto
  next
    case False
    then show thesis using that [of ws] limiter_other [OF ok False a] by simp
  qed
  have "sorted (t # map snd cs)" using Cons.prems(4) p by simp
  from Cons.IH [OF w1(1) _ _ this] c Cons.prems(2,3)
  obtain ws' l' now' where "windows_ok s l' now' ws'" "wl_limit l' = wl_limit l" "wl_window l' = wl_window l"
    "mset (concat (map snd ws')) = mset (concat (map snd ws1)) + mset (admitted_at s cs l1)" by auto
  with w1(2) show ?case using p a by (intro exI [of _ ws'] exI [of _ l'] exI [of _ now']) auto
qed

lemma windows_count:
  assumes "sorted_wrt (\<lambda>a b. fst b + w \<le> fst a) ws" "0 < (w :: int)"
    and "\<forall>v\<in>set ws. int (length (snd v)) \<le> L \<and> (\<forall>x\<in>set (snd v). fst v \<le> x \<and> x < fst v + w)"
  shows "int (length (filter (\<lambda>x. t \<le> x \<and> x < t + w) (concat (map snd ws)))) \<le> int (length (filter (\<lambda>v. t - w < fst v \<and> fst v < t + w) ws)) * L"
  using assms
proof (induction ws)
  case (Cons v ws)
  have v: "int (length (snd v)) \<le> L" "\<forall>x\<in>set (snd v). fst v \<le> x \<and> x < fst v + w" using Cons.prems(3) by auto
  have len: "int (length (filter (\<lambda>x. t \<le> x \<and> x < t + w) (snd v))) \<le> L"
    using v(1) by (metis length_filter_le of_nat_mono order_trans)
  have none: "filter (\<lambda>x. t \<le> x \<and> x < t + w) (snd v) = []" if "\<not> (t - w < fst v \<and> fst v < t + w)"
    using v(2) that by (fastforce simp: filter_empty_conv)
  show ?case
  proof (cases "t - w < fst v \<and> fst v < t + w")
    case True
    with Cons len show ?thesis by (simp add: algebra_simps)
  next
    case False
    with Cons none [OF False] show ?thesis by auto
  qed
qed simp

lemma windows_two:
  assumes "sorted_wrt (\<lambda>a b. fst b + w \<le> fst a) ws" "0 < (w :: int)"
  shows "length (filter (\<lambda>v. t - w < fst v \<and> fst v < t + w) ws) \<le> 2"
proof (rule ccontr)
  let ?f = "filter (\<lambda>v. t - w < fst v \<and> fst v < t + w) ws"
  assume "\<not> length ?f \<le> 2"
  then have "3 \<le> length ?f" by simp
  then obtain a b c r where f: "?f = a # b # c # r" by (auto simp: numeral_3_eq_3 Suc_le_length_iff)
  have "sorted_wrt (\<lambda>a b. fst b + w \<le> fst a) ?f" using assms(1) by (rule sorted_wrt_filter)
  then have "fst b + w \<le> fst a" "fst c + w \<le> fst b" by (simp_all add: f)
  moreover have "a \<in> set ?f" "c \<in> set ?f" by (simp_all add: f)
  then have "fst a < t + w" "t - w < fst c" by simp_all
  ultimately show False by linarith
qed

text \<open>
  C31: In every interval of the length of one window the fixed window limiter admits at most
  twice its limit for one subject, whatever the other subjects do.
\<close>

theorem limiter_burst_bound:
  assumes "sorted (map snd cs)" "1 \<le> limit" "0 < window"
  shows "int (length (filter (\<lambda>x. t \<le> x \<and> x < t + window) (admitted_at s cs (newFixedWindowLimiter limit window n)))) \<le> 2 * limit"
proof (cases cs)
  case (Cons p ps)
  let ?l = "newFixedWindowLimiter limit window n"
  have "windows_ok s ?l (snd p) []" by (simp add: windows_ok_def newFixedWindowLimiter_def)
  moreover have "sorted (snd p # map snd cs)" using assms(1) Cons by simp
  moreover have c: "wl_limit ?l = limit" "wl_window ?l = window" by (simp_all add: newFixedWindowLimiter_def)
  ultimately obtain ws l' now' where ws: "windows_ok s l' now' ws" "wl_limit l' = limit" "wl_window l' = window"
    "mset (concat (map snd ws)) = mset (admitted_at s cs ?l)"
    using admitted_windows [of s ?l "snd p" "[]" cs] assms(2,3) by auto
  have "length (filter (\<lambda>x. t \<le> x \<and> x < t + window) (admitted_at s cs ?l)) = length (filter (\<lambda>x. t \<le> x \<and> x < t + window) (concat (map snd ws)))"
    using ws(4) by (metis mset_filter size_mset)
  also have "int \<dots> \<le> int (length (filter (\<lambda>v. t - window < fst v \<and> fst v < t + window) ws)) * limit"
    using ws assms(3) by (intro windows_count) (auto simp: windows_ok_def)
  also have "\<dots> \<le> 2 * limit"
  proof (rule mult_right_mono)
    have "sorted_wrt (\<lambda>a b. fst b + window \<le> fst a) ws" using ws(1,3) by (simp add: windows_ok_def)
    from windows_two [OF this assms(3), of t]
    show "int (length (filter (\<lambda>v. t - window < fst v \<and> fst v < t + window) ws)) \<le> 2" by linarith
  qed (use assms(2) in simp)
  finally show ?thesis .
qed (use assms(2) in simp)

lemma limiter_burst_bound_witness:
  "admitted_at ''a'' [(''a'', 9), (''b'', 9), (''a'', 9), (''a'', 10), (''a'', 19), (''a'', 19), (''a'', 19)] (newFixedWindowLimiter 2 10 5) = [9, 9, 19, 19] \<and>
   length (filter (\<lambda>x. 10 \<le> x \<and> x < 10 + (10 :: int))
     (admitted_at ''a'' [(''a'', 9), (''b'', 9), (''a'', 9), (''a'', 10), (''a'', 19), (''a'', 19), (''a'', 19)] (newFixedWindowLimiter 2 10 5))) \<le> 4"
proof -
  have "admitted_at ''a'' [(''a'', 9), (''b'', 9), (''a'', 9), (''a'', 10), (''a'', 19), (''a'', 19), (''a'', 19)] (newFixedWindowLimiter 2 10 5) = [9, 9, 19, 19]"
    by code_simp
  with limiter_burst_bound [of "[(''a'', 9), (''b'', 9), (''a'', 9), (''a'', 10), (''a'', 19), (''a'', 19), (''a'', 19)]" 2 10 10 "''a''" 5]
  show ?thesis by simp
qed

end
