(* ===== verification/ClusterSignature.thy ===== *)
theory ClusterSignature
  imports ClusterGuardProps GoEncodings
begin

text \<open>
  \<open>internal/cluster/signature.go\<close> and the v1 endpoints of \<open>service.go\<close> behind it: signing and
  verifying federation requests, the lookup of the controller, the rate limit and the replay
  cache, in the order the handlers use them. Ed25519 and SHA-256 are parameters.
\<close>

section \<open>Environment\<close>

record fed_env =
  fe_G :: genv
  fe_sign :: "string \<Rightarrow> string \<Rightarrow> string"
  fe_verify :: "string \<Rightarrow> string \<Rightarrow> string \<Rightarrow> bool"

text \<open>
  A request as the server sees it: \<open>URL.Path\<close>, \<open>URL.EscapedPath()\<close>, \<open>URL.RawQuery\<close>, \<open>URL.RawPath\<close> and
  the headers under their canonical keys.
\<close>

record http_request =
  rq_Method :: string
  rq_Path :: string
  rq_EscapedPath :: string
  rq_RawQuery :: string
  rq_RawPath :: string
  rq_ContentLength :: int
  rq_TransferEncoding :: "string list"
  rq_Header :: "(string \<times> string) list"

definition header_get :: "string \<Rightarrow> http_request \<Rightarrow> string" where
  "header_get k r = (case map_of (rq_Header r) k of None \<Rightarrow> [] | Some v \<Rightarrow> v)"

definition header_set :: "string \<Rightarrow> string \<Rightarrow> http_request \<Rightarrow> http_request" where
  "header_set k v r = r\<lparr>rq_Header := alist_put k v (rq_Header r)\<rparr>"

lemma header_get_set [simp]: "header_get k (header_set j v r) = (if k = j then v else header_get k r)"
  by (simp add: header_get_def header_set_def)

section \<open>Encodings\<close>

text \<open>\<open>base64.RawStdEncoding\<close>: the URL alphabet with two characters replaced.\<close>

definition b64std_encode :: "string \<Rightarrow> string" where
  "b64std_encode s = map (\<lambda>c. if c = CHR ''-'' then CHR ''+'' else if c = CHR ''_'' then CHR ''/'' else c) (b64_encode s)"

definition b64std_decode :: "string \<Rightarrow> string option" where
  "b64std_decode s =
     (if CHR ''-'' \<in> set s \<or> CHR ''_'' \<in> set s then None
      else b64_decode (map (\<lambda>c. if c = CHR ''+'' then CHR ''-'' else if c = CHR ''/'' then CHR ''_'' else c) s))"

text \<open>\<open>strconv.FormatInt\<close> and \<open>strconv.ParseInt(s, 10, 64)\<close>.\<close>

definition show_int :: "int \<Rightarrow> string" where
  "show_int n = (if n < 0 then ''-'' @ show_nat (nat (- n)) else show_nat (nat n))"

definition parse_int64 :: "string \<Rightarrow> int option" where
  "parse_int64 s =
     (let neg = (s \<noteq> [] \<and> hd s = CHR ''-''); ds = (if s \<noteq> [] \<and> (hd s = CHR ''-'' \<or> hd s = CHR ''+'') then tl s else s);
          n = (if neg then - int (digits_val ds) else int (digits_val ds)) in
      if ds = [] \<or> \<not> list_all is_digit ds \<or> n < - (2 ^ 63) \<or> 2 ^ 63 \<le> n then None else Some n)"

section \<open>Signing and verifying\<close>

definition headerProtocol :: string where "headerProtocol = ''X-KPanel-Federation-Protocol''"
definition headerControllerID :: string where "headerControllerID = ''X-KPanel-Controller-ID''"
definition headerTargetID :: string where "headerTargetID = ''X-KPanel-Target-ID''"
definition headerTimestamp :: string where "headerTimestamp = ''X-KPanel-Timestamp''"
definition headerNonce :: string where "headerNonce = ''X-KPanel-Nonce''"
definition headerSignature :: string where "headerSignature = ''X-KPanel-Signature''"
definition FederationProtocol :: string where "FederationProtocol = ''v1''"

lemmas header_names = headerProtocol_def headerControllerID_def headerTargetID_def headerTimestamp_def headerNonce_def headerSignature_def

definition fed_validID :: "string \<Rightarrow> bool" where
  "fed_validID s = (length s = 32 \<and> hex_decode s \<noteq> None)"

definition validNonce :: "string \<Rightarrow> bool" where
  "validNonce s = (length s = 32 \<and> (case hex_decode s of None \<Rightarrow> False | Some b \<Rightarrow> length b = 16))"

definition newline :: string where "newline = [CHR 0x0A]"

definition canonicalRequest :: "genv \<Rightarrow> string \<Rightarrow> string \<Rightarrow> string \<Rightarrow> string \<Rightarrow> string \<Rightarrow> string \<Rightarrow> string" where
  "canonicalRequest G method path controllerID targetID timestamp nonce =
     join newline [to_upper (uni_upper G) method, path, controllerID, targetID, timestamp, nonce, hex_encode (sha256 G [])]"

definition SignRequest :: "fed_env \<Rightarrow> http_request \<Rightarrow> string \<Rightarrow> string \<Rightarrow> string \<Rightarrow> gotime \<Rightarrow> string \<Rightarrow> http_request option" where
  "SignRequest E r controllerID targetID privateKey now nonce =
     (if length privateKey \<noteq> 64 \<or> \<not> fed_validID controllerID \<or> \<not> fed_validID targetID \<or> \<not> validNonce nonce then None
      else
        let timestamp = show_int (unix now);
            canonical = canonicalRequest (fe_G E) (rq_Method r) (rq_EscapedPath r) controllerID targetID timestamp nonce;
            signature = fe_sign E privateKey canonical in
        Some (header_set headerSignature (b64std_encode signature) (header_set headerNonce nonce
          (header_set headerTimestamp timestamp (header_set headerTargetID targetID
            (header_set headerControllerID controllerID (header_set headerProtocol FederationProtocol r)))))))"

definition VerifyRequest :: "fed_env \<Rightarrow> http_request \<Rightarrow> string \<Rightarrow> string \<Rightarrow> gotime \<Rightarrow> cluster_error + string \<times> string" where
  "VerifyRequest E r targetID publicKey now =
     (if length publicKey \<noteq> 32 then Inl CErrAuthentication
      else if header_get headerProtocol r \<noteq> FederationProtocol then Inl CErrProtocolMismatch
      else
        let controllerID = trim_space (header_get headerControllerID r);
            receivedTarget = trim_space (header_get headerTargetID r);
            timestamp = trim_space (header_get headerTimestamp r);
            nonce = trim_space (header_get headerNonce r) in
        if \<not> fed_validID controllerID \<or> receivedTarget \<noteq> targetID \<or> \<not> validNonce nonce then Inl CErrAuthentication
        else case parse_int64 timestamp of None \<Rightarrow> Inl CErrAuthentication
        | Some seconds \<Rightarrow>
            if seconds < 1 then Inl CErrAuthentication
            else if now - seconds * Second < - (60 * Second) \<or> 60 * Second < now - seconds * Second then Inl CErrAuthentication
            else
              let encoded = trim_space (header_get headerSignature r) in
              if 128 < length encoded then Inl CErrAuthentication
              else case b64std_decode encoded of None \<Rightarrow> Inl CErrAuthentication
              | Some signature \<Rightarrow>
                  if length signature \<noteq> 64 then Inl CErrAuthentication
                  else if \<not> fe_verify E publicKey
                      (canonicalRequest (fe_G E) (rq_Method r) (rq_EscapedPath r) controllerID targetID timestamp nonce) signature
                  then Inl CErrAuthentication
                  else Inr (controllerID, nonce))"

definition decodePublicKey :: "string \<Rightarrow> string option" where
  "decodePublicKey s =
     (if 64 < length s then None
      else case b64std_decode s of None \<Rightarrow> None | Some b \<Rightarrow> if length b \<noteq> 32 then None else Some b)"

definition encodePublicKey :: "string \<Rightarrow> string" where "encodePublicKey = b64std_encode"

definition fingerprint :: "genv \<Rightarrow> string \<Rightarrow> string" where
  "fingerprint G publicKey = ''SHA256:'' @ b64std_encode (sha256 G publicKey)"

definition hasFederationCapability :: "string \<Rightarrow> string \<Rightarrow> bool" where
  "hasFederationCapability value capability =
     (if 256 < length value \<or> capability = [] then False
      else list_ex (\<lambda>item. trim_space item = capability) (split_on (CHR '','') value))"

section \<open>The endpoints\<close>

record controller_record =
  cr_ID :: string
  cr_Name :: string
  cr_PublicKey :: string
  cr_Fingerprint :: string
  cr_Scope :: string
  cr_CreatedAt :: gotime
  cr_LastSeenAt :: "gotime option"

definition SummaryScope :: string where "SummaryScope = ''cluster.summary.read''"
definition summaryPath :: string where "summaryPath = ''/api/v1/federation/summary''"
definition revokePath :: string where "revokePath = ''/api/v1/federation/revoke''"

definition Controller :: "string \<Rightarrow> controller_record list \<Rightarrow> controller_record option" where
  "Controller i cs = List.find (\<lambda>c. cr_ID c = i) cs"

definition authenticate :: "fed_env \<Rightarrow> string \<Rightarrow> controller_record list \<Rightarrow> http_request \<Rightarrow> string \<Rightarrow> string \<Rightarrow> gotime \<Rightarrow> cluster_error + string \<times> string" where
  "authenticate E nodeID controllers r method path now =
     (if rq_Method r \<noteq> method \<or> rq_Path r \<noteq> path \<or> rq_RawQuery r \<noteq> [] \<or> rq_RawPath r \<noteq> [] \<or>
         rq_ContentLength r \<noteq> 0 \<or> length (rq_TransferEncoding r) \<noteq> 0 then Inl CErrAuthentication
      else
        let controllerID = trim_space (header_get headerControllerID r) in
        if \<not> fed_validID controllerID then Inl CErrAuthentication
        else case Controller controllerID controllers of None \<Rightarrow> Inl CErrAuthentication
        | Some c \<Rightarrow>
            if cr_Scope c \<noteq> SummaryScope then Inl CErrAuthentication
            else case decodePublicKey (cr_PublicKey c) of None \<Rightarrow> Inl CErrAuthentication
            | Some publicKey \<Rightarrow>
                (case VerifyRequest E r nodeID publicKey now of Inl e \<Rightarrow> Inl e
                 | Inr (verified, nonce) \<Rightarrow> if verified \<noteq> controllerID then Inl CErrAuthentication else Inr (controllerID, nonce)))"

record federation =
  fd_controllers :: "controller_record list"
  fd_limiter :: window_limiter
  fd_replays :: replay_guard

text \<open>\<open>SignedSummary\<close> up to the point where it collects the telemetry.\<close>

definition SignedSummary :: "fed_env \<Rightarrow> string \<Rightarrow> http_request \<Rightarrow> gotime \<Rightarrow> federation \<Rightarrow> (cluster_error + string) \<times> federation" where
  "SignedSummary E nodeID r now s =
     (case authenticate E nodeID (fd_controllers s) r ''GET'' summaryPath now of Inl e \<Rightarrow> (Inl e, s)
      | Inr (controllerID, nonce) \<Rightarrow>
          (case limiter_Allow (controllerV1Principal controllerID) now (fd_limiter s) of
             (ok, l) \<Rightarrow>
               if \<not> ok then (Inl CErrRateLimited, s\<lparr>fd_limiter := l\<rparr>)
               else (case guard_Accept (fe_G E) (controllerV1Principal controllerID) nonce now (fd_replays s) of
                   (Some e, g) \<Rightarrow> (Inl e, s\<lparr>fd_limiter := l, fd_replays := g\<rparr>)
                 | (None, g) \<Rightarrow> (Inr controllerID, s\<lparr>fd_limiter := l, fd_replays := g\<rparr>))))"

text \<open>\<open>DeleteController\<close>; \<open>saved\<close>: the state file was written.\<close>

definition DeleteController :: "string \<Rightarrow> bool \<Rightarrow> controller_record list \<Rightarrow> cluster_error option \<times> controller_record list" where
  "DeleteController i saved cs =
     (case index_of (\<lambda>c. cr_ID c = i) cs of None \<Rightarrow> (Some CErrNotFound, cs)
      | Some k \<Rightarrow> if saved then (None, remove_nth k cs) else (Some CErrStorage, cs))"

text \<open>\<open>SignedRevoke\<close>; \<open>grants\<close>: the removal of the file relay grant succeeded.\<close>

definition SignedRevoke :: "fed_env \<Rightarrow> string \<Rightarrow> http_request \<Rightarrow> gotime \<Rightarrow> bool \<Rightarrow> bool \<Rightarrow> federation \<Rightarrow> (cluster_error + string) \<times> federation" where
  "SignedRevoke E nodeID r now grants saved s =
     (case authenticate E nodeID (fd_controllers s) r ''DELETE'' revokePath now of Inl e \<Rightarrow> (Inl e, s)
      | Inr (controllerID, nonce) \<Rightarrow>
          (case guard_Accept (fe_G E) (controllerV1Principal controllerID) nonce now (fd_replays s) of
             (Some e, g) \<Rightarrow> (Inl e, s\<lparr>fd_replays := g\<rparr>)
           | (None, g) \<Rightarrow>
               if \<not> grants then (Inl CErrStorage, s\<lparr>fd_replays := g\<rparr>)
               else (case DeleteController controllerID saved (fd_controllers s) of
                   (Some e, cs) \<Rightarrow> (Inl e, s\<lparr>fd_replays := g, fd_controllers := cs\<rparr>)
                 | (None, cs) \<Rightarrow> (Inr controllerID, s\<lparr>fd_replays := g, fd_controllers := cs\<rparr>))))"

end
