(* ===== verification/ClusterSignatureProps.thy ===== *)
theory ClusterSignatureProps
  imports ClusterSignature
begin

text \<open>
  Signed federation requests: what is signed verifies, what verifies was signed for exactly these
  fields and about now, and no signed request is served twice.
\<close>

section \<open>Encodings\<close>

lemma hex_printable: "hex_decode s = Some b \<Longrightarrow> printable s"
proof (induction s arbitrary: b rule: hex_decode.induct)
  case (3 x y r)
  have "hex_val c = Some n \<Longrightarrow> 32 < byte c \<and> byte c < 127" for c n
    by (auto simp: hex_val_def is_digit_def split: if_splits)
  with 3 show ?case by (auto simp: printable_def split: option.splits)
qed (simp_all add: printable_def)

lemma valid_id_printable: "fed_validID s \<Longrightarrow> printable s"
  by (auto simp: fed_validID_def intro: hex_printable)

lemma nonce_printable: "validNonce s \<Longrightarrow> printable s"
  by (auto simp: validNonce_def intro: hex_printable split: option.splits)

lemma b64_char_range: "n < 64 \<Longrightarrow> 32 < byte (b64_char n) \<and> byte (b64_char n) < 127 \<and> b64_char n \<noteq> CHR ''+'' \<and> b64_char n \<noteq> CHR ''/''"
proof -
  assume n: "n < 64"
  have neq: "byte (CHR ''+'') = 43" "byte (CHR ''/'') = 47" "byte (CHR ''-'') = 45" "byte (CHR ''_'') = 95"
    by (simp_all add: byte_def)
  consider "n < 26" | "26 \<le> n \<and> n < 52" | "52 \<le> n \<and> n < 62" | "n = 62" | "n = 63" using n by linarith
  then have "32 < byte (b64_char n) \<and> byte (b64_char n) < 127 \<and> byte (b64_char n) \<noteq> 43 \<and> byte (b64_char n) \<noteq> 47"
    by cases (auto simp: b64_char_def byte_char_of neq)
  with neq show ?thesis by metis
qed

lemma b64_encode_chars: "c \<in> set (b64_encode s) \<Longrightarrow> 32 < byte c \<and> byte c < 127 \<and> c \<noteq> CHR ''+'' \<and> c \<noteq> CHR ''/''"
  using b64_sextets_lt b64_char_range by (auto simp: b64_encode_sextets)

lemma b64std_round: "b64std_decode (b64std_encode s) = Some s"
proof -
  have "map (\<lambda>c. if c = CHR ''+'' then CHR ''-'' else if c = CHR ''/'' then CHR ''_'' else c)
      (map (\<lambda>c. if c = CHR ''-'' then CHR ''+'' else if c = CHR ''_'' then CHR ''/'' else c) (b64_encode s)) = b64_encode s"
    unfolding map_map using b64_encode_chars by (intro map_idI) (auto simp del: One_nat_def)
  moreover have "CHR ''-'' \<notin> set (b64std_encode s) \<and> CHR ''_'' \<notin> set (b64std_encode s)"
    by (auto simp: b64std_encode_def split: if_splits)
  ultimately show ?thesis by (simp add: b64std_decode_def b64std_encode_def)
qed

lemma b64std_printable: "printable (b64std_encode s)"
  using b64_encode_chars by (auto simp: printable_def list_all_iff b64std_encode_def byte_def)

lemma length_b64std: "length (b64std_encode s) = (4 * length s + 2) div 3"
  by (simp add: b64std_encode_def length_b64_encode)

lemma public_key_round: "length k = 32 \<Longrightarrow> decodePublicKey (encodePublicKey k) = Some k"
  by (simp add: decodePublicKey_def encodePublicKey_def length_b64std b64std_round)

lemma parse_show_int:
  assumes "0 \<le> n" "n < 2 ^ 63" shows "parse_int64 (show_int n) = Some n"
proof -
  have s: "show_int n = show_nat (nat n)" using assms(1) by (simp add: show_int_def)
  obtain c r where c: "show_nat (nat n) = c # r" "is_digit c" using show_nat_digits [of "nat n"] show_nat_nonempty [of "nat n"]
    by (cases "show_nat (nat n)") auto
  then have "c \<noteq> CHR ''-''" "c \<noteq> CHR ''+''" by (auto simp: is_digit_def byte_def)
  moreover have "list_all is_digit (c # r)" "digits_val (c # r) = nat n"
    using show_nat_digits [of "nat n"] digits_val_show [of "nat n"] c(1) by simp_all
  ultimately show ?thesis using assms by (simp add: parse_int64_def s c(1) Let_def)
qed

section \<open>What is signed verifies\<close>

lemma sign_fields:
  assumes "SignRequest E r controllerID targetID sk now nonce = Some r'"
  shows "fed_validID controllerID" "fed_validID targetID" "validNonce nonce"
    "header_get headerProtocol r' = FederationProtocol" "header_get headerControllerID r' = controllerID"
    "header_get headerTargetID r' = targetID" "header_get headerTimestamp r' = show_int (unix now)" "header_get headerNonce r' = nonce"
    "header_get headerSignature r' = b64std_encode (fe_sign E sk (canonicalRequest (fe_G E) (rq_Method r) (rq_EscapedPath r)
      controllerID targetID (show_int (unix now)) nonce))"
    "rq_Method r' = rq_Method r" "rq_EscapedPath r' = rq_EscapedPath r" "rq_Path r' = rq_Path r" "rq_RawQuery r' = rq_RawQuery r" "rq_RawPath r' = rq_RawPath r"
    "rq_ContentLength r' = rq_ContentLength r" "rq_TransferEncoding r' = rq_TransferEncoding r"
proof -
  have v: "fed_validID controllerID \<and> fed_validID targetID \<and> validNonce nonce"
    and r': "r' = header_set headerSignature (b64std_encode (fe_sign E sk (canonicalRequest (fe_G E) (rq_Method r) (rq_EscapedPath r)
          controllerID targetID (show_int (unix now)) nonce))) (header_set headerNonce nonce
          (header_set headerTimestamp (show_int (unix now)) (header_set headerTargetID targetID
            (header_set headerControllerID controllerID (header_set headerProtocol FederationProtocol r)))))"
    using assms by (auto simp: SignRequest_def Let_def split: if_splits)
  from v show "fed_validID controllerID" "fed_validID targetID" "validNonce nonce" by simp_all
  show "header_get headerProtocol r' = FederationProtocol" "header_get headerControllerID r' = controllerID"
    "header_get headerTargetID r' = targetID" "header_get headerTimestamp r' = show_int (unix now)" "header_get headerNonce r' = nonce"
    "header_get headerSignature r' = b64std_encode (fe_sign E sk (canonicalRequest (fe_G E) (rq_Method r) (rq_EscapedPath r)
      controllerID targetID (show_int (unix now)) nonce))"
    by (simp_all add: r' header_names)
  show "rq_Method r' = rq_Method r" "rq_EscapedPath r' = rq_EscapedPath r" "rq_Path r' = rq_Path r" "rq_RawQuery r' = rq_RawQuery r" "rq_RawPath r' = rq_RawPath r"
    "rq_ContentLength r' = rq_ContentLength r" "rq_TransferEncoding r' = rq_TransferEncoding r" by (simp_all add: r' header_set_def)
qed

lemma sign_verifies:
  assumes s: "SignRequest E r controllerID targetID sk now nonce = Some r'"
    and key: "length pk = 32" "\<And>m. fe_verify E pk m (fe_sign E sk m)" "\<And>m. length (fe_sign E sk m) = 64"
    and time: "1 \<le> unix now" "unix now < 2 ^ 63" "- (59 * Second) \<le> later - now" "later - now \<le> 59 * Second"
  shows "VerifyRequest E r' targetID pk later = Inr (controllerID, nonce)"
proof -
  let ?ts = "show_int (unix now)"
  let ?c = "canonicalRequest (fe_G E) (rq_Method r) (rq_EscapedPath r) controllerID targetID ?ts nonce"
  note v = sign_fields(1-3) [OF s] and h = sign_fields(4-) [OF s]
  have "printable ?ts" using time(1) show_nat_digits by (simp add: show_int_def digits_printable)
  then have t: "trim_space controllerID = controllerID" "trim_space targetID = targetID" "trim_space nonce = nonce"
    "trim_space ?ts = ?ts" "trim_space (b64std_encode (fe_sign E sk ?c)) = b64std_encode (fe_sign E sk ?c)"
    using v valid_id_printable nonce_printable b64std_printable printable_trim by blast+
  have p: "parse_int64 ?ts = Some (unix now)" using time by (intro parse_show_int) auto
  have "now - unix now * Second = now mod Second" by (simp add: unix_def minus_div_mult_eq_mod)
  moreover have "0 \<le> now mod Second" "now mod Second < Second" by (simp_all add: Second_def)
  ultimately have "\<not> later - unix now * Second < - (60 * Second)" "\<not> 60 * Second < later - unix now * Second"
    using time(3,4) by (auto simp: Second_def)
  moreover have "\<not> unix now < 1" using time(1) by simp
  ultimately show ?thesis
    using v key by (simp add: VerifyRequest_def Let_def h t p length_b64std b64std_round)
qed

text \<open>
  placeholder
\<close>

theorem signed_request_verifies:
  assumes "SignRequest E r controllerID targetID sk now nonce = Some r'"
    and "length pk = 32" "\<And>m. fe_verify E pk m (fe_sign E sk m)" "\<And>m. length (fe_sign E sk m) = 64"
    and "1 \<le> unix now" "unix now < 2 ^ 63" "- (59 * Second) \<le> later - now" "later - now \<le> 59 * Second"
  shows "VerifyRequest E r' targetID pk later = Inr (controllerID, nonce)"
  using assms by (rule sign_verifies)

definition demo_fed :: fed_env where
  "demo_fed = \<lparr>fe_G = demo_env, fe_sign = (\<lambda>sk m. replicate 64 (CHR ''s'')), fe_verify = (\<lambda>pk m s. s = replicate 64 (CHR ''s''))\<rparr>"

definition demo_id :: "char \<Rightarrow> string" where "demo_id c = replicate 32 c"

definition demo_request :: http_request where
  "demo_request = \<lparr>rq_Method = ''GET'', rq_Path = summaryPath, rq_EscapedPath = summaryPath, rq_RawQuery = [], rq_RawPath = [],
     rq_ContentLength = 0, rq_TransferEncoding = [], rq_Header = []\<rparr>"

definition demo_signed :: http_request where
  "demo_signed = the (SignRequest demo_fed demo_request (demo_id CHR ''a'') (demo_id CHR ''b'') (replicate 64 CHR ''k'') (100 * Second) (demo_id CHR ''c''))"

lemma demo_hex: "hex_decode (demo_id CHR ''a'') = Some (replicate 16 (char_of (170 :: nat)))"
  "hex_decode (demo_id CHR ''b'') = Some (replicate 16 (char_of (187 :: nat)))"
  "hex_decode (demo_id CHR ''c'') = Some (replicate 16 (char_of (204 :: nat)))"
  by code_simp+

lemma demo_ids: "fed_validID (demo_id CHR ''a'')" "fed_validID (demo_id CHR ''b'')" "validNonce (demo_id CHR ''c'')"
  by (simp_all add: fed_validID_def validNonce_def demo_hex) (simp_all add: demo_id_def)

lemma demo_signs: "SignRequest demo_fed demo_request (demo_id CHR ''a'') (demo_id CHR ''b'') (replicate 64 CHR ''k'') (100 * Second) (demo_id CHR ''c'') = Some demo_signed"
  by (simp add: demo_signed_def SignRequest_def Let_def demo_ids)

lemma signed_request_verifies_witness:
  "VerifyRequest demo_fed demo_signed (demo_id CHR ''b'') (replicate 32 CHR ''p'') (140 * Second) = Inr (demo_id CHR ''a'', demo_id CHR ''c'')"
  by (rule signed_request_verifies [OF demo_signs]) (simp_all add: demo_fed_def unix_def Second_def)

section \<open>What verifies was signed\<close>

lemma canonical_inject:
  assumes "canonicalRequest G m p c t s n = canonicalRequest G m' p' c' t' s' n'"
    and "\<forall>f\<in>set [to_upper (uni_upper G) m, p, c, t, s, n, to_upper (uni_upper G) m', p', c', t', s', n']. CHR 0x0A \<notin> set f"
  shows "to_upper (uni_upper G) m = to_upper (uni_upper G) m' \<and> p = p' \<and> c = c' \<and> t = t' \<and> s = s' \<and> n = n'"
proof -
  let ?h = "hex_encode (sha256 G [])"
  have "printable ?h" using hex_printable [of ?h] by simp
  then have h: "CHR 0x0A \<notin> set ?h" by (rule printable_newline)
  have l: "split_on (CHR 0x0A) (canonicalRequest G m p c t s n) = [to_upper (uni_upper G) m, p, c, t, s, n, ?h]"
    unfolding canonicalRequest_def newline_def by (rule split_on_join) (use assms(2) h in auto)
  have r: "split_on (CHR 0x0A) (canonicalRequest G m' p' c' t' s' n') = [to_upper (uni_upper G) m', p', c', t', s', n', ?h]"
    unfolding canonicalRequest_def newline_def by (rule split_on_join) (use assms(2) h in auto)
  from l r assms(1) show ?thesis by simp
qed

lemma verify_facts:
  assumes "VerifyRequest E r targetID pk now = Inr (controllerID, nonce)"
  shows "fed_validID controllerID \<and> validNonce nonce \<and> controllerID = trim_space (header_get headerControllerID r) \<and>
    nonce = trim_space (header_get headerNonce r) \<and> targetID = trim_space (header_get headerTargetID r) \<and>
    (\<exists>seconds signature. parse_int64 (trim_space (header_get headerTimestamp r)) = Some seconds \<and>
       \<bar>now - seconds * Second\<bar> \<le> 60 * Second \<and>
       fe_verify E pk (canonicalRequest (fe_G E) (rq_Method r) (rq_EscapedPath r) controllerID targetID (trim_space (header_get headerTimestamp r)) nonce) signature)"
  using assms by (auto simp: VerifyRequest_def Let_def split: if_splits option.splits)

lemma parse_newline: "parse_int64 s = Some n \<Longrightarrow> CHR 0x0A \<notin> set s"
proof -
  assume p: "parse_int64 s = Some n"
  let ?ds = "if s \<noteq> [] \<and> (hd s = CHR ''-'' \<or> hd s = CHR ''+'') then tl s else s"
  have "list_all is_digit ?ds" using p by (auto simp: parse_int64_def Let_def split: if_splits)
  then have "CHR 0x0A \<notin> set ?ds" using digits_printable printable_newline by blast
  then show ?thesis by (cases s) (auto split: if_splits)
qed


definition demo_strict :: fed_env where
  "demo_strict = demo_fed\<lparr>fe_verify := (\<lambda>pk m s. m = canonicalRequest demo_env ''GET'' summaryPath (demo_id CHR ''a'') (demo_id CHR ''b'') ''100'' (demo_id CHR ''c''))\<rparr>"

lemma demo_show_100: "show_int (unix (100 * Second)) = ''100''"
  by (simp add: unix_def Second_def) code_simp

lemma demo_verified: "VerifyRequest demo_strict demo_signed (demo_id CHR ''b'') (replicate 32 CHR ''p'') (140 * Second) = Inr (demo_id CHR ''a'', demo_id CHR ''c'')"
proof -
  have "VerifyRequest demo_fed demo_signed (demo_id CHR ''b'') (replicate 32 CHR ''p'') (140 * Second) = Inr (demo_id CHR ''a'', demo_id CHR ''c'')"
    by (rule sign_verifies [OF demo_signs]) (simp_all add: demo_fed_def unix_def Second_def)
  moreover have "trim_space ''100'' = ''100''" by code_simp
  ultimately show ?thesis using sign_fields(7,10,11) [OF demo_signs]
    by (auto simp: VerifyRequest_def Let_def demo_strict_def demo_fed_def demo_show_100 demo_request_def split: if_splits option.splits)
qed


section \<open>No request is served twice\<close>

lemma authenticate_facts:
  assumes "authenticate E nodeID cs r method path now = Inr (controllerID, nonce)"
  shows "controllerID = trim_space (header_get headerControllerID r) \<and> nonce = trim_space (header_get headerNonce r) \<and>
    (\<exists>seconds. parse_int64 (trim_space (header_get headerTimestamp r)) = Some seconds \<and> \<bar>now - seconds * Second\<bar> \<le> 60 * Second)"
  using assms by (auto simp: authenticate_def Let_def split: if_splits option.splits sum.splits dest!: verify_facts)

text \<open>Two times at which the same request passes are at most two minutes apart.\<close>

lemma authenticated_twice:
  assumes "authenticate E nodeID cs r method path t0 = Inr (c0, n0)" "authenticate E nodeID cs' r method' path' t1 = Inr (c1, n1)"
  shows "c1 = c0 \<and> n1 = n0 \<and> t1 \<le> t0 + 120 * Second"
  using authenticate_facts [OF assms(1)] authenticate_facts [OF assms(2)] by (auto simp: Second_def)

text \<open>
  C33: A signed request that was served once is refused when it is presented again, to the
  summary and to the revocation endpoint, whatever calls the replay guard answered in between:
  the lifetime of nonces covers the accepted clock difference.
\<close>

theorem signed_request_served_once:
  assumes "fd_replays s = guard_run (fe_G E) cs0 (newReplayGuard capacity per (5 * Minute))"
    and "SignedSummary E nodeID r t0 s = (Inr controllerID, s1)"
    and "fd_replays s2 = guard_run (fe_G E) cs (fd_replays s1)" "\<forall>c\<in>set cs. call_time c \<le> t1"
  shows "isl (fst (SignedSummary E nodeID r t1 s2)) \<and> isl (fst (SignedRevoke E nodeID r t1 grants saved s2))"
proof (cases "\<exists>cs path meth c n. authenticate E nodeID cs r meth path t1 = Inr (c, n)")
  case False
  have "isl (authenticate E nodeID cs r meth path t1)" for cs meth path
    using False by (cases "authenticate E nodeID cs r meth path t1") auto
  then show ?thesis by (auto simp: SignedSummary_def SignedRevoke_def split: sum.split prod.split) (metis isl_def sum.distinct(1))+
next
  case True
  obtain nonce l where a0: "authenticate E nodeID (fd_controllers s) r ''GET'' summaryPath t0 = Inr (controllerID, nonce)"
    and acc: "guard_Accept (fe_G E) (controllerV1Principal controllerID) nonce t0 (fd_replays s) = (None, fd_replays s1)"
    using assms(2) by (auto simp: SignedSummary_def split: sum.splits prod.splits if_splits option.splits)
  have near: "t1 \<le> t0 + 120 * Second" using True authenticated_twice [OF a0] by blast
  then have "\<forall>c\<in>set cs. call_time c < t0 + 5 * Minute" "t1 < t0 + 5 * Minute"
    using assms(4) by (auto simp: Minute_def Second_def)
  from accepted_then_refused [OF acc [unfolded assms(1)] this]
  have ref: "fst (guard_Accept (fe_G E) (controllerV1Principal controllerID) nonce t1 (fd_replays s2)) = Some CErrReplay"
    by (simp add: assms(3))
  have same: "c1 = controllerID \<and> n1 = nonce" if "authenticate E nodeID cs' r meth path t1 = Inr (c1, n1)" for cs' meth path c1 n1
    using authenticated_twice [OF a0 that] by blast
  show ?thesis
    using ref by (auto simp: SignedSummary_def SignedRevoke_def split: sum.split prod.split option.split dest!: same)
qed

definition demo_federation :: federation where
  "demo_federation = \<lparr>fd_controllers = [\<lparr>cr_ID = demo_id CHR ''a'', cr_Name = [], cr_PublicKey = encodePublicKey (replicate 32 CHR ''p''),
      cr_Fingerprint = [], cr_Scope = SummaryScope, cr_CreatedAt = 0, cr_LastSeenAt = None\<rparr>],
     fd_limiter = newFixedWindowLimiter 30 Minute 512, fd_replays = newReplayGuard 16 2 (5 * Minute)\<rparr>"

lemma signed_request_served_once_witness:
  "fst (SignedSummary demo_fed (demo_id CHR ''b'') demo_signed (140 * Second) demo_federation) = Inr (demo_id CHR ''a'') \<and>
   isl (fst (SignedSummary demo_fed (demo_id CHR ''b'') demo_signed (141 * Second)
     (snd (SignedSummary demo_fed (demo_id CHR ''b'') demo_signed (140 * Second) demo_federation))))"
proof -
  let ?r = "SignedSummary demo_fed (demo_id CHR ''b'') demo_signed (140 * Second) demo_federation"
  have v: "VerifyRequest demo_fed demo_signed (demo_id CHR ''b'') (replicate 32 CHR ''p'') (140 * Second) = Inr (demo_id CHR ''a'', demo_id CHR ''c'')"
    by (rule sign_verifies [OF demo_signs]) (simp_all add: demo_fed_def unix_def Second_def)
  have "authenticate demo_fed (demo_id CHR ''b'') (fd_controllers demo_federation) demo_signed ''GET'' summaryPath (140 * Second) =
      Inr (demo_id CHR ''a'', demo_id CHR ''c'')"
    using v sign_fields(5,10-) [OF demo_signs] printable_trim [OF valid_id_printable [OF demo_ids(1)]] demo_ids(1)
    by (simp add: authenticate_def demo_request_def demo_federation_def Controller_def public_key_round Let_def)
  then have ok: "fst ?r = Inr (demo_id CHR ''a'')"
    by (simp add: SignedSummary_def demo_federation_def limiter_Allow_def newFixedWindowLimiter_def guard_Accept_def newReplayGuard_def
        prune_guard.simps principal_count_def Let_def)
  then have s: "SignedSummary demo_fed (demo_id CHR ''b'') demo_signed (140 * Second) demo_federation = (Inr (demo_id CHR ''a''), snd ?r)"
    by (metis prod.collapse)
  have g: "fd_replays demo_federation = guard_run (fe_G demo_fed) [] (newReplayGuard 16 2 (5 * Minute))"
    by (simp add: guard_run_def demo_federation_def)
  have n: "fd_replays (snd ?r) = guard_run (fe_G demo_fed) [] (fd_replays (snd ?r))" by (simp add: guard_run_def)
  from signed_request_served_once [OF g s n] ok show ?thesis by simp
qed

end
