(* ===== verification/ReleaseVersion.thy ===== *)
theory ReleaseVersion
  imports GoEncodings StoreTypes "HOL-Library.Product_Lexorder"
begin

text \<open>
  \<open>internal/selfupdate/version.go\<close>: release versions, their normal form and their order, and the
  choice of a release in \<open>source.go\<close>. The order of the code is proved to be the linear order of a
  datatype of releases.
\<close>

section \<open>Parsing\<close>

record parsed_version =
  pv_core :: "nat list"
  pv_rc :: "nat option"

definition parseVersionNumber :: "string \<Rightarrow> bool \<Rightarrow> nat option" where
  "parseVersionNumber s allowZero =
     (if s = [] \<or> (1 < length s \<and> hd s = CHR ''0'') \<or> \<not> list_all is_digit s then None
      else let n = digits_val s in if 999999 < n \<or> (\<not> allowZero \<and> n = 0) then None else Some n)"

fun parse_parts :: "string list \<Rightarrow> nat list option" where
  "parse_parts [] = Some []"
| "parse_parts (p # ps) =
     (case parseVersionNumber p True of None \<Rightarrow> None | Some n \<Rightarrow> map_option ((#) n) (parse_parts ps))"

text \<open>The suffix behind the first hyphen.\<close>

definition parse_rc :: "string option \<Rightarrow> nat option option" where
  "parse_rc suf =
     (case suf of None \<Rightarrow> Some None
      | Some s \<Rightarrow>
          if \<not> has_prefix s ''rc.'' then None
          else (case parseVersionNumber (trim_prefix s ''rc.'') False of None \<Rightarrow> None
            | Some n \<Rightarrow> if n = 0 then None else Some (Some n)))"

definition parseReleaseVersion :: "string \<Rightarrow> (string \<times> parsed_version) option" where
  "parseReleaseVersion value0 =
     (let value = trim_space (trim_prefix value0 ''v'');
          (core, suf) = (case cut (CHR ''-'') value of None \<Rightarrow> (value, None) | Some (c, s) \<Rightarrow> (c, Some s)) in
      case parse_rc suf of None \<Rightarrow> None
      | Some rc \<Rightarrow>
          let parts = split_on (CHR ''.'') core in
          if length parts \<noteq> 3 then None
          else case parse_parts parts of None \<Rightarrow> None
          | Some ns \<Rightarrow>
              Some (join ''.'' parts @ (case rc of None \<Rightarrow> [] | Some n \<Rightarrow> ''-rc.'' @ show_nat n),
                \<lparr>pv_core = ns, pv_rc = rc\<rparr>))"

definition normalizeReleaseVersion :: "string \<Rightarrow> string" where
  "normalizeReleaseVersion v = (case parseReleaseVersion v of None \<Rightarrow> [] | Some (n, p) \<Rightarrow> n)"

definition normalizeStableVersion :: "string \<Rightarrow> string" where
  "normalizeStableVersion v = (case parseReleaseVersion v of None \<Rightarrow> [] | Some (n, p) \<Rightarrow> if pv_rc p \<noteq> None then [] else n)"

definition normalizePreviewVersion :: "string \<Rightarrow> string" where
  "normalizePreviewVersion v = (case parseReleaseVersion v of None \<Rightarrow> [] | Some (n, p) \<Rightarrow> if pv_rc p = None then [] else n)"

definition normalizeCurrentVersion :: "string \<Rightarrow> string" where
  "normalizeCurrentVersion v = normalizeReleaseVersion (trim_suffix (trim_space v) ''-dev'')"

definition normalizeImageDigest :: "string \<Rightarrow> string" where
  "normalizeImageDigest v0 =
     (let v = trim_space v0 in
      if length v \<noteq> 71 \<or> \<not> has_prefix v ''sha256:'' \<or> \<not> list_all is_lower_hex (trim_prefix v ''sha256:'') then [] else v)"

section \<open>Comparing\<close>

fun compare_core :: "nat list \<Rightarrow> nat list \<Rightarrow> int" where
  "compare_core (a # as) (b # bs) = (if a < b then - 1 else if b < a then 1 else compare_core as bs)"
| "compare_core _ _ = 0"

definition compareVersions :: "string \<Rightarrow> string \<Rightarrow> int" where
  "compareVersions left right =
     (case (parseReleaseVersion left, parseReleaseVersion right) of
        (None, None) \<Rightarrow> 0
      | (None, Some _) \<Rightarrow> - 1
      | (Some _, None) \<Rightarrow> 1
      | (Some (_, l), Some (_, r)) \<Rightarrow>
          if compare_core (pv_core l) (pv_core r) \<noteq> 0 then compare_core (pv_core l) (pv_core r)
          else (case (pv_rc l, pv_rc r) of
              (None, Some _) \<Rightarrow> 1
            | (Some _, None) \<Rightarrow> - 1
            | (Some a, Some b) \<Rightarrow> if a < b then - 1 else if b < a then 1 else 0
            | (None, None) \<Rightarrow> 0))"

section \<open>The order of releases\<close>

text \<open>What does not parse comes first; a release candidate comes before its release.\<close>

datatype release_rank = NoRelease | Candidate nat nat nat nat | Stable nat nat nat

fun release_key :: "release_rank \<Rightarrow> nat \<times> nat \<times> nat \<times> nat \<times> nat" where
  "release_key NoRelease = (0, 0, 0, 0, 0)"
| "release_key (Candidate a b c n) = (Suc a, b, c, 0, n)"
| "release_key (Stable a b c) = (Suc a, b, c, 1, 0)"

lemma release_key_inject: "release_key x = release_key y \<Longrightarrow> x = y"
  by (cases x; cases y) auto

instantiation release_rank :: linorder
begin

definition less_eq_release_rank :: "release_rank \<Rightarrow> release_rank \<Rightarrow> bool" where "x \<le> y = (release_key x \<le> release_key y)"
definition less_release_rank :: "release_rank \<Rightarrow> release_rank \<Rightarrow> bool" where "x < y = (release_key x < release_key y)"

instance
  by standard (auto simp: less_eq_release_rank_def less_release_rank_def dest: release_key_inject)

end

definition release_of :: "string \<Rightarrow> release_rank" where
  "release_of v =
     (case parseReleaseVersion v of None \<Rightarrow> NoRelease
      | Some (_, p) \<Rightarrow>
          (let a = pv_core p ! 0; b = pv_core p ! 1; c = pv_core p ! 2 in
           case pv_rc p of None \<Rightarrow> Stable a b c | Some n \<Rightarrow> Candidate a b c n))"

section \<open>Normal forms\<close>

lemma show_digits_val:
  "s \<noteq> [] \<Longrightarrow> list_all is_digit s \<Longrightarrow> \<not> (1 < length s \<and> hd s = CHR ''0'') \<Longrightarrow> show_nat (digits_val s) = s"
proof (induction s rule: rev_induct)
  case (snoc d s)
  have d: "48 \<le> byte d" "byte d \<le> 57" using snoc.prems(2) by (auto simp: is_digit_def)
  then have c: "char_of (48 + (byte d - 48)) = d" by simp
  show ?case
  proof (cases s)
    case Nil
    moreover have "byte d - 48 < 10" using d by auto
    ultimately show ?thesis using c by (subst show_nat.simps) (simp add: digits_val_def)
  next
    case (Cons e r)
    have ih: "show_nat (digits_val s) = s" using snoc Cons by auto
    have "0 < digits_val s"
    proof (rule ccontr)
      assume "\<not> 0 < digits_val s"
      moreover have "show_nat 0 = ''0''" by code_simp
      ultimately have "s = ''0''" using ih by simp
      with snoc.prems(3) show False by simp
    qed
    then have big: "\<not> 10 * digits_val s + (byte d - 48) < 10" by simp
    have split: "(10 * k + m) div 10 = k \<and> (10 * k + m) mod 10 = m" if "m < 10" for k m :: nat using that by simp
    have "byte d - 48 < 10" using d by auto
    note split [OF this, of "digits_val s"]
    then show ?thesis using big ih c unfolding digits_val_snoc show_nat.simps [of "10 * digits_val s + (byte d - 48)"] by (simp only: if_False)
  qed
qed simp

lemma parse_number_show: "parseVersionNumber s z = Some n \<Longrightarrow> s = show_nat n"
  using show_digits_val [of s] by (auto simp: parseVersionNumber_def Let_def split: if_splits)

lemma parse_number_bound: "parseVersionNumber s z = Some n \<Longrightarrow> n \<le> 999999 \<and> (z \<or> 0 < n)"
  by (auto simp: parseVersionNumber_def Let_def split: if_splits)

lemma parse_number_of_show: "n \<le> 999999 \<Longrightarrow> z \<or> 0 < n \<Longrightarrow> parseVersionNumber (show_nat n) z = Some n"
proof -
  assume n: "n \<le> 999999" "z \<or> 0 < n"
  have "\<not> (1 < length (show_nat n) \<and> hd (show_nat n) = CHR ''0'')"
    using hd_show_nat [of n] length_show_nat_one [of n] by auto
  then show ?thesis using n show_nat_digits [of n] show_nat_nonempty [of n] by (auto simp: parseVersionNumber_def Let_def)
qed

definition core_ok :: "parsed_version \<Rightarrow> bool" where
  "core_ok p = (length (pv_core p) = 3 \<and> (\<forall>n\<in>set (pv_core p). n \<le> 999999) \<and>
     (case pv_rc p of None \<Rightarrow> True | Some n \<Rightarrow> 0 < n \<and> n \<le> 999999))"

definition show_version :: "parsed_version \<Rightarrow> string" where
  "show_version p = join ''.'' (map show_nat (pv_core p)) @ (case pv_rc p of None \<Rightarrow> [] | Some n \<Rightarrow> ''-rc.'' @ show_nat n)"

lemma parse_parts_show: "parse_parts ps = Some ns \<Longrightarrow> ps = map show_nat ns \<and> (\<forall>n\<in>set ns. n \<le> 999999)"
  by (induction ps arbitrary: ns) (auto dest: parse_number_show parse_number_bound split: option.splits)

lemma parse_parts_of_show: "\<forall>n\<in>set ns. n \<le> 999999 \<Longrightarrow> parse_parts (map show_nat ns) = Some ns"
  by (induction ns) (auto simp: parse_number_of_show)

lemma parsed_is_shown:
  assumes "parseReleaseVersion v = Some (n, p)" shows "n = show_version p \<and> core_ok p"
proof -
  obtain core suf rc where s: "parse_rc suf = Some rc" "length (split_on (CHR ''.'') core) = 3"
    "parse_parts (split_on (CHR ''.'') core) = Some (pv_core p)" "pv_rc p = rc"
    "n = join ''.'' (split_on (CHR ''.'') core) @ (case rc of None \<Rightarrow> [] | Some k \<Rightarrow> ''-rc.'' @ show_nat k)"
    using assms by (auto simp: parseReleaseVersion_def Let_def split: option.splits prod.splits if_splits)
  have "case rc of None \<Rightarrow> True | Some k \<Rightarrow> 0 < k \<and> k \<le> 999999"
    using s(1) by (auto simp: parse_rc_def dest: parse_number_bound split: option.splits if_splits)
  moreover have ps: "split_on (CHR ''.'') core = map show_nat (pv_core p)" "\<forall>k\<in>set (pv_core p). k \<le> 999999"
    using parse_parts_show [OF s(3)] by simp_all
  moreover have "length (pv_core p) = 3" using s(2) ps(1) by simp
  ultimately show ?thesis using s(4,5) by (simp add: core_ok_def show_version_def ps(1))
qed

lemma core_parts:
  assumes "core_ok p"
  obtains a b c where "pv_core p = [a, b, c]" "a \<le> 999999" "b \<le> 999999" "c \<le> 999999"
proof -
  from assms have "length (pv_core p) = 3" by (simp add: core_ok_def)
  then obtain a b c where "pv_core p = [a, b, c]" by (auto simp: numeral_3_eq_3 length_Suc_conv)
  with that assms show thesis by (simp add: core_ok_def)
qed

lemma digits_free: "list_all is_digit s \<Longrightarrow> \<not> is_digit c \<Longrightarrow> c \<notin> set s"
  by (auto simp: list_all_iff)

lemma not_digits [simp]: "\<not> is_digit (CHR ''.'')" "\<not> is_digit (CHR ''-'')" "\<not> is_digit (CHR ''v'')"
  by (simp_all add: is_digit_def byte_def)

lemma parse_steps:
  assumes "trim_space (trim_prefix v ''v'') = w" "(case cut (CHR ''-'') w of None \<Rightarrow> (w, None) | Some (c, s) \<Rightarrow> (c, Some s)) = (core, suf)"
    and "parse_rc suf = Some rc" "split_on (CHR ''.'') core = parts" "length parts = 3" "parse_parts parts = Some ns"
  shows "parseReleaseVersion v = Some (join ''.'' parts @ (case rc of None \<Rightarrow> [] | Some n \<Rightarrow> ''-rc.'' @ show_nat n), \<lparr>pv_core = ns, pv_rc = rc\<rparr>)"
  using assms by (simp add: parseReleaseVersion_def Let_def)

lemma shown_parses:
  assumes ok: "core_ok p" shows "parseReleaseVersion (show_version p) = Some (show_version p, p)"
proof -
  obtain a b c where p: "pv_core p = [a, b, c]" and le: "a \<le> 999999" "b \<le> 999999" "c \<le> 999999" using core_parts [OF ok] .
  let ?core = "join ''.'' [show_nat a, show_nat b, show_nat c]"
  let ?rc = "case pv_rc p of None \<Rightarrow> [] | Some n \<Rightarrow> ''-rc.'' @ show_nat n"
  have s: "show_version p = ?core @ ?rc" by (simp add: show_version_def p)
  obtain e r where e: "show_nat a = e # r" "is_digit e" using show_nat_digits [of a] show_nat_nonempty [of a] by (cases "show_nat a") auto
  have "e \<noteq> CHR ''v''" using e(2) not_digits by auto
  then have v: "trim_prefix (show_version p) ''v'' = show_version p" by (simp add: trim_prefix_def has_prefix_def s e(1))
  have "printable ?core" using show_nat_digits digits_printable by (simp add: printable_def byte_def)
  moreover have "printable ?rc" using show_nat_digits digits_printable by (simp add: printable_def byte_def split: option.split)
  ultimately have "printable (show_version p)" unfolding s by (simp only: printable_append)
  then have t: "trim_space (show_version p) = show_version p" by (rule printable_trim)
  have nohyphen: "CHR ''-'' \<notin> set ?core" using digits_free [OF show_nat_digits] by auto
  have sp: "split_on (CHR ''.'') ?core = [show_nat a, show_nat b, show_nat c]"
    by (rule split_on_join) (use digits_free [OF show_nat_digits] in auto)
  have pp: "parse_parts [show_nat a, show_nat b, show_nat c] = Some [a, b, c]"
    using parse_parts_of_show [of "[a, b, c]"] le by simp
  have w: "trim_space (trim_prefix (show_version p) ''v'') = show_version p" unfolding v by (rule t)
  have rec: "\<lparr>pv_core = [a, b, c], pv_rc = pv_rc p\<rparr> = p" using p by simp
  show ?thesis
  proof (cases "pv_rc p")
    case None
    have "show_version p = ?core" using None by (simp add: s)
    then have "(case cut (CHR ''-'') (show_version p) of None \<Rightarrow> (show_version p, None) | Some (c, s) \<Rightarrow> (c, Some s)) = (?core, None)"
      using nohyphen cut_none [of "CHR ''-''" ?core] by simp
    moreover have "parse_rc None = Some (pv_rc p)" by (simp add: parse_rc_def None)
    ultimately have "parseReleaseVersion (show_version p) = Some (?core @ ?rc, \<lparr>pv_core = [a, b, c], pv_rc = pv_rc p\<rparr>)"
      by (intro parse_steps [OF w _ _ sp _ pp]) simp_all
    then show ?thesis unfolding rec s [symmetric] .
  next
    case (Some n)
    have n: "0 < n" "n \<le> 999999" using ok Some by (simp_all add: core_ok_def)
    have "show_version p = ?core @ CHR ''-'' # ''rc.'' @ show_nat n" unfolding s using Some by simp
    then have "cut (CHR ''-'') (show_version p) = Some (?core, ''rc.'' @ show_nat n)" using cut_append [OF nohyphen] by metis
    then have "(case cut (CHR ''-'') (show_version p) of None \<Rightarrow> (show_version p, None) | Some (c, s) \<Rightarrow> (c, Some s)) = (?core, Some (''rc.'' @ show_nat n))"
      by simp
    moreover have "parse_rc (Some (''rc.'' @ show_nat n)) = Some (pv_rc p)"
      using n parse_number_of_show [of n False] by (simp add: parse_rc_def trim_prefix_def has_prefix_def Some)
    ultimately have "parseReleaseVersion (show_version p) = Some (?core @ ?rc, \<lparr>pv_core = [a, b, c], pv_rc = pv_rc p\<rparr>)"
      by (intro parse_steps [OF w _ _ sp _ pp]) simp_all
    then show ?thesis unfolding rec s [symmetric] .
  qed
qed

lemma normalize_idem: "normalizeReleaseVersion (normalizeReleaseVersion v) = normalizeReleaseVersion v"
proof (cases "parseReleaseVersion v")
  case None
  have "parseReleaseVersion [] = None"
    by (simp add: parseReleaseVersion_def trim_prefix_def has_prefix_def trim_space_def trim_left_codes.simps space_codes_def
        starts_with_code_def cut_def parse_rc_def)
  with None show ?thesis by (simp add: normalizeReleaseVersion_def)
next
  case (Some np)
  then obtain n p where np: "parseReleaseVersion v = Some (n, p)" by (cases np) auto
  from parsed_is_shown [OF this] shown_parses np show ?thesis by (simp add: normalizeReleaseVersion_def)
qed

lemma release_of_inject:
  assumes "parseReleaseVersion v = Some (n, p)" "parseReleaseVersion w = Some (k, q)" "release_of v = release_of w"
  shows "p = q \<and> n = k"
proof -
  note f = parsed_is_shown [OF assms(1)] parsed_is_shown [OF assms(2)]
  obtain a b c a' b' c' where pq: "pv_core p = [a, b, c]" "pv_core q = [a', b', c']" using f core_parts by metis
  have "pv_core p = pv_core q \<and> pv_rc p = pv_rc q"
    using assms pq by (simp add: release_of_def split: option.splits)
  then show ?thesis using f by (simp add: show_version_def)
qed

lemma compare_key:
  assumes "parseReleaseVersion v = Some (n, p)" "parseReleaseVersion w = Some (k, q)"
  shows "compareVersions v w = (if release_of v < release_of w then - 1 else if release_of w < release_of v then 1 else 0)"
proof -
  note f = parsed_is_shown [OF assms(1)] parsed_is_shown [OF assms(2)]
  obtain a b c a' b' c' where pq: "pv_core p = [a, b, c]" "pv_core q = [a', b', c']" using f core_parts by metis
  show ?thesis
    using assms pq
    by (cases "pv_rc p"; cases "pv_rc q") (auto simp: compareVersions_def release_of_def less_release_rank_def less_prod_def')
qed

lemma release_of_none: "release_of v = NoRelease \<longleftrightarrow> parseReleaseVersion v = None"
  by (auto simp: release_of_def Let_def split: option.splits)

lemma parse_empty: "parseReleaseVersion [] = None"
  by (simp add: parseReleaseVersion_def trim_prefix_def has_prefix_def trim_space_def trim_left_codes.simps space_codes_def
      starts_with_code_def cut_def parse_rc_def)

lemma release_of_normalize: "release_of (normalizeReleaseVersion v) = release_of v"
proof (cases "parseReleaseVersion v")
  case None
  then show ?thesis using parse_empty by (simp add: normalizeReleaseVersion_def release_of_def)
next
  case (Some np)
  then obtain n p where np: "parseReleaseVersion v = Some (n, p)" by (cases np) auto
  from parsed_is_shown [OF this] have "parseReleaseVersion n = Some (n, p)" using shown_parses by simp
  with np show ?thesis by (simp add: normalizeReleaseVersion_def release_of_def)
qed

lemma release_of_eq: "release_of v = release_of w \<longleftrightarrow> normalizeReleaseVersion v = normalizeReleaseVersion w"
proof
  assume eq: "release_of v = release_of w"
  show "normalizeReleaseVersion v = normalizeReleaseVersion w"
  proof (cases "parseReleaseVersion v")
    case None
    then have "parseReleaseVersion w = None" using eq release_of_none by metis
    with None show ?thesis by (simp add: normalizeReleaseVersion_def)
  next
    case (Some np)
    then obtain kq where "parseReleaseVersion w = Some kq" using eq release_of_none by (metis not_None_eq)
    with Some eq show ?thesis using release_of_inject by (cases np; cases kq) (simp add: normalizeReleaseVersion_def)
  qed
qed (metis release_of_normalize)

lemma compare_release:
  "compareVersions v w = (if release_of v < release_of w then - 1 else if release_of w < release_of v then 1 else 0)"
proof (cases "parseReleaseVersion v = None \<or> parseReleaseVersion w = None")
  case True
  have low: "NoRelease < x" if "x \<noteq> NoRelease" for x using that by (cases x) (simp_all add: less_release_rank_def less_prod_def')
  have n: "compareVersions v w = (if parseReleaseVersion v = None then if parseReleaseVersion w = None then 0 else - 1 else 1)"
    using True by (auto simp: compareVersions_def split: option.splits prod.splits)
  consider "parseReleaseVersion v = None" "parseReleaseVersion w = None" | "parseReleaseVersion v = None" "parseReleaseVersion w \<noteq> None"
    | "parseReleaseVersion v \<noteq> None" "parseReleaseVersion w = None" using True by argo
  then show ?thesis
  proof cases
    case 1
    then have "release_of v = NoRelease" "release_of w = NoRelease" using release_of_none by blast+
    then show ?thesis using 1 by (simp add: n)
  next
    case 2
    then have "release_of v < release_of w" using low release_of_none by metis
    then show ?thesis using 2 by (simp add: n)
  next
    case 3
    then have "release_of w < release_of v" using low release_of_none by metis
    then show ?thesis using 3 by (auto simp: n dest: less_asym)
  qed
next
  case False
  then obtain np kq where "parseReleaseVersion v = Some np" "parseReleaseVersion w = Some kq" by auto
  then show ?thesis using compare_key by (cases np; cases kq) blast
qed

lemma compare_zero: "compareVersions v w = 0 \<longleftrightarrow> release_of v = release_of w"
  unfolding compare_release using less_linear [of "release_of v" "release_of w"] by auto

text \<open>
  C34: compareVersions computes the linear order of releases (unparsable texts first, a release
  candidate before its release), two texts compare equal exactly when they have the same normal
  form, and normal forms are fixed.
\<close>

theorem versions_ordered:
  "compareVersions v w = (if release_of v < release_of w then - 1 else if release_of w < release_of v then 1 else 0) \<and>
   (compareVersions v w = 0 \<longleftrightarrow> normalizeReleaseVersion v = normalizeReleaseVersion w) \<and>
   normalizeReleaseVersion (normalizeReleaseVersion v) = normalizeReleaseVersion v"
  using compare_release compare_zero release_of_eq normalize_idem by simp

end
