(* ===== verification/ReleaseNotes.thy ===== *)
theory ReleaseNotes
  imports ReleaseVersion
begin

text \<open>
  The release notes of \<open>internal/selfupdate\<close>: their plain form and the reader of the notes in the body of a release
  (\<open>plainReleaseNote\<close>, \<open>parseReleaseNotes\<close> of \<open>source.go\<close>), and the normalised lists of \<open>service.go\<close>.
\<close>

section \<open>Strings\<close>

text \<open>\<open>utf8.RuneCountInString\<close>, and \<open>string([]rune(s)[:n])\<close>: an invalid byte is one rune, U+FFFD.\<close>

function count_runes :: "string \<Rightarrow> nat" where
  "count_runes s = (if s = [] then 0 else case decode_rune s of Some (n, r) \<Rightarrow> Suc (count_runes r) | None \<Rightarrow> Suc (count_runes (tl s)))"
  by pat_completeness auto
termination by (relation "measure length") (auto dest: decode_rune_shorter)

declare count_runes.simps [simp del]

fun take_runes :: "nat \<Rightarrow> string \<Rightarrow> string" where
  "take_runes 0 s = []"
| "take_runes (Suc n) s =
     (if s = [] then []
      else case decode_rune s of
        Some (_, r) \<Rightarrow> take (length s - length r) s @ take_runes n r
      | None \<Rightarrow> [CHR 0xEF, CHR 0xBF, CHR 0xBD] @ take_runes n (tl s))"

text \<open>\<open>strings.ReplaceAll(s, old, "")\<close> for a non-empty \<open>old\<close>.\<close>

function remove_all :: "string \<Rightarrow> string \<Rightarrow> string" where
  "remove_all old s =
     (if s = [] then []
      else if old \<noteq> [] \<and> has_prefix s old then remove_all old (drop (length old) s)
      else hd s # remove_all old (tl s))"
  by pat_completeness auto
termination by (relation "measure (\<lambda>(old, s). length s)") auto

declare remove_all.simps [simp del]

text \<open>\<open>strings.Fields\<close>.\<close>

definition space_here :: "string \<Rightarrow> bool" where
  "space_here s = list_ex (\<lambda>w. starts_with_code w s) space_codes"

fun word_of :: "string \<Rightarrow> string" where
  "word_of [] = []"
| "word_of (c # s) = (if space_here (c # s) then [] else c # word_of s)"

lemma length_word_of: "length (word_of s) \<le> length s"
  by (induction s) auto

lemma word_of_nonempty: "s \<noteq> [] \<Longrightarrow> \<not> space_here s \<Longrightarrow> word_of s \<noteq> []"
  by (cases s) auto

function fields :: "string \<Rightarrow> string list" where
  "fields s =
     (let t = trim_left_codes space_codes s in
      if t = [] \<or> space_here t then []
      else word_of t # fields (drop (length (word_of t)) t))"
  by pat_completeness auto
termination
proof (relation "measure length", simp, goal_cases)
  case (1 s t)
  then have "length t \<le> length s" "t \<noteq> []" "word_of t \<noteq> []" using word_of_nonempty by (simp_all add: length_trim_left)
  then show ?case by (simp flip: length_greater_0_conv)
qed

declare fields.simps [simp del]

section \<open>The plain form of a note\<close>

definition maxReleaseNotes :: nat where "maxReleaseNotes = 8"
definition maxUpgradeNotes :: nat where "maxUpgradeNotes = 3"
definition maxReleaseNoteRunes :: nat where "maxReleaseNoteRunes = 280"

text \<open>
  A match of the pattern for Markdown links at the front of a string: one to 200 runes other than
  the closing bracket, then a parenthesised target of at least one character on the same line. The
  result is the text of the link and what follows it.
\<close>

definition match_link :: "string \<Rightarrow> (string \<times> string) option" where
  "match_link s =
     (if s = [] \<or> hd s \<noteq> CHR ''['' then None
      else
        let label = takeWhile (\<lambda>c. c \<noteq> CHR '']'') (tl s);
            after = drop (Suc (length label)) s in
        if count_runes label < 1 \<or> 200 < count_runes label \<or> \<not> has_prefix after ''](''
        then None
        else
          let target = takeWhile (\<lambda>c. byte c \<noteq> 13 \<and> byte c \<noteq> 10 \<and> c \<noteq> CHR '')'') (drop 2 after);
              tail1 = drop (2 + length target) after in
          if target = [] \<or> \<not> has_prefix tail1 '')'' then None else Some (label, drop 1 tail1))"

lemma match_link_shorter: "match_link s = Some (l, r) \<Longrightarrow> length r < length s"
  by (auto simp: match_link_def Let_def split: if_splits)

function replace_links :: "string \<Rightarrow> string" where
  "replace_links s =
     (if s = [] then []
      else case match_link s of Some (l, r) \<Rightarrow> l @ replace_links r | None \<Rightarrow> hd s # replace_links (tl s))"
  by pat_completeness auto
termination by (relation "measure length") (auto dest: match_link_shorter)

declare replace_links.simps [simp del]

definition ellipsis :: string where "ellipsis = [CHR 0xE2, CHR 0x80, CHR 0xA6]"

definition plainReleaseNote :: "string \<Rightarrow> string" where
  "plainReleaseNote v0 =
     (let v = join '' '' (fields (remove_all ''`'' (remove_all ''__'' (remove_all ''**'' (replace_links v0))))) in
      if maxReleaseNoteRunes < count_runes v then trim_space (take_runes (maxReleaseNoteRunes - 1) v) @ ellipsis else v)"

definition validReleaseNoteKind :: "string \<Rightarrow> bool" where
  "validReleaseNoteKind k = (k \<in> {''added'', ''changed'', ''fixed'', ''security'', ''performance'', ''compatibility''})"

definition normalizedReleaseNotes :: "(string \<times> string) list \<Rightarrow> nat \<Rightarrow> (string \<times> string) list" where
  "normalizedReleaseNotes values limit =
     take limit (filter (\<lambda>n. snd n \<noteq> []) (map (\<lambda>n. (fst n, plainReleaseNote (snd n))) (filter (\<lambda>n. validReleaseNoteKind (fst n)) values)))"

definition normalizedUpgradeNotes :: "string list \<Rightarrow> nat \<Rightarrow> string list" where
  "normalizedUpgradeNotes values limit = take limit (filter (\<lambda>t. t \<noteq> []) (map plainReleaseNote values))"

definition officialReleaseURL :: "string \<Rightarrow> string" where
  "officialReleaseURL version =
     (let n = normalizeReleaseVersion version in
      if n = [] then [] else ''https://github.com/kejilion/KPanel/releases/tag/v'' @ n)"

text \<open>The plain form is not always a fixed point: removing one marker can put another together.\<close>

lemma plain_not_idempotent:
  "plainReleaseNote ''*_`_*'' = ''*__*'' \<and> plainReleaseNote ''*__*'' = ''**'' \<and> plainReleaseNote ''**'' = []"
  by code_simp

section \<open>Reading the body of a release\<close>

text \<open>The headings, in UTF-8: Chinese and English.\<close>

definition added_headings :: "string set" where
  "added_headings =
     {[CHR 0xE6, CHR 0x96, CHR 0xB0, CHR 0xE5, CHR 0xA2, CHR 0x9E],
      ''added'',
      ''new''}"

definition changed_headings :: "string set" where
  "changed_headings =
     {[CHR 0xE5, CHR 0x8F, CHR 0x98, CHR 0xE6, CHR 0x9B, CHR 0xB4],
      ''changed'',
      [CHR 0xE6, CHR 0x94, CHR 0xB9, CHR 0xE8, CHR 0xBF, CHR 0x9B],
      ''improved'',
      [CHR 0xE6, CHR 0x96, CHR 0xB0, CHR 0xE5, CHR 0xA2, CHR 0x9E, CHR 0xE4, CHR 0xB8, CHR 0x8E, CHR 0xE6, CHR 0x94, CHR 0xB9, CHR 0xE8, CHR 0xBF, CHR 0x9B],
      [CHR 0xE6, CHR 0x96, CHR 0xB0, CHR 0xE5, CHR 0xA2, CHR 0x9E, CHR 0xE4, CHR 0xB8, CHR 0x8E, CHR 0xE4, CHR 0xBF, CHR 0xAE, CHR 0xE5, CHR 0xA4, CHR 0x8D],
      [CHR 0xE6, CHR 0x96, CHR 0x87, CHR 0xE6, CHR 0xA1, CHR 0xA3],
      ''documentation'',
      [CHR 0xE5, CHR 0xBC, CHR 0x83, CHR 0xE7, CHR 0x94, CHR 0xA8],
      ''deprecated'',
      [CHR 0xE7, CHR 0xA7, CHR 0xBB, CHR 0xE9, CHR 0x99, CHR 0xA4],
      ''removed''}"

definition fixed_headings :: "string set" where
  "fixed_headings =
     {[CHR 0xE4, CHR 0xBF, CHR 0xAE, CHR 0xE5, CHR 0xA4, CHR 0x8D],
      ''fixed'',
      ''bug fixes'',
      [CHR 0xE4, CHR 0xBF, CHR 0xAE, CHR 0xE5, CHR 0xA4, CHR 0x8D, CHR 0xE4, CHR 0xB8, CHR 0x8E, CHR 0xE6, CHR 0x95, CHR 0xB4, CHR 0xE7, CHR 0x90, CHR 0x86],
      [CHR 0xE4, CHR 0xBF, CHR 0xAE, CHR 0xE5, CHR 0xA4, CHR 0x8D, CHR 0xE4, CHR 0xB8, CHR 0x8E, CHR 0xE6, CHR 0x94, CHR 0xB9, CHR 0xE8, CHR 0xBF, CHR 0x9B]}"

definition security_headings :: "string set" where
  "security_headings =
     {[CHR 0xE5, CHR 0xAE, CHR 0x89, CHR 0xE5, CHR 0x85, CHR 0xA8],
      ''security''}"

definition performance_headings :: "string set" where
  "performance_headings =
     {[CHR 0xE6, CHR 0x80, CHR 0xA7, CHR 0xE8, CHR 0x83, CHR 0xBD],
      ''performance''}"

definition compatibility_headings :: "string set" where
  "compatibility_headings =
     {[CHR 0xE5, CHR 0x85, CHR 0xBC, CHR 0xE5, CHR 0xAE, CHR 0xB9, CHR 0xE6, CHR 0x80, CHR 0xA7],
      ''compatibility''}"

definition notes_headings :: "string set" where
  "notes_headings =
     {[CHR 0xE7, CHR 0x89, CHR 0x88, CHR 0xE6, CHR 0x9C, CHR 0xAC, CHR 0xE6, CHR 0x9B, CHR 0xB4, CHR 0xE6, CHR 0x96, CHR 0xB0, CHR 0xE5, CHR 0x86, CHR 0x85, CHR 0xE5, CHR 0xAE, CHR 0xB9],
      [CHR 0xE6, CHR 0x9B, CHR 0xB4, CHR 0xE6, CHR 0x96, CHR 0xB0, CHR 0xE5, CHR 0x86, CHR 0x85, CHR 0xE5, CHR 0xAE, CHR 0xB9],
      ''release notes'',
      ''what's changed''}"

definition upgrade_headings :: "string set" where
  "upgrade_headings =
     {[CHR 0xE5, CHR 0x8D, CHR 0x87, CHR 0xE7, CHR 0xBA, CHR 0xA7, CHR 0xE6, CHR 0xB3, CHR 0xA8, CHR 0xE6, CHR 0x84, CHR 0x8F, CHR 0xE4, CHR 0xBA, CHR 0x8B, CHR 0xE9, CHR 0xA1, CHR 0xB9],
      ''upgrade notes'',
      ''breaking changes'',
      [CHR 0xE4, CHR 0xBD, CHR 0xBF, CHR 0xE7, CHR 0x94, CHR 0xA8, CHR 0xE4, CHR 0xB8, CHR 0x8E, CHR 0xE5, CHR 0x8D, CHR 0x87, CHR 0xE7, CHR 0xBA, CHR 0xA7, CHR 0xE6, CHR 0xB3, CHR 0xA8, CHR 0xE6, CHR 0x84, CHR 0x8F]}"

text \<open>\<open>uni\<close> is \<open>strings.ToLower\<close> on a string that is not ASCII.\<close>

definition releaseNoteKind :: "(string \<Rightarrow> string) \<Rightarrow> string \<Rightarrow> string" where
  "releaseNoteKind uni heading =
     (let h = to_lower uni (trim_space heading) in
      if h \<in> added_headings then ''added''
      else if h \<in> changed_headings then ''changed''
      else if h \<in> fixed_headings then ''fixed''
      else if h \<in> security_headings then ''security''
      else if h \<in> performance_headings then ''performance''
      else if h \<in> compatibility_headings then ''compatibility''
      else [])"

definition isReleaseNotesHeading :: "(string \<Rightarrow> string) \<Rightarrow> string \<Rightarrow> bool" where
  "isReleaseNotesHeading uni heading = (to_lower uni (trim_space heading) \<in> notes_headings)"

definition isUpgradeNotesHeading :: "(string \<Rightarrow> string) \<Rightarrow> string \<Rightarrow> bool" where
  "isUpgradeNotesHeading uni heading = (to_lower uni (trim_space heading) \<in> upgrade_headings)"

definition markdownHeading :: "string \<Rightarrow> string option" where
  "markdownHeading line =
     (let level = length (takeWhile (\<lambda>c. c = CHR ''#'') line) in
      if level < 2 \<or> 6 < level \<or> length line \<le> level \<or> line ! level \<noteq> CHR '' '' then None
      else
        let heading = trim_space (rev (dropWhile (\<lambda>c. c = CHR ''#'') (rev (trim_space (drop (Suc level) line))))) in
        if heading = [] then None else Some heading)"

definition markdownBulletText :: "string \<Rightarrow> string option" where
  "markdownBulletText line =
     (if length line < 3 \<or> (line ! 0 \<noteq> CHR ''-'' \<and> line ! 0 \<noteq> CHR ''*'') \<or> line ! 1 \<noteq> CHR '' '' then None
      else Some (trim_space (drop 2 line)))"

record notes_reader =
  nr_notes :: "(string \<times> string) list"
  nr_upgradeNotes :: "string list"
  nr_kind :: string
  nr_inUpgradeNotes :: bool

text \<open>One line of the body.\<close>

definition read_line :: "(string \<Rightarrow> string) \<Rightarrow> string \<Rightarrow> notes_reader \<Rightarrow> notes_reader" where
  "read_line uni rawLine r =
     (let line = trim_space (trim_suffix rawLine [CHR 0x0D]) in
      case markdownHeading line of
        Some heading \<Rightarrow>
          if releaseNoteKind uni heading \<noteq> [] then r\<lparr>nr_kind := releaseNoteKind uni heading, nr_inUpgradeNotes := False\<rparr>
          else if isUpgradeNotesHeading uni heading then r\<lparr>nr_kind := [], nr_inUpgradeNotes := True\<rparr>
          else if \<not> isReleaseNotesHeading uni heading then r\<lparr>nr_kind := [], nr_inUpgradeNotes := False\<rparr>
          else r
      | None \<Rightarrow>
          (case markdownBulletText line of None \<Rightarrow> r
           | Some text0 \<Rightarrow>
               let text1 = plainReleaseNote text0 in
               if text1 = [] then r
               else if nr_inUpgradeNotes r \<and> length (nr_upgradeNotes r) < maxUpgradeNotes
                 then r\<lparr>nr_upgradeNotes := nr_upgradeNotes r @ [text1]\<rparr>
               else if nr_kind r \<noteq> [] \<and> length (nr_notes r) < maxReleaseNotes
                 then r\<lparr>nr_notes := nr_notes r @ [(nr_kind r, text1)]\<rparr>
               else r))"

definition parseReleaseNotes :: "(string \<Rightarrow> string) \<Rightarrow> string \<Rightarrow> (string \<times> string) list \<times> string list" where
  "parseReleaseNotes uni body =
     (let r = fold (read_line uni) (split_on (CHR 0x0A) body)
         \<lparr>nr_notes = [], nr_upgradeNotes = [], nr_kind = [], nr_inUpgradeNotes = False\<rparr>
      in (nr_notes r, nr_upgradeNotes r))"

lemma read_line_kinds:
  assumes "nr_kind r = [] \<or> validReleaseNoteKind (nr_kind r)" "\<forall>n\<in>set (nr_notes r). validReleaseNoteKind (fst n)"
    and "length (nr_notes r) \<le> maxReleaseNotes" "length (nr_upgradeNotes r) \<le> maxUpgradeNotes"
  shows "(nr_kind (read_line uni l r) = [] \<or> validReleaseNoteKind (nr_kind (read_line uni l r))) \<and>
    (\<forall>n\<in>set (nr_notes (read_line uni l r)). validReleaseNoteKind (fst n)) \<and>
    length (nr_notes (read_line uni l r)) \<le> maxReleaseNotes \<and> length (nr_upgradeNotes (read_line uni l r)) \<le> maxUpgradeNotes"
proof -
  have "releaseNoteKind uni h = [] \<or> validReleaseNoteKind (releaseNoteKind uni h)" for h
    by (simp add: releaseNoteKind_def validReleaseNoteKind_def Let_def)
  with assms show ?thesis by (auto simp: read_line_def Let_def split: option.splits)
qed

end
