(* ===== verification/ReleaseSource.thy ===== *)
theory ReleaseSource
  imports ReleaseVersion ReleaseNotes
begin

text \<open>
  \<open>internal/selfupdate/source.go\<close>: which release the decoded answer of the release service names, and the digest and
  the notes read from its body. The HTTP exchange and the JSON decoder are left out: the definitions start at the
  decoded payload.
\<close>

section \<open>Choosing a release\<close>

record release_payload =
  rp_TagName :: string
  rp_HTMLURL :: string
  rp_Body :: string
  rp_Draft :: "bool option"
  rp_Prerelease :: "bool option"
  rp_PublishedAt :: string

definition validateReleaseIdentity :: "release_payload \<Rightarrow> string \<Rightarrow> bool" where
  "validateReleaseIdentity p version =
     (version \<noteq> [] \<and> rp_TagName p = ''v'' @ version \<and>
      rp_HTMLURL p = ''https://github.com/kejilion/KPanel/releases/tag/v'' @ version)"

definition keep_newest :: "(string \<times> release_payload) option \<Rightarrow> string \<Rightarrow> release_payload \<Rightarrow> (string \<times> release_payload) option" where
  "keep_newest sel version p =
     (case sel of None \<Rightarrow> Some (version, p)
      | Some (v, _) \<Rightarrow> if 0 < compareVersions version v then Some (version, p) else sel)"

text \<open>The loop of \<open>decodePreviewRelease\<close>: the versions seen and the selected release so far; \<open>None\<close> is an error.\<close>

fun select_release ::
    "release_payload list \<Rightarrow> string list \<Rightarrow> (string \<times> release_payload) option \<Rightarrow> (string \<times> release_payload) option option" where
  "select_release [] seen sel = Some sel"
| "select_release (p # ps) seen sel =
     (let stable = normalizeStableVersion (rp_TagName p); preview = normalizePreviewVersion (rp_TagName p) in
      if stable = [] \<and> preview = [] then select_release ps seen sel
      else
        let version = (if preview \<noteq> [] then preview else stable); isPreview = (preview \<noteq> []) in
        case (rp_Draft p, rp_Prerelease p) of
          (Some draft, Some prerelease) \<Rightarrow>
            if draft \<or> trim_space (rp_PublishedAt p) = [] then select_release ps seen sel
            else if prerelease \<noteq> isPreview then None
            else if \<not> validateReleaseIdentity p version then None
            else if version \<in> set seen then None
            else select_release ps (version # seen)
              (keep_newest sel version p)
        | _ \<Rightarrow> None)"

text \<open>
  The lines that name an image: the label and the digest of a line that matches the pattern of official images. The
  labels are the two words for production and preview.
\<close>

definition production_label :: string where "production_label = [CHR 0xE7, CHR 0x94, CHR 0x9F, CHR 0xE4, CHR 0xBA, CHR 0xA7]"
definition preview_label :: string where "preview_label = [CHR 0xE9, CHR 0xA2, CHR 0x84, CHR 0xE8, CHR 0xA7, CHR 0x88]"
definition image_word :: string where "image_word = [CHR 0xE9, CHR 0x95, CHR 0x9C, CHR 0xE5, CHR 0x83, CHR 0x8F, CHR 0xEF, CHR 0xBC, CHR 0x9A]"

definition image_line :: "string \<Rightarrow> string \<Rightarrow> string" where
  "image_line label digest = ''- '' @ label @ image_word @ ''`docker.io/kjlion/kejilion-panel@'' @ digest @ ''`''"

definition match_image :: "string \<Rightarrow> (string \<times> string) option" where
  "match_image line0 =
     (let line = trim_suffix line0 [CHR 0x0D];
          digest_of = (\<lambda>label. take 71 (drop (length (image_line label []) - 1) line));
          matches = (\<lambda>label. line = image_line label (digest_of label) \<and> normalizeImageDigest (digest_of label) = digest_of label
            \<and> digest_of label \<noteq> [])
      in if matches production_label then Some (production_label, digest_of production_label)
         else if matches preview_label then Some (preview_label, digest_of preview_label)
         else None)"

record release_info =
  rl_Version :: string
  rl_ImageDigest :: string
  rl_ReleaseURL :: string
  rl_PublishedAt :: string
  rl_Notes :: "(string \<times> string) list"
  rl_UpgradeNotes :: "string list"

definition releaseFromPayload :: "(string \<Rightarrow> string) \<Rightarrow> release_payload \<Rightarrow> string \<Rightarrow> string \<Rightarrow> release_info option" where
  "releaseFromPayload uni payload version expectedLabel =
     (case List.map_filter match_image (split_on (CHR 0x0A) (rp_Body payload)) of
        [(label, found)] \<Rightarrow>
          if label \<noteq> expectedLabel then None
          else
            let digest = normalizeImageDigest found in
            if digest = [] then None
            else
              let (notes, upgradeNotes) = parseReleaseNotes uni (rp_Body payload) in
              Some \<lparr>rl_Version = version, rl_ImageDigest = digest, rl_ReleaseURL = rp_HTMLURL payload,
                rl_PublishedAt = rp_PublishedAt payload, rl_Notes = notes, rl_UpgradeNotes = upgradeNotes\<rparr>
      | _ \<Rightarrow> None)"

definition decodePreviewRelease :: "(string \<Rightarrow> string) \<Rightarrow> release_payload list \<Rightarrow> release_info option" where
  "decodePreviewRelease uni ps =
     (case select_release ps [] None of
        Some (Some (selectedVersion, selected)) \<Rightarrow>
          releaseFromPayload uni selected selectedVersion
            (if normalizePreviewVersion selectedVersion \<noteq> [] then preview_label else production_label)
      | _ \<Rightarrow> None)"

definition decodeStableRelease :: "(string \<Rightarrow> string) \<Rightarrow> release_payload \<Rightarrow> release_info option" where
  "decodeStableRelease uni p =
     (case (rp_Draft p, rp_Prerelease p) of
        (Some False, Some False) \<Rightarrow>
          if trim_space (rp_PublishedAt p) = [] then None
          else
            let version = normalizeStableVersion (rp_TagName p) in
            if validateReleaseIdentity p version then releaseFromPayload uni p version production_label else None
      | _ \<Rightarrow> None)"

text \<open>The published releases of a list: those that compete for the selection.\<close>

definition published :: "release_payload \<Rightarrow> bool" where
  "published p = (release_of (rp_TagName p) \<noteq> NoRelease \<and> rp_Draft p = Some False \<and> trim_space (rp_PublishedAt p) \<noteq> [])"

lemma normal_of_tag:
  "(normalizeStableVersion t = [] \<and> normalizePreviewVersion t = []) = (release_of t = NoRelease) \<and>
   (normalizePreviewVersion t \<noteq> [] \<longrightarrow> normalizePreviewVersion t = normalizeReleaseVersion t) \<and>
   (normalizePreviewVersion t = [] \<longrightarrow> normalizeStableVersion t = normalizeReleaseVersion t)"
proof (cases "parseReleaseVersion t")
  case None
  then show ?thesis
    by (simp add: release_of_none normalizeStableVersion_def normalizePreviewVersion_def normalizeReleaseVersion_def)
next
  case (Some np)
  then obtain n p where np: "parseReleaseVersion t = Some (n, p)" by (cases np) auto
  have ok: "n = show_version p" "core_ok p" using parsed_is_shown [OF np] by simp_all
  obtain a b c where "pv_core p = [a, b, c]" using core_parts [OF ok(2)] .
  then have "n \<noteq> []" using ok(1) show_nat_nonempty by (simp add: show_version_def)
  moreover have "release_of t \<noteq> NoRelease" using np release_of_none by simp
  ultimately show ?thesis using np
    by (auto simp: normalizeStableVersion_def normalizePreviewVersion_def normalizeReleaseVersion_def)
qed

lemma tag_version:
  "(if normalizePreviewVersion t \<noteq> [] then normalizePreviewVersion t else normalizeStableVersion t) = normalizeReleaseVersion t"
  using normal_of_tag [of t] by simp

lemma release_parses: "release_of t = NoRelease \<longleftrightarrow> normalizeStableVersion t = [] \<and> normalizePreviewVersion t = []"
  using normal_of_tag [of t] by simp

lemma select_skip:
  assumes "\<not> published p" "select_release (p # ps) seen sel = Some r" shows "select_release ps seen sel = Some r"
proof (cases "release_of (rp_TagName p) = NoRelease")
  case True
  then show ?thesis using assms(2) unfolding release_parses by simp
next
  case False
  note u = False [unfolded release_parses]
  from assms(2) u obtain draft pre where d: "rp_Draft p = Some draft" "rp_Prerelease p = Some pre"
    by (cases "rp_Draft p"; cases "rp_Prerelease p") simp_all
  have "draft \<or> trim_space (rp_PublishedAt p) = []" using assms(1) False d by (simp add: published_def)
  then show ?thesis using assms(2) u d by simp
qed

lemma select_take:
  assumes "published p" "select_release (p # ps) seen sel = Some r" "v = normalizeReleaseVersion (rp_TagName p)"
  shows "validateReleaseIdentity p v \<and> select_release ps (v # seen) (keep_newest sel v p) = Some r"
proof -
  have u: "\<not> (normalizeStableVersion (rp_TagName p) = [] \<and> normalizePreviewVersion (rp_TagName p) = [])"
    using assms(1) by (simp add: published_def flip: release_parses)
  have d: "rp_Draft p = Some False" "trim_space (rp_PublishedAt p) \<noteq> []" using assms(1) by (simp_all add: published_def)
  obtain pre where "rp_Prerelease p = Some pre" using assms(2) u d by (cases "rp_Prerelease p") simp_all
  then show ?thesis using assms(2) u d unfolding assms(3) tag_version [symmetric] select_release.simps Let_def
    by (simp only: option.case prod.case if_False) (metis option.distinct(1))
qed

definition selectable :: "string \<Rightarrow> release_payload \<Rightarrow> bool" where
  "selectable v q = (v = normalizeReleaseVersion (rp_TagName q) \<and> validateReleaseIdentity q v \<and> published q)"

lemma keep_newest_best:
  assumes "keep_newest sel v p = Some (w, r)"
  shows "(w, r) = (v, p) \<or> sel = Some (w, r)" "release_of v \<le> release_of w" "\<And>u q. sel = Some (u, q) \<Longrightarrow> release_of u \<le> release_of w"
  using assms by (auto simp: keep_newest_def compare_release split: option.splits if_splits)

lemma keep_newest_some: "\<exists>w r. keep_newest sel v p = Some (w, r)"
  by (cases sel) (auto simp: keep_newest_def)

lemma select_release_best:
  assumes "select_release ps seen sel = Some (Some (v, q))" "\<And>w r. sel = Some (w, r) \<Longrightarrow> selectable w r"
  shows "selectable v q \<and> (q \<in> set ps \<or> sel = Some (v, q)) \<and>
    (\<forall>p\<in>set ps. published p \<longrightarrow> release_of (rp_TagName p) \<le> release_of v) \<and>
    (\<forall>w r. sel = Some (w, r) \<longrightarrow> release_of w \<le> release_of v)"
  using assms
proof (induction ps arbitrary: seen sel)
  case Nil
  then show ?case by auto
next
  case (Cons p ps)
  let ?v = "normalizeReleaseVersion (rp_TagName p)"
  show ?case
  proof (cases "published p")
    case False
    from Cons.IH [OF select_skip [OF False Cons.prems(1)] Cons.prems(2)] False show ?thesis by auto
  next
    case True
    note take = select_take [OF True Cons.prems(1)]
    have inv: "selectable w r" if "keep_newest sel ?v p = Some (w, r)" for w r
      using keep_newest_best(1) [OF that] Cons.prems(2) take True by (auto simp: selectable_def)
    note ih = Cons.IH [OF conjunct2 [OF take] inv]
    obtain w r where wr: "keep_newest sel ?v p = Some (w, r)" using keep_newest_some by blast
    note best = keep_newest_best [OF wr]
    have le: "release_of w \<le> release_of v" using ih wr by blast
    have "release_of (rp_TagName p) \<le> release_of v" using best(2) le by (simp add: release_of_normalize)
    moreover have "q \<in> set (p # ps) \<or> sel = Some (v, q)" using ih wr best(1) by auto
    moreover have "release_of u \<le> release_of v" if "sel = Some (u, s)" for u s using best(3) [OF that] le by simp
    ultimately show ?thesis using ih by auto
  qed
qed

lemma from_payload_fields:
  "releaseFromPayload uni p v label = Some r \<Longrightarrow> rl_Version r = v \<and> rl_ReleaseURL r = rp_HTMLURL p \<and>
    rl_ImageDigest r \<noteq> [] \<and> normalizeImageDigest (rl_ImageDigest r) = rl_ImageDigest r"
  by (auto simp: releaseFromPayload_def normalizeImageDigest_def Let_def split: list.splits prod.splits if_splits)

text \<open>
  C35: The release taken from the preview list is a published one of the list with a canonical
  tag and the official URL, and no published release of the list is newer.
\<close>

theorem newest_release_selected:
  assumes "decodePreviewRelease uni ps = Some r"
  shows "\<exists>q\<in>set ps. published q \<and> rp_TagName q = ''v'' @ rl_Version r \<and> rl_ReleaseURL r = officialReleaseURL (rl_Version r) \<and>
    (\<forall>p\<in>set ps. published p \<longrightarrow> compareVersions (rp_TagName p) (rl_Version r) \<le> 0)"
proof -
  obtain v q label where s: "select_release ps [] None = Some (Some (v, q))" "releaseFromPayload uni q v label = Some r"
    using assms by (auto simp: decodePreviewRelease_def split: option.splits)
  from select_release_best [OF s(1)] have f: "v = normalizeReleaseVersion (rp_TagName q)" "validateReleaseIdentity q v" "published q"
    "q \<in> set ps" and best: "\<forall>p\<in>set ps. published p \<longrightarrow> release_of (rp_TagName p) \<le> release_of v" by (auto simp: selectable_def)
  have "normalizeReleaseVersion v = v" using f(1) normalize_idem by metis
  then have "rp_TagName q = ''v'' @ v" "rp_HTMLURL q = officialReleaseURL v"
    using f(2) by (simp_all add: validateReleaseIdentity_def officialReleaseURL_def Let_def)
  moreover have "compareVersions (rp_TagName p) v \<le> 0" if "p \<in> set ps" "published p" for p
    using best that by (auto simp: compare_release not_less)
  ultimately show ?thesis using f(3,4) from_payload_fields [OF s(2)] by auto
qed

definition sample_digest :: string where
  "sample_digest = ''sha256:'' @ concat (replicate 8 ''01234567'')"

definition sample_releases :: "release_payload list" where
  "sample_releases =
     [\<lparr>rp_TagName = ''v1.2.0'', rp_HTMLURL = ''https://github.com/kejilion/KPanel/releases/tag/v1.2.0'',
        rp_Body = [], rp_Draft = Some False, rp_Prerelease = Some False, rp_PublishedAt = ''2026-01-01T00:00:00Z''\<rparr>,
      \<lparr>rp_TagName = ''v1.3.0-rc.2'', rp_HTMLURL = ''https://github.com/kejilion/KPanel/releases/tag/v1.3.0-rc.2'',
        rp_Body = image_line preview_label sample_digest @ [CHR 0x0D, CHR 0x0A] @ ''## Fixed'' @ [CHR 0x0A] @ ''- **a** bug'' @ [CHR 0x0A],
        rp_Draft = Some False, rp_Prerelease = Some True, rp_PublishedAt = ''2026-01-02T00:00:00Z''\<rparr>,
      \<lparr>rp_TagName = ''nightly'', rp_HTMLURL = [], rp_Body = [], rp_Draft = None, rp_Prerelease = None, rp_PublishedAt = []\<rparr>]"

definition sample_selected :: release_info where
  "sample_selected = \<lparr>rl_Version = ''1.3.0-rc.2'', rl_ImageDigest = sample_digest,
     rl_ReleaseURL = ''https://github.com/kejilion/KPanel/releases/tag/v1.3.0-rc.2'', rl_PublishedAt = ''2026-01-02T00:00:00Z'',
     rl_Notes = [(''fixed'', ''a bug'')], rl_UpgradeNotes = []\<rparr>"

lemma parse_behind_v: "hd s \<noteq> CHR ''v'' \<Longrightarrow> s \<noteq> [] \<Longrightarrow> parseReleaseVersion (''v'' @ s) = parseReleaseVersion s"
  by (cases s) (simp_all add: parseReleaseVersion_def trim_prefix_def has_prefix_def)

lemma sample_versions:
  "parseReleaseVersion ''1.2.0'' = Some (''1.2.0'', \<lparr>pv_core = [1, 2, 0], pv_rc = None\<rparr>)"
  "parseReleaseVersion ''1.3.0-rc.2'' = Some (''1.3.0-rc.2'', \<lparr>pv_core = [1, 3, 0], pv_rc = Some 2\<rparr>)"
  "parseReleaseVersion ''v1.2.0'' = Some (''1.2.0'', \<lparr>pv_core = [1, 2, 0], pv_rc = None\<rparr>)"
  "parseReleaseVersion ''v1.3.0-rc.2'' = Some (''1.3.0-rc.2'', \<lparr>pv_core = [1, 3, 0], pv_rc = Some 2\<rparr>)"
proof -
  have s: "show_version \<lparr>pv_core = [1, 2, 0], pv_rc = None\<rparr> = ''1.2.0''" "show_version \<lparr>pv_core = [1, 3, 0], pv_rc = Some 2\<rparr> = ''1.3.0-rc.2''"
    by code_simp+
  show one: "parseReleaseVersion ''1.2.0'' = Some (''1.2.0'', \<lparr>pv_core = [1, 2, 0], pv_rc = None\<rparr>)"
    using shown_parses [of "\<lparr>pv_core = [1, 2, 0], pv_rc = None\<rparr>"] unfolding s by (simp add: core_ok_def)
  show two: "parseReleaseVersion ''1.3.0-rc.2'' = Some (''1.3.0-rc.2'', \<lparr>pv_core = [1, 3, 0], pv_rc = Some 2\<rparr>)"
    using shown_parses [of "\<lparr>pv_core = [1, 3, 0], pv_rc = Some 2\<rparr>"] unfolding s by (simp add: core_ok_def)
  show "parseReleaseVersion ''v1.2.0'' = Some (''1.2.0'', \<lparr>pv_core = [1, 2, 0], pv_rc = None\<rparr>)"
    using parse_behind_v [of "''1.2.0''"] one by simp
  show "parseReleaseVersion ''v1.3.0-rc.2'' = Some (''1.3.0-rc.2'', \<lparr>pv_core = [1, 3, 0], pv_rc = Some 2\<rparr>)"
    using parse_behind_v [of "''1.3.0-rc.2''"] two by simp
qed

lemma sample_other: "parseReleaseVersion ''nightly'' = None"
  by code_simp

lemmas sample_normal = sample_versions sample_other normalizeStableVersion_def normalizePreviewVersion_def

lemma sample_body:
  "List.map_filter match_image (split_on (CHR 0x0A) (rp_Body (sample_releases ! 1))) = [(preview_label, sample_digest)]"
  "normalizeImageDigest sample_digest = sample_digest" "sample_digest \<noteq> []"
  "trim_space ''2026-01-01T00:00:00Z'' \<noteq> [] \<and> trim_space ''2026-01-02T00:00:00Z'' \<noteq> []"
  by code_simp+

lemma read_line_idle:
  "markdownHeading (trim_space (trim_suffix l [CHR 0x0D])) = None \<Longrightarrow> nr_kind r = [] \<Longrightarrow> \<not> nr_inUpgradeNotes r \<Longrightarrow> read_line uni l r = r"
  by (simp add: read_line_def Let_def split: option.split)

lemma sample_lines:
  "split_on (CHR 0x0A) (rp_Body (sample_releases ! 1)) =
     [image_line preview_label sample_digest @ [CHR 0x0D], ''## Fixed'', ''- **a** bug'', []]"
  "markdownHeading (trim_space (trim_suffix (image_line preview_label sample_digest @ [CHR 0x0D]) [CHR 0x0D])) = None"
  "read_line (\<lambda>s. s) ''## Fixed'' \<lparr>nr_notes = [], nr_upgradeNotes = [], nr_kind = [], nr_inUpgradeNotes = False\<rparr> =
     \<lparr>nr_notes = [], nr_upgradeNotes = [], nr_kind = ''fixed'', nr_inUpgradeNotes = False\<rparr>"
  "read_line (\<lambda>s. s) ''- **a** bug'' \<lparr>nr_notes = [], nr_upgradeNotes = [], nr_kind = ''fixed'', nr_inUpgradeNotes = False\<rparr> =
     \<lparr>nr_notes = [(''fixed'', ''a bug'')], nr_upgradeNotes = [], nr_kind = ''fixed'', nr_inUpgradeNotes = False\<rparr>"
  "read_line (\<lambda>s. s) [] \<lparr>nr_notes = [(''fixed'', ''a bug'')], nr_upgradeNotes = [], nr_kind = ''fixed'', nr_inUpgradeNotes = False\<rparr> =
     \<lparr>nr_notes = [(''fixed'', ''a bug'')], nr_upgradeNotes = [], nr_kind = ''fixed'', nr_inUpgradeNotes = False\<rparr>"
  by code_simp+

lemma sample_notes: "parseReleaseNotes (\<lambda>s. s) (rp_Body (sample_releases ! 1)) = ([(''fixed'', ''a bug'')], [])"
  unfolding parseReleaseNotes_def sample_lines(1) using sample_lines(2-5) by (simp add: read_line_idle Let_def)

lemma sample_chosen: "select_release sample_releases [] None = Some (Some (''1.3.0-rc.2'', sample_releases ! 1))"
  using sample_body(4)
  by (simp add: sample_releases_def sample_normal keep_newest_def validateReleaseIdentity_def compareVersions_def Let_def)

lemma sample_decoded: "decodePreviewRelease (\<lambda>s. s) sample_releases = Some sample_selected"
proof -
  have "releaseFromPayload (\<lambda>s. s) (sample_releases ! 1) ''1.3.0-rc.2'' preview_label = Some sample_selected"
    using sample_body sample_notes by (simp add: releaseFromPayload_def sample_selected_def Let_def) (simp add: sample_releases_def)
  then show ?thesis by (simp add: decodePreviewRelease_def sample_chosen sample_normal)
qed

theorem newest_release_selected_witness:
  "\<exists>q\<in>set sample_releases. published q \<and> rp_TagName q = ''v'' @ rl_Version sample_selected \<and>
    rl_ReleaseURL sample_selected = officialReleaseURL (rl_Version sample_selected) \<and>
    (\<forall>p\<in>set sample_releases. published p \<longrightarrow> compareVersions (rp_TagName p) (rl_Version sample_selected) \<le> 0)"
  by (rule newest_release_selected [OF sample_decoded])

end
