(* ===== verification/SelfUpdate.thy ===== *)
theory SelfUpdate
  imports ReleaseSource GoTime "HOL-Library.Word"
begin

text \<open>
  \<open>internal/selfupdate/service.go\<close>: the automatic updater. Its state is one JSON file; every operation takes the file
  lock, loads the state, changes it and saves it. The definitions follow the operations of \<open>Service\<close>; what the outside
  answers (the time, the release source, the executor, the outcome of every write) is an argument.
\<close>

section \<open>State\<close>

record update_state =
  up_SchemaVersion :: int
  up_Revision :: "64 word"
  up_Enabled :: bool
  up_Channel :: string
  up_State :: string
  up_InstallRequested :: bool
  up_CurrentVersion :: string
  up_CandidateVersion :: string
  up_CandidateImageDigest :: string
  up_CandidateReleaseURL :: string
  up_CandidatePublishedAt :: string
  up_CandidateNotes :: "(string \<times> string) list"
  up_CandidateUpgradeNotes :: "string list"
  up_CandidateFirstSeenAt :: "gotime option"
  up_LastCheckedAt :: "gotime option"
  up_LastAttemptAt :: "gotime option"
  up_LastSuccessAt :: "gotime option"
  up_LastErrorCode :: string
  up_LastError :: string
  up_FailedVersion :: string
  up_FailedImageDigest :: string

definition stateSchemaVersion :: int where "stateSchemaVersion = 3"
definition ChannelStable :: string where "ChannelStable = ''stable''"
definition ChannelPreview :: string where "ChannelPreview = ''preview''"

definition validChannel :: "string \<Rightarrow> bool" where
  "validChannel c = (c = ChannelStable \<or> c = ChannelPreview)"

definition initial_update_state :: update_state where
  "initial_update_state =
     \<lparr>up_SchemaVersion = stateSchemaVersion, up_Revision = 0, up_Enabled = False, up_Channel = ChannelStable,
      up_State = ''disabled'', up_InstallRequested = False, up_CurrentVersion = [], up_CandidateVersion = [],
      up_CandidateImageDigest = [], up_CandidateReleaseURL = [], up_CandidatePublishedAt = [], up_CandidateNotes = [],
      up_CandidateUpgradeNotes = [], up_CandidateFirstSeenAt = None, up_LastCheckedAt = None, up_LastAttemptAt = None,
      up_LastSuccessAt = None, up_LastErrorCode = [], up_LastError = [], up_FailedVersion = [], up_FailedImageDigest = []\<rparr>"

definition normalizeChannelVersion :: "string \<Rightarrow> string \<Rightarrow> string" where
  "normalizeChannelVersion channel version =
     (if channel = ChannelStable then normalizeStableVersion version
      else if channel = ChannelPreview then normalizeReleaseVersion version
      else [])"

definition normalizeRestingState :: "update_state \<Rightarrow> string" where
  "normalizeRestingState s =
     (if up_CandidateVersion s \<noteq> [] \<and> up_CandidateImageDigest s \<noteq> []
      then if up_FailedVersion s = up_CandidateVersion s \<and> up_FailedImageDigest s = up_CandidateImageDigest s then ''blocked'' else ''waiting''
      else if up_Enabled s then ''idle'' else ''disabled'')"

definition clearCandidate :: "update_state \<Rightarrow> update_state" where
  "clearCandidate s =
     s\<lparr>up_CandidateVersion := [], up_CandidateImageDigest := [], up_CandidateReleaseURL := [], up_CandidatePublishedAt := [],
       up_CandidateNotes := [], up_CandidateUpgradeNotes := [], up_CandidateFirstSeenAt := None\<rparr>"

definition clear_failed :: "update_state \<Rightarrow> update_state" where
  "clear_failed s = s\<lparr>up_FailedVersion := [], up_FailedImageDigest := []\<rparr>"

definition clear_error :: "update_state \<Rightarrow> update_state" where
  "clear_error s = s\<lparr>up_LastErrorCode := [], up_LastError := []\<rparr>"

definition setCandidateMetadata :: "release_info \<Rightarrow> update_state \<Rightarrow> update_state" where
  "setCandidateMetadata r s =
     s\<lparr>up_CandidateReleaseURL := (if rl_ReleaseURL r = officialReleaseURL (rl_Version r) then rl_ReleaseURL r else []),
       up_CandidatePublishedAt := (case parse_rfc3339 (rl_PublishedAt r) of Some t \<Rightarrow> rfc3339 t | None \<Rightarrow> []),
       up_CandidateNotes := normalizedReleaseNotes (rl_Notes r) maxReleaseNotes,
       up_CandidateUpgradeNotes := normalizedUpgradeNotes (rl_UpgradeNotes r) maxUpgradeNotes\<rparr>"

text \<open>A long message is cut at 512 bytes, wherever that is.\<close>

definition boundedError :: "string \<Rightarrow> string" where
  "boundedError err = (let message = trim_space err in if 512 < length message then take 512 message else message)"

section \<open>The state file\<close>

definition valid_states :: "string set" where
  "valid_states = {''disabled'', ''idle'', ''waiting'', ''available'', ''updating'', ''succeeded'', ''failed'', ''blocked'',
     ''check_failed'', ''queued''}"

definition valid_note :: "string \<Rightarrow> bool" where
  "valid_note t = (t \<noteq> [] \<and> plainReleaseNote t = t)"

definition validCandidateMetadata :: "update_state \<Rightarrow> bool" where
  "validCandidateMetadata s =
     ((up_CandidateReleaseURL s \<noteq> [] \<longrightarrow> up_CandidateReleaseURL s = officialReleaseURL (up_CandidateVersion s)) \<and>
      (up_CandidatePublishedAt s \<noteq> [] \<longrightarrow> parse_rfc3339 (up_CandidatePublishedAt s) \<noteq> None) \<and>
      length (up_CandidateNotes s) \<le> maxReleaseNotes \<and> length (up_CandidateUpgradeNotes s) \<le> maxUpgradeNotes \<and>
      list_all (\<lambda>n. validReleaseNoteKind (fst n) \<and> valid_note (snd n)) (up_CandidateNotes s) \<and>
      list_all valid_note (up_CandidateUpgradeNotes s))"

definition validPersistedState :: "update_state \<Rightarrow> bool" where
  "validPersistedState s =
     (up_State s \<in> valid_states \<and> validChannel (up_Channel s) \<and>
      length (up_LastError s) \<le> 512 \<and> length (up_LastErrorCode s) \<le> 64 \<and>
      (up_CurrentVersion s \<noteq> [] \<longrightarrow> normalizeReleaseVersion (up_CurrentVersion s) \<noteq> []) \<and>
      list_all (\<lambda>v. v \<noteq> [] \<longrightarrow> normalizeChannelVersion (up_Channel s) v \<noteq> []) [up_CandidateVersion s, up_FailedVersion s] \<and>
      list_all (\<lambda>d. d \<noteq> [] \<longrightarrow> normalizeImageDigest d \<noteq> []) [up_CandidateImageDigest s, up_FailedImageDigest s] \<and>
      (up_CandidateVersion s = []) = (up_CandidateImageDigest s = []) \<and>
      (up_FailedVersion s = []) = (up_FailedImageDigest s = []) \<and>
      (if up_CandidateVersion s = []
       then up_CandidateReleaseURL s = [] \<and> up_CandidatePublishedAt s = [] \<and> up_CandidateNotes s = [] \<and> up_CandidateUpgradeNotes s = []
       else validCandidateMetadata s) \<and>
      up_InstallRequested s = (up_State s = ''queued'') \<and>
      \<not> (up_InstallRequested s \<and> up_CandidateVersion s = []))"

text \<open>
  The file: missing; one that is refused before it is read (not a private regular file of at most 64 KiB, or unreadable) or that
  is no single JSON object of the known fields; or the state its JSON decodes to, absent fields at their defaults.
\<close>

datatype state_file = Missing | Refused | Decoded update_state

definition load :: "state_file \<Rightarrow> update_state option" where
  "load file =
     (case file of
        Missing \<Rightarrow> Some initial_update_state
      | Refused \<Rightarrow> None
      | Decoded s0 \<Rightarrow>
          let s1 = (if up_SchemaVersion s0 = 1 then s0\<lparr>up_Channel := ChannelStable\<rparr> else s0);
              s2 = (if up_SchemaVersion s1 = 1 \<or> up_SchemaVersion s1 = 2 then s1\<lparr>up_SchemaVersion := stateSchemaVersion\<rparr> else s1)
          in if up_SchemaVersion s2 \<noteq> stateSchemaVersion \<or> \<not> validPersistedState s2 then None else Some s2)"

text \<open>What decoding the encoded state gives back: every string is valid UTF-8 afterwards.\<close>

definition text_of :: "update_state \<Rightarrow> update_state" where
  "text_of s =
     s\<lparr>up_Channel := json_text (up_Channel s), up_State := json_text (up_State s),
       up_CurrentVersion := json_text (up_CurrentVersion s), up_CandidateVersion := json_text (up_CandidateVersion s),
       up_CandidateImageDigest := json_text (up_CandidateImageDigest s), up_CandidateReleaseURL := json_text (up_CandidateReleaseURL s),
       up_CandidatePublishedAt := json_text (up_CandidatePublishedAt s),
       up_CandidateNotes := map (map_prod json_text json_text) (up_CandidateNotes s),
       up_CandidateUpgradeNotes := map json_text (up_CandidateUpgradeNotes s),
       up_LastErrorCode := json_text (up_LastErrorCode s), up_LastError := json_text (up_LastError s),
       up_FailedVersion := json_text (up_FailedVersion s), up_FailedImageDigest := json_text (up_FailedImageDigest s)\<rparr>"

text \<open>
  The outcome of a write: nothing was replaced (the encoder refused the state or the file is over the limit, too), the file was
  replaced, or it was replaced and the directory could not be synced.
\<close>

datatype write_outcome = WriteFails | WriteCommits | WriteUnsynced

definition saveWithResult :: "write_outcome \<Rightarrow> update_state \<Rightarrow> state_file \<Rightarrow> state_file \<times> update_state \<times> bool" where
  "saveWithResult w s file =
     (let nxt = s\<lparr>up_SchemaVersion := stateSchemaVersion, up_Revision := up_Revision s + 1\<rparr> in
      if w = WriteFails then (file, s, False) else (Decoded (text_of nxt), nxt, True))"

section \<open>Operations\<close>

datatype update_error = UpBusy | UpLock | UpStateInvalid | UpConflict | UpInvalidChannel | UpChannelUnavailable | UpNoUpdate
  | UpNotSaved | UpVersionInvalid | UpCheckFailed | UpInvalidRelease | UpRecoverFailed | UpInstalledUnknown | UpUnconfirmed | UpUpdateFailed

record update_env =
  ue_hold :: duration
  ue_preview :: bool
  ue_resourceVersion :: "update_state \<Rightarrow> string"

text \<open>The status: a copy of the fields of the state, with what is computed from it.\<close>

record update_status =
  st_state :: update_state
  st_CanInstall :: bool
  st_ObservationHours :: int
  st_ResourceVersion :: string

record update_result =
  ur_file :: state_file
  ur_launched :: "(string \<times> string) option"
  ur_status :: "update_status option"
  ur_error :: "update_error option"

definition can_install :: "update_state \<Rightarrow> bool" where
  "can_install s =
     ((up_State s = ''waiting'' \<or> up_State s = ''available'') \<and> up_CandidateVersion s \<noteq> [] \<and> up_CandidateImageDigest s \<noteq> [] \<and>
      0 < compareVersions (up_CandidateVersion s) (up_CurrentVersion s))"

definition status_of :: "update_env \<Rightarrow> update_state \<Rightarrow> update_status" where
  "status_of env s = \<lparr>st_state = s, st_CanInstall = can_install s, st_ObservationHours = ue_hold env div Hour, st_ResourceVersion = ue_resourceVersion env s\<rparr>"

definition refused :: "update_error \<Rightarrow> state_file \<Rightarrow> update_result" where
  "refused e file = \<lparr>ur_file = file, ur_launched = None, ur_status = None, ur_error = Some e\<rparr>"

text \<open>The end of a handler: save, then answer with the status, and with the error of the work before the save.\<close>

definition save_and_answer :: "update_env \<Rightarrow> write_outcome \<Rightarrow> update_error option \<Rightarrow> update_state \<Rightarrow> state_file \<Rightarrow> update_result" where
  "save_and_answer env w err s file =
     (case saveWithResult w s file of (file1, s1, ok) \<Rightarrow>
        if ok then \<lparr>ur_file = file1, ur_launched = None, ur_status = Some (status_of env s1), ur_error = err\<rparr>
        else refused UpNotSaved file1)"

text \<open>\<open>exclusive\<close>: without the file lock nothing happens. The mutex of the process orders the calls of one service.\<close>

definition exclusive :: "update_error option \<Rightarrow> (state_file \<Rightarrow> update_result) \<Rightarrow> state_file \<Rightarrow> update_result" where
  "exclusive lockErr fn file = (case lockErr of Some e \<Rightarrow> refused e file | None \<Rightarrow> fn file)"

definition source_available :: "update_env \<Rightarrow> string \<Rightarrow> bool" where
  "source_available env c = (c = ChannelStable \<or> (c = ChannelPreview \<and> ue_preview env))"

definition Status :: "update_env \<Rightarrow> string \<Rightarrow> state_file \<Rightarrow> update_status option" where
  "Status env currentVersion file =
     (case load file of None \<Rightarrow> None
      | Some s \<Rightarrow>
          let v = normalizeCurrentVersion currentVersion in
          Some ((status_of env (if v \<noteq> [] then s\<lparr>up_CurrentVersion := v\<rparr> else s))\<lparr>st_ResourceVersion := ue_resourceVersion env s\<rparr>))"

definition set_policy :: "string \<Rightarrow> bool \<Rightarrow> string \<Rightarrow> update_state \<Rightarrow> update_state" where
  "set_policy currentVersion enabled channel s =
     (let changed = (up_Channel s \<noteq> channel);
          s1 = clear_error (s\<lparr>up_Enabled := enabled, up_Channel := channel, up_CurrentVersion := normalizeCurrentVersion currentVersion\<rparr>);
          s2 = (if changed then (clear_failed (clearCandidate s1))\<lparr>up_InstallRequested := False\<rparr> else s1)
      in if changed \<or> up_State s2 = ''disabled'' \<or> up_State s2 = []
         then s2\<lparr>up_State := (if up_CandidateVersion s2 = [] then normalizeRestingState s2 else ''waiting'')\<rparr>
         else s2\<lparr>up_State := normalizeRestingState s2\<rparr>)"

definition SetPolicy ::
    "update_env \<Rightarrow> update_error option \<Rightarrow> write_outcome \<Rightarrow> string \<Rightarrow> string \<Rightarrow> bool \<Rightarrow> string \<Rightarrow> state_file \<Rightarrow> update_result" where
  "SetPolicy env lockErr w currentVersion expected enabled channel0 =
     exclusive lockErr (\<lambda>file.
       case load file of None \<Rightarrow> refused UpStateInvalid file
       | Some s \<Rightarrow>
           if expected = [] \<or> expected \<noteq> ue_resourceVersion env s then refused UpConflict file
           else if up_State s = ''updating'' \<or> up_InstallRequested s then refused UpBusy file
           else
             let channel = (if channel0 = [] then up_Channel s else channel0) in
             if \<not> validChannel channel then refused UpInvalidChannel file
             else if \<not> source_available env channel then refused UpChannelUnavailable file
             else save_and_answer env w None (set_policy currentVersion enabled channel s) file)"

definition SetEnabled ::
    "update_env \<Rightarrow> update_error option \<Rightarrow> write_outcome \<Rightarrow> string \<Rightarrow> string \<Rightarrow> bool \<Rightarrow> state_file \<Rightarrow> update_result" where
  "SetEnabled env lockErr w currentVersion expected enabled = SetPolicy env lockErr w currentVersion expected enabled []"

text \<open>\<open>now.Sub\<close> saturates at the range of a duration.\<close>

definition time_sub :: "gotime \<Rightarrow> gotime \<Rightarrow> duration" where
  "time_sub a b = max (- (2 ^ 63)) (min (2 ^ 63 - 1) (a - b))"

definition normal_release :: "string \<Rightarrow> release_info \<Rightarrow> release_info" where
  "normal_release channel r =
     r\<lparr>rl_Version := normalizeChannelVersion channel (rl_Version r), rl_ImageDigest := normalizeImageDigest (rl_ImageDigest r)\<rparr>"

text \<open>The part of \<open>checkLocked\<close> behind a valid newer release.\<close>

definition observe_candidate :: "update_env \<Rightarrow> gotime \<Rightarrow> release_info \<Rightarrow> update_state \<Rightarrow> update_state" where
  "observe_candidate env now latest s =
     (let changed = (up_CandidateVersion s \<noteq> rl_Version latest \<or> up_CandidateImageDigest s \<noteq> rl_ImageDigest latest);
          s1 = (if changed
                then
                  let t = s\<lparr>up_CandidateVersion := rl_Version latest, up_CandidateImageDigest := rl_ImageDigest latest, up_CandidateFirstSeenAt := Some now\<rparr>
                  in if up_FailedVersion t \<noteq> rl_Version latest \<or> up_FailedImageDigest t \<noteq> rl_ImageDigest latest then clear_failed t else t
                else s);
          s2 = setCandidateMetadata latest s1
      in if changed then s2\<lparr>up_State := ''waiting''\<rparr>
         else if up_FailedVersion s2 = rl_Version latest \<and> up_FailedImageDigest s2 = rl_ImageDigest latest then s2\<lparr>up_State := ''blocked''\<rparr>
         else (case up_CandidateFirstSeenAt s2 of
             None \<Rightarrow> s2\<lparr>up_CandidateFirstSeenAt := Some now, up_State := ''waiting''\<rparr>
           | Some t \<Rightarrow> if time_sub now t < ue_hold env then s2\<lparr>up_State := ''waiting''\<rparr> else s2\<lparr>up_State := ''available''\<rparr>))"

definition invalid_release_text :: "string \<Rightarrow> string" where
  "invalid_release_text channel = ''the '' @ channel @ '' release endpoint returned an invalid version or image digest''"

definition checkLocked ::
    "update_env \<Rightarrow> gotime \<Rightarrow> string + release_info \<Rightarrow> update_state \<Rightarrow> update_state \<times> update_error option" where
  "checkLocked env now answer s0 =
     (if \<not> source_available env (up_Channel s0) then (s0, Some UpChannelUnavailable)
      else
        let s = s0\<lparr>up_LastCheckedAt := Some now\<rparr> in
        case answer of
          Inl err \<Rightarrow> (s\<lparr>up_State := ''check_failed'', up_LastErrorCode := ''release_check_failed'', up_LastError := boundedError err\<rparr>, Some UpCheckFailed)
        | Inr r \<Rightarrow>
            let latest = normal_release (up_Channel s) r in
            if rl_Version latest = [] \<or> rl_ImageDigest latest = []
            then (s\<lparr>up_State := ''check_failed'', up_LastErrorCode := ''invalid_release'', up_LastError := invalid_release_text (up_Channel s)\<rparr>,
                  Some UpInvalidRelease)
            else
              let s1 = clear_error s in
              if compareVersions (rl_Version latest) (up_CurrentVersion s1) \<le> 0
              then
                let s2 = clearCandidate s1;
                    s3 = (if compareVersions (up_FailedVersion s2) (up_CurrentVersion s2) \<le> 0 then clear_failed s2 else s2)
                in (s3\<lparr>up_State := normalizeRestingState s3\<rparr>, None)
              else (observe_candidate env now latest s1, None))"

definition Check ::
    "update_env \<Rightarrow> update_error option \<Rightarrow> write_outcome \<Rightarrow> string \<Rightarrow> gotime \<Rightarrow> string + release_info \<Rightarrow> state_file \<Rightarrow> update_result" where
  "Check env lockErr w currentVersion now answer =
     exclusive lockErr (\<lambda>file.
       case load file of None \<Rightarrow> refused UpStateInvalid file
       | Some s \<Rightarrow>
           if up_State s = ''updating'' \<or> up_InstallRequested s then refused UpBusy file
           else
             let s1 = s\<lparr>up_CurrentVersion := normalizeCurrentVersion currentVersion\<rparr> in
             if up_CurrentVersion s1 = [] then refused UpVersionInvalid file
             else case checkLocked env now answer s1 of (s2, err) \<Rightarrow> save_and_answer env w err s2 file)"

definition QueueInstall ::
    "update_env \<Rightarrow> update_error option \<Rightarrow> write_outcome \<Rightarrow> string \<Rightarrow> string \<Rightarrow> state_file \<Rightarrow> update_result" where
  "QueueInstall env lockErr w currentVersion expected =
     exclusive lockErr (\<lambda>file.
       case load file of None \<Rightarrow> refused UpStateInvalid file
       | Some s0 \<Rightarrow>
           if expected = [] \<or> expected \<noteq> ue_resourceVersion env s0 then refused UpConflict file
           else if up_State s0 = ''updating'' \<or> up_InstallRequested s0 then refused UpBusy file
           else
             let s = s0\<lparr>up_CurrentVersion := normalizeCurrentVersion currentVersion\<rparr> in
             if up_CurrentVersion s = [] \<or> up_CandidateVersion s = [] \<or> up_CandidateImageDigest s = [] \<or>
                compareVersions (up_CandidateVersion s) (up_CurrentVersion s) \<le> 0 \<or>
                (up_State s \<noteq> ''waiting'' \<and> up_State s \<noteq> ''available'')
             then refused UpNoUpdate file
             else save_and_answer env w None (clear_error (s\<lparr>up_InstallRequested := True, up_State := ''queued''\<rparr>)) file)"

definition CancelQueuedInstall ::
    "update_env \<Rightarrow> update_error option \<Rightarrow> write_outcome \<Rightarrow> string \<Rightarrow> string \<Rightarrow> string option \<Rightarrow> state_file \<Rightarrow> update_result" where
  "CancelQueuedInstall env lockErr w version digest cause =
     exclusive lockErr (\<lambda>file.
       case load file of None \<Rightarrow> refused UpStateInvalid file
       | Some s \<Rightarrow>
           if up_InstallRequested s \<and> up_CandidateVersion s = version \<and> up_CandidateImageDigest s = digest
           then
             let s1 = s\<lparr>up_InstallRequested := False\<rparr> in
             save_and_answer env w None
               (s1\<lparr>up_State := normalizeRestingState s1, up_LastErrorCode := ''install_start_failed'',
                   up_LastError := (case cause of None \<Rightarrow> [] | Some m \<Rightarrow> boundedError m)\<rparr>) file
           else \<lparr>ur_file = file, ur_launched = None, ur_status = Some (status_of env s), ur_error = None\<rparr>)"

section \<open>The run of the host service\<close>

text \<open>
  What one run meets: the errors of recovery and update if any, the installed version, the release source, the clock at each reading
  and the outcome of each write.
\<close>

record run_inputs =
  rn_recover :: "string option"
  rn_installed :: "string option"
  rn_answer :: "string + release_info"
  rn_update :: "string option"
  rn_recoverNow :: gotime
  rn_reconcileNow :: gotime
  rn_checkNow :: gotime
  rn_attemptNow :: gotime
  rn_successNow :: gotime
  rn_writeFirst :: write_outcome
  rn_writeIntent :: write_outcome
  rn_writeEnd :: write_outcome

definition interrupted_text :: string where
  "interrupted_text = ''the previous automatic update was interrupted and recovery restored the prior version''"

definition reconcileInterrupted :: "gotime \<Rightarrow> update_state \<Rightarrow> update_state" where
  "reconcileInterrupted now s0 =
     (let s = s0\<lparr>up_InstallRequested := False\<rparr> in
      if 0 \<le> compareVersions (up_CurrentVersion s) (up_CandidateVersion s)
      then clear_error (clear_failed (clearCandidate (s\<lparr>up_State := ''succeeded'', up_LastSuccessAt := Some now\<rparr>)))
      else s\<lparr>up_State := ''failed'', up_FailedVersion := up_CandidateVersion s, up_FailedImageDigest := up_CandidateImageDigest s,
             up_LastErrorCode := ''update_interrupted'', up_LastError := interrupted_text\<rparr>)"

text \<open>The installation: the intent is saved, the executor is called, and its outcome is saved.\<close>

definition run_install :: "update_env \<Rightarrow> run_inputs \<Rightarrow> update_state \<Rightarrow> state_file \<Rightarrow> update_result" where
  "run_install env r s0 file0 =
     (let target = up_CandidateVersion s0; digest = up_CandidateImageDigest s0;
          intent = clear_error (s0\<lparr>up_State := ''updating'', up_InstallRequested := False, up_LastAttemptAt := Some (rn_attemptNow r)\<rparr>)
      in case saveWithResult (rn_writeIntent r) intent file0 of (file, s, ok) \<Rightarrow>
         if \<not> ok then refused UpNotSaved file
         else if rn_writeIntent r = WriteUnsynced
         then \<lparr>ur_file = file, ur_launched = None, ur_status = Some (status_of env s), ur_error = Some UpUnconfirmed\<rparr>
         else
           (case rn_update r of
             Some err \<Rightarrow>
               save_and_answer env (rn_writeEnd r) (Some UpUpdateFailed)
                 (s\<lparr>up_State := ''failed'', up_InstallRequested := False, up_FailedVersion := target, up_FailedImageDigest := digest,
                    up_LastErrorCode := ''update_failed'', up_LastError := boundedError err\<rparr>) file
           | None \<Rightarrow>
               save_and_answer env (rn_writeEnd r) None
                 (clear_error (clear_failed ((clearCandidate (s\<lparr>up_State := ''succeeded'', up_InstallRequested := False, up_CurrentVersion := target\<rparr>))
                   \<lparr>up_LastSuccessAt := Some (rn_successNow r)\<rparr>))) file)
           \<lparr>ur_launched := Some (target, digest)\<rparr>)"

text \<open>From the policy on: disabled, a request for one installation, or the check.\<close>

definition run_policy :: "update_env \<Rightarrow> run_inputs \<Rightarrow> bool \<Rightarrow> update_state \<Rightarrow> state_file \<Rightarrow> update_result" where
  "run_policy env r manualRequested s file =
     (if \<not> up_Enabled s \<and> \<not> manualRequested then save_and_answer env (rn_writeIntent r) None (s\<lparr>up_State := ''disabled''\<rparr>) file
      else if manualRequested
      then
        if up_CandidateVersion s = [] \<or> up_CandidateImageDigest s = [] \<or> compareVersions (up_CandidateVersion s) (up_CurrentVersion s) \<le> 0
        then
          let s1 = s\<lparr>up_InstallRequested := False\<rparr> in
          save_and_answer env (rn_writeIntent r) None (s1\<lparr>up_State := normalizeRestingState s1\<rparr>) file
        else run_install env r (s\<lparr>up_State := ''available''\<rparr>) file
      else
        (case checkLocked env (rn_checkNow r) (rn_answer r) s of
          (s1, Some e) \<Rightarrow> save_and_answer env (rn_writeIntent r) (Some e) s1 file
        | (s1, None) \<Rightarrow>
            if up_State s1 \<noteq> ''available'' \<or> up_CandidateVersion s1 = [] then save_and_answer env (rn_writeIntent r) None s1 file
            else run_install env r s1 file))"

definition Run :: "update_env \<Rightarrow> update_error option \<Rightarrow> run_inputs \<Rightarrow> state_file \<Rightarrow> update_result" where
  "Run env lockErr r =
     exclusive lockErr (\<lambda>file.
       case load file of None \<Rightarrow> refused UpStateInvalid file
       | Some s \<Rightarrow>
           let manualRequested = up_InstallRequested s;
               wasUpdating = (up_State s = ''updating'' \<and> up_CandidateVersion s \<noteq> [])
           in case rn_recover r of
             Some err \<Rightarrow>
               save_and_answer env (rn_writeFirst r) (Some UpRecoverFailed)
                 (s\<lparr>up_State := ''failed'', up_InstallRequested := False, up_LastAttemptAt := Some (rn_recoverNow r),
                    up_LastErrorCode := ''recovery_failed'', up_LastError := boundedError err\<rparr>) file
           | None \<Rightarrow>
               (case rn_installed r of
                 None \<Rightarrow> refused UpInstalledUnknown file
               | Some installed \<Rightarrow>
                   let s1 = s\<lparr>up_CurrentVersion := normalizeCurrentVersion installed\<rparr> in
                   if up_CurrentVersion s1 = [] then refused UpVersionInvalid file
                   else if wasUpdating
                   then (case saveWithResult (rn_writeFirst r) (reconcileInterrupted (rn_reconcileNow r) s1) file of (file1, s2, ok) \<Rightarrow>
                           if \<not> ok then refused UpNotSaved file1 else run_policy env r manualRequested s2 file1)
                   else run_policy env r manualRequested s1 file))"

section \<open>Sequences of calls\<close>

datatype update_event =
    PolicyEvent "update_error option" write_outcome string string bool string
  | CheckEvent "update_error option" write_outcome string gotime "string + release_info"
  | QueueEvent "update_error option" write_outcome string string
  | CancelEvent "update_error option" write_outcome string string "string option"
  | RunEvent "update_error option" run_inputs

fun apply_event :: "update_env \<Rightarrow> update_event \<Rightarrow> state_file \<Rightarrow> update_result" where
  "apply_event env (PolicyEvent l w cur expected enabled channel) = SetPolicy env l w cur expected enabled channel"
| "apply_event env (CheckEvent l w cur now answer) = Check env l w cur now answer"
| "apply_event env (QueueEvent l w cur expected) = QueueInstall env l w cur expected"
| "apply_event env (CancelEvent l w version digest cause) = CancelQueuedInstall env l w version digest cause"
| "apply_event env (RunEvent l r) = Run env l r"

definition apply_events :: "update_env \<Rightarrow> update_event list \<Rightarrow> state_file \<Rightarrow> state_file" where
  "apply_events env evs file = foldl (\<lambda>f e. ur_file (apply_event env e f)) file evs"

text \<open>A configuration that \<open>New\<close> accepts: an observation period of at most a week.\<close>

definition hold_ok :: "update_env \<Rightarrow> bool" where
  "hold_ok env = (0 < ue_hold env \<and> ue_hold env \<le> 7 * 24 * Hour)"

end
