(* ===== verification/SelfUpdateState.thy ===== *)
theory SelfUpdateState
  imports SelfUpdate
begin

text \<open>
  The invariant of the updater's state: what an operation saves is what the next one loads. Strings that come from outside are an
  error message, a version, a digest and the metadata of a release; the lemmas say which of them keep the state loadable.
\<close>

section \<open>Versions and digests\<close>

lemma show_version_printable: "printable (show_version p)"
proof -
  have n: "printable (show_nat k)" for k using show_nat_digits digits_printable by blast
  have "printable (join ''.'' (map show_nat ks))" for ks
    using n by (induction ks rule: induct_list012) (simp_all add: printable_def byte_def)
  then show ?thesis using n by (simp add: show_version_def split: option.split) (simp add: printable_def byte_def)
qed

lemma normalized_version:
  assumes "normalizeReleaseVersion v \<noteq> []"
  shows "json_text (normalizeReleaseVersion v) = normalizeReleaseVersion v" "normalizeReleaseVersion (normalizeReleaseVersion v) \<noteq> []"
proof -
  obtain n p where "parseReleaseVersion v = Some (n, p)" using assms by (auto simp: normalizeReleaseVersion_def split: option.splits)
  then show "json_text (normalizeReleaseVersion v) = normalizeReleaseVersion v"
    using parsed_is_shown [of v n p] show_version_printable [of p] json_text_printable [of n] by (simp add: normalizeReleaseVersion_def)
  show "normalizeReleaseVersion (normalizeReleaseVersion v) \<noteq> []" using assms by (simp add: normalize_idem)
qed

lemma stable_version: "normalizeStableVersion v \<noteq> [] \<Longrightarrow> normalizeStableVersion v = normalizeReleaseVersion v"
  by (auto simp: normalizeStableVersion_def normalizeReleaseVersion_def split: option.splits prod.splits if_splits)

lemma stable_idem: "normalizeStableVersion (normalizeStableVersion v) = normalizeStableVersion v"
proof (cases "normalizeStableVersion v = []")
  case True
  then show ?thesis by (simp add: normalizeStableVersion_def parse_empty)
next
  case False
  then obtain n p where np: "parseReleaseVersion v = Some (n, p)" "pv_rc p = None"
    by (auto simp: normalizeStableVersion_def split: option.splits prod.splits if_splits)
  then have "parseReleaseVersion n = Some (n, p)" using parsed_is_shown shown_parses by metis
  with np show ?thesis by (simp add: normalizeStableVersion_def)
qed

lemma channel_version_idem: "normalizeChannelVersion c (normalizeChannelVersion c v) = normalizeChannelVersion c v"
  by (simp add: normalizeChannelVersion_def stable_idem normalize_idem)

lemma channel_version_release: "normalizeChannelVersion c v \<noteq> [] \<Longrightarrow> normalizeChannelVersion c v = normalizeReleaseVersion v"
  using stable_version by (auto simp: normalizeChannelVersion_def split: if_splits)

lemma channel_version_text: "normalizeChannelVersion c v \<noteq> [] \<Longrightarrow> json_text (normalizeChannelVersion c v) = normalizeChannelVersion c v"
  using channel_version_release normalized_version(1) by metis

lemma current_version_ok:
  "normalizeCurrentVersion v \<noteq> [] \<Longrightarrow> normalizeReleaseVersion (normalizeCurrentVersion v) \<noteq> []"
  "json_text (normalizeCurrentVersion v) = normalizeCurrentVersion v"
  using normalized_version by (simp_all add: normalizeCurrentVersion_def) (metis json_text_Nil)

lemma digest_printable:
  assumes "normalizeImageDigest d \<noteq> []" shows "printable (normalizeImageDigest d)"
proof -
  let ?v = "trim_space d"
  have n: "normalizeImageDigest d = ?v" "has_prefix ?v ''sha256:''" "list_all is_lower_hex (trim_prefix ?v ''sha256:'')"
    using assms by (auto simp: normalizeImageDigest_def Let_def split: if_splits)
  obtain r where r: "?v = ''sha256:'' @ r" using n(2) by (auto simp: has_prefix_iff)
  have "printable r" using n(3) unfolding r
    by (auto simp: trim_prefix_def has_prefix_def printable_def list_all_iff is_lower_hex_def is_digit_def byte_def)
  then have "printable ?v" unfolding r by (simp add: printable_def byte_def)
  with n(1) show ?thesis by simp
qed

lemma digest_idem: "normalizeImageDigest (normalizeImageDigest d) = normalizeImageDigest d"
  by (simp add: normalizeImageDigest_def Let_def) (simp add: trim_space_id)

lemma digest_text: "json_text (normalizeImageDigest d) = normalizeImageDigest d"
  using digest_printable json_text_printable by (cases "normalizeImageDigest d = []") auto

lemma official_url_text: "json_text (officialReleaseURL v) = officialReleaseURL v"
proof -
  have p: "printable ''https://github.com/kejilion/KPanel/releases/tag/v''" by code_simp
  have "printable (normalizeReleaseVersion v)"
    using parsed_is_shown [of v] show_version_printable
    by (cases "parseReleaseVersion v") (auto simp: normalizeReleaseVersion_def printable_def)
  then show ?thesis using p by (simp add: officialReleaseURL_def Let_def json_text_printable del: append.simps)
qed

section \<open>The invariant, by groups of fields\<close>

definition ready :: "update_state \<Rightarrow> bool" where
  "ready s = (validPersistedState s \<and> text_of s = s)"

definition error_ok :: "update_state \<Rightarrow> bool" where
  "error_ok s =
     (length (up_LastError s) \<le> 512 \<and> json_text (up_LastError s) = up_LastError s \<and>
      length (up_LastErrorCode s) \<le> 64 \<and> json_text (up_LastErrorCode s) = up_LastErrorCode s)"

definition current_ok :: "update_state \<Rightarrow> bool" where
  "current_ok s = ((up_CurrentVersion s \<noteq> [] \<longrightarrow> normalizeReleaseVersion (up_CurrentVersion s) \<noteq> []) \<and> json_text (up_CurrentVersion s) = up_CurrentVersion s)"

definition pair_ok :: "string \<Rightarrow> string \<Rightarrow> string \<Rightarrow> bool" where
  "pair_ok c v d =
     ((v \<noteq> [] \<longrightarrow> normalizeChannelVersion c v \<noteq> []) \<and> (d \<noteq> [] \<longrightarrow> normalizeImageDigest d \<noteq> []) \<and> (v = []) = (d = []) \<and>
      json_text v = v \<and> json_text d = d)"

definition metadata_ok :: "update_state \<Rightarrow> bool" where
  "metadata_ok s =
     ((if up_CandidateVersion s = []
       then up_CandidateReleaseURL s = [] \<and> up_CandidatePublishedAt s = [] \<and> up_CandidateNotes s = [] \<and> up_CandidateUpgradeNotes s = []
       else validCandidateMetadata s) \<and>
      json_text (up_CandidateReleaseURL s) = up_CandidateReleaseURL s \<and>
      json_text (up_CandidatePublishedAt s) = up_CandidatePublishedAt s \<and>
      list_all (\<lambda>n. json_text (fst n) = fst n \<and> json_text (snd n) = snd n) (up_CandidateNotes s) \<and>
      list_all (\<lambda>t. json_text t = t) (up_CandidateUpgradeNotes s))"

definition queue_ok :: "update_state \<Rightarrow> bool" where
  "queue_ok s =
     (up_State s \<in> valid_states \<and> up_InstallRequested s = (up_State s = ''queued'') \<and> \<not> (up_InstallRequested s \<and> up_CandidateVersion s = []))"

lemma constant_text: "x \<in> valid_states \<Longrightarrow> json_text x = x" "validChannel c \<Longrightarrow> json_text c = c"
proof -
  have "\<forall>x\<in>valid_states. printable x" unfolding valid_states_def by code_simp
  then show "x \<in> valid_states \<Longrightarrow> json_text x = x" using json_text_printable by blast
  show "validChannel c \<Longrightarrow> json_text c = c"
    by (auto simp: validChannel_def ChannelStable_def ChannelPreview_def printable_def byte_def intro!: json_text_printable)
qed

lemma map_fixed: "map f xs = xs \<longleftrightarrow> list_all (\<lambda>x. f x = x) xs"
  by (induction xs) auto

lemma text_of_fixed:
  "text_of s = s \<longleftrightarrow>
     json_text (up_Channel s) = up_Channel s \<and> json_text (up_State s) = up_State s \<and>
     json_text (up_CurrentVersion s) = up_CurrentVersion s \<and> json_text (up_CandidateVersion s) = up_CandidateVersion s \<and>
     json_text (up_CandidateImageDigest s) = up_CandidateImageDigest s \<and> json_text (up_CandidateReleaseURL s) = up_CandidateReleaseURL s \<and>
     json_text (up_CandidatePublishedAt s) = up_CandidatePublishedAt s \<and>
     list_all (\<lambda>n. json_text (fst n) = fst n \<and> json_text (snd n) = snd n) (up_CandidateNotes s) \<and>
     list_all (\<lambda>t. json_text t = t) (up_CandidateUpgradeNotes s) \<and>
     json_text (up_LastErrorCode s) = up_LastErrorCode s \<and> json_text (up_LastError s) = up_LastError s \<and>
     json_text (up_FailedVersion s) = up_FailedVersion s \<and> json_text (up_FailedImageDigest s) = up_FailedImageDigest s"
proof -
  have n: "map_prod f f x = x \<longleftrightarrow> f (fst x) = fst x \<and> f (snd x) = snd x" for f :: "string \<Rightarrow> string" and x by (cases x) simp
  show ?thesis by (cases s) (auto simp: text_of_def map_fixed n)
qed

lemma ready_groups:
  "ready s \<longleftrightarrow> validChannel (up_Channel s) \<and> error_ok s \<and> current_ok s \<and>
     pair_ok (up_Channel s) (up_CandidateVersion s) (up_CandidateImageDigest s) \<and>
     pair_ok (up_Channel s) (up_FailedVersion s) (up_FailedImageDigest s) \<and> metadata_ok s \<and> queue_ok s"
  unfolding ready_def text_of_fixed validPersistedState_def error_ok_def current_ok_def pair_ok_def metadata_ok_def queue_ok_def
  using constant_text by auto

lemma ready_load: "load (Decoded s) = Some t \<Longrightarrow> text_of s = s \<Longrightarrow> ready t \<and> up_SchemaVersion t = stateSchemaVersion"
proof -
  assume l: "load (Decoded s) = Some t" and f: "text_of s = s"
  from l have v: "validPersistedState t" "up_SchemaVersion t = stateSchemaVersion" by (auto simp: load_def Let_def split: if_splits)
  have "json_text ChannelStable = ChannelStable" using constant_text(2) by (simp add: validChannel_def)
  then have "text_of t = t" using l f unfolding text_of_fixed by (auto simp: load_def Let_def split: if_splits)
  with v show ?thesis by (simp add: ready_def)
qed

lemma load_saved:
  assumes "ready s" "up_SchemaVersion s = stateSchemaVersion"
  shows "load (Decoded (text_of s)) = Some s"
  using assms by (simp add: ready_def load_def Let_def stateSchemaVersion_def)

lemma ready_initial: "ready initial_update_state"
  by (simp add: ready_groups initial_update_state_def validChannel_def error_ok_def current_ok_def pair_ok_def metadata_ok_def
      queue_ok_def valid_states_def)

end
