(* ===== verification/SelfUpdateSteps.thy ===== *)
theory SelfUpdateSteps
  imports SelfUpdateState
begin

text \<open>
  Every operation of the updater keeps its state loadable, for inputs whose texts survive the state file: the proof is one
  lemma per state change of \<open>service.go\<close>.
\<close>

section \<open>Inputs that survive the state file\<close>

definition clean_error :: "string \<Rightarrow> bool" where
  "clean_error m = (json_text (boundedError m) = boundedError m)"

definition clean_note :: "string \<Rightarrow> bool" where
  "clean_note t = (let p = plainReleaseNote t in json_text p = p \<and> (p \<noteq> [] \<longrightarrow> plainReleaseNote p = p))"

definition clean_release :: "release_info \<Rightarrow> bool" where
  "clean_release r =
     (list_all (\<lambda>n. clean_note (snd n)) (rl_Notes r) \<and> list_all clean_note (rl_UpgradeNotes r) \<and>
      (case parse_rfc3339 (rl_PublishedAt r) of None \<Rightarrow> True | Some t \<Rightarrow> parse_rfc3339 (rfc3339 t) \<noteq> None))"

definition clean_answer :: "string + release_info \<Rightarrow> bool" where
  "clean_answer a = (case a of Inl m \<Rightarrow> clean_error m | Inr r \<Rightarrow> clean_release r)"

definition clean_run :: "run_inputs \<Rightarrow> bool" where
  "clean_run r = (clean_answer (rn_answer r) \<and> list_all clean_error (case rn_recover r of None \<Rightarrow> [] | Some m \<Rightarrow> [m]) \<and>
     list_all clean_error (case rn_update r of None \<Rightarrow> [] | Some m \<Rightarrow> [m]))"

fun clean_event :: "update_event \<Rightarrow> bool" where
  "clean_event (PolicyEvent l w cur expected enabled channel) = True"
| "clean_event (CheckEvent l w cur now answer) = clean_answer answer"
| "clean_event (QueueEvent l w cur expected) = True"
| "clean_event (CancelEvent l w version digest cause) = (case cause of None \<Rightarrow> True | Some m \<Rightarrow> clean_error m)"
| "clean_event (RunEvent l r) = clean_run r"

section \<open>The state changes\<close>

lemma length_bounded: "length (boundedError m) \<le> 512"
  by (simp add: boundedError_def Let_def)

lemma text_constants:
  "json_text ''release_check_failed'' = ''release_check_failed''" "json_text ''invalid_release'' = ''invalid_release''"
  "json_text ''install_start_failed'' = ''install_start_failed''" "json_text ''recovery_failed'' = ''recovery_failed''"
  "json_text ''update_interrupted'' = ''update_interrupted''" "json_text ''update_failed'' = ''update_failed''"
  "json_text interrupted_text = interrupted_text" "length interrupted_text \<le> 512"
  by (rule json_text_ascii, code_simp)+ (code_simp)

lemma invalid_text: "validChannel c \<Longrightarrow> json_text (invalid_release_text c) = invalid_release_text c \<and> length (invalid_release_text c) \<le> 512"
proof -
  assume "validChannel c"
  moreover have "is_ascii (invalid_release_text ChannelStable)" "is_ascii (invalid_release_text ChannelPreview)"
    "length (invalid_release_text ChannelStable) \<le> 512" "length (invalid_release_text ChannelPreview) \<le> 512" by code_simp+
  ultimately show ?thesis using json_text_ascii by (auto simp: validChannel_def)
qed

lemma resting_valid: "normalizeRestingState s \<in> valid_states \<and> normalizeRestingState s \<noteq> ''queued''"
  by (simp add: normalizeRestingState_def valid_states_def)

lemma some_valid_states [simp]:
  "''waiting'' \<in> valid_states" "''available'' \<in> valid_states" "''check_failed'' \<in> valid_states" "''failed'' \<in> valid_states"
  "''succeeded'' \<in> valid_states" "''updating'' \<in> valid_states" "''disabled'' \<in> valid_states" "''blocked'' \<in> valid_states"
  "''queued'' \<in> valid_states" "''idle'' \<in> valid_states"
  by (simp_all add: valid_states_def)

text \<open>What the groups do not depend on.\<close>

lemma error_ok_frame [simp]:
  "error_ok (s\<lparr>up_SchemaVersion := x0\<rparr>) = error_ok s" "error_ok (s\<lparr>up_Revision := x1\<rparr>) = error_ok s"
  "error_ok (s\<lparr>up_Enabled := x2\<rparr>) = error_ok s" "error_ok (s\<lparr>up_Channel := x3\<rparr>) = error_ok s"
  "error_ok (s\<lparr>up_State := x4\<rparr>) = error_ok s" "error_ok (s\<lparr>up_InstallRequested := x5\<rparr>) = error_ok s"
  "error_ok (s\<lparr>up_CurrentVersion := x6\<rparr>) = error_ok s" "error_ok (s\<lparr>up_CandidateVersion := x7\<rparr>) = error_ok s"
  "error_ok (s\<lparr>up_CandidateImageDigest := x8\<rparr>) = error_ok s" "error_ok (s\<lparr>up_CandidateReleaseURL := x9\<rparr>) = error_ok s"
  "error_ok (s\<lparr>up_CandidatePublishedAt := x10\<rparr>) = error_ok s" "error_ok (s\<lparr>up_CandidateNotes := x11\<rparr>) = error_ok s"
  "error_ok (s\<lparr>up_CandidateUpgradeNotes := x12\<rparr>) = error_ok s" "error_ok (s\<lparr>up_CandidateFirstSeenAt := x13\<rparr>) = error_ok s"
  "error_ok (s\<lparr>up_LastCheckedAt := x14\<rparr>) = error_ok s" "error_ok (s\<lparr>up_LastAttemptAt := x15\<rparr>) = error_ok s"
  "error_ok (s\<lparr>up_LastSuccessAt := x16\<rparr>) = error_ok s" "error_ok (s\<lparr>up_FailedVersion := x19\<rparr>) = error_ok s"
  "error_ok (s\<lparr>up_FailedImageDigest := x20\<rparr>) = error_ok s"
  by (simp_all add: error_ok_def)

lemma current_ok_frame [simp]:
  "current_ok (s\<lparr>up_SchemaVersion := x0\<rparr>) = current_ok s" "current_ok (s\<lparr>up_Revision := x1\<rparr>) = current_ok s"
  "current_ok (s\<lparr>up_Enabled := x2\<rparr>) = current_ok s" "current_ok (s\<lparr>up_Channel := x3\<rparr>) = current_ok s"
  "current_ok (s\<lparr>up_State := x4\<rparr>) = current_ok s" "current_ok (s\<lparr>up_InstallRequested := x5\<rparr>) = current_ok s"
  "current_ok (s\<lparr>up_CandidateVersion := x7\<rparr>) = current_ok s" "current_ok (s\<lparr>up_CandidateImageDigest := x8\<rparr>) = current_ok s"
  "current_ok (s\<lparr>up_CandidateReleaseURL := x9\<rparr>) = current_ok s" "current_ok (s\<lparr>up_CandidatePublishedAt := x10\<rparr>) = current_ok s"
  "current_ok (s\<lparr>up_CandidateNotes := x11\<rparr>) = current_ok s" "current_ok (s\<lparr>up_CandidateUpgradeNotes := x12\<rparr>) = current_ok s"
  "current_ok (s\<lparr>up_CandidateFirstSeenAt := x13\<rparr>) = current_ok s" "current_ok (s\<lparr>up_LastCheckedAt := x14\<rparr>) = current_ok s"
  "current_ok (s\<lparr>up_LastAttemptAt := x15\<rparr>) = current_ok s" "current_ok (s\<lparr>up_LastSuccessAt := x16\<rparr>) = current_ok s"
  "current_ok (s\<lparr>up_LastErrorCode := x17\<rparr>) = current_ok s" "current_ok (s\<lparr>up_LastError := x18\<rparr>) = current_ok s"
  "current_ok (s\<lparr>up_FailedVersion := x19\<rparr>) = current_ok s" "current_ok (s\<lparr>up_FailedImageDigest := x20\<rparr>) = current_ok s"
  by (simp_all add: current_ok_def)

lemma queue_ok_frame [simp]:
  "queue_ok (s\<lparr>up_SchemaVersion := x0\<rparr>) = queue_ok s" "queue_ok (s\<lparr>up_Revision := x1\<rparr>) = queue_ok s"
  "queue_ok (s\<lparr>up_Enabled := x2\<rparr>) = queue_ok s" "queue_ok (s\<lparr>up_Channel := x3\<rparr>) = queue_ok s"
  "queue_ok (s\<lparr>up_CurrentVersion := x6\<rparr>) = queue_ok s" "queue_ok (s\<lparr>up_CandidateImageDigest := x8\<rparr>) = queue_ok s"
  "queue_ok (s\<lparr>up_CandidateReleaseURL := x9\<rparr>) = queue_ok s" "queue_ok (s\<lparr>up_CandidatePublishedAt := x10\<rparr>) = queue_ok s"
  "queue_ok (s\<lparr>up_CandidateNotes := x11\<rparr>) = queue_ok s" "queue_ok (s\<lparr>up_CandidateUpgradeNotes := x12\<rparr>) = queue_ok s"
  "queue_ok (s\<lparr>up_CandidateFirstSeenAt := x13\<rparr>) = queue_ok s" "queue_ok (s\<lparr>up_LastCheckedAt := x14\<rparr>) = queue_ok s"
  "queue_ok (s\<lparr>up_LastAttemptAt := x15\<rparr>) = queue_ok s" "queue_ok (s\<lparr>up_LastSuccessAt := x16\<rparr>) = queue_ok s"
  "queue_ok (s\<lparr>up_LastErrorCode := x17\<rparr>) = queue_ok s" "queue_ok (s\<lparr>up_LastError := x18\<rparr>) = queue_ok s"
  "queue_ok (s\<lparr>up_FailedVersion := x19\<rparr>) = queue_ok s" "queue_ok (s\<lparr>up_FailedImageDigest := x20\<rparr>) = queue_ok s"
  by (simp_all add: queue_ok_def)

lemma metadata_ok_frame [simp]:
  "metadata_ok (s\<lparr>up_SchemaVersion := x0\<rparr>) = metadata_ok s" "metadata_ok (s\<lparr>up_Revision := x1\<rparr>) = metadata_ok s"
  "metadata_ok (s\<lparr>up_Enabled := x2\<rparr>) = metadata_ok s" "metadata_ok (s\<lparr>up_Channel := x3\<rparr>) = metadata_ok s"
  "metadata_ok (s\<lparr>up_State := x4\<rparr>) = metadata_ok s" "metadata_ok (s\<lparr>up_InstallRequested := x5\<rparr>) = metadata_ok s"
  "metadata_ok (s\<lparr>up_CurrentVersion := x6\<rparr>) = metadata_ok s" "metadata_ok (s\<lparr>up_CandidateImageDigest := x8\<rparr>) = metadata_ok s"
  "metadata_ok (s\<lparr>up_CandidateFirstSeenAt := x13\<rparr>) = metadata_ok s" "metadata_ok (s\<lparr>up_LastCheckedAt := x14\<rparr>) = metadata_ok s"
  "metadata_ok (s\<lparr>up_LastAttemptAt := x15\<rparr>) = metadata_ok s" "metadata_ok (s\<lparr>up_LastSuccessAt := x16\<rparr>) = metadata_ok s"
  "metadata_ok (s\<lparr>up_LastErrorCode := x17\<rparr>) = metadata_ok s" "metadata_ok (s\<lparr>up_LastError := x18\<rparr>) = metadata_ok s"
  "metadata_ok (s\<lparr>up_FailedVersion := x19\<rparr>) = metadata_ok s" "metadata_ok (s\<lparr>up_FailedImageDigest := x20\<rparr>) = metadata_ok s"
  by (simp_all add: metadata_ok_def validCandidateMetadata_def)

lemma metadata_cleared [simp]: "metadata_ok (clearCandidate s)"
  by (simp add: metadata_ok_def clearCandidate_def)

lemma pair_empty [simp]: "pair_ok c [] []"
  by (simp add: pair_ok_def)

lemma queue_rest:
  "\<not> up_InstallRequested s \<Longrightarrow> x \<in> valid_states \<Longrightarrow> x \<noteq> ''queued'' \<Longrightarrow> queue_ok (s\<lparr>up_State := x\<rparr>)"
  "x \<in> valid_states \<Longrightarrow> x \<noteq> ''queued'' \<Longrightarrow> queue_ok (s\<lparr>up_State := x, up_InstallRequested := False\<rparr>)"
  by (simp_all add: queue_ok_def)

lemma queue_cleared [simp]: "\<not> up_InstallRequested s \<Longrightarrow> queue_ok s \<Longrightarrow> queue_ok (clearCandidate s)"
  by (simp add: queue_ok_def clearCandidate_def)

lemma cleared_frame [simp]:
  "error_ok (clearCandidate s) = error_ok s" "current_ok (clearCandidate s) = current_ok s"
  "error_ok (clear_failed s) = error_ok s" "current_ok (clear_failed s) = current_ok s" "metadata_ok (clear_failed s) = metadata_ok s"
  "queue_ok (clear_failed s) = queue_ok s" "error_ok (clear_error s)" "current_ok (clear_error s) = current_ok s"
  "metadata_ok (clear_error s) = metadata_ok s" "queue_ok (clear_error s) = queue_ok s"
  by (simp_all add: clearCandidate_def clear_failed_def clear_error_def) (simp add: error_ok_def)

lemma cleared_fields [simp]:
  "up_CandidateVersion (clearCandidate s) = []" "up_CandidateImageDigest (clearCandidate s) = []"
  "up_FailedVersion (clearCandidate s) = up_FailedVersion s" "up_FailedImageDigest (clearCandidate s) = up_FailedImageDigest s"
  "up_Channel (clearCandidate s) = up_Channel s" "up_InstallRequested (clearCandidate s) = up_InstallRequested s"
  "up_State (clearCandidate s) = up_State s" "up_CurrentVersion (clearCandidate s) = up_CurrentVersion s"
  "up_FailedVersion (clear_failed s) = []" "up_FailedImageDigest (clear_failed s) = []"
  "up_CandidateVersion (clear_failed s) = up_CandidateVersion s" "up_CandidateImageDigest (clear_failed s) = up_CandidateImageDigest s"
  "up_Channel (clear_failed s) = up_Channel s" "up_InstallRequested (clear_failed s) = up_InstallRequested s"
  "up_State (clear_failed s) = up_State s" "up_CurrentVersion (clear_failed s) = up_CurrentVersion s"
  "up_CandidateVersion (clear_error s) = up_CandidateVersion s" "up_CandidateImageDigest (clear_error s) = up_CandidateImageDigest s"
  "up_FailedVersion (clear_error s) = up_FailedVersion s" "up_FailedImageDigest (clear_error s) = up_FailedImageDigest s"
  "up_Channel (clear_error s) = up_Channel s" "up_InstallRequested (clear_error s) = up_InstallRequested s"
  "up_State (clear_error s) = up_State s" "up_CurrentVersion (clear_error s) = up_CurrentVersion s"
  "up_CandidateFirstSeenAt (clear_error s) = up_CandidateFirstSeenAt s" "up_CandidateFirstSeenAt (clear_failed s) = up_CandidateFirstSeenAt s"
  "up_CandidateFirstSeenAt (clearCandidate s) = None"
  "up_Enabled (clear_error s) = up_Enabled s" "up_Enabled (clear_failed s) = up_Enabled s" "up_Enabled (clearCandidate s) = up_Enabled s"
  "up_SchemaVersion (clear_error s) = up_SchemaVersion s" "up_SchemaVersion (clear_failed s) = up_SchemaVersion s"
  "up_SchemaVersion (clearCandidate s) = up_SchemaVersion s"
  by (simp_all add: clearCandidate_def clear_failed_def clear_error_def)

lemma ready_bump: "ready (s\<lparr>up_SchemaVersion := z, up_Revision := r\<rparr>) = ready s"
  by (simp add: ready_groups)

lemma current_set: "current_ok (s\<lparr>up_CurrentVersion := normalizeCurrentVersion v\<rparr>)"
  using current_version_ok by (simp add: current_ok_def)

lemma ready_current: "ready s \<Longrightarrow> ready (s\<lparr>up_CurrentVersion := normalizeCurrentVersion v\<rparr>)"
  by (simp add: ready_groups current_set)

lemma ready_set_policy:
  assumes "ready s" "\<not> up_InstallRequested s" "validChannel channel"
  shows "ready (set_policy cur enabled channel s)"
proof -
  define s1 where "s1 = clear_error (s\<lparr>up_Enabled := enabled, up_Channel := channel, up_CurrentVersion := normalizeCurrentVersion cur\<rparr>)"
  define s2 where "s2 = (if up_Channel s \<noteq> channel then (clear_failed (clearCandidate s1))\<lparr>up_InstallRequested := False\<rparr> else s1)"
  have q: "queue_ok s1" "\<not> up_InstallRequested s1" using assms by (simp_all add: s1_def ready_groups)
  have i: "(clear_failed (clearCandidate s1))\<lparr>up_InstallRequested := False\<rparr> = clear_failed (clearCandidate s1)"
    using q(2) by (cases s1) (simp add: clear_failed_def clearCandidate_def)
  have "ready s2" "\<not> up_InstallRequested s2"
    using assms q by (auto simp: s2_def i ready_groups) (auto simp: s1_def current_set)
  then have "ready (s2\<lparr>up_State := x\<rparr>)" if "x \<in> valid_states" "x \<noteq> ''queued''" for x
    using that by (simp add: ready_groups queue_rest)
  then show ?thesis using resting_valid unfolding set_policy_def Let_def s1_def [symmetric] s2_def [symmetric] by simp
qed

lemma clean_notes:
  "list_all (\<lambda>n. clean_note (snd n)) ns \<Longrightarrow> list_all (\<lambda>n. validReleaseNoteKind (fst n) \<and> valid_note (snd n) \<and> json_text (fst n) = fst n \<and> json_text (snd n) = snd n) (normalizedReleaseNotes ns k)"
  "list_all clean_note us \<Longrightarrow> list_all (\<lambda>t. valid_note t \<and> json_text t = t) (normalizedUpgradeNotes us k)"
proof -
  have kind: "json_text x = x" if "validReleaseNoteKind x" for x
  proof -
    have "\<forall>x\<in>{''added'', ''changed'', ''fixed'', ''security'', ''performance'', ''compatibility''}. is_ascii x" by code_simp
    then show ?thesis using that json_text_ascii by (auto simp: validReleaseNoteKind_def)
  qed
  show "list_all (\<lambda>n. clean_note (snd n)) ns \<Longrightarrow> list_all (\<lambda>n. validReleaseNoteKind (fst n) \<and> valid_note (snd n) \<and> json_text (fst n) = fst n \<and> json_text (snd n) = snd n) (normalizedReleaseNotes ns k)"
    using kind by (auto simp: normalizedReleaseNotes_def list_all_iff clean_note_def valid_note_def Let_def dest!: in_set_takeD)
  show "list_all clean_note us \<Longrightarrow> list_all (\<lambda>t. valid_note t \<and> json_text t = t) (normalizedUpgradeNotes us k)"
    by (auto simp: normalizedUpgradeNotes_def list_all_iff clean_note_def valid_note_def Let_def dest!: in_set_takeD)
qed

lemma metadata_set:
  assumes "clean_release r" "up_CandidateVersion s \<noteq> []" "up_CandidateVersion s = rl_Version r"
  shows "metadata_ok (setCandidateMetadata r s)"
proof -
  have n: "list_all (\<lambda>n. clean_note (snd n)) (rl_Notes r)" "list_all clean_note (rl_UpgradeNotes r)" using assms(1) by (simp_all add: clean_release_def)
  have len: "length (normalizedReleaseNotes ns k) \<le> k" "length (normalizedUpgradeNotes us k) \<le> k" for ns us k
    by (simp_all add: normalizedReleaseNotes_def normalizedUpgradeNotes_def)
  have "json_text (rfc3339 t) = rfc3339 t" for t using json_text_printable rfc3339_printable by blast
  then show ?thesis using assms clean_notes(1) [OF n(1), of maxReleaseNotes] clean_notes(2) [OF n(2), of maxUpgradeNotes] len official_url_text
    by (auto simp: metadata_ok_def setCandidateMetadata_def validCandidateMetadata_def clean_release_def list_all_iff split: option.splits)
qed

section \<open>The check\<close>

lemma metadata_fields [simp]:
  "up_CandidateVersion (setCandidateMetadata r s) = up_CandidateVersion s" "up_CandidateImageDigest (setCandidateMetadata r s) = up_CandidateImageDigest s"
  "up_FailedVersion (setCandidateMetadata r s) = up_FailedVersion s" "up_FailedImageDigest (setCandidateMetadata r s) = up_FailedImageDigest s"
  "up_Channel (setCandidateMetadata r s) = up_Channel s" "up_InstallRequested (setCandidateMetadata r s) = up_InstallRequested s"
  "up_State (setCandidateMetadata r s) = up_State s" "up_CurrentVersion (setCandidateMetadata r s) = up_CurrentVersion s"
  "up_CandidateFirstSeenAt (setCandidateMetadata r s) = up_CandidateFirstSeenAt s" "up_Enabled (setCandidateMetadata r s) = up_Enabled s"
  "error_ok (setCandidateMetadata r s) = error_ok s" "current_ok (setCandidateMetadata r s) = current_ok s"
  "queue_ok (setCandidateMetadata r s) = queue_ok s"
  by (simp_all add: setCandidateMetadata_def)

text \<open>The candidate that \<open>observe_candidate\<close> leaves is the release it was given.\<close>

lemma observed_fields:
  "up_CandidateVersion (observe_candidate env now r s) = rl_Version r"
  "up_CandidateImageDigest (observe_candidate env now r s) = rl_ImageDigest r"
  "up_Channel (observe_candidate env now r s) = up_Channel s"
  "up_InstallRequested (observe_candidate env now r s) = up_InstallRequested s"
  "up_CurrentVersion (observe_candidate env now r s) = up_CurrentVersion s"
  "up_Enabled (observe_candidate env now r s) = up_Enabled s"
  "up_State (observe_candidate env now r s) \<in> {''waiting'', ''blocked'', ''available''}"
  by (auto simp: observe_candidate_def Let_def clear_failed_def split: option.split)

text \<open>A release as the code accepts it: a normal version of the channel and a normal digest.\<close>

definition normal_pair :: "string \<Rightarrow> string \<Rightarrow> string \<Rightarrow> bool" where
  "normal_pair c v d = (v \<noteq> [] \<and> d \<noteq> [] \<and> normalizeChannelVersion c v = v \<and> normalizeImageDigest d = d)"

lemma normal_pair_ok: "normal_pair c v d \<Longrightarrow> pair_ok c v d"
  using channel_version_text [of c v] digest_text [of d] by (simp add: normal_pair_def pair_ok_def)

lemma normal_release_pair:
  "rl_Version (normal_release c r) \<noteq> [] \<Longrightarrow> rl_ImageDigest (normal_release c r) \<noteq> [] \<Longrightarrow>
    normal_pair c (rl_Version (normal_release c r)) (rl_ImageDigest (normal_release c r))"
  by (simp add: normal_pair_def normal_release_def channel_version_idem digest_idem)

lemma clean_normal_release: "clean_release (normal_release c r) = clean_release r"
  by (simp add: clean_release_def normal_release_def)

lemma ready_observe:
  assumes "ready s" "\<not> up_InstallRequested s" "clean_release r" "normal_pair (up_Channel s) (rl_Version r) (rl_ImageDigest r)"
  shows "ready (observe_candidate env now r s)"
proof -
  note p = normal_pair_ok [OF assms(4)]
  have ne: "rl_Version r \<noteq> []" using assms(4) by (simp add: normal_pair_def)
  have q: "queue_ok (s\<lparr>up_CandidateVersion := v\<rparr>)" for v using assms(1,2) by (auto simp: ready_groups queue_ok_def)
  define s1 where "s1 = (if up_CandidateVersion s \<noteq> rl_Version r \<or> up_CandidateImageDigest s \<noteq> rl_ImageDigest r
      then let t = s\<lparr>up_CandidateVersion := rl_Version r, up_CandidateImageDigest := rl_ImageDigest r, up_CandidateFirstSeenAt := Some now\<rparr>
        in if up_FailedVersion t \<noteq> rl_Version r \<or> up_FailedImageDigest t \<noteq> rl_ImageDigest r then clear_failed t else t
      else s)"
  define s2 where "s2 = setCandidateMetadata r s1"
  have c: "up_CandidateVersion s1 = rl_Version r" "up_CandidateImageDigest s1 = rl_ImageDigest r" "\<not> up_InstallRequested s1" "up_Channel s1 = up_Channel s"
    "error_ok s1" "current_ok s1" "queue_ok s1" "pair_ok (up_Channel s) (up_FailedVersion s1) (up_FailedImageDigest s1)"
    using assms(1,2) p q by (auto simp: s1_def Let_def ready_groups)
  have "metadata_ok s2" unfolding s2_def by (rule metadata_set) (use assms(3) ne c(1) in simp_all)
  then have r: "ready s2" "\<not> up_InstallRequested s2" using assms(1) c p by (simp_all add: ready_groups s2_def)
  then have "ready (s2\<lparr>up_State := x\<rparr>)" "ready (s2\<lparr>up_CandidateFirstSeenAt := t, up_State := x\<rparr>)"
    if "x \<in> valid_states" "x \<noteq> ''queued''" for x t
    using that by (simp_all add: ready_groups queue_rest)
  then show ?thesis unfolding observe_candidate_def Let_def s1_def [unfolded Let_def, symmetric] s2_def [symmetric] by (simp split: option.split)
qed

lemma ready_check:
  assumes "ready s" "\<not> up_InstallRequested s" "clean_answer a" "checkLocked env now a s = (s', e)"
  shows "ready s' \<and> \<not> up_InstallRequested s'"
proof (cases "source_available env (up_Channel s)")
  case False
  then show ?thesis using assms by (simp add: checkLocked_def)
next
  case av: True
  let ?s = "s\<lparr>up_LastCheckedAt := Some now\<rparr>"
  have b: "ready ?s" using assms(1) by (simp add: ready_groups)
  have err: "ready (?s\<lparr>up_State := ''check_failed'', up_LastErrorCode := c, up_LastError := m\<rparr>)"
    if "json_text c = c" "length c \<le> 64" "json_text m = m" "length m \<le> 512" for c m
    using that assms(1,2) by (simp add: ready_groups queue_rest) (simp add: error_ok_def)
  show ?thesis
  proof (cases a)
    case (Inl m)
    then have "s' = ?s\<lparr>up_State := ''check_failed'', up_LastErrorCode := ''release_check_failed'', up_LastError := boundedError m\<rparr>"
      using assms(4) av by (simp add: checkLocked_def Let_def)
    then show ?thesis using err [OF text_constants(1), of "boundedError m"] assms(2,3) Inl length_bounded
      by (simp add: clean_answer_def clean_error_def)
  next
    case (Inr r)
    let ?r = "normal_release (up_Channel s) r"
    have clean: "clean_release ?r" using assms(3) Inr by (simp add: clean_normal_release clean_answer_def)
    show ?thesis
    proof (cases "rl_Version ?r = [] \<or> rl_ImageDigest ?r = []")
      case True
      then have "s' = ?s\<lparr>up_State := ''check_failed'', up_LastErrorCode := ''invalid_release'', up_LastError := invalid_release_text (up_Channel s)\<rparr>"
        using assms(4) av Inr by (auto simp: checkLocked_def Let_def)
      then show ?thesis using err [OF text_constants(2), of "invalid_release_text (up_Channel s)"] invalid_text assms(1,2)
        by (simp add: ready_groups)
    next
      case False
      then have n: "normal_pair (up_Channel s) (rl_Version ?r) (rl_ImageDigest ?r)" by (intro normal_release_pair) simp_all
      define s1 where "s1 = clear_error ?s"
      have s1: "ready s1" "\<not> up_InstallRequested s1" using b assms(2) by (simp_all add: s1_def ready_groups)
      show ?thesis
      proof (cases "compareVersions (rl_Version ?r) (up_CurrentVersion s1) \<le> 0")
        case True
        define s2 where "s2 = clearCandidate s1"
        define s3 where "s3 = (if compareVersions (up_FailedVersion s2) (up_CurrentVersion s2) \<le> 0 then clear_failed s2 else s2)"
        have "s' = s3\<lparr>up_State := normalizeRestingState s3\<rparr>"
          using assms(4) av Inr False True by (simp add: checkLocked_def Let_def s1_def s2_def s3_def split: if_splits)
        moreover have "ready s3" "\<not> up_InstallRequested s3" using s1 by (simp_all add: s3_def s2_def ready_groups)
        ultimately show ?thesis using resting_valid [of s3] by (simp add: ready_groups queue_rest)
      next
        case newer: False
        have "s' = observe_candidate env now ?r s1"
          using assms(4) av Inr False newer by (simp add: checkLocked_def Let_def s1_def)
        moreover have "up_Channel s1 = up_Channel s" by (simp add: s1_def)
        ultimately show ?thesis using ready_observe [OF s1 clean] n s1(2) by (simp add: observed_fields)
      qed
    qed
  qed
qed

section \<open>Saving and loading\<close>

text \<open>A file the updater can go on with.\<close>

definition file_ok :: "state_file \<Rightarrow> bool" where
  "file_ok f = (case f of Missing \<Rightarrow> True | Refused \<Rightarrow> False | Decoded s \<Rightarrow> text_of s = s \<and> load f \<noteq> None)"

lemma file_ok_load: "file_ok f \<Longrightarrow> \<exists>s. load f = Some s \<and> ready s"
proof (cases f)
  case Missing
  then show ?thesis using ready_initial by (simp add: load_def)
next
  case Refused
  then show "file_ok f \<Longrightarrow> ?thesis" by (simp add: file_ok_def)
next
  case (Decoded s)
  then show "file_ok f \<Longrightarrow> ?thesis" using ready_load [of s] by (auto simp: file_ok_def)
qed

lemma saved_ok:
  assumes "ready s" "file_ok f" "saveWithResult w s f = (f', s', ok)"
  shows "file_ok f' \<and> ready s' \<and> (ok \<longrightarrow> load f' = Some s') \<and> up_InstallRequested s' = up_InstallRequested s"
proof (cases "w = WriteFails")
  case True
  then show ?thesis using assms by (auto simp: saveWithResult_def)
next
  case False
  let ?n = "s\<lparr>up_SchemaVersion := stateSchemaVersion, up_Revision := up_Revision s + 1\<rparr>"
  have f: "f' = Decoded (text_of ?n)" "s' = ?n" "ok" using assms(3) False by (auto simp: saveWithResult_def Let_def)
  have r: "ready ?n" using assms(1) by (simp add: ready_bump)
  then have "load f' = Some ?n" unfolding f(1) by (intro load_saved) simp_all
  then show ?thesis using f r by (simp add: file_ok_def ready_def)
qed

lemma answered_ok: "ready s \<Longrightarrow> file_ok f \<Longrightarrow> file_ok (ur_file (save_and_answer env w e s f))"
  using saved_ok [of s f w] by (auto simp: save_and_answer_def refused_def split: prod.split)

lemma ready_reconcile:
  assumes "ready s"
  shows "ready (reconcileInterrupted now s) \<and> \<not> up_InstallRequested (reconcileInterrupted now s)"
proof -
  have q: "queue_ok (s\<lparr>up_InstallRequested := False, up_State := x\<rparr>)" if "x \<in> valid_states" "x \<noteq> ''queued''" for x
    using that by (simp add: queue_ok_def)
  have e: "error_ok (s\<lparr>up_LastErrorCode := ''update_interrupted'', up_LastError := interrupted_text\<rparr>)"
    using text_constants by (simp add: error_ok_def)
  have f: "error_ok (s\<lparr>up_InstallRequested := a, up_State := b, up_FailedVersion := c, up_FailedImageDigest := d,
      up_LastErrorCode := ''update_interrupted'', up_LastError := interrupted_text\<rparr>)" for a b c d
    using e by (simp add: error_ok_def)
  show ?thesis using assms q by (simp add: reconcileInterrupted_def Let_def ready_groups f)
qed

lemma ready_install:
  assumes "ready s" "up_CandidateVersion s \<noteq> []" "file_ok f" "list_all clean_error (case rn_update r of None \<Rightarrow> [] | Some m \<Rightarrow> [m])"
  shows "file_ok (ur_file (run_install env r s f))"
proof -
  let ?intent = "clear_error (s\<lparr>up_State := ''updating'', up_InstallRequested := False, up_LastAttemptAt := Some (rn_attemptNow r)\<rparr>)"
  have i: "ready ?intent" using assms(1) by (simp add: ready_groups queue_rest)
  obtain f1 s1 ok where s1: "saveWithResult (rn_writeIntent r) ?intent f = (f1, s1, ok)" by (cases "saveWithResult (rn_writeIntent r) ?intent f") auto
  note ok1 = saved_ok [OF i assms(3) s1]
  have c: "up_CandidateVersion s1 = up_CandidateVersion s" "up_CandidateImageDigest s1 = up_CandidateImageDigest s" "up_Channel s1 = up_Channel s"
    using s1 by (auto simp: saveWithResult_def Let_def split: if_splits)
  have r1: "ready s1" "\<not> up_InstallRequested s1" using ok1 by simp_all
  have failed: "ready (s1\<lparr>up_State := ''failed'', up_InstallRequested := False, up_FailedVersion := up_CandidateVersion s,
      up_FailedImageDigest := up_CandidateImageDigest s, up_LastErrorCode := ''update_failed'', up_LastError := boundedError m\<rparr>)"
    if "clean_error m" for m
    using r1 that text_constants length_bounded [of m] c by (simp add: ready_groups queue_rest) (simp add: error_ok_def clean_error_def)
  have cur: "current_ok (t\<lparr>up_CurrentVersion := up_CandidateVersion s\<rparr>)" for t
    using assms(1,2) channel_version_release [of "up_Channel s" "up_CandidateVersion s"]
    by (auto simp: current_ok_def ready_groups pair_ok_def)
  have cur2: "current_ok ((clearCandidate t)\<lparr>up_LastSuccessAt := x\<rparr>) = current_ok t" for t x
    by (simp add: clearCandidate_def)
  have q: "queue_ok (clearCandidate (s1\<lparr>up_State := ''succeeded'', up_InstallRequested := False, up_CurrentVersion := v\<rparr>))" for v
    by (simp add: queue_ok_def)
  have done_ok: "ready (clear_error (clear_failed ((clearCandidate (s1\<lparr>up_State := ''succeeded'', up_InstallRequested := False, up_CurrentVersion := up_CandidateVersion s\<rparr>))
      \<lparr>up_LastSuccessAt := Some (rn_successNow r)\<rparr>)))"
    using r1 q by (simp add: ready_groups cur cur2)
  show ?thesis
    using ok1 failed [THEN answered_ok] answered_ok [OF done_ok] assms(4) unfolding run_install_def Let_def s1
    by (auto simp: refused_def split: option.splits if_splits)
qed

lemma ready_manual: "ready s \<Longrightarrow> x \<in> valid_states \<Longrightarrow> x \<noteq> ''queued'' \<Longrightarrow> ready (s\<lparr>up_InstallRequested := False, up_State := x\<rparr>)"
proof -
  assume "ready s" "x \<in> valid_states" "x \<noteq> ''queued''"
  then have "ready (s\<lparr>up_State := x, up_InstallRequested := False\<rparr>)" by (simp add: ready_groups queue_rest)
  moreover have "s\<lparr>up_State := x, up_InstallRequested := False\<rparr> = s\<lparr>up_InstallRequested := False, up_State := x\<rparr>" by (cases s) simp
  ultimately show ?thesis by metis
qed

text \<open>The state in memory says available while the request is still set; the file never does.\<close>

lemma install_ignores_request:
  "run_install env r (s\<lparr>up_State := ''available''\<rparr>) f = run_install env r (s\<lparr>up_InstallRequested := False, up_State := ''available''\<rparr>) f"
  by (simp add: run_install_def clear_error_def)

lemma policy_ok:
  assumes "ready s" "file_ok f" "clean_run r" "up_InstallRequested s \<Longrightarrow> m"
  shows "file_ok (ur_file (run_policy env r m s f))"
proof (cases m)
  case True
  have ready_inst: "ready (s\<lparr>up_InstallRequested := False, up_State := ''available''\<rparr>)" by (rule ready_manual [OF assms(1)]) simp_all
  have rest: "ready (s\<lparr>up_InstallRequested := False, up_State := normalizeRestingState (s\<lparr>up_InstallRequested := False\<rparr>)\<rparr>)"
    by (rule ready_manual [OF assms(1)]) (use resting_valid in auto)
  have "file_ok (ur_file (run_install env r (s\<lparr>up_State := ''available''\<rparr>) f))" if "up_CandidateVersion s \<noteq> []"
    by (subst install_ignores_request, rule ready_install [OF ready_inst]) (use assms that in \<open>simp_all add: clean_run_def\<close>)
  then show ?thesis using True answered_ok [OF rest assms(2)] by (simp add: run_policy_def Let_def)
next
  case False
  then have n: "\<not> up_InstallRequested s" using assms(4) by blast
  have d: "ready (s\<lparr>up_State := ''disabled''\<rparr>)" using assms(1) n by (simp add: ready_groups queue_rest)
  show ?thesis
  proof (cases "up_Enabled s")
    case True
    obtain s1 e where c: "checkLocked env (rn_checkNow r) (rn_answer r) s = (s1, e)"
      by (cases "checkLocked env (rn_checkNow r) (rn_answer r) s") auto
    have r1: "ready s1" using ready_check [OF assms(1) n _ c] assms(3) by (simp add: clean_run_def)
    show ?thesis
      using True False c answered_ok [OF r1 assms(2)] ready_install [OF r1 _ assms(2)] assms(3)
      by (cases e) (simp_all add: run_policy_def clean_run_def)
  next
    case False
    then show ?thesis using \<open>\<not> m\<close> answered_ok [OF d assms(2)] by (simp add: run_policy_def)
  qed
qed

lemma host_run_ok:
  assumes "file_ok f" "clean_run r" shows "file_ok (ur_file (Run env l r f))"
proof (cases l)
  case None
  obtain s where s: "load f = Some s" "ready s" using file_ok_load [OF assms(1)] by blast
  have q: "up_InstallRequested s \<longleftrightarrow> up_State s = ''queued''" using s(2) by (simp add: ready_groups queue_ok_def)
  have failed: "ready (s\<lparr>up_State := ''failed'', up_InstallRequested := False, up_LastAttemptAt := t,
      up_LastErrorCode := ''recovery_failed'', up_LastError := boundedError m\<rparr>)" if "clean_error m" for m t
    using s(2) that text_constants length_bounded [of m] by (simp add: ready_groups queue_rest) (simp add: error_ok_def clean_error_def)
  show ?thesis
  proof (cases "rn_recover r")
    case (Some m)
    then have "clean_error m" using assms(2) by (simp add: clean_run_def)
    then show ?thesis using answered_ok [OF failed assms(1)] None s(1) Some by (simp add: Run_def exclusive_def Let_def)
  next
    case rec: None
    show ?thesis
    proof (cases "rn_installed r")
      case inst: None
      then show ?thesis using None s(1) rec assms(1) by (simp add: Run_def exclusive_def refused_def Let_def)
    next
      case (Some v)
      let ?s1 = "s\<lparr>up_CurrentVersion := normalizeCurrentVersion v\<rparr>"
      have r1: "ready ?s1" by (rule ready_current [OF s(2)])
      obtain f2 s2 ok where w: "saveWithResult (rn_writeFirst r) (reconcileInterrupted (rn_reconcileNow r) ?s1) f = (f2, s2, ok)"
        by (cases "saveWithResult (rn_writeFirst r) (reconcileInterrupted (rn_reconcileNow r) ?s1) f") auto
      note rec2 = ready_reconcile [OF r1, of "rn_reconcileNow r"]
      note ok2 = saved_ok [OF conjunct1 [OF rec2] assms(1) w]
      show ?thesis
        using None s(1) rec Some w ok2 rec2 policy_ok [OF r1 assms, of "up_InstallRequested s"] policy_ok [of s2 f2 r False] assms(1,2) q
        by (simp add: Run_def exclusive_def refused_def Let_def)
    qed
  qed
next
  case (Some e)
  then show ?thesis using assms(1) by (simp add: Run_def exclusive_def refused_def)
qed

lemma event_ok:
  assumes "file_ok f" "clean_event e" shows "file_ok (ur_file (apply_event env e f))"
proof -
  obtain s where s: "load f = Some s" "ready s" using file_ok_load [OF assms(1)] by blast
  have q: "up_InstallRequested s \<longleftrightarrow> up_State s = ''queued''" using s(2) by (simp add: ready_groups queue_ok_def)
  show ?thesis
  proof (cases e)
    case (PolicyEvent l w cur expected enabled channel)
    have "validChannel (up_Channel s)" using s(2) by (simp add: ready_groups)
    then show ?thesis using PolicyEvent s assms(1) answered_ok [OF ready_set_policy [OF s(2)] assms(1)]
      by (simp add: SetPolicy_def exclusive_def refused_def Let_def split: option.split)
  next
    case (CheckEvent l w cur now answer)
    let ?s1 = "s\<lparr>up_CurrentVersion := normalizeCurrentVersion cur\<rparr>"
    obtain s2 err where c: "checkLocked env now answer ?s1 = (s2, err)" by (cases "checkLocked env now answer ?s1") auto
    have "\<not> up_InstallRequested s \<Longrightarrow> ready s2" using ready_check [OF ready_current [OF s(2)] _ _ c] assms(2) CheckEvent by simp
    then show ?thesis using CheckEvent s assms(1) c answered_ok [of s2 f]
      by (simp add: Check_def exclusive_def refused_def Let_def split: option.split)
  next
    case (QueueEvent l w cur expected)
    let ?s1 = "s\<lparr>up_CurrentVersion := normalizeCurrentVersion cur\<rparr>"
    have "ready (clear_error (?s1\<lparr>up_InstallRequested := True, up_State := ''queued''\<rparr>))" if "up_CandidateVersion s \<noteq> []"
      using that s(2) by (simp add: ready_groups current_set) (simp add: queue_ok_def)
    then show ?thesis using QueueEvent s assms(1) answered_ok [OF _ assms(1)]
      by (simp add: QueueInstall_def exclusive_def refused_def Let_def split: option.split)
  next
    case (CancelEvent l w version digest cause)
    let ?m = "case cause of None \<Rightarrow> [] | Some m \<Rightarrow> boundedError m"
    let ?s1 = "s\<lparr>up_InstallRequested := False\<rparr>"
    have "ready (?s1\<lparr>up_State := normalizeRestingState ?s1\<rparr>)"
      by (rule ready_manual [OF s(2)]) (use resting_valid in auto)
    moreover have "json_text ?m = ?m \<and> length ?m \<le> 512"
      using assms(2) CancelEvent length_bounded by (auto simp: clean_error_def split: option.splits)
    ultimately have "ready (?s1\<lparr>up_State := normalizeRestingState ?s1, up_LastErrorCode := ''install_start_failed'', up_LastError := ?m\<rparr>)"
      using text_constants by (simp add: ready_groups) (simp add: error_ok_def)
    then show ?thesis using CancelEvent s assms(1) answered_ok [OF _ assms(1)]
      by (simp add: CancelQueuedInstall_def exclusive_def refused_def Let_def split: option.split)
  next
    case (RunEvent l r)
    then show ?thesis using host_run_ok [OF assms(1)] assms(2) by simp
  qed
qed

lemma events_ok: "file_ok f \<Longrightarrow> list_all clean_event es \<Longrightarrow> file_ok (apply_events env es f)"
  by (induction es arbitrary: f) (auto simp: apply_events_def event_ok)

end
