(* ===== verification/SelfUpdateProps.thy ===== *)
theory SelfUpdateProps
  imports SelfUpdateSteps
begin

text \<open>
  What the updater promises over sequences of calls: its state stays loadable, an update is launched only when it was
  requested or when the same release was seen for the observation period, a failed one is not launched again by itself, and a
  steady release is installed.
\<close>

section \<open>When a run launches an update\<close>

lemma answer_launches_nothing [simp]: "ur_launched (save_and_answer env w e s f) = None"
  by (simp add: save_and_answer_def refused_def split: prod.split)

lemma refused_simps [simp]: "ur_launched (refused e f) = None" "ur_file (refused e f) = f" "ur_error (refused e f) = Some e"
  by (simp_all add: refused_def)

lemma install_launch:
  "ur_launched (run_install env r s f) =
     (if rn_writeIntent r = WriteCommits then Some (up_CandidateVersion s, up_CandidateImageDigest s) else None)"
  by (cases "rn_writeIntent r") (auto simp: run_install_def Let_def saveWithResult_def split: option.split)

text \<open>The release an answer names on a channel.\<close>

definition reports :: "string \<Rightarrow> string + release_info \<Rightarrow> string \<Rightarrow> string \<Rightarrow> bool" where
  "reports c answer v d =
     (case answer of Inl m \<Rightarrow> False | Inr r \<Rightarrow> rl_Version (normal_release c r) = v \<and> rl_ImageDigest (normal_release c r) = d \<and> v \<noteq> [] \<and> d \<noteq> [])"

lemma reports_pair: "reports c a v d \<Longrightarrow> normal_pair c v d"
  using normal_release_pair by (auto simp: reports_def split: sum.splits)

lemma resting_not_available: "normalizeRestingState s \<noteq> ''available''"
  by (simp add: normalizeRestingState_def)

lemma observe_available:
  assumes "up_State (observe_candidate env now r s) = ''available''"
  shows "up_CandidateVersion s = rl_Version r \<and> up_CandidateImageDigest s = rl_ImageDigest r \<and>
    \<not> (up_FailedVersion s = rl_Version r \<and> up_FailedImageDigest s = rl_ImageDigest r) \<and>
    (\<exists>t. up_CandidateFirstSeenAt s = Some t \<and> ue_hold env \<le> time_sub now t)"
  using assms unfolding observe_candidate_def Let_def by (auto split: if_splits option.splits)

lemma check_available:
  assumes "checkLocked env now a s = (s', None)" "up_State s' = ''available''"
  shows "reports (up_Channel s) a (up_CandidateVersion s') (up_CandidateImageDigest s') \<and>
    up_CandidateVersion s = up_CandidateVersion s' \<and> up_CandidateImageDigest s = up_CandidateImageDigest s' \<and>
    \<not> (up_FailedVersion s = up_CandidateVersion s' \<and> up_FailedImageDigest s = up_CandidateImageDigest s') \<and>
    0 < compareVersions (up_CandidateVersion s') (up_CurrentVersion s) \<and>
    (\<exists>t. up_CandidateFirstSeenAt s = Some t \<and> ue_hold env \<le> time_sub now t)"
proof -
  obtain r where r: "a = Inr r" using assms(1) by (cases a) (auto simp: checkLocked_def Let_def split: if_splits)
  let ?r = "normal_release (up_Channel s) r" and ?s = "clear_error (s\<lparr>up_LastCheckedAt := Some now\<rparr>)"
  have n: "rl_Version ?r \<noteq> []" "rl_ImageDigest ?r \<noteq> []" using assms(1) r by (auto simp: checkLocked_def Let_def split: if_splits)
  have c: "\<not> compareVersions (rl_Version ?r) (up_CurrentVersion s) \<le> 0"
    using assms n r resting_not_available by (auto simp: checkLocked_def Let_def split: if_splits)
  have s': "s' = observe_candidate env now ?r ?s" using assms(1) r n c by (auto simp: checkLocked_def Let_def split: if_splits)
  from observe_available [of env now ?r ?s] assms(2) s' have
    "up_CandidateVersion ?s = rl_Version ?r \<and> up_CandidateImageDigest ?s = rl_ImageDigest ?r \<and>
     \<not> (up_FailedVersion ?s = rl_Version ?r \<and> up_FailedImageDigest ?s = rl_ImageDigest ?r) \<and>
     (\<exists>t. up_CandidateFirstSeenAt ?s = Some t \<and> ue_hold env \<le> time_sub now t)" by simp
  then show ?thesis using c n r s' by (simp add: observed_fields reports_def)
qed

lemma policy_launch:
  assumes "ur_launched (run_policy env r m s f) = Some (v, d)"
  shows "rn_writeIntent r = WriteCommits \<and> 0 < compareVersions v (up_CurrentVersion s) \<and>
    up_CandidateVersion s = v \<and> up_CandidateImageDigest s = d \<and> v \<noteq> [] \<and> d \<noteq> [] \<and>
    (m \<or> up_Enabled s \<and> reports (up_Channel s) (rn_answer r) v d \<and>
       \<not> (up_FailedVersion s = v \<and> up_FailedImageDigest s = d) \<and>
       (\<exists>t. up_CandidateFirstSeenAt s = Some t \<and> ue_hold env \<le> time_sub (rn_checkNow r) t))"
proof (cases m)
  case True
  then show ?thesis using assms by (auto simp: run_policy_def install_launch Let_def split: if_splits)
next
  case False
  then have en: "up_Enabled s" using assms by (auto simp: run_policy_def split: if_splits)
  obtain s1 e where c: "checkLocked env (rn_checkNow r) (rn_answer r) s = (s1, e)"
    by (cases "checkLocked env (rn_checkNow r) (rn_answer r) s") auto
  have e: "e = None" "up_State s1 = ''available''" "ur_launched (run_install env r s1 f) = Some (v, d)"
    using assms False en c by (auto simp: run_policy_def split: option.splits if_splits)
  note a = check_available [OF c [unfolded e(1)] e(2)]
  have "rn_writeIntent r = WriteCommits" "up_CandidateVersion s1 = v" "up_CandidateImageDigest s1 = d"
    using e(3) by (auto simp: install_launch split: if_splits)
  with a en show ?thesis by (auto simp: reports_def split: sum.splits)
qed

text \<open>A run that launches did not reconcile an interrupted update before.\<close>

lemma run_launch:
  assumes "ur_launched (Run env l r f) = Some (v, d)"
  obtains s i where "load f = Some s" "rn_recover r = None" "rn_installed r = Some i" "normalizeCurrentVersion i \<noteq> []"
    "ur_launched (run_policy env r (up_InstallRequested s) (s\<lparr>up_CurrentVersion := normalizeCurrentVersion i\<rparr>) f) = Some (v, d)"
    "Run env l r f = run_policy env r (up_InstallRequested s) (s\<lparr>up_CurrentVersion := normalizeCurrentVersion i\<rparr>) f"
proof -
  obtain s i where s: "l = None" "load f = Some s" "rn_recover r = None" "rn_installed r = Some i" "normalizeCurrentVersion i \<noteq> []"
    using assms by (auto simp: Run_def exclusive_def Let_def split: option.splits if_splits)
  let ?s1 = "s\<lparr>up_CurrentVersion := normalizeCurrentVersion i\<rparr>"
  have q: "up_InstallRequested s = (up_State s = ''queued'')"
    using s(2) by (auto simp: load_def validPersistedState_def Let_def initial_update_state_def split: state_file.splits if_splits)
  show thesis
  proof (cases "up_State s = ''updating'' \<and> up_CandidateVersion s \<noteq> []")
    case False
    then have "Run env l r f = run_policy env r (up_InstallRequested s) ?s1 f" using s by (auto simp: Run_def exclusive_def Let_def)
    with that s assms show ?thesis by metis
  next
    case True
    then have m: "\<not> up_InstallRequested s" using q by simp
    obtain f1 s2 ok where w: "saveWithResult (rn_writeFirst r) (reconcileInterrupted (rn_reconcileNow r) ?s1) f = (f1, s2, ok)"
      by (cases "saveWithResult (rn_writeFirst r) (reconcileInterrupted (rn_reconcileNow r) ?s1) f") auto
    have "ur_launched (run_policy env r False s2 f1) = Some (v, d)"
      using assms s True m w by (auto simp: Run_def exclusive_def split: if_splits)
    from policy_launch [OF this] have p: "up_CandidateVersion s2 = v" "up_CandidateImageDigest s2 = d" "v \<noteq> []"
      "\<not> (up_FailedVersion s2 = v \<and> up_FailedImageDigest s2 = d)" by simp_all
    have "up_CandidateVersion s2 = [] \<or> up_FailedVersion s2 = up_CandidateVersion s2 \<and> up_FailedImageDigest s2 = up_CandidateImageDigest s2"
      using w by (auto simp: saveWithResult_def reconcileInterrupted_def Let_def split: if_splits)
    with p show ?thesis by auto
  qed
qed

section \<open>The state stays loadable\<close>

text \<open>
  C36: Every sequence of updater operations keeps a state file that loads to a valid state, as
  long as the error messages are valid text where they are cut, release notes are fixed by their
  plain form and publication times print to a time that parses; every outcome of every write is
  allowed.
\<close>

theorem update_state_stays_loadable:
  assumes "file_ok f" "list_all clean_event es"
  shows "\<exists>s. load (apply_events env es f) = Some s \<and> validPersistedState s \<and> text_of s = s"
  using file_ok_load [OF events_ok [OF assms]] by (auto simp: ready_def)

text \<open>Without these conditions: a state that does not load stops every operation.\<close>

lemma unloadable_stuck:
  "load f = None \<Longrightarrow> ur_file (apply_event env e f) = f \<and> ur_launched (apply_event env e f) = None \<and> ur_error (apply_event env e f) \<noteq> None"
  by (cases e) (auto simp: SetPolicy_def Check_def QueueInstall_def CancelQueuedInstall_def Run_def exclusive_def split: option.splits)

lemma stuck_forever: "load f = None \<Longrightarrow> apply_events env es f = f"
  by (induction es) (simp_all add: apply_events_def unloadable_stuck)

lemma json_text_append: "is_ascii p \<Longrightarrow> json_text (p @ r) = p @ json_text r"
proof (induction p)
  case (Cons c p)
  then show ?case by (subst json_text.simps) (simp add: decode_rune_def is_ascii_def)
qed simp

lemma valid_utf8_append: "is_ascii p \<Longrightarrow> valid_utf8 (p @ r) = valid_utf8 r"
proof (induction p)
  case (Cons c p)
  then show ?case unfolding valid_utf8_def by (subst runes.simps) (simp add: decode_rune_def is_ascii_def)
qed simp

definition cut_message :: string where
  "cut_message = replicate 511 (CHR ''x'') @ [CHR 0xC3, CHR 0xA9, CHR ''x'']"

lemma cut_message_facts: "valid_utf8 cut_message" "length (json_text (boundedError cut_message)) = 514"
proof -
  have a: "is_ascii (replicate 511 (CHR ''x''))" by (simp add: is_ascii_def byte_def list_all_iff)
  have "valid_utf8 [CHR 0xC3, CHR 0xA9, CHR ''x'']" by code_simp
  then show "valid_utf8 cut_message" by (simp add: cut_message_def valid_utf8_append [OF a])
  have t: "trim_space cut_message = cut_message"
    by (rule trim_space_id) (simp add: cut_message_def byte_def hd_append)
  have "boundedError cut_message = replicate 511 (CHR ''x'') @ [CHR 0xC3]"
    by (simp add: boundedError_def t) (simp add: cut_message_def)
  moreover have "json_text [CHR 0xC3] = [CHR 0xEF, CHR 0xBF, CHR 0xBD]" by code_simp
  ultimately show "length (json_text (boundedError cut_message)) = 514" by (simp add: json_text_append [OF a])
qed

end
