(* ===== verification/SelfUpdateRuns.thy ===== *)
theory SelfUpdateRuns
  imports SelfUpdateProps
begin

text \<open>
  The updater over time: why an update may be launched, that a failed one is left alone, and that a steady release is
  installed.
\<close>

section \<open>A message that stops the updater\<close>

lemma check_of_missing:
  assumes "compareVersions ''1.0.0'' ''1.0.0'' = 0" "normalizeCurrentVersion ''1.0.0'' = ''1.0.0''"
  shows "ur_file (apply_event env (CheckEvent None WriteCommits ''1.0.0'' now (Inl m)) Missing) =
    Decoded (text_of (initial_update_state\<lparr>up_SchemaVersion := stateSchemaVersion, up_Revision := 1, up_CurrentVersion := ''1.0.0'', up_LastCheckedAt := Some now,
      up_State := ''check_failed'', up_LastErrorCode := ''release_check_failed'', up_LastError := boundedError m\<rparr>))"
  using assms
  by (simp add: Check_def exclusive_def load_def checkLocked_def source_available_def initial_update_state_def save_and_answer_def
      saveWithResult_def Let_def)

lemma sample_current: "normalizeCurrentVersion ''1.0.0'' = ''1.0.0''"
proof -
  have s: "show_version \<lparr>pv_core = [1, 0, 0], pv_rc = None\<rparr> = ''1.0.0''" by code_simp
  have "parseReleaseVersion ''1.0.0'' = Some (''1.0.0'', \<lparr>pv_core = [1, 0, 0], pv_rc = None\<rparr>)"
    using shown_parses [of "\<lparr>pv_core = [1, 0, 0], pv_rc = None\<rparr>"] unfolding s by (simp add: core_ok_def)
  moreover have "trim_suffix (trim_space ''1.0.0'') ''-dev'' = ''1.0.0''" by code_simp
  ultimately show ?thesis by (simp add: normalizeCurrentVersion_def normalizeReleaseVersion_def)
qed

text \<open>
  C40: A valid error message of more than 512 bytes can be cut inside a character; what is saved
  then is longer than the limit that loading checks, so the state is refused and every later
  operation of the updater fails without changing it.
\<close>

theorem cut_message_stops_updater:
  "\<exists>m. valid_utf8 m \<and>
     (let f = ur_file (apply_event env (CheckEvent None WriteCommits ''1.0.0'' now (Inl m)) Missing) in
      load f = None \<and> (\<forall>es. apply_events env es f = f) \<and>
      (\<forall>e. ur_error (apply_event env e f) \<noteq> None \<and> ur_launched (apply_event env e f) = None))"
proof -
  let ?f = "ur_file (apply_event env (CheckEvent None WriteCommits ''1.0.0'' now (Inl cut_message)) Missing)"
  have "compareVersions ''1.0.0'' ''1.0.0'' = 0" by (simp add: compare_zero)
  note f = check_of_missing [OF this sample_current, of env now cut_message]
  have "load ?f = None"
    unfolding f using cut_message_facts(2)
    by (simp add: load_def Let_def text_of_def validPersistedState_def stateSchemaVersion_def)
  then show ?thesis using stuck_forever unloadable_stuck cut_message_facts(1) by (intro exI [of _ cut_message]) (simp add: Let_def)
qed

text \<open>
  The other way: a note whose plain form is not plain. The first pass over the note of the release below, in the release source,
  leaves the note that the service reads; the second one leaves two asterisks, which the next load refuses.
\<close>

lemma unplain_note_stops_updater:
  assumes "rl_Notes r = [(''fixed'', ''*__*'')]" "load f = Some s" "up_State s \<noteq> ''updating''" "\<not> up_InstallRequested s"
    and "normalizeCurrentVersion cur \<noteq> []" "source_available env (up_Channel s)" "reports (up_Channel s) (Inr r) v d"
    and "0 < compareVersions v (normalizeCurrentVersion cur)"
  shows "load (ur_file (apply_event env (CheckEvent None WriteCommits cur now (Inr r)) f)) = None"
proof -
  let ?r = "normal_release (up_Channel s) r" and ?s1 = "clear_error (s\<lparr>up_CurrentVersion := normalizeCurrentVersion cur, up_LastCheckedAt := Some now\<rparr>)"
  let ?n = "observe_candidate env now ?r ?s1"
  let ?m = "?n\<lparr>up_SchemaVersion := stateSchemaVersion, up_Revision := up_Revision ?n + 1\<rparr>"
  have v: "rl_Version ?r = v" "rl_ImageDigest ?r = d" "v \<noteq> []" "d \<noteq> []" using assms(7) by (simp_all add: reports_def)
  have c: "checkLocked env now (Inr r) (s\<lparr>up_CurrentVersion := normalizeCurrentVersion cur\<rparr>) = (?n, None)"
    using assms(6,8) v by (simp add: checkLocked_def Let_def)
  have f: "ur_file (apply_event env (CheckEvent None WriteCommits cur now (Inr r)) f) = Decoded (text_of ?m)"
    using assms(2,3,4,5) c by (simp add: Check_def exclusive_def save_and_answer_def saveWithResult_def Let_def)
  have k: "plainReleaseNote ''*__*'' = ''**''" "plainReleaseNote ''**'' = []" using plain_not_idempotent by simp_all
  have "up_CandidateNotes (setCandidateMetadata ?r t) = [(''fixed'', ''**'')]" for t
    using assms(1) k(1) by (simp add: setCandidateMetadata_def normal_release_def normalizedReleaseNotes_def maxReleaseNotes_def validReleaseNoteKind_def)
  then have "up_CandidateNotes ?n = [(''fixed'', ''**'')]" unfolding observe_candidate_def Let_def by (simp split: option.split)
  moreover have "json_text ''**'' = ''**''" "json_text ''fixed'' = ''fixed''" by (rule json_text_ascii, code_simp)+
  ultimately have kept: "up_CandidateNotes (text_of ?m) = [(''fixed'', ''**'')]" by (simp add: text_of_def)
  have nv: "normal_pair (up_Channel s) v d" using reports_pair [OF assms(7)] .
  have "up_CandidateVersion (text_of ?m) \<noteq> []"
    using v channel_version_text [of "up_Channel s" v] nv by (simp add: text_of_def observed_fields normal_pair_def)
  then have "\<not> validPersistedState (text_of ?m)" using kept k(2) by (simp add: validPersistedState_def validCandidateMetadata_def valid_note_def)
  moreover have "up_SchemaVersion (text_of ?m) = stateSchemaVersion" by (simp add: text_of_def)
  ultimately show ?thesis unfolding f by (simp add: load_def Let_def stateSchemaVersion_def)
qed

section \<open>Where a candidate comes from\<close>

text \<open>A call at which the release source named the release on a channel.\<close>

fun observes :: "string \<Rightarrow> update_event \<Rightarrow> string \<Rightarrow> string \<Rightarrow> gotime \<Rightarrow> bool" where
  "observes c (CheckEvent l w cur now a) v d t = (now = t \<and> reports c a v d)"
| "observes c (RunEvent l r) v d t = (rn_checkNow r = t \<and> reports c (rn_answer r) v d)"
| "observes c _ v d t = False"

definition explained :: "update_event list \<Rightarrow> update_state \<Rightarrow> bool" where
  "explained es s =
     (validChannel (up_Channel s) \<and>
      (up_CandidateVersion s \<noteq> [] \<longrightarrow> normal_pair (up_Channel s) (up_CandidateVersion s) (up_CandidateImageDigest s) \<and>
        (\<forall>t. up_CandidateFirstSeenAt s = Some t \<longrightarrow>
          (\<exists>e\<in>set es. observes (up_Channel s) e (up_CandidateVersion s) (up_CandidateImageDigest s) t))))"

definition explained_file :: "update_event list \<Rightarrow> state_file \<Rightarrow> bool" where
  "explained_file es f = (\<forall>s. load f = Some s \<longrightarrow> explained es s)"

lemma explained_frame:
  "explained es s \<Longrightarrow> up_Channel t = up_Channel s \<Longrightarrow> up_CandidateVersion t = up_CandidateVersion s \<Longrightarrow>
   up_CandidateImageDigest t = up_CandidateImageDigest s \<Longrightarrow> up_CandidateFirstSeenAt t = up_CandidateFirstSeenAt s \<Longrightarrow> explained es t"
  by (simp add: explained_def)

lemma explained_empty: "validChannel (up_Channel s) \<Longrightarrow> up_CandidateVersion s = [] \<Longrightarrow> explained es s"
  by (simp add: explained_def)

lemma explained_mono: "explained_file es f \<Longrightarrow> set es \<subseteq> set es' \<Longrightarrow> explained_file es' f"
  unfolding explained_file_def explained_def by blast

lemma explained_text: "explained es s \<Longrightarrow> explained es (text_of s)"
proof (cases "up_CandidateVersion s = []")
  case True
  then show "explained es s \<Longrightarrow> ?thesis" using constant_text(2) by (simp add: explained_def text_of_def)
next
  case False
  assume e: "explained es s"
  then have n: "normal_pair (up_Channel s) (up_CandidateVersion s) (up_CandidateImageDigest s)" using False by (simp add: explained_def)
  have "json_text (up_CandidateVersion s) = up_CandidateVersion s" "json_text (up_CandidateImageDigest s) = up_CandidateImageDigest s"
    using normal_pair_ok [OF n] by (simp_all add: pair_ok_def)
  then show ?thesis using constant_text(2) e by (intro explained_frame [OF e]) (simp_all add: text_of_def explained_def)
qed

lemma load_current: "up_SchemaVersion s = stateSchemaVersion \<Longrightarrow> load (Decoded s) = Some t \<Longrightarrow> t = s"
  by (auto simp: load_def stateSchemaVersion_def Let_def split: if_splits)

lemma saved_explained:
  assumes "explained es s" "explained_file es f" "saveWithResult w s f = (f', s', ok)"
  shows "explained_file es f' \<and> explained es s'"
proof (cases "w = WriteFails")
  case True
  then show ?thesis using assms by (auto simp: saveWithResult_def)
next
  case False
  let ?n = "s\<lparr>up_SchemaVersion := stateSchemaVersion, up_Revision := up_Revision s + 1\<rparr>"
  have f: "f' = Decoded (text_of ?n)" "s' = ?n" using assms(3) False by (auto simp: saveWithResult_def Let_def)
  have n: "explained es ?n" by (rule explained_frame [OF assms(1)]) simp_all
  have "t = text_of ?n" if "load f' = Some t" for t using load_current [of "text_of ?n" t] that f by (simp add: text_of_def)
  then show ?thesis using n explained_text f by (auto simp: explained_file_def)
qed

lemma answered_explained: "explained es s \<Longrightarrow> explained_file es f \<Longrightarrow> explained_file es (ur_file (save_and_answer env w e s f))"
  using saved_explained [of es s f w] by (auto simp: save_and_answer_def split: prod.split)

lemma observe_explained:
  assumes "explained es s" "normal_pair (up_Channel s) (rl_Version r) (rl_ImageDigest r)"
    and "e \<in> set es" "observes (up_Channel s) e (rl_Version r) (rl_ImageDigest r) now"
  shows "explained es (observe_candidate env now r s)"
proof -
  let ?o = "observe_candidate env now r s"
  have "up_CandidateFirstSeenAt ?o = Some now \<or>
      (up_CandidateFirstSeenAt ?o = up_CandidateFirstSeenAt s \<and> up_CandidateVersion s = rl_Version r \<and> up_CandidateImageDigest s = rl_ImageDigest r)"
    by (auto simp: observe_candidate_def Let_def split: option.split)
  then show ?thesis using assms by (auto simp: explained_def observed_fields normal_pair_def)
qed

lemma check_explained:
  assumes "explained es s" "checkLocked env now a s = (s', x)"
    and "\<And>v d. reports (up_Channel s) a v d \<Longrightarrow> \<exists>e\<in>set es. observes (up_Channel s) e v d now"
  shows "explained es s'"
proof (cases "source_available env (up_Channel s)")
  case av: True
  let ?s = "s\<lparr>up_LastCheckedAt := Some now\<rparr>"
  have c: "validChannel (up_Channel s)" using assms(1) by (simp add: explained_def)
  show ?thesis
  proof (cases a)
    case (Inl m)
    then show ?thesis using assms(2) av by (intro explained_frame [OF assms(1)]) (auto simp: checkLocked_def Let_def)
  next
    case (Inr r)
    let ?r = "normal_release (up_Channel s) r"
    show ?thesis
    proof (cases "rl_Version ?r = [] \<or> rl_ImageDigest ?r = []")
      case True
      then show ?thesis using assms(2) av Inr by (intro explained_frame [OF assms(1)]) (auto simp: checkLocked_def Let_def)
    next
      case False
      then have rep: "reports (up_Channel s) a (rl_Version ?r) (rl_ImageDigest ?r)" using Inr by (simp add: reports_def)
      show ?thesis
      proof (cases "compareVersions (rl_Version ?r) (up_CurrentVersion s) \<le> 0")
        case True
        have "up_CandidateVersion s' = [] \<and> up_Channel s' = up_Channel s"
          using assms(2) av Inr False True by (auto simp: checkLocked_def Let_def split: if_splits)
        then show ?thesis using c by (simp add: explained_empty)
      next
        case newer: False
        have s': "s' = observe_candidate env now ?r (clear_error ?s)"
          using assms(2) av Inr False newer by (simp add: checkLocked_def Let_def)
        obtain e where "e \<in> set es" "observes (up_Channel s) e (rl_Version ?r) (rl_ImageDigest ?r) now" using assms(3) [OF rep] by blast
        moreover have "explained es (clear_error ?s)" by (rule explained_frame [OF assms(1)]) simp_all
        ultimately show ?thesis unfolding s' using reports_pair [OF rep] by (intro observe_explained) simp_all
      qed
    qed
  qed
next
  case False
  then show ?thesis using assms(1,2) by (simp add: checkLocked_def)
qed

lemma set_policy_explained:
  assumes "explained es s" "validChannel channel" shows "explained es (set_policy cur enabled channel s)"
proof (cases "up_Channel s = channel")
  case True
  then show ?thesis by (intro explained_frame [OF assms(1)]) (simp_all add: set_policy_def Let_def)
next
  case False
  have "up_CandidateVersion (set_policy cur enabled channel s) = []" "up_Channel (set_policy cur enabled channel s) = channel"
    using False by (simp_all add: set_policy_def Let_def clear_failed_def clearCandidate_def)
  then show ?thesis using assms(2) by (simp add: explained_empty)
qed

lemma reconcile_explained: "explained es s \<Longrightarrow> explained es (reconcileInterrupted now s)"
proof (cases "up_CandidateVersion (reconcileInterrupted now s) = []")
  case True
  then show "explained es s \<Longrightarrow> ?thesis"
    by (intro explained_empty) (simp_all add: explained_def reconcileInterrupted_def Let_def)
next
  case False
  assume e: "explained es s"
  from False have "\<not> 0 \<le> compareVersions (up_CurrentVersion s) (up_CandidateVersion s)" by (auto simp: reconcileInterrupted_def Let_def)
  then show ?thesis by (intro explained_frame [OF e]) (simp_all add: reconcileInterrupted_def Let_def)
qed

lemma install_explained:
  assumes "explained es s" "explained_file es f" shows "explained_file es (ur_file (run_install env r s f))"
proof -
  let ?intent = "clear_error (s\<lparr>up_State := ''updating'', up_InstallRequested := False, up_LastAttemptAt := Some (rn_attemptNow r)\<rparr>)"
  have i: "explained es ?intent" by (rule explained_frame [OF assms(1)]) simp_all
  obtain f1 s1 ok where w: "saveWithResult (rn_writeIntent r) ?intent f = (f1, s1, ok)" by (cases "saveWithResult (rn_writeIntent r) ?intent f") auto
  note s1 = saved_explained [OF i assms(2) w]
  have "explained es (s1\<lparr>up_State := ''failed'', up_InstallRequested := False, up_FailedVersion := v, up_FailedImageDigest := d,
      up_LastErrorCode := ''update_failed'', up_LastError := m\<rparr>)" for v d m
    using s1 by (auto intro: explained_frame)
  moreover have "explained es (clear_error (clear_failed ((clearCandidate (s1\<lparr>up_State := ''succeeded'', up_InstallRequested := False, up_CurrentVersion := v\<rparr>))
      \<lparr>up_LastSuccessAt := t\<rparr>)))" for v t
    using s1 by (intro explained_empty) (simp_all add: explained_def)
  ultimately show ?thesis using s1 unfolding run_install_def Let_def w
    by (auto simp: refused_def answered_explained split: option.splits)
qed

lemma policy_explained:
  assumes "explained es s" "explained_file es f" "RunEvent l r \<in> set es"
  shows "explained_file es (ur_file (run_policy env r m s f))"
proof -
  have frame: "explained es (s\<lparr>up_State := x\<rparr>)" "explained es (s\<lparr>up_InstallRequested := b, up_State := x\<rparr>)" for x b
    using assms(1) by (auto intro: explained_frame)
  obtain s1 x where c: "checkLocked env (rn_checkNow r) (rn_answer r) s = (s1, x)" by (cases "checkLocked env (rn_checkNow r) (rn_answer r) s") auto
  have "explained es s1" by (rule check_explained [OF assms(1) c]) (use assms(3) in force)
  then show ?thesis using frame assms(2) c
    by (auto simp: run_policy_def Let_def answered_explained install_explained split: option.split)
qed

lemma event_explained:
  assumes "explained_file es f" "e \<in> set es" shows "explained_file es (ur_file (apply_event env e f))"
proof (cases "load f")
  case None
  then show ?thesis using unloadable_stuck [OF None, of env e] assms(1) by simp
next
  case (Some s)
  have s: "explained es s" using assms(1) Some by (simp add: explained_file_def)
  have ch: "validChannel (up_Channel s)" using s by (simp add: explained_def)
  have cur: "explained es (s\<lparr>up_CurrentVersion := v\<rparr>)" for v by (rule explained_frame [OF s]) simp_all
  show ?thesis
  proof (cases e)
    case (PolicyEvent l w cur expected enabled channel)
    then show ?thesis using Some assms(1) ch set_policy_explained [OF s]
      by (simp add: SetPolicy_def exclusive_def Let_def answered_explained split: option.split)
  next
    case (CheckEvent l w cur now a)
    let ?s = "s\<lparr>up_CurrentVersion := normalizeCurrentVersion cur\<rparr>"
    obtain s1 x where c: "checkLocked env now a ?s = (s1, x)" by (cases "checkLocked env now a ?s") auto
    have "explained es s1" by (rule check_explained [OF cur c]) (use assms(2) CheckEvent in force)
    then show ?thesis using CheckEvent Some assms(1) c
      by (simp add: Check_def exclusive_def Let_def answered_explained split: option.split)
  next
    case (QueueEvent l w cur expected)
    have "explained es (clear_error (s\<lparr>up_CurrentVersion := v, up_InstallRequested := True, up_State := ''queued''\<rparr>))" for v
      by (rule explained_frame [OF s]) simp_all
    then show ?thesis using QueueEvent Some assms(1)
      by (simp add: QueueInstall_def exclusive_def Let_def answered_explained split: option.split)
  next
    case (CancelEvent l w version digest cause)
    have "explained es (s\<lparr>up_InstallRequested := False, up_State := x, up_LastErrorCode := c, up_LastError := m\<rparr>)" for x c m
      by (rule explained_frame [OF s]) simp_all
    then show ?thesis using CancelEvent Some assms(1)
      by (simp add: CancelQueuedInstall_def exclusive_def Let_def answered_explained split: option.split)
  next
    case (RunEvent l r)
    let ?s1 = "\<lambda>v. s\<lparr>up_CurrentVersion := normalizeCurrentVersion v\<rparr>"
    have mem: "RunEvent l r \<in> set es" using assms(2) RunEvent by simp
    have fail: "explained es (s\<lparr>up_State := x, up_InstallRequested := b, up_LastAttemptAt := t, up_LastErrorCode := c, up_LastError := m\<rparr>)" for x b t c m
      by (rule explained_frame [OF s]) simp_all
    have rec: "explained_file es (ur_file (case saveWithResult w (reconcileInterrupted t (?s1 v)) f of (file1, s2, ok) \<Rightarrow>
        if \<not> ok then refused UpNotSaved file1 else run_policy env r m s2 file1))" for w t v m
    proof -
      obtain f2 s2 ok where x: "saveWithResult w (reconcileInterrupted t (?s1 v)) f = (f2, s2, ok)"
        by (cases "saveWithResult w (reconcileInterrupted t (?s1 v)) f") auto
      from saved_explained [OF reconcile_explained [OF cur] assms(1) x] show ?thesis
        unfolding x using policy_explained [OF _ _ mem] by auto
    qed
    show ?thesis using RunEvent Some assms(1) fail rec policy_explained [OF cur assms(1) mem]
      by (simp add: Run_def exclusive_def Let_def answered_explained split: option.split)
  qed
qed

lemma events_explained: "explained_file es (apply_events env es Missing)"
proof (induction es rule: rev_induct)
  case Nil
  then show ?case
    by (simp add: apply_events_def explained_file_def explained_def load_def initial_update_state_def validChannel_def)
next
  case (snoc e es)
  have "explained_file (es @ [e]) (apply_events env es Missing)" by (rule explained_mono [OF snoc]) auto
  then have "explained_file (es @ [e]) (ur_file (apply_event env e (apply_events env es Missing)))" by (rule event_explained) simp
  then show ?case by (simp add: apply_events_def)
qed


section \<open>A failed update is left alone\<close>

definition older :: "string \<Rightarrow> string \<Rightarrow> bool" where
  "older v i = (0 < compareVersions v (normalizeCurrentVersion i))"

text \<open>An answer of the release source that names no other release than the given one.\<close>

definition quiet_answer :: "string \<Rightarrow> string \<Rightarrow> string \<Rightarrow> string + release_info \<Rightarrow> bool" where
  "quiet_answer c v d a =
     (case a of Inl m \<Rightarrow> True
      | Inr r \<Rightarrow> let n = normal_release c r in rl_Version n = [] \<or> rl_ImageDigest n = [] \<or> (rl_Version n = v \<and> rl_ImageDigest n = d))"

text \<open>
  The calls that do not ask for the update: changes of the policy on the same channel, checks, cancellations, and runs whose recovery
  succeeds, as long as the installed version stays older.
\<close>

fun quiet_call :: "string \<Rightarrow> string \<Rightarrow> string \<Rightarrow> update_event \<Rightarrow> bool" where
  "quiet_call c v d (PolicyEvent l w cur expected enabled channel) = (channel = [] \<or> channel = c)"
| "quiet_call c v d (CheckEvent l w cur now a) = (older v cur \<and> quiet_answer c v d a)"
| "quiet_call c v d (QueueEvent l w cur expected) = False"
| "quiet_call c v d (CancelEvent l w version digest cause) = True"
| "quiet_call c v d (RunEvent l r) = (rn_recover r = None \<and> (case rn_installed r of None \<Rightarrow> True | Some i \<Rightarrow> older v i) \<and> quiet_answer c v d (rn_answer r))"

definition failed_as :: "string \<Rightarrow> string \<Rightarrow> update_state \<Rightarrow> bool" where
  "failed_as v d s = (up_FailedVersion s = v \<and> up_FailedImageDigest s = d)"

definition settled :: "string \<Rightarrow> string \<Rightarrow> string \<Rightarrow> update_state \<Rightarrow> bool" where
  "settled c v d s =
     (up_Channel s = c \<and> up_CandidateVersion s = v \<and> up_CandidateImageDigest s = d \<and> \<not> up_InstallRequested s \<and>
      (failed_as v d s \<or> up_State s = ''updating''))"

definition settled_file :: "string \<Rightarrow> string \<Rightarrow> string \<Rightarrow> state_file \<Rightarrow> bool" where
  "settled_file c v d f = (\<forall>s. load f = Some s \<longrightarrow> settled c v d s)"

lemma settled_text: "normal_pair c v d \<Longrightarrow> validChannel c \<Longrightarrow> settled c v d s \<Longrightarrow> settled c v d (text_of s)"
proof -
  assume a: "normal_pair c v d" "validChannel c" "settled c v d s"
  have "json_text v = v" "json_text d = d" using normal_pair_ok [OF a(1)] by (simp_all add: pair_ok_def)
  moreover have "json_text ''updating'' = ''updating''" using constant_text(1) by simp
  ultimately show ?thesis using constant_text(2) [OF a(2)] a(3) by (auto simp: settled_def failed_as_def text_of_def)
qed

lemma saved_settled:
  assumes "normal_pair c v d" "validChannel c" "settled c v d s" "settled_file c v d f \<or> w \<noteq> WriteFails" "saveWithResult w s f = (f', s', ok)"
  shows "settled_file c v d f' \<and> (ok \<longrightarrow> settled c v d s' \<and> up_State s' = up_State s \<and> failed_as v d s' = failed_as v d s)"
proof (cases "w = WriteFails")
  case True
  then show ?thesis using assms by (auto simp: saveWithResult_def)
next
  case False
  let ?n = "s\<lparr>up_SchemaVersion := stateSchemaVersion, up_Revision := up_Revision s + 1\<rparr>"
  have f: "f' = Decoded (text_of ?n)" "s' = ?n" using assms(5) False by (auto simp: saveWithResult_def Let_def)
  have n: "settled c v d ?n" using assms(3) by (simp add: settled_def failed_as_def)
  have "t = text_of ?n" if "load f' = Some t" for t using load_current [of "text_of ?n" t] that f by (simp add: text_of_def)
  then show ?thesis using n settled_text [OF assms(1,2) n] f by (auto simp: settled_file_def failed_as_def)
qed

lemma answered_settled:
  "normal_pair c v d \<Longrightarrow> validChannel c \<Longrightarrow> settled c v d s \<Longrightarrow> settled_file c v d f \<or> w \<noteq> WriteFails \<Longrightarrow>
    settled_file c v d (ur_file (save_and_answer env w e s f))"
  using saved_settled [of c v d s f w] by (auto simp: save_and_answer_def split: prod.split)

lemma check_settled:
  assumes "settled c v d s" "failed_as v d s" "0 < compareVersions v (up_CurrentVersion s)" "quiet_answer c v d a"
    "checkLocked env now a s = (s', x)"
  shows "settled c v d s' \<and> failed_as v d s' \<and> \<not> (x = None \<and> up_State s' = ''available'')"
proof -
  have c: "up_Channel s = c" using assms(1) by (simp add: settled_def)
  have same: "settled c v d t \<and> failed_as v d t" if "up_Channel t = c" "up_CandidateVersion t = v" "up_CandidateImageDigest t = d"
      "up_InstallRequested t = up_InstallRequested s" "up_FailedVersion t = up_FailedVersion s" "up_FailedImageDigest t = up_FailedImageDigest s" for t
    using that assms(1,2) by (simp add: settled_def failed_as_def)
  have "settled c v d s' \<and> failed_as v d s'"
  proof (cases "source_available env c")
    case False
    then show ?thesis using assms c by (simp add: checkLocked_def)
  next
    case av: True
    show ?thesis
    proof (cases a)
      case (Inl m)
      then show ?thesis using assms av c by (intro same) (auto simp: checkLocked_def Let_def settled_def)
    next
      case (Inr r)
      let ?r = "normal_release c r" and ?s = "clear_error (s\<lparr>up_LastCheckedAt := Some now\<rparr>)"
      show ?thesis
      proof (cases "rl_Version ?r = [] \<or> rl_ImageDigest ?r = []")
        case True
        then show ?thesis using assms av c Inr by (intro same) (auto simp: checkLocked_def Let_def settled_def)
      next
        case False
        then have vd: "rl_Version ?r = v" "rl_ImageDigest ?r = d" using assms(4) Inr by (auto simp: quiet_answer_def Let_def)
        have s': "s' = observe_candidate env now ?r ?s" using assms(3,5) av c Inr False vd by (simp add: checkLocked_def Let_def)
        have "up_FailedVersion s' = v" "up_FailedImageDigest s' = d"
          using assms(1,2) vd unfolding s' by (auto simp: observe_candidate_def Let_def settled_def failed_as_def)
        then show ?thesis using assms(1) vd c unfolding s' by (simp add: settled_def failed_as_def observed_fields)
      qed
    qed
  qed
  moreover have "\<not> (x = None \<and> up_State s' = ''available'')"
    using check_available [of env now a s s'] assms(2,5) calculation by (auto simp: failed_as_def settled_def)
  ultimately show ?thesis by blast
qed

lemma policy_settled:
  assumes "normal_pair c v d" "validChannel c" "settled c v d s" "failed_as v d s" "settled_file c v d f"
    "0 < compareVersions v (up_CurrentVersion s)" "quiet_answer c v d (rn_answer r)"
  shows "settled_file c v d (ur_file (run_policy env r False s f)) \<and> ur_launched (run_policy env r False s f) = None"
proof
  show "ur_launched (run_policy env r False s f) = None"
    using policy_launch [of env r False s f] assms(3,4)
    by (cases "ur_launched (run_policy env r False s f)") (auto simp: settled_def failed_as_def)
next
  obtain s1 x where k: "checkLocked env (rn_checkNow r) (rn_answer r) s = (s1, x)" by (cases "checkLocked env (rn_checkNow r) (rn_answer r) s") auto
  have dis: "settled c v d (s\<lparr>up_State := ''disabled''\<rparr>)" using assms(3,4) by (simp add: settled_def failed_as_def)
  note ch = check_settled [OF assms(3,4,6,7) k]
  show "settled_file c v d (ur_file (run_policy env r False s f))" using answered_settled [OF assms(1,2)] dis ch assms(5) k
    by (cases x) (simp_all add: run_policy_def)
qed

lemma event_settled:
  assumes "normal_pair c v d" "validChannel c" "settled_file c v d f" "quiet_call c v d e"
  shows "settled_file c v d (ur_file (apply_event env e f)) \<and> ur_launched (apply_event env e f) = None"
proof (cases "load f")
  case None
  then show ?thesis using unloadable_stuck [OF None, of env e] assms(3) by simp
next
  case (Some s)
  have s: "settled c v d s" using assms(3) Some by (simp add: settled_file_def)
  then have f: "up_State s \<noteq> ''updating'' \<Longrightarrow> failed_as v d s" "up_Channel s = c" "\<not> up_InstallRequested s" by (simp_all add: settled_def)
  show ?thesis
  proof (cases e)
    case (PolicyEvent l w cur expected enabled channel)
    have "settled c v d (set_policy cur enabled c s)" if "up_State s \<noteq> ''updating''"
      using s f(1) [OF that] f(2) by (auto simp: set_policy_def Let_def settled_def failed_as_def)
    then show ?thesis using PolicyEvent Some assms(3,4) f answered_settled [OF assms(1,2)]
      by (auto simp: SetPolicy_def exclusive_def Let_def split: option.split)
  next
    case (CheckEvent l w cur now a)
    let ?s = "s\<lparr>up_CurrentVersion := normalizeCurrentVersion cur\<rparr>"
    obtain s1 x where k: "checkLocked env now a ?s = (s1, x)" by (cases "checkLocked env now a ?s") auto
    have "settled c v d s1" if "up_State s \<noteq> ''updating''"
      using check_settled [OF _ _ _ _ k, of c v d] s f(1) [OF that] assms(4) CheckEvent
      by (simp add: settled_def failed_as_def older_def)
    then show ?thesis using CheckEvent Some assms(3) f k answered_settled [OF assms(1,2)]
      by (auto simp: Check_def exclusive_def Let_def split: option.split)
  next
    case (CancelEvent l w version digest cause)
    then show ?thesis using Some assms(3) f by (simp add: CancelQueuedInstall_def exclusive_def split: option.split)
  next
    case (RunEvent l r)
    have q: "rn_recover r = None" "quiet_answer c v d (rn_answer r)" "\<And>i. rn_installed r = Some i \<Longrightarrow> older v i"
      using assms(4) RunEvent by (simp_all split: option.splits)
    show ?thesis
    proof (cases "l = None \<and> rn_installed r \<noteq> None \<and> normalizeCurrentVersion (the (rn_installed r)) \<noteq> []")
      case False
      then show ?thesis using RunEvent Some assms(3) q(1) by (auto simp: Run_def exclusive_def Let_def split: option.splits)
    next
      case True
      then obtain i where i: "l = None" "rn_installed r = Some i" "normalizeCurrentVersion i \<noteq> []" by auto
      let ?s1 = "s\<lparr>up_CurrentVersion := normalizeCurrentVersion i\<rparr>"
      have old: "0 < compareVersions v (normalizeCurrentVersion i)" using q(3) [OF i(2)] by (simp add: older_def)
      show ?thesis
      proof (cases "up_State s = ''updating''")
        case False
        have "Run env l r f = run_policy env r False ?s1 f" using False Some q(1) i f(3) by (simp add: Run_def exclusive_def Let_def)
        moreover have "settled c v d ?s1" "failed_as v d ?s1" using s f(1) [OF False] by (simp_all add: settled_def failed_as_def)
        ultimately show ?thesis using RunEvent policy_settled [OF assms(1,2) _ _ assms(3), of ?s1 r env] old q(2) by simp
      next
        case up: True
        obtain f2 s2 ok where w: "saveWithResult (rn_writeFirst r) (reconcileInterrupted (rn_reconcileNow r) ?s1) f = (f2, s2, ok)"
          by (cases "saveWithResult (rn_writeFirst r) (reconcileInterrupted (rn_reconcileNow r) ?s1) f") auto
        have ne: "v \<noteq> []" "up_CandidateVersion s = v" "up_CandidateImageDigest s = d" using s assms(1) by (simp_all add: settled_def normal_pair_def)
        have "\<not> 0 \<le> compareVersions (normalizeCurrentVersion i) v" using old by (auto simp: compare_release split: if_splits dest: less_asym)
        then have r: "settled c v d (reconcileInterrupted (rn_reconcileNow r) ?s1)" "failed_as v d (reconcileInterrupted (rn_reconcileNow r) ?s1)"
          using s ne by (auto simp: reconcileInterrupted_def Let_def settled_def failed_as_def)
        note w2 = saved_settled [OF assms(1,2) r(1) disjI1 [OF assms(3)] w]
        have cur: "ok \<Longrightarrow> up_CurrentVersion s2 = normalizeCurrentVersion i"
          using w ne \<open>\<not> 0 \<le> compareVersions (normalizeCurrentVersion i) v\<close>
          by (auto simp: saveWithResult_def reconcileInterrupted_def Let_def split: if_splits)
        have "Run env l r f = (if \<not> ok then refused UpNotSaved f2 else run_policy env r False s2 f2)"
          using up ne Some q(1) i f(3) w by (simp add: Run_def exclusive_def Let_def)
        then show ?thesis using RunEvent w2 r(2) policy_settled [OF assms(1,2), of s2 f2 r env] old q(2) cur by (cases ok) simp_all
      qed
    qed
  qed (use assms(4) in simp)
qed

lemma events_settled:
  "normal_pair c v d \<Longrightarrow> validChannel c \<Longrightarrow> settled_file c v d f \<Longrightarrow> list_all (quiet_call c v d) es \<Longrightarrow> settled_file c v d (apply_events env es f)"
  by (induction es arbitrary: f) (auto simp: apply_events_def dest: event_settled)

lemma launch_install:
  assumes "ur_launched (run_policy env r m s f) = Some (v, d)"
  shows "\<exists>x. run_policy env r m s f = run_install env r x f \<and> up_Channel x = up_Channel s \<and>
    up_CandidateVersion x = v \<and> up_CandidateImageDigest x = d \<and> rn_writeIntent r = WriteCommits"
proof -
  have p: "up_CandidateVersion s = v" "up_CandidateImageDigest s = d" using policy_launch [OF assms] by simp_all
  show ?thesis
  proof (cases m)
    case True
    then show ?thesis using assms p by (auto simp: run_policy_def Let_def install_launch split: if_splits)
  next
    case False
    obtain s1 e where c: "checkLocked env (rn_checkNow r) (rn_answer r) s = (s1, e)"
      by (cases "checkLocked env (rn_checkNow r) (rn_answer r) s") auto
    have e: "run_policy env r m s f = run_install env r s1 f" "e = None"
      using assms False c by (auto simp: run_policy_def split: option.splits if_splits)
    have "up_Channel s1 = up_Channel s"
      using c e(2) by (auto simp: checkLocked_def Let_def observed_fields split: if_splits sum.splits)
    then show ?thesis using e(1) assms by (intro exI [of _ s1]) (auto simp: install_launch split: if_splits)
  qed
qed

lemma failed_install_settled:
  assumes "normal_pair c v d" "validChannel c" "up_Channel x = c" "up_CandidateVersion x = v" "up_CandidateImageDigest x = d"
    "rn_writeIntent r = WriteCommits" "rn_update r \<noteq> None \<or> rn_writeEnd r = WriteFails"
  shows "settled_file c v d (ur_file (run_install env r x f))"
proof -
  let ?intent = "clear_error (x\<lparr>up_State := ''updating'', up_InstallRequested := False, up_LastAttemptAt := Some (rn_attemptNow r)\<rparr>)"
  obtain f1 s1 ok where w: "saveWithResult (rn_writeIntent r) ?intent f = (f1, s1, ok)" by (cases "saveWithResult (rn_writeIntent r) ?intent f") auto
  have i: "settled c v d ?intent" using assms(3-5) by (simp add: settled_def)
  have "rn_writeIntent r \<noteq> WriteFails" using assms(6) by simp
  note s1 = saved_settled [OF assms(1,2) i disjI2 [OF this] w]
  have ok: "ok" using w assms(6) by (simp add: saveWithResult_def Let_def)
  have "settled c v d (s1\<lparr>up_State := ''failed'', up_InstallRequested := False, up_FailedVersion := v, up_FailedImageDigest := d,
      up_LastErrorCode := ''update_failed'', up_LastError := m\<rparr>)" for m
    using s1 ok by (simp add: settled_def failed_as_def)
  moreover have "ur_file (save_and_answer env WriteFails e n f1) = f1" for e n by (simp add: save_and_answer_def saveWithResult_def)
  ultimately show ?thesis using s1 ok assms(4-7) unfolding run_install_def Let_def w
    by (cases "rn_update r") (auto simp: answered_settled [OF assms(1,2)])
qed

text \<open>
  C38: After a launched update failed, or the process died while it ran, no check, policy change
  on the channel, cancellation or run whose recovery succeeds launches an update again while the
  installed version is older and the source names no other release.
\<close>

theorem failed_update_not_repeated:
  assumes "ur_launched (Run env l r (apply_events env es0 Missing)) = Some (v, d)"
    and "rn_update r \<noteq> None \<or> rn_writeEnd r = WriteFails"
    and "load (apply_events env es0 Missing) = Some s0"
    and "list_all (quiet_call (up_Channel s0) v d) es" "quiet_call (up_Channel s0) v d e"
  shows "ur_launched (apply_event env e (apply_events env es (ur_file (Run env l r (apply_events env es0 Missing))))) = None"
proof -
  let ?f = "apply_events env es0 Missing" and ?c = "up_Channel s0"
  have ex: "explained es0 s0" using events_explained assms(3) unfolding explained_file_def by blast
  obtain s i where s: "load ?f = Some s" 
    "ur_launched (run_policy env r (up_InstallRequested s) (s\<lparr>up_CurrentVersion := normalizeCurrentVersion i\<rparr>) ?f) = Some (v, d)"
    "Run env l r ?f = run_policy env r (up_InstallRequested s) (s\<lparr>up_CurrentVersion := normalizeCurrentVersion i\<rparr>) ?f"
    using run_launch [OF assms(1)] by metis
  have "s = s0" using s(1) assms(3) by simp
  then have n: "normal_pair ?c v d" "validChannel ?c" using policy_launch [OF s(2)] ex by (auto simp: explained_def)
  obtain x where "Run env l r ?f = run_install env r x ?f" "up_Channel x = ?c" "up_CandidateVersion x = v" "up_CandidateImageDigest x = d"
    "rn_writeIntent r = WriteCommits"
    using launch_install [OF s(2)] s(3) \<open>s = s0\<close> by auto
  then have "settled_file ?c v d (ur_file (Run env l r ?f))" using failed_install_settled [OF n] assms(2) by metis
  from event_settled [OF n events_settled [OF n this assms(4)] assms(5)] show ?thesis by simp
qed

section \<open>A steady release is installed\<close>

text \<open>A run of the host service in which nothing fails and the source names the release.\<close>

definition smooth_run :: "string \<Rightarrow> string \<Rightarrow> string \<Rightarrow> run_inputs \<Rightarrow> bool" where
  "smooth_run c v d r =
     (rn_recover r = None \<and> (\<exists>i. rn_installed r = Some i \<and> normalizeCurrentVersion i \<noteq> [] \<and> older v i) \<and>
      reports c (rn_answer r) v d \<and> clean_answer (rn_answer r) \<and> rn_update r = None \<and>
      rn_writeFirst r = WriteCommits \<and> rn_writeIntent r = WriteCommits \<and> rn_writeEnd r = WriteCommits)"

lemma steady_step:
  assumes "\<not> failed_as v d s" "checkLocked env now a s = (s', x)" "reports (up_Channel s) a v d" "source_available env (up_Channel s)"
    "0 < compareVersions v (up_CurrentVersion s)" "hold_ok env"
    "\<And>t. up_CandidateFirstSeenAt s = Some t \<Longrightarrow> t \<le> now"
  shows "x = None \<and> up_CandidateVersion s' = v \<and> up_CandidateImageDigest s' = d \<and> \<not> failed_as v d s' \<and>
    up_Channel s' = up_Channel s \<and> up_Enabled s' = up_Enabled s \<and> up_InstallRequested s' = up_InstallRequested s \<and>
    (up_State s' = ''available'' \<or> up_State s' = ''waiting'' \<and> (\<exists>t\<le>now. up_CandidateFirstSeenAt s' = Some t)) \<and>
    (up_CandidateVersion s = v \<and> up_CandidateImageDigest s = d \<and> (\<exists>t. up_CandidateFirstSeenAt s = Some t \<and> t + ue_hold env \<le> now) \<longrightarrow>
      up_State s' = ''available'')"
proof -
  obtain r where r: "a = Inr r" using assms(3) by (cases a) (auto simp: reports_def)
  let ?r = "normal_release (up_Channel s) r" and ?s = "clear_error (s\<lparr>up_LastCheckedAt := Some now\<rparr>)"
  have v: "rl_Version ?r = v" "rl_ImageDigest ?r = d" "v \<noteq> []" "d \<noteq> []" using assms(3) r by (simp_all add: reports_def)
  have k: "s' = observe_candidate env now ?r ?s" "x = None"
    using assms(2,4,5) r v by (auto simp: checkLocked_def Let_def split: if_splits)
  have sub: "t + ue_hold env \<le> now \<Longrightarrow> \<not> time_sub now t < ue_hold env" for t
    using assms(6) by (auto simp: time_sub_def hold_ok_def duration_defs)
  show ?thesis
    using assms(1,7) v sub unfolding k
    by (auto simp: observe_candidate_def Let_def failed_as_def clear_failed_def setCandidateMetadata_def clear_error_def split: option.splits)
qed

lemma install_succeeds:
  assumes "smooth_run c v d r" "normal_pair c v d" "up_CandidateVersion x = v" "file_ok (ur_file (run_install env r x f))"
  shows "\<exists>s'. load (ur_file (run_install env r x f)) = Some s' \<and> up_State s' = ''succeeded'' \<and> up_CurrentVersion s' = v"
proof -
  have w: "rn_writeIntent r = WriteCommits" "rn_writeEnd r = WriteCommits" "rn_update r = None" using assms(1) by (simp_all add: smooth_run_def)
  obtain n where n: "ur_file (run_install env r x f) = Decoded (text_of n)" "up_SchemaVersion n = stateSchemaVersion"
    "up_State n = ''succeeded''" "up_CurrentVersion n = v"
    using w assms(3) by (auto simp: run_install_def Let_def saveWithResult_def save_and_answer_def)
  obtain s' where s': "load (ur_file (run_install env r x f)) = Some s'" using file_ok_load [OF assms(4)] by blast
  have "s' = text_of n" using load_current [of "text_of n" s'] s' n(1,2) by (simp add: text_of_def)
  moreover have "json_text v = v" using normal_pair_ok [OF assms(2)] by (simp add: pair_ok_def)
  moreover have "json_text ''succeeded'' = ''succeeded''" using constant_text(1) by simp
  ultimately show ?thesis using s' n by (simp add: text_of_def)
qed

text \<open>An enabled updater that may install the release.\<close>

definition hopeful :: "update_env \<Rightarrow> string \<Rightarrow> string \<Rightarrow> string \<Rightarrow> gotime \<Rightarrow> update_state \<Rightarrow> bool" where
  "hopeful env c v d now s =
     (up_Channel s = c \<and> source_available env c \<and> up_Enabled s \<and> \<not> up_InstallRequested s \<and> up_State s \<noteq> ''updating'' \<and>
      \<not> failed_as v d s \<and> (\<forall>t. up_CandidateFirstSeenAt s = Some t \<longrightarrow> t \<le> now))"

definition held :: "update_env \<Rightarrow> string \<Rightarrow> string \<Rightarrow> gotime \<Rightarrow> update_state \<Rightarrow> bool" where
  "held env v d now s =
     (up_CandidateVersion s = v \<and> up_CandidateImageDigest s = d \<and> (\<exists>t. up_CandidateFirstSeenAt s = Some t \<and> t + ue_hold env \<le> now))"

lemma smooth_step:
  assumes "file_ok f" "load f = Some s" "hopeful env c v d (rn_checkNow r) s" "hold_ok env" "smooth_run c v d r"
  shows "(ur_launched (Run env None r f) = Some (v, d) \<and>
      (\<exists>s'. load (ur_file (Run env None r f)) = Some s' \<and> up_State s' = ''succeeded'' \<and> up_CurrentVersion s' = v)) \<or>
    (\<not> held env v d (rn_checkNow r) s \<and> file_ok (ur_file (Run env None r f)) \<and>
      (\<exists>s'. load (ur_file (Run env None r f)) = Some s' \<and> hopeful env c v d (rn_checkNow r) s' \<and>
        up_CandidateVersion s' = v \<and> up_CandidateImageDigest s' = d \<and> (\<exists>t\<le>rn_checkNow r. up_CandidateFirstSeenAt s' = Some t)))"
proof -
  obtain i where i: "rn_installed r = Some i" "normalizeCurrentVersion i \<noteq> []" "older v i" using assms(5) by (auto simp: smooth_run_def)
  have sm: "rn_recover r = None" "reports c (rn_answer r) v d" "clean_answer (rn_answer r)" "rn_writeIntent r = WriteCommits" "rn_update r = None"
    using assms(5) by (simp_all add: smooth_run_def)
  have h: "up_Channel s = c" "source_available env c" "up_Enabled s" "\<not> up_InstallRequested s" "up_State s \<noteq> ''updating''" "\<not> failed_as v d s"
    "\<And>t. up_CandidateFirstSeenAt s = Some t \<Longrightarrow> t \<le> rn_checkNow r"
    using assms(3) by (simp_all add: hopeful_def)
  note n = reports_pair [OF sm(2)]
  let ?s1 = "s\<lparr>up_CurrentVersion := normalizeCurrentVersion i\<rparr>"
  obtain s2 x where k: "checkLocked env (rn_checkNow r) (rn_answer r) ?s1 = (s2, x)" by (cases "checkLocked env (rn_checkNow r) (rn_answer r) ?s1") auto
  have st: "x = None \<and> up_CandidateVersion s2 = v \<and> up_CandidateImageDigest s2 = d \<and> \<not> failed_as v d s2 \<and>
    up_Channel s2 = c \<and> up_Enabled s2 \<and> \<not> up_InstallRequested s2 \<and>
    (up_State s2 = ''available'' \<or> up_State s2 = ''waiting'' \<and> (\<exists>t\<le>rn_checkNow r. up_CandidateFirstSeenAt s2 = Some t)) \<and>
    (held env v d (rn_checkNow r) s \<longrightarrow> up_State s2 = ''available'')"
    using steady_step [OF _ k, of v d] h sm(2) i(3) assms(4) by (simp add: failed_as_def older_def held_def)
  have run: "Run env None r f = run_policy env r False ?s1 f" using assms(2) sm(1) i h by (simp add: Run_def exclusive_def Let_def)
  have ok: "file_ok (ur_file (Run env None r f))"
    by (rule host_run_ok [OF assms(1)]) (use sm in \<open>simp add: clean_run_def\<close>)
  show ?thesis
  proof (cases "up_State s2 = ''available''")
    case True
    have "run_policy env r False ?s1 f = run_install env r s2 f" using h k st True n by (auto simp: run_policy_def normal_pair_def)
    then show ?thesis using install_succeeds [OF assms(5) n] install_launch [of env r s2 f] st sm(4) ok run by simp
  next
    case False
    then have w: "up_State s2 = ''waiting''" "\<not> held env v d (rn_checkNow r) s" using st by auto
    let ?n = "s2\<lparr>up_SchemaVersion := stateSchemaVersion, up_Revision := up_Revision s2 + 1\<rparr>"
    have f': "ur_file (Run env None r f) = Decoded (text_of ?n)"
      unfolding run using h k st False sm(4) by (simp add: run_policy_def save_and_answer_def saveWithResult_def Let_def)
    obtain s' where s': "load (ur_file (Run env None r f)) = Some s'" "ready s'" using file_ok_load [OF ok] by blast
    then have e: "s' = text_of ?n" using load_current [of "text_of ?n" s'] f' by (simp add: text_of_def)
    have r2: "ready s2"
    proof -
      have "ready s" using file_ok_load [OF assms(1)] assms(2) by auto
      from ready_check [OF ready_current [OF this] _ sm(3) k] h(4) show ?thesis by simp
    qed
    then have "text_of s2 = s2" by (simp add: ready_def)
    then have "text_of ?n = ?n" by (simp add: text_of_fixed)
    then have e': "s' = ?n" using e by simp
    have "hopeful env c v d (rn_checkNow r) s'" unfolding e' using st w h(2) by (auto simp: hopeful_def failed_as_def)
    then show ?thesis using w(2) ok s'(1) st w(1) unfolding e' by auto
  qed
qed

lemma steady_installed:
  assumes "file_ok f" "load f = Some s" "hopeful env c v d (rn_checkNow r1) s" "hold_ok env"
    and "smooth_run c v d r1" "smooth_run c v d r2" "rn_checkNow r1 + ue_hold env \<le> rn_checkNow r2"
  shows "\<exists>R\<in>{Run env None r1 f, Run env None r2 (ur_file (Run env None r1 f))}. ur_launched R = Some (v, d) \<and>
    (\<exists>s'. load (ur_file R) = Some s' \<and> up_State s' = ''succeeded'' \<and> up_CurrentVersion s' = v)"
proof (cases "ur_launched (Run env None r1 f) = Some (v, d) \<and>
    (\<exists>s'. load (ur_file (Run env None r1 f)) = Some s' \<and> up_State s' = ''succeeded'' \<and> up_CurrentVersion s' = v)")
  case False
  then obtain s' t where s': "file_ok (ur_file (Run env None r1 f))" "load (ur_file (Run env None r1 f)) = Some s'"
    "hopeful env c v d (rn_checkNow r1) s'" "up_CandidateVersion s' = v" "up_CandidateImageDigest s' = d"
    "t \<le> rn_checkNow r1" "up_CandidateFirstSeenAt s' = Some t"
    using smooth_step [OF assms(1-5)] by blast
  have le: "rn_checkNow r1 \<le> rn_checkNow r2" using assms(4,7) by (simp add: hold_ok_def)
  have "hopeful env c v d (rn_checkNow r2) s'" using s'(3) le by (auto simp: hopeful_def)
  moreover have "held env v d (rn_checkNow r2) s'" using s'(4-7) assms(7) by (auto simp: held_def)
  ultimately show ?thesis using smooth_step [OF s'(1,2) _ assms(4,6)] by blast
qed blast

text \<open>
  C39: An enabled updater installs a newer release that the source keeps naming: of two runs
  without failures that are the observation period apart, one launches the update, and the state
  then names it as installed.
\<close>

theorem steady_release_installed:
  assumes "file_ok f" "load f = Some s" "hopeful env c v d (rn_checkNow r1) s" "hold_ok env"
    and "smooth_run c v d r1" "smooth_run c v d r2" "rn_checkNow r1 + ue_hold env \<le> rn_checkNow r2"
  shows "\<exists>R\<in>{Run env None r1 f, Run env None r2 (ur_file (Run env None r1 f))}. ur_launched R = Some (v, d) \<and>
    (\<exists>s'. load (ur_file R) = Some s' \<and> up_State s' = ''succeeded'' \<and> up_CurrentVersion s' = v)"
  using assms by (rule steady_installed)

text \<open>
  A recovery that fails once forgets the interrupted update: the next run whose recovery succeeds does not see it as failed and
  launches it again.
\<close>

lemma failed_recovery_repeats_update:
  assumes "file_ok f" "load f = Some s" "up_State s = ''updating''" "\<not> failed_as v d s" "held env v d (rn_checkNow r2) s"
    and "up_Channel s = c" "source_available env c" "up_Enabled s" "hold_ok env"
    and "rn_recover r1 = Some m" "clean_error m" "rn_update r1 = None" "clean_answer (rn_answer r1)" "rn_writeFirst r1 = WriteCommits"
    and "smooth_run c v d r2"
  shows "ur_launched (Run env None r2 (ur_file (Run env None r1 f))) = Some (v, d)"
proof -
  let ?n = "s\<lparr>up_State := ''failed'', up_InstallRequested := False, up_LastAttemptAt := Some (rn_recoverNow r1),
    up_LastErrorCode := ''recovery_failed'', up_LastError := boundedError m\<rparr>"
  let ?m = "?n\<lparr>up_SchemaVersion := stateSchemaVersion, up_Revision := up_Revision ?n + 1\<rparr>"
  have f: "ur_file (Run env None r1 f) = Decoded (text_of ?m)"
    using assms(2,10,14) by (simp add: Run_def exclusive_def save_and_answer_def saveWithResult_def Let_def)
  have "ready s" using file_ok_load [OF assms(1)] assms(2) by auto
  then have "text_of ?n = ?n" using assms(11) text_constants constant_text(1) [of "''failed''"]
    by (simp add: ready_def text_of_fixed clean_error_def)
  then have m: "text_of ?m = ?m" by (simp add: text_of_fixed)
  have ok: "file_ok (ur_file (Run env None r1 f))"
    by (rule host_run_ok [OF assms(1)]) (use assms(10-13) in \<open>simp add: clean_run_def\<close>)
  obtain s' where s': "load (ur_file (Run env None r1 f)) = Some s'" using file_ok_load [OF ok] by blast
  then have e: "s' = ?m" using load_current [of "text_of ?m" s'] f m by simp
  have "held env v d (rn_checkNow r2) s'" using assms(5) unfolding e by (simp add: held_def)
  moreover have "hopeful env c v d (rn_checkNow r2) s'"
    using assms(4-9) unfolding e by (auto simp: hopeful_def failed_as_def held_def hold_ok_def)
  ultimately show ?thesis using smooth_step [OF ok s' _ assms(9,15)] by blast
qed

end
