(* ===== verification/SelfUpdateSample.thy ===== *)
theory SelfUpdateSample
  imports SelfUpdateRuns
begin

text \<open>The updater on concrete inputs: an enabled updater on version 1.0.0 that is offered version 1.2.0.\<close>

definition offer_env :: update_env where
  "offer_env = \<lparr>ue_hold = 24 * Hour, ue_preview = True, ue_resourceVersion = (\<lambda>s. ''t'')\<rparr>"

definition sample_offer :: "string + release_info" where
  "sample_offer = Inr \<lparr>rl_Version = ''1.2.0'', rl_ImageDigest = sample_digest, rl_ReleaseURL = [], rl_PublishedAt = [], rl_Notes = [], rl_UpgradeNotes = []\<rparr>"

definition offer_run :: "gotime \<Rightarrow> run_inputs" where
  "offer_run now = \<lparr>rn_recover = None, rn_installed = Some ''1.0.0'', rn_answer = sample_offer, rn_update = None, rn_recoverNow = now,
     rn_reconcileNow = now, rn_checkNow = now, rn_attemptNow = now, rn_successNow = now,
     rn_writeFirst = WriteCommits, rn_writeIntent = WriteCommits, rn_writeEnd = WriteCommits\<rparr>"

definition enable_updates :: update_event where
  "enable_updates = PolicyEvent None WriteCommits ''1.0.0'' ''t'' True []"

lemma sample_parse: "parseReleaseVersion ''1.0.0'' = Some (''1.0.0'', \<lparr>pv_core = [1, 0, 0], pv_rc = None\<rparr>)"
proof -
  have s: "show_version \<lparr>pv_core = [1, 0, 0], pv_rc = None\<rparr> = ''1.0.0''" by code_simp
  show ?thesis using shown_parses [of "\<lparr>pv_core = [1, 0, 0], pv_rc = None\<rparr>"] unfolding s by (simp add: core_ok_def)
qed

lemma sample_older: "older ''1.2.0'' ''1.0.0''"
  using sample_current sample_parse sample_versions(1) by (simp add: older_def compareVersions_def)

lemma sample_reports: "reports ChannelStable sample_offer ''1.2.0'' sample_digest"
  using sample_versions(1) sample_body
  by (simp add: reports_def sample_offer_def normal_release_def normalizeChannelVersion_def normalizeStableVersion_def)

lemma sample_clean: "clean_answer sample_offer"
  by (simp add: clean_answer_def sample_offer_def clean_release_def parse_rfc3339_def check_that_def)

lemma sample_smooth: "smooth_run ChannelStable ''1.2.0'' sample_digest (offer_run t)"
  using sample_older sample_reports sample_clean sample_current by (simp add: smooth_run_def offer_run_def)

lemma sample_hold: "hold_ok offer_env"
  by (simp add: hold_ok_def offer_env_def duration_defs)

lemma sample_enabled:
  "\<exists>s. load (apply_events offer_env [enable_updates] Missing) = Some s \<and> hopeful offer_env ChannelStable ''1.2.0'' sample_digest t s \<and>
    up_CandidateVersion s = []"
proof -
  let ?n = "set_policy ''1.0.0'' True ChannelStable initial_update_state"
  let ?m = "?n\<lparr>up_SchemaVersion := stateSchemaVersion, up_Revision := up_Revision ?n + 1\<rparr>"
  have ch: "up_Channel initial_update_state = ChannelStable" by (simp add: initial_update_state_def)
  have f: "apply_events offer_env [enable_updates] Missing = Decoded (text_of ?m)"
    by (simp add: apply_events_def enable_updates_def SetPolicy_def exclusive_def load_def offer_env_def ch validChannel_def source_available_def
        save_and_answer_def saveWithResult_def Let_def) (simp add: initial_update_state_def)
  have "ready ?n" using ready_set_policy [OF ready_initial] by (simp add: initial_update_state_def validChannel_def)
  then have "load (Decoded (text_of ?m)) = Some ?m" by (intro load_saved) (simp_all add: ready_bump)
  moreover have "hopeful offer_env ChannelStable ''1.2.0'' sample_digest t ?m" "up_CandidateVersion ?m = []"
    by (simp_all add: hopeful_def source_available_def failed_as_def set_policy_def Let_def initial_update_state_def normalizeRestingState_def
        clear_error_def)
  ultimately show ?thesis unfolding f by blast
qed

lemma sample_file: "file_ok (apply_events offer_env [enable_updates] Missing)"
  by (rule events_ok) (simp_all add: file_ok_def enable_updates_def)

theorem update_state_stays_loadable_witness:
  "\<exists>s. load (apply_events offer_env [enable_updates, RunEvent None (offer_run 0), CheckEvent None WriteUnsynced ''1.0.0'' 5 sample_offer] Missing) = Some s \<and>
    validPersistedState s \<and> text_of s = s"
proof (rule update_state_stays_loadable)
  show "file_ok Missing" by (simp add: file_ok_def)
  show "list_all clean_event [enable_updates, RunEvent None (offer_run 0), CheckEvent None WriteUnsynced ''1.0.0'' 5 sample_offer]"
    using sample_clean by (simp add: enable_updates_def clean_run_def offer_run_def)
qed

theorem steady_release_installed_witness:
  "\<exists>R\<in>{Run offer_env None (offer_run 0) (apply_events offer_env [enable_updates] Missing),
      Run offer_env None (offer_run (24 * Hour)) (ur_file (Run offer_env None (offer_run 0) (apply_events offer_env [enable_updates] Missing)))}.
    ur_launched R = Some (''1.2.0'', sample_digest) \<and>
    (\<exists>s'. load (ur_file R) = Some s' \<and> up_State s' = ''succeeded'' \<and> up_CurrentVersion s' = ''1.2.0'')"
proof -
  obtain s where s: "load (apply_events offer_env [enable_updates] Missing) = Some s"
    "hopeful offer_env ChannelStable ''1.2.0'' sample_digest (rn_checkNow (offer_run 0)) s" using sample_enabled by blast
  show ?thesis
    by (rule steady_release_installed [OF sample_file s sample_hold sample_smooth sample_smooth])
      (simp add: offer_run_def offer_env_def)
qed

text \<open>The second run launches; the first one only sees the release.\<close>

lemma sample_launch:
  "ur_launched (Run offer_env None (offer_run (24 * Hour)) (apply_events offer_env [enable_updates, RunEvent None (offer_run 0)] Missing)) =
    Some (''1.2.0'', sample_digest)"
proof -
  let ?f = "apply_events offer_env [enable_updates] Missing"
  have two: "apply_events offer_env [enable_updates, RunEvent None (offer_run 0)] Missing = ur_file (Run offer_env None (offer_run 0) ?f)"
    by (simp add: apply_events_def)
  obtain s where s: "load ?f = Some s" "hopeful offer_env ChannelStable ''1.2.0'' sample_digest (rn_checkNow (offer_run 0)) s" "up_CandidateVersion s = []"
    using sample_enabled by blast
  have "ur_launched (Run offer_env None (offer_run 0) ?f) \<noteq> Some (''1.2.0'', sample_digest)"
  proof
    assume l: "ur_launched (Run offer_env None (offer_run 0) ?f) = Some (''1.2.0'', sample_digest)"
    obtain s1 i where "load ?f = Some s1"
      "ur_launched (run_policy offer_env (offer_run 0) (up_InstallRequested s1) (s1\<lparr>up_CurrentVersion := normalizeCurrentVersion i\<rparr>) ?f) = Some (''1.2.0'', sample_digest)"
      using run_launch [OF l] by metis
    with policy_launch [OF this(2)] s(1,3) show False by simp
  qed
  moreover have "rn_checkNow (offer_run 0) + ue_hold offer_env \<le> rn_checkNow (offer_run (24 * Hour))" by (simp add: offer_run_def offer_env_def)
  ultimately show ?thesis
    using steady_installed [OF sample_file s(1,2) sample_hold sample_smooth sample_smooth] unfolding two by auto
qed


lemma policy_before_update: "ur_launched (run_policy env (r\<lparr>rn_update := u\<rparr>) m s f) = ur_launched (run_policy env r m s f)"
proof -
  obtain s1 x where "checkLocked env (rn_checkNow r) (rn_answer r) s = (s1, x)" by (cases "checkLocked env (rn_checkNow r) (rn_answer r) s") auto
  then show ?thesis by (cases x) (simp_all add: run_policy_def install_launch Let_def)
qed

lemma launch_before_update: "ur_launched (Run env l (r\<lparr>rn_update := u\<rparr>) f) = ur_launched (Run env l r f)"
proof (cases "l = None \<and> load f \<noteq> None \<and> rn_recover r = None \<and> rn_installed r \<noteq> None")
  case False
  then show ?thesis by (auto simp: Run_def exclusive_def Let_def split: option.split)
next
  case True
  then obtain s i where s: "l = None" "load f = Some s" "rn_recover r = None" "rn_installed r = Some i" by auto
  let ?s1 = "s\<lparr>up_CurrentVersion := normalizeCurrentVersion i\<rparr>"
  obtain f2 s2 ok where "saveWithResult (rn_writeFirst r) (reconcileInterrupted (rn_reconcileNow r) ?s1) f = (f2, s2, ok)"
    by (cases "saveWithResult (rn_writeFirst r) (reconcileInterrupted (rn_reconcileNow r) ?s1) f") auto
  then show ?thesis using s by (simp add: Run_def exclusive_def Let_def policy_before_update)
qed

theorem failed_update_not_repeated_witness:
  "ur_launched (apply_event offer_env (RunEvent None (offer_run (72 * Hour)))
     (apply_events offer_env [CheckEvent None WriteCommits ''1.0.0'' (48 * Hour) sample_offer]
       (ur_file (Run offer_env None ((offer_run (24 * Hour))\<lparr>rn_update := Some ''exit status 1''\<rparr>)
         (apply_events offer_env [enable_updates, RunEvent None (offer_run 0)] Missing))))) = None"
proof -
  let ?f = "apply_events offer_env [enable_updates, RunEvent None (offer_run 0)] Missing"
  let ?r = "(offer_run (24 * Hour))\<lparr>rn_update := Some ''exit status 1''\<rparr>"
  have l: "ur_launched (Run offer_env None ?r ?f) = Some (''1.2.0'', sample_digest)" using sample_launch by (simp add: launch_before_update)
  obtain s where s: "load ?f = Some s" using run_launch [OF l] by metis
  have q: "quiet_answer c ''1.2.0'' sample_digest sample_offer" if "validChannel c" for c
    using that sample_versions(1) sample_body
    by (auto simp: quiet_answer_def sample_offer_def normal_release_def normalizeChannelVersion_def normalizeStableVersion_def
        normalizeReleaseVersion_def validChannel_def Let_def)
  have c: "validChannel (up_Channel s)" using s by (auto simp: load_def validPersistedState_def initial_update_state_def validChannel_def Let_def
        split: state_file.splits if_splits)
  show ?thesis
    by (rule failed_update_not_repeated [OF l _ s]) (use q [OF c] sample_older in \<open>simp_all add: offer_run_def\<close>)
qed

end
