(* ===== verification/Spec2Isabelle.thy ===== *)
theory Spec2Isabelle
  imports NetPolicy AuditLog SampleService McpOAuthProps TerminalInputProps TerminalRetention
    ClusterGuardProps ClusterSignatureProps SelfUpdateSample
begin

text \<open>
  A verification library for the access control core of KPanel: the persisted state of the panel
  (\<open>internal/store\<close>), the login service in front of it (\<open>internal/auth\<close>) and the outbound address
  policy (\<open>internal/netpolicy\<close>).

  Theories. KPrelude, GoStrings, GoEncodings and GoTime hold what the code uses of the Go library.
  Netip and NetPolicy model IP addresses and the address policy. StoreTypes, StoreUsers,
  LoginLedger, StoreSessions, StoreCells, FileShares, StorePasskeys and PanelStore model
  \<open>internal/store\<close>: every mutator is a function from the state file's content to an error or the
  new content, and \<open>mutate\<close> is the frame that persists it. AuditLog models the audit history.
  StoreInvariants, Credentials, StoreOpen and StoreProps hold the theorems about runs of requests.
  Totp and AuthService model \<open>internal/auth\<close>.
\<close>

end
